(* ===== verification/Prelude.thy ===== *)
theory Prelude
  imports Main "HOL-Library.Multiset"
begin

section \<open>Shared vocabulary: Go integers, results, lists and maps\<close>

text \<open>
  What every component of the development uses: Go's 64-bit and 32-bit signed integers as
  HOL integers with the wrap-around written out, Go's truncating division with its run-time
  panic, the result type of fallible code, and a few facts on lists and maps that more than
  one component needs. The collections \<open>go_arith\<close>, \<open>frame\<close> and \<open>inv\<close> gather,
  in that order, the arithmetic of wrapped integers, the facts that an operation leaves a part
  of the state alone, and the preservation lemmas of the state invariants.
\<close>

named_theorems go_arith \<open>wrap-around arithmetic\<close>
named_theorems frame \<open>what an operation leaves unchanged\<close>
named_theorems inv \<open>preservation of state invariants\<close>

subsection \<open>Instants and identifiers\<close>

text \<open>
  An instant (\<open>time.Time\<close>) is a number of nanoseconds since Go's zero time, 1 January of
  year 1 UTC, so the zero value of the Go type is \<open>0\<close>. Identifiers are \<open>bigint\<close> keys.
\<close>

type_synonym time = int
type_synonym id = int

definition zero_time :: time where
  "zero_time = 0"

subsection \<open>Results\<close>

type_synonym ('e, 'a) result = "'e + 'a"

definition is_ok :: "('e, 'a) result \<Rightarrow> bool" where
  "is_ok r = (case r of Inl _ \<Rightarrow> False | Inr _ \<Rightarrow> True)"

lemma is_ok_simps [simp]: "is_ok (Inr a)" "\<not> is_ok (Inl e)"
  by (simp_all add: is_ok_def)

lemma is_ok_iff: "is_ok r \<longleftrightarrow> (\<exists>a. r = Inr a)"
  by (cases r) auto

definition bind_result :: "('e, 'a) result \<Rightarrow> ('a \<Rightarrow> ('e, 'b) result) \<Rightarrow> ('e, 'b) result" where
  "bind_result r f = (case r of Inl e \<Rightarrow> Inl e | Inr a \<Rightarrow> f a)"

lemma bind_result_simps [simp]: "bind_result (Inr a) f = f a" "bind_result (Inl e) f = Inl e"
  by (simp_all add: bind_result_def)

lemma bind_result_Inr_iff: "bind_result r f = Inr b \<longleftrightarrow> (\<exists>a. r = Inr a \<and> f a = Inr b)"
  by (cases r) simp_all

subsection \<open>What a statement of PostgreSQL answers\<close>

text \<open>
  A refused write names the constraint it broke. A partial update keeps a column whose argument
  is absent (\<open>COALESCE\<close>), and a nullable one is also cleared by its flag.
\<close>

datatype pg_error = PgUnique string | PgForeign string | PgCheck string

definition coalesce :: "'a option \<Rightarrow> 'a \<Rightarrow> 'a" where
  "coalesce new old = (case new of Some v \<Rightarrow> v | None \<Rightarrow> old)"

definition patched :: "bool \<Rightarrow> 'a option \<Rightarrow> 'a option \<Rightarrow> 'a option" where
  "patched clear new old = (if clear then None else case new of Some v \<Rightarrow> Some v | None \<Rightarrow> old)"

subsection \<open>Signed machine integers\<close>

definition i64 :: "int \<Rightarrow> int" where
  "i64 x = (x + 9223372036854775808) mod 18446744073709551616 - 9223372036854775808"

definition i32 :: "int \<Rightarrow> int" where
  "i32 x = (x + 2147483648) mod 4294967296 - 2147483648"

abbreviation in_i64 :: "int \<Rightarrow> bool" where
  "in_i64 x \<equiv> - 9223372036854775808 \<le> x \<and> x < 9223372036854775808"

abbreviation in_i32 :: "int \<Rightarrow> bool" where
  "in_i32 x \<equiv> - 2147483648 \<le> x \<and> x < 2147483648"

lemma i64_id [go_arith]: "in_i64 x \<Longrightarrow> i64 x = x"
  by (simp add: i64_def)

lemma i64_range: "in_i64 (i64 x)"
  by (simp add: i64_def)

lemma i64_add_left [go_arith]: "i64 (i64 x + y) = i64 (x + y)"
proof -
  have "i64 x + y + 9223372036854775808
      = (x + 9223372036854775808) mod 18446744073709551616 + y"
    by (simp add: i64_def)
  moreover have "((x + 9223372036854775808) mod 18446744073709551616 + y) mod 18446744073709551616
      = (x + y + 9223372036854775808) mod 18446744073709551616"
    by (metis (no_types, opaque_lifting) add.assoc add.commute mod_add_left_eq)
  ultimately show ?thesis by (simp only: i64_def [of "i64 x + y"] i64_def [of "x + y"])
qed

lemma i64_add_right [go_arith]: "i64 (x + i64 y) = i64 (x + y)"
  by (metis add.commute i64_add_left)

text \<open>
  Go's integer division truncates towards zero, wraps on the one quotient that does not fit,
  and panics on a zero divisor: the panic is \<open>None\<close>.
\<close>

definition quot_trunc :: "int \<Rightarrow> int \<Rightarrow> int" where
  "quot_trunc a b = sgn a * sgn b * (\<bar>a\<bar> div \<bar>b\<bar>)"

definition go_div :: "int \<Rightarrow> int \<Rightarrow> int option" where
  "go_div a b = (if b = 0 then None else Some (i64 (quot_trunc a b)))"

lemma quot_trunc_nonneg [go_arith]: "0 \<le> a \<Longrightarrow> 0 < b \<Longrightarrow> quot_trunc a b = a div b"
  by (cases "a = 0") (simp_all add: quot_trunc_def)

subsection \<open>Lists\<close>

text \<open>Sorting by a second key, then stably by a first one: \<open>ORDER BY\<close> two columns.\<close>

definition lex_le :: "('a \<Rightarrow> 'b::linorder) \<Rightarrow> ('a \<Rightarrow> 'c::linorder) \<Rightarrow> 'a \<Rightarrow> 'a \<Rightarrow> bool" where
  "lex_le f g x y \<longleftrightarrow> f x < f y \<or> f x = f y \<and> g x \<le> g y"

lemma sorted_wrt_lex_le:
  "sorted (map f xs) \<Longrightarrow> (\<And>k. sorted (map g (filter (\<lambda>x. f x = k) xs))) \<Longrightarrow> sorted_wrt (lex_le f g) xs"
proof (induction xs)
  case (Cons x xs)
  have "lex_le f g x y" if "y \<in> set xs" for y
  proof (cases "f x = f y")
    case True
    have "sorted (map g (filter (\<lambda>z. f z = f x) (x # xs)))" by (rule Cons.prems(2))
    then show ?thesis using that True by (auto simp: lex_le_def)
  next
    case False
    then show ?thesis using Cons.prems(1) that by (fastforce simp: lex_le_def)
  qed
  moreover have "sorted (map g (filter (\<lambda>x. f x = k) xs))" for k
    using Cons.prems(2) [of k] by (auto split: if_splits)
  ultimately show ?case using Cons by simp
qed simp

lemma sort_key_lex: "sorted_wrt (lex_le f g) (sort_key f (sort_key g xs))"
  by (rule sorted_wrt_lex_le) (simp_all add: sort_key_stable sorted_filter)

lemma sort_mset_eq: "mset xs = mset ys \<Longrightarrow> sort xs = sort ys"
  by (metis mset_sort properties_for_sort sorted_sort)

lemma find_append: "find P (xs @ ys) = (case find P xs of Some x \<Rightarrow> Some x | None \<Rightarrow> find P ys)"
  by (induction xs) auto

lemma find_Some_in: "find P xs = Some x \<Longrightarrow> x \<in> set xs \<and> P x"
  by (induction xs) (auto split: if_splits)

lemma find_None_filter: "find P xs = None \<longleftrightarrow> filter P xs = []"
  by (induction xs) auto

lemma distinct_map_eqD:
  "distinct (map f xs) \<Longrightarrow> x \<in> set xs \<Longrightarrow> y \<in> set xs \<Longrightarrow> f x = f y \<Longrightarrow> x = y"
  by (auto simp: distinct_map dest: inj_onD)

lemma find_distinct:
  "distinct (map f xs) \<Longrightarrow> x \<in> set xs \<Longrightarrow> f x = i \<Longrightarrow> P x \<Longrightarrow> find (\<lambda>y. f y = i \<and> P y) xs = Some x"
  by (induction xs) (auto simp: image_iff)

lemma find_map_Some:
  assumes "find P xs = Some x" "\<And>y. P (g y) = P y"
  shows "find P (map g xs) = Some (g x)"
  using assms(1) by (induction xs) (auto simp: assms(2) split: if_splits)

lemma distinct_map_count: "distinct (map f xs) \<Longrightarrow> length (filter (\<lambda>x. f x = k) xs) \<le> 1"
proof (induction xs)
  case (Cons x xs)
  have "filter (\<lambda>x. f x = k) xs = []" if "f x = k"
  proof -
    have "f x \<notin> f ` set xs" using Cons.prems by simp
    then have "\<forall>y\<in>set xs. f y \<noteq> k" using that by (metis imageI)
    then show ?thesis by simp
  qed
  then show ?case using Cons by auto
qed simp

end
