(* ===== verification/Go_Strings.thy ===== *)
theory Go_Strings
  imports Prelude "HOL-Library.Sublist"
begin

section \<open>Go strings as byte sequences\<close>

text \<open>
  A Go string is a sequence of bytes, which is what a HOL \<open>string\<close> is. This theory models the
  parts of the packages \<open>strings\<close>, \<open>unicode/utf8\<close> and \<open>fmt\<close> that the program uses on
  them: trimming of Unicode white space, counting of UTF-8 code points with Go's treatment of
  invalid bytes, splitting, ASCII folding and decimal printing.
\<close>

definition byte :: "char \<Rightarrow> nat" where
  "byte c = of_char c"

lemma byte_inj: "byte c = byte d \<longleftrightarrow> c = d"
  by (simp add: byte_def)

lemma byte_lt: "byte c < 256"
  by (simp add: byte_def)

definition byte_in :: "char \<Rightarrow> char \<Rightarrow> char \<Rightarrow> bool" where
  "byte_in lo hi c \<longleftrightarrow> byte lo \<le> byte c \<and> byte c \<le> byte hi"

definition is_lower :: "char \<Rightarrow> bool" where
  "is_lower = byte_in CHR ''a'' CHR ''z''"

definition is_upper :: "char \<Rightarrow> bool" where
  "is_upper = byte_in CHR ''A'' CHR ''Z''"

definition is_digit :: "char \<Rightarrow> bool" where
  "is_digit = byte_in CHR ''0'' CHR ''9''"

subsection \<open>Trimming: strings.TrimSpace\<close>

text \<open>
  The UTF-8 encodings of the code points of \<open>unicode.IsSpace\<close>. Every other code point, and
  every invalid byte, is no space. A string starts (ends) with a space code point exactly when
  it starts (ends) with one of these byte sequences, because each is a complete encoding.
\<close>

definition spaces :: "string list" where
  "spaces =
    [[CHR 0x09], [CHR 0x0A], [CHR 0x0B], [CHR 0x0C], [CHR 0x0D], [CHR 0x20],
     [CHR 0xC2, CHR 0x85], [CHR 0xC2, CHR 0xA0], [CHR 0xE1, CHR 0x9A, CHR 0x80],
     [CHR 0xE2, CHR 0x80, CHR 0x80], [CHR 0xE2, CHR 0x80, CHR 0x81],
     [CHR 0xE2, CHR 0x80, CHR 0x82], [CHR 0xE2, CHR 0x80, CHR 0x83],
     [CHR 0xE2, CHR 0x80, CHR 0x84], [CHR 0xE2, CHR 0x80, CHR 0x85],
     [CHR 0xE2, CHR 0x80, CHR 0x86], [CHR 0xE2, CHR 0x80, CHR 0x87],
     [CHR 0xE2, CHR 0x80, CHR 0x88], [CHR 0xE2, CHR 0x80, CHR 0x89],
     [CHR 0xE2, CHR 0x80, CHR 0x8A], [CHR 0xE2, CHR 0x80, CHR 0xA8],
     [CHR 0xE2, CHR 0x80, CHR 0xA9], [CHR 0xE2, CHR 0x80, CHR 0xAF],
     [CHR 0xE2, CHR 0x81, CHR 0x9F], [CHR 0xE3, CHR 0x80, CHR 0x80]]"

text \<open>Drop leading occurrences of any of the given byte sequences.\<close>

function strip_front :: "string list \<Rightarrow> string \<Rightarrow> string" where
  "strip_front encs s =
    (case find (\<lambda>e. e \<noteq> [] \<and> prefix e s) encs of
       None \<Rightarrow> s
     | Some e \<Rightarrow> strip_front encs (drop (length e) s))"
  by pat_completeness auto
termination
proof (relation "measure (\<lambda>(encs, s). length s)", goal_cases)
  case (2 encs s e)
  then have "e \<noteq> []" "prefix e s"
    by (auto dest!: find_Some_in)
  then show ?case
    by (cases s) (auto simp: prefix_def)
qed simp

declare strip_front.simps [simp del]

definition trim_left :: "string \<Rightarrow> string" where
  "trim_left s = strip_front spaces s"

definition trim_right :: "string \<Rightarrow> string" where
  "trim_right s = rev (strip_front (map rev spaces) (rev s))"

definition trim_space :: "string \<Rightarrow> string" where
  "trim_space s = trim_right (trim_left s)"

definition starts_with_any :: "string list \<Rightarrow> string \<Rightarrow> bool" where
  "starts_with_any encs s \<longleftrightarrow> (\<exists>e \<in> set encs. e \<noteq> [] \<and> prefix e s)"

lemma strip_front_stop: "\<not> starts_with_any encs s \<Longrightarrow> strip_front encs s = s"
  by (subst strip_front.simps)
    (auto simp: starts_with_any_def split: option.split dest: find_Some_in)

lemma strip_front_clean: "\<not> starts_with_any encs (strip_front encs s)"
proof (induction encs s rule: strip_front.induct)
  case (1 encs s)
  show ?case
  proof (cases "find (\<lambda>e. e \<noteq> [] \<and> prefix e s) encs")
    case None
    then have "strip_front encs s = s" by (subst strip_front.simps) simp
    with None show ?thesis by (auto simp: starts_with_any_def find_None_iff)
  next
    case (Some e)
    then show ?thesis
      by (subst strip_front.simps) (simp add: "1.IH")
  qed
qed

lemma strip_front_suffix: "suffix (strip_front encs s) s"
proof (induction encs s rule: strip_front.induct)
  case (1 encs s)
  show ?case
  proof (cases "find (\<lambda>e. e \<noteq> [] \<and> prefix e s) encs")
    case None
    then show ?thesis by (subst strip_front.simps) simp
  next
    case (Some e)
    then have "suffix (strip_front encs (drop (length e) s)) (drop (length e) s)"
      by (rule "1.IH")
    then have "suffix (strip_front encs (drop (length e) s)) s"
      using suffix_drop suffix_order.trans by blast
    then show ?thesis using Some by (subst strip_front.simps) simp
  qed
qed

lemma starts_with_any_prefix:
  "prefix t s \<Longrightarrow> starts_with_any encs t \<Longrightarrow> starts_with_any encs s"
  by (auto simp: starts_with_any_def intro: prefix_order.trans)

lemma trim_right_prefix: "prefix (trim_right s) s"
  using strip_front_suffix [of "map rev spaces" "rev s"]
  by (simp add: trim_right_def suffix_to_prefix)

lemma trim_left_suffix: "suffix (trim_left s) s"
  by (simp add: trim_left_def strip_front_suffix)

lemma trim_right_idem: "trim_right (trim_right s) = trim_right s"
  by (simp add: trim_right_def strip_front_stop strip_front_clean)

lemma trim_space_idem [simp]: "trim_space (trim_space s) = trim_space s"
proof -
  have "\<not> starts_with_any spaces (trim_right (trim_left s))"
    using starts_with_any_prefix [OF trim_right_prefix] strip_front_clean
    by (metis trim_left_def)
  then have "trim_left (trim_space s) = trim_space s"
    by (simp add: trim_left_def trim_space_def strip_front_stop)
  then show ?thesis
    by (simp add: trim_space_def [of "trim_space s"]) (simp add: trim_space_def trim_right_idem)
qed

lemma trim_space_length: "length (trim_space s) \<le> length s"
proof -
  have "length (trim_right (trim_left s)) \<le> length (trim_left s)"
    using trim_right_prefix by (rule prefix_length_le)
  also have "\<dots> \<le> length s"
    using trim_left_suffix by (rule suffix_length_le)
  finally show ?thesis by (simp add: trim_space_def)
qed

lemma trim_space_Nil [simp]: "trim_space [] = []"
  using trim_space_length [of "[]"] by simp

subsection \<open>Counting code points: utf8.RuneCountInString\<close>

definition utf8_cont :: "nat \<Rightarrow> bool" where
  "utf8_cont b \<longleftrightarrow> 128 \<le> b \<and> b \<le> 191"

text \<open>
  How many bytes the first code point takes; an invalid or truncated sequence takes one byte.
\<close>

fun rune_width :: "nat list \<Rightarrow> nat" where
  "rune_width [] = 0"
| "rune_width (b # bs) =
    (if b < 128 then 1
     else if 194 \<le> b \<and> b \<le> 223 then
       (case bs of c # _ \<Rightarrow> if utf8_cont c then 2 else 1 | _ \<Rightarrow> 1)
     else if 224 \<le> b \<and> b \<le> 239 then
       (case bs of c # d # _ \<Rightarrow>
          if (if b = 224 then 160 else 128) \<le> c \<and> c \<le> (if b = 237 then 159 else 191)
             \<and> utf8_cont d then 3 else 1
        | _ \<Rightarrow> 1)
     else if 240 \<le> b \<and> b \<le> 244 then
       (case bs of c # d # e # _ \<Rightarrow>
          if (if b = 240 then 144 else 128) \<le> c \<and> c \<le> (if b = 244 then 143 else 191)
             \<and> utf8_cont d \<and> utf8_cont e then 4 else 1
        | _ \<Rightarrow> 1)
     else 1)"

declare rune_width.simps [simp del]

fun rune_count_bytes :: "nat list \<Rightarrow> nat" where
  "rune_count_bytes [] = 0"
| "rune_count_bytes (b # bs) = Suc (rune_count_bytes (drop (rune_width (b # bs) - 1) bs))"

definition rune_count :: "string \<Rightarrow> nat" where
  "rune_count s = rune_count_bytes (map byte s)"

lemma rune_count_bytes_le: "rune_count_bytes bs \<le> length bs"
proof (induction bs rule: rune_count_bytes.induct)
  case (2 b bs)
  then show ?case by simp
qed simp

lemma rune_count_le_length: "rune_count s \<le> length s"
  using rune_count_bytes_le [of "map byte s"] by (simp add: rune_count_def)

lemma rune_count_bytes_ascii: "(\<forall>b \<in> set bs. b < 128) \<Longrightarrow> rune_count_bytes bs = length bs"
  by (induction bs) (auto simp: rune_width.simps)

subsection \<open>Splitting, folding, printing\<close>

text \<open>\<open>strings.Split(s, sep)\<close> for a one-byte separator.\<close>

fun split_on :: "char \<Rightarrow> string \<Rightarrow> string list" where
  "split_on sep [] = [[]]"
| "split_on sep (c # cs) =
    (if c = sep then [] # split_on sep cs
     else (case split_on sep cs of p # ps \<Rightarrow> (c # p) # ps | [] \<Rightarrow> [[c]]))"

lemma split_on_nonempty [simp]: "split_on sep s \<noteq> []"
  by (cases s) (auto split: list.split)

text \<open>\<open>strings.Fields\<close> on a string whose only white space is the blank.\<close>

definition fields :: "string \<Rightarrow> string list" where
  "fields s = filter (\<lambda>p. p \<noteq> []) (split_on CHR '' '' s)"

text \<open>Lower-case A-Z and leave every other byte alone.\<close>

definition fold_byte :: "char \<Rightarrow> char" where
  "fold_byte c = (if is_upper c then char_of (byte c + 32) else c)"

lemma fold_byte_idem [simp]: "fold_byte (fold_byte c) = fold_byte c"
proof (cases "is_upper c")
  case True
  then have b: "65 \<le> byte c \<and> byte c \<le> 90"
    by (simp add: is_upper_def byte_in_def) (simp add: byte_def)
  then have "byte (char_of (byte c + 32)) = byte c + 32"
    by (simp add: byte_def)
  with b have "\<not> is_upper (char_of (byte c + 32))"
    by (simp add: is_upper_def byte_in_def) (simp add: byte_def)
  then show ?thesis using True by (simp add: fold_byte_def)
qed (simp add: fold_byte_def)

text \<open>\<open>fmt.Sprintf("%d", n)\<close>.\<close>

fun digits_of :: "nat \<Rightarrow> string" where
  "digits_of n = (if n < 10 then [char_of (48 + n)] else digits_of (n div 10) @ [char_of (48 + n mod 10)])"

declare digits_of.simps [simp del]

definition decimal :: "int \<Rightarrow> string" where
  "decimal n = (if n < 0 then ''-'' @ digits_of (nat (- n)) else digits_of (nat n))"

end
