(* ===== verification/Language_Tag.thy ===== *)
theory Language_Tag
  imports Go_Strings
begin

section \<open>BCP 47 language tags (internal/domain/account/language.go)\<close>

text \<open>
  The scanner that accepts a language preference. Its positional scan over the subtags is
  modelled as functions that consume the list of subtags from the left; the position \<open>i\<close> of
  the code is the list that remains. The second half states the grammar of RFC 5646 as a
  decomposition of the subtag list and shows that the greedy scan decides it.
\<close>

definition is_alpha :: "char \<Rightarrow> bool" where
  "is_alpha b \<longleftrightarrow> is_lower b \<or> is_upper b"

definition is_alnum_byte :: "char \<Rightarrow> bool" where
  "is_alnum_byte b \<longleftrightarrow> is_alpha b \<or> is_digit b"

definition is_alnum :: "string \<Rightarrow> bool" where
  "is_alnum s = list_all is_alnum_byte s"

definition is_alpha_len :: "string \<Rightarrow> nat \<Rightarrow> nat \<Rightarrow> bool" where
  "is_alpha_len s lo hi = (if length s < lo \<or> hi < length s then False else list_all is_alpha s)"

definition is_digit_len :: "string \<Rightarrow> nat \<Rightarrow> nat \<Rightarrow> bool" where
  "is_digit_len s lo hi = (if length s < lo \<or> hi < length s then False else list_all is_digit s)"

definition max_subtag :: nat where
  "max_subtag = 8"

definition is_alnum_len :: "string \<Rightarrow> nat \<Rightarrow> bool" where
  "is_alnum_len s lo = (if length s < lo \<or> max_subtag < length s then False else is_alnum s)"

definition is_x :: "string \<Rightarrow> bool" where
  "is_x s \<longleftrightarrow> s = ''x'' \<or> s = ''X''"

definition is_singleton_tag :: "string \<Rightarrow> bool" where
  "is_singleton_tag s =
    (case s of [c] \<Rightarrow> is_alnum_byte c \<and> c \<noteq> CHR ''x'' \<and> c \<noteq> CHR ''X'' | _ \<Rightarrow> False)"

definition is_variant :: "string \<Rightarrow> bool" where
  "is_variant s =
    (if is_alnum_len s 5 then True else length s = 4 \<and> is_digit (s ! 0) \<and> is_alnum s)"

definition grandfathered_irregular :: "string list" where
  "grandfathered_irregular =
    [''en-gb-oed'', ''i-ami'', ''i-bnn'', ''i-default'', ''i-enochian'',
     ''i-hak'', ''i-klingon'', ''i-lux'', ''i-mingo'', ''i-navajo'', ''i-pwn'',
     ''i-tao'', ''i-tay'', ''i-tsu'', ''sgn-be-fr'', ''sgn-be-nl'', ''sgn-ch-de'']"

text \<open>
  \<open>strings.ToLower\<close> is byte-wise on ASCII, and the caller has already refused every byte
  that is not an ASCII alphanumeric or a hyphen.
\<close>

definition is_grandfathered :: "string \<Rightarrow> bool" where
  "is_grandfathered s \<longleftrightarrow> List.member grandfathered_irregular (map fold_byte s)"

definition is_private_use_only :: "string list \<Rightarrow> bool" where
  "is_private_use_only parts =
    (case parts of
       p # q # ps \<Rightarrow> is_x p \<and> list_all (\<lambda>r. is_alnum_len r 1) (q # ps)
     | _ \<Rightarrow> False)"

subsection \<open>The scan\<close>

text \<open>The bounded loop over at most \<open>n\<close> extended-language subtags.\<close>

fun skip_extlang :: "nat \<Rightarrow> string list \<Rightarrow> string list" where
  "skip_extlang 0 ps = ps"
| "skip_extlang (Suc n) [] = []"
| "skip_extlang (Suc n) (p # ps) = (if is_alpha_len p 3 3 then skip_extlang n ps else p # ps)"

definition skip_if :: "('a \<Rightarrow> bool) \<Rightarrow> 'a list \<Rightarrow> 'a list" where
  "skip_if P ps = (case ps of p # qs \<Rightarrow> if P p then qs else ps | [] \<Rightarrow> [])"

text \<open>A run of subtags after an introducer, of which there must be at least one.\<close>

definition skip_run1 :: "('a \<Rightarrow> bool) \<Rightarrow> 'a list \<Rightarrow> 'a list option" where
  "skip_run1 P ps = (if takeWhile P ps = [] then None else Some (dropWhile P ps))"

function skip_extensions :: "string list \<Rightarrow> string list option" where
  "skip_extensions ps =
    (case ps of
       [] \<Rightarrow> Some []
     | p # qs \<Rightarrow>
         if is_singleton_tag p then
           (case skip_run1 (\<lambda>r. is_alnum_len r 2) qs of
              None \<Rightarrow> None
            | Some rest \<Rightarrow> skip_extensions rest)
         else Some ps)"
  by pat_completeness auto
termination
  by (relation "measure length")
    (auto simp: skip_run1_def le_imp_less_Suc length_dropWhile_le split: if_splits)

declare skip_extensions.simps [simp del]

definition skip_private :: "string list \<Rightarrow> string list option" where
  "skip_private ps =
    (case ps of
       [] \<Rightarrow> Some []
     | p # qs \<Rightarrow> if is_x p then skip_run1 (\<lambda>r. is_alnum_len r 1) qs else Some ps)"

definition skip_language :: "string list \<Rightarrow> string list option" where
  "skip_language parts =
    (case parts of
       [] \<Rightarrow> None
     | p # ps \<Rightarrow>
         if is_alpha_len p 2 3 then Some (skip_extlang 3 ps)
         else if is_alpha_len p 4 4 \<or> is_alpha_len p 5 8 then Some ps
         else None)"

definition is_script :: "string \<Rightarrow> bool" where
  "is_script p = is_alpha_len p 4 4"

definition is_region :: "string \<Rightarrow> bool" where
  "is_region p \<longleftrightarrow> is_alpha_len p 2 2 \<or> is_digit_len p 3 3"

definition is_langtag :: "string list \<Rightarrow> bool" where
  "is_langtag parts =
    (case skip_language parts of
       None \<Rightarrow> False
     | Some r0 \<Rightarrow>
         (case skip_extensions (dropWhile is_variant (skip_if is_region (skip_if is_script r0))) of
            None \<Rightarrow> False
          | Some r1 \<Rightarrow> skip_private r1 = Some []))"

definition well_formed_language_tag :: "string \<Rightarrow> bool" where
  "well_formed_language_tag s =
    (if s = [] \<or> 63 < length s then False
     else let parts = split_on CHR ''-'' s in
       if \<not> list_all (\<lambda>p. length p \<noteq> 0 \<and> \<not> 8 < length p \<and> is_alnum p) parts then False
       else if is_grandfathered s then True
       else if is_private_use_only parts then True
       else is_langtag parts)"

subsection \<open>The grammar of RFC 5646\<close>

definition is_extension :: "string list \<Rightarrow> bool" where
  "is_extension e \<longleftrightarrow>
    (\<exists>p qs. e = p # qs \<and> is_singleton_tag p \<and> qs \<noteq> [] \<and> list_all (\<lambda>r. is_alnum_len r 2) qs)"

definition is_private_use :: "string list \<Rightarrow> bool" where
  "is_private_use e \<longleftrightarrow>
    (\<exists>p qs. e = p # qs \<and> is_x p \<and> qs \<noteq> [] \<and> list_all (\<lambda>r. is_alnum_len r 1) qs)"

definition is_language :: "string \<Rightarrow> string list \<Rightarrow> bool" where
  "is_language lang ext \<longleftrightarrow>
    is_alpha_len lang 2 3 \<and> length ext \<le> 3 \<and> list_all (\<lambda>p. is_alpha_len p 3 3) ext
    \<or> is_alpha_len lang 4 8 \<and> ext = []"

definition langtag_grammar :: "string list \<Rightarrow> bool" where
  "langtag_grammar parts \<longleftrightarrow>
    (\<exists>lang ext script region variants exts priv.
       parts = lang # ext @ script @ region @ variants @ concat exts @ priv
       \<and> is_language lang ext
       \<and> length script \<le> 1 \<and> list_all is_script script
       \<and> length region \<le> 1 \<and> list_all is_region region
       \<and> list_all is_variant variants
       \<and> list_all is_extension exts
       \<and> (priv = [] \<or> is_private_use priv))"

text \<open>What the first subtag of a remaining list can look like.\<close>

definition head_is :: "('a \<Rightarrow> bool) \<Rightarrow> 'a list \<Rightarrow> bool" where
  "head_is P xs \<longleftrightarrow> xs = [] \<or> P (hd xs)"

lemma head_is_append: "head_is P (xs @ ys) \<longleftrightarrow> (if xs = [] then head_is P ys else P (hd xs))"
  by (simp add: head_is_def)

lemma head_is_mono: "head_is P xs \<Longrightarrow> (\<And>x. P x \<Longrightarrow> Q x) \<Longrightarrow> head_is Q xs"
  by (auto simp: head_is_def)

lemma dropWhile_run: "list_all P xs \<Longrightarrow> head_is (\<lambda>x. \<not> P x) ys \<Longrightarrow> dropWhile P (xs @ ys) = ys"
  by (induction xs) (cases ys, auto simp: head_is_def)

lemma skip_run1_append:
  "xs \<noteq> [] \<Longrightarrow> list_all P xs \<Longrightarrow> head_is (\<lambda>x. \<not> P x) ys \<Longrightarrow> skip_run1 P (xs @ ys) = Some ys"
  by (cases xs) (auto simp: skip_run1_def dropWhile_run)

lemma skip_run1_SomeD:
  "skip_run1 P ps = Some rest \<Longrightarrow> \<exists>xs. ps = xs @ rest \<and> xs \<noteq> [] \<and> list_all P xs"
  by (rule exI [of _ "takeWhile P ps"])
    (auto simp: skip_run1_def list_all_iff dest: set_takeWhileD split: if_splits)

lemma skip_if_opt:
  "length xs \<le> 1 \<Longrightarrow> list_all P xs \<Longrightarrow> head_is (\<lambda>x. \<not> P x) ys \<Longrightarrow> skip_if P (xs @ ys) = ys"
  by (cases xs; cases ys) (auto simp: skip_if_def head_is_def)

lemma skip_ifD: "\<exists>xs. ps = xs @ skip_if P ps \<and> length xs \<le> 1 \<and> list_all P xs"
proof (cases ps)
  case (Cons p qs)
  then show ?thesis
    by (cases "P p") (auto simp: skip_if_def intro: exI [of _ "[p]"])
qed (simp add: skip_if_def)

text \<open>The subtag classes are told apart by their length and their first byte.\<close>

lemma alpha_lenD: "is_alpha_len p lo hi \<Longrightarrow> lo \<le> length p \<and> length p \<le> hi \<and> list_all is_alpha p"
  by (simp add: is_alpha_len_def split: if_splits)

lemma digit_lenD: "is_digit_len p lo hi \<Longrightarrow> lo \<le> length p \<and> length p \<le> hi \<and> list_all is_digit p"
  by (simp add: is_digit_len_def split: if_splits)

lemma alnum_lenD: "is_alnum_len p lo \<Longrightarrow> lo \<le> length p \<and> length p \<le> 8"
  by (simp add: is_alnum_len_def max_subtag_def split: if_splits)

lemma alpha_not_digit: "is_alpha c \<Longrightarrow> \<not> is_digit c"
  by (simp add: is_alpha_def is_lower_def is_upper_def is_digit_def byte_in_def)
    (simp add: byte_def, linarith)

lemma one_byte_tags: "is_singleton_tag p \<or> is_x p \<Longrightarrow> length p = 1"
  by (auto simp: is_singleton_tag_def is_x_def split: list.splits)

lemma variant_not_script: "is_variant p \<Longrightarrow> \<not> is_script p"
  by (cases p)
    (auto simp: is_variant_def is_script_def dest!: alpha_lenD alnum_lenD alpha_not_digit
      split: if_splits)

lemma variant_len: "is_variant p \<Longrightarrow> 4 \<le> length p"
  by (auto simp: is_variant_def dest: alnum_lenD split: if_splits)

lemma region_len: "is_region p \<Longrightarrow> length p = 2 \<or> length p = 3 \<and> list_all is_digit p"
  by (auto simp: is_region_def dest!: alpha_lenD digit_lenD)

lemma region_not_alpha3: "is_region p \<Longrightarrow> \<not> is_alpha_len p 3 3"
  by (cases p) (auto dest!: region_len alpha_lenD alpha_not_digit)

lemma script_len: "is_script p \<Longrightarrow> length p = 4"
  by (auto simp: is_script_def dest!: alpha_lenD)

lemma region_not_script: "is_region p \<Longrightarrow> \<not> is_script p"
  by (auto dest!: script_len region_len)

lemma language_5_8: "is_alpha_len p 4 4 \<or> is_alpha_len p 5 8 \<longleftrightarrow> is_alpha_len p 4 8"
  by (auto simp: is_alpha_len_def)

subsection \<open>The scan decides the grammar\<close>

lemma skip_extensions_append:
  assumes "list_all is_extension exts" and "head_is is_x priv"
  shows "skip_extensions (concat exts @ priv) = Some priv"
  using assms
proof (induction exts)
  case Nil
  then show ?case
    by (subst skip_extensions.simps)
      (auto simp: head_is_def is_singleton_tag_def is_x_def split: list.splits)
next
  case (Cons e es)
  then obtain p qs where e: "e = p # qs" "is_singleton_tag p" "qs \<noteq> []"
    "list_all (\<lambda>r. is_alnum_len r 2) qs"
    by (auto simp: is_extension_def)
  have "head_is (\<lambda>x. length x = 1) (concat es @ priv)"
    using Cons.prems one_byte_tags
    by (cases es) (auto simp: head_is_def is_extension_def)
  then have "head_is (\<lambda>r. \<not> is_alnum_len r 2) (concat es @ priv)"
    by (rule head_is_mono) (auto dest: alnum_lenD)
  with e have "skip_run1 (\<lambda>r. is_alnum_len r 2) (qs @ concat es @ priv) = Some (concat es @ priv)"
    by (intro skip_run1_append)
  moreover have "skip_extensions (concat es @ priv) = Some priv"
    using Cons by simp
  ultimately show ?case using e by (subst skip_extensions.simps) simp
qed

lemma skip_extensions_SomeD:
  "skip_extensions ps = Some rest \<Longrightarrow> \<exists>exts. ps = concat exts @ rest \<and> list_all is_extension exts"
proof (induction ps arbitrary: rest rule: skip_extensions.induct)
  case (1 ps)
  show ?case
  proof (cases ps)
    case Nil
    with "1.prems" show ?thesis
      by (subst (asm) skip_extensions.simps) (auto intro: exI [of _ "[]"])
  next
    case (Cons p qs)
    show ?thesis
    proof (cases "is_singleton_tag p")
      case True
      then obtain r where r: "skip_run1 (\<lambda>r. is_alnum_len r 2) qs = Some r"
        and rest: "skip_extensions r = Some rest"
        using "1.prems" Cons by (subst (asm) skip_extensions.simps) (auto split: option.splits)
      obtain xs where xs: "qs = xs @ r" "xs \<noteq> []" "list_all (\<lambda>r. is_alnum_len r 2) xs"
        using skip_run1_SomeD [OF r] by blast
      obtain exts where "r = concat exts @ rest" "list_all is_extension exts"
        using "1.IH" [OF Cons True r rest] by blast
      moreover have "is_extension (p # xs)"
        using True xs by (simp add: is_extension_def)
      ultimately show ?thesis using Cons xs
        by (intro exI [of _ "(p # xs) # exts"]) simp
    next
      case False
      then have "rest = ps"
        using "1.prems" Cons by (subst (asm) skip_extensions.simps) simp
      then show ?thesis by (intro exI [of _ "[]"]) simp
    qed
  qed
qed

lemma skip_private_iff: "skip_private ps = Some [] \<longleftrightarrow> ps = [] \<or> is_private_use ps"
proof (cases ps)
  case (Cons p qs)
  have "skip_run1 (\<lambda>r. is_alnum_len r 1) qs = Some []
      \<longleftrightarrow> qs \<noteq> [] \<and> list_all (\<lambda>r. is_alnum_len r 1) qs"
    by (cases qs) (auto simp: skip_run1_def list_all_iff)
  then show ?thesis using Cons by (auto simp: skip_private_def is_private_use_def)
qed (simp add: skip_private_def)

lemma skip_extlang_append:
  "length ext \<le> n \<Longrightarrow> list_all (\<lambda>p. is_alpha_len p 3 3) ext
    \<Longrightarrow> head_is (\<lambda>p. \<not> is_alpha_len p 3 3) ys \<Longrightarrow> skip_extlang n (ext @ ys) = ys"
proof (induction n ext rule: skip_extlang.induct)
  case (2 n)
  then show ?case by (cases ys) (auto simp: head_is_def)
qed auto

lemma skip_extlangD:
  "\<exists>ext. ps = ext @ skip_extlang n ps \<and> length ext \<le> n \<and> list_all (\<lambda>p. is_alpha_len p 3 3) ext"
proof (induction n ps rule: skip_extlang.induct)
  case (3 n p ps)
  show ?case
  proof (cases "is_alpha_len p 3 3")
    case True
    then obtain ext where "ps = ext @ skip_extlang n ps" "length ext \<le> n"
      "list_all (\<lambda>p. is_alpha_len p 3 3) ext"
      using "3.IH" by blast
    then show ?thesis using True by (intro exI [of _ "p # ext"]) simp
  qed (simp add: exI [of _ "[]"])
qed simp_all

lemma skip_language_append:
  "is_language lang ext \<Longrightarrow> head_is (\<lambda>p. \<not> is_alpha_len p 3 3) ys
    \<Longrightarrow> skip_language (lang # ext @ ys) = Some ys"
  by (auto simp: is_language_def skip_language_def language_5_8 skip_extlang_append)
    (auto dest!: alpha_lenD)

lemma skip_languageD:
  assumes "skip_language parts = Some r"
  shows "\<exists>lang ext. parts = lang # ext @ r \<and> is_language lang ext"
proof -
  obtain p ps where parts: "parts = p # ps"
    using assms by (cases parts) (auto simp: skip_language_def)
  show ?thesis
  proof (cases "is_alpha_len p 2 3")
    case True
    then have "r = skip_extlang 3 ps"
      using assms parts by (simp add: skip_language_def)
    then show ?thesis
      using True skip_extlangD [of ps 3] parts by (auto simp: is_language_def)
  next
    case False
    then have "is_alpha_len p 4 8" "r = ps"
      using assms parts by (auto simp: skip_language_def language_5_8 split: if_splits)
    then show ?thesis using parts by (auto simp: is_language_def)
  qed
qed

text \<open>
  The greedy left-to-right scan of language subtags accepts exactly the subtag lists that
  the langtag production of RFC 5646 derives: language with up to three extended-language
  subtags, optional script, optional region, variants, extensions and a private-use tail. No
  subtag it consumes early could have been needed later.
\<close>

theorem is_langtag_decides_grammar: "is_langtag parts \<longleftrightarrow> langtag_grammar parts"
proof
  assume "is_langtag parts"
  then obtain r0 r1 where
    r0: "skip_language parts = Some r0" and
    r1: "skip_extensions (dropWhile is_variant (skip_if is_region (skip_if is_script r0))) = Some r1" and
    priv: "skip_private r1 = Some []"
    by (auto simp: is_langtag_def split: option.splits)
  obtain lang ext where 1: "parts = lang # ext @ r0" "is_language lang ext"
    using skip_languageD [OF r0] by blast
  obtain script where 2: "r0 = script @ skip_if is_script r0" "length script \<le> 1"
    "list_all is_script script"
    using skip_ifD [of r0 is_script] by blast
  obtain region where 3: "skip_if is_script r0 = region @ skip_if is_region (skip_if is_script r0)"
    "length region \<le> 1" "list_all is_region region"
    using skip_ifD [of "skip_if is_script r0" is_region] by blast
  obtain exts where 4: "dropWhile is_variant (skip_if is_region (skip_if is_script r0)) = concat exts @ r1"
    "list_all is_extension exts"
    using skip_extensions_SomeD [OF r1] by blast
  let ?vs = "takeWhile is_variant (skip_if is_region (skip_if is_script r0))"
  have 5: "list_all is_variant ?vs" by (auto simp: list_all_iff dest: set_takeWhileD)
  have "parts = lang # ext @ script @ region @ ?vs @ concat exts @ r1"
    using 1 2 3 4 by (metis takeWhile_dropWhile_id)
  then show "langtag_grammar parts"
    unfolding langtag_grammar_def
    using 1 2 3 4 5 priv skip_private_iff by blast
next
  assume "langtag_grammar parts"
  then obtain lang ext script region variants exts priv where
    parts: "parts = lang # ext @ script @ region @ variants @ concat exts @ priv"
    and g: "is_language lang ext" "length script \<le> 1" "list_all is_script script"
    "length region \<le> 1" "list_all is_region region" "list_all is_variant variants"
    "list_all is_extension exts" "priv = [] \<or> is_private_use priv"
    unfolding langtag_grammar_def by blast
  have px: "head_is is_x priv" using g(8) by (auto simp: head_is_def is_private_use_def)
  have h1: "head_is (\<lambda>p. length p = 1) (concat exts @ priv)"
    using g(7) px one_byte_tags
    by (cases exts) (auto simp: head_is_def is_extension_def)
  have h2: "head_is (\<lambda>p. is_variant p \<or> length p = 1) (variants @ concat exts @ priv)"
    using g(6) h1 by (cases variants) (auto simp: head_is_def)
  have h3: "head_is (\<lambda>p. is_region p \<or> is_variant p \<or> length p = 1)
      (region @ variants @ concat exts @ priv)"
    using g(5) h2 by (cases region) (auto simp: head_is_def)
  have h4: "head_is (\<lambda>p. is_script p \<or> is_region p \<or> is_variant p \<or> length p = 1)
      (script @ region @ variants @ concat exts @ priv)"
    using g(3) h3 by (cases script) (auto simp: head_is_def)
  have "head_is (\<lambda>p. \<not> is_alpha_len p 3 3) (script @ region @ variants @ concat exts @ priv)"
    using h4 by (rule head_is_mono)
      (auto dest: region_not_alpha3 dest!: script_len variant_len simp: is_alpha_len_def)
  then have "skip_language parts = Some (script @ region @ variants @ concat exts @ priv)"
    using g(1) parts by (simp add: skip_language_append)
  moreover have "skip_if is_script (script @ region @ variants @ concat exts @ priv)
      = region @ variants @ concat exts @ priv"
    using g(2,3) h3 by (intro skip_if_opt head_is_mono [OF h3])
      (auto dest: variant_not_script region_not_script script_len)
  moreover have "skip_if is_region (region @ variants @ concat exts @ priv)
      = variants @ concat exts @ priv"
    using g(4,5) by (intro skip_if_opt head_is_mono [OF h2])
      (auto dest!: variant_len region_len)
  moreover have "dropWhile is_variant (variants @ concat exts @ priv) = concat exts @ priv"
    using g(6) by (intro dropWhile_run head_is_mono [OF h1]) (auto dest: variant_len)
  moreover have "skip_extensions (concat exts @ priv) = Some priv"
    using g(7) px by (rule skip_extensions_append)
  moreover have "skip_private priv = Some []"
    using g(8) by (simp add: skip_private_iff)
  ultimately show "is_langtag parts" by (simp add: is_langtag_def)
qed

text \<open>
  The regular grandfathered tags need no table entry, as the comment on the table says.
\<close>

lemma regular_grandfathered_tags_accepted:
  "list_all (\<lambda>s. is_langtag (split_on CHR ''-'' s))
    [''art-lojban'', ''cel-gaulish'', ''no-bok'', ''no-nyn'', ''zh-guoyu'', ''zh-hakka'',
     ''zh-min'', ''zh-min-nan'', ''zh-xiang'']"
  by code_simp

end
