(* ===== verification/Standings.thy ===== *)
theory Standings
  imports Prelude "HOL-Library.AList"
begin

section \<open>Standings (internal/domain/scoring/standings.go)\<close>

text \<open>
  Scoring events are folded into one entry per account, the entries are sorted by the
  standings order and numbered. The standings order is the \<open>linorder\<close> instance of the type of
  entries, so the library's sorting theory applies. Go iterates over a map in an unspecified
  order; the model takes that order as the argument \<open>iter\<close>, and the theorems hold for every
  one.
\<close>

record Event =
  ev_account :: id
  ev_value :: int
  ev_at :: time

datatype Entry = Entry (e_account: id) (e_score: int) (e_last: time)

record Standing =
  st_entry :: Entry
  st_place :: nat

definition counts :: "Event \<Rightarrow> bool" where
  "counts e \<longleftrightarrow> ev_value e \<noteq> 0"

definition entry_less :: "Entry \<Rightarrow> Entry \<Rightarrow> bool" where
  "entry_less a b =
    (if e_score a \<noteq> e_score b then e_score b < e_score a
     else if e_last a \<noteq> e_last b then e_last a < e_last b
     else e_account a < e_account b)"

text \<open>One event folded into its account's entry; \<open>Score += Value\<close> wraps at 64 bits.\<close>

definition bump_entry :: "Event \<Rightarrow> Entry option \<Rightarrow> Entry" where
  "bump_entry ev old =
    (let e = (case old of Some e \<Rightarrow> e | None \<Rightarrow> Entry (ev_account ev) 0 zero_time)
     in Entry (e_account e) (i64 (e_score e + ev_value ev))
          (if e_last e < ev_at ev then ev_at ev else e_last e))"

fun by_account :: "Event list \<Rightarrow> (id \<times> Entry) list \<Rightarrow> (id \<times> Entry) list" where
  "by_account [] m = m"
| "by_account (ev # evs) m =
    (if \<not> counts ev then by_account evs m
     else by_account evs
       (AList.update (ev_account ev) (bump_entry ev (map_of m (ev_account ev))) m))"

definition aggregate :: "(Entry list \<Rightarrow> Entry list) \<Rightarrow> Event list \<Rightarrow> Entry list" where
  "aggregate iter evs = iter (map snd (by_account evs []))"

subsection \<open>The standings order is linear\<close>

instantiation Entry :: linorder
begin

definition less_Entry :: "Entry \<Rightarrow> Entry \<Rightarrow> bool" where
  "a < b \<longleftrightarrow> entry_less a b"

definition less_eq_Entry :: "Entry \<Rightarrow> Entry \<Rightarrow> bool" where
  "a \<le> b \<longleftrightarrow> a = b \<or> entry_less a b"

instance
proof
  fix a b c :: Entry
  show "(a < b) = (a \<le> b \<and> \<not> b \<le> a)"
    by (auto simp: less_Entry_def less_eq_Entry_def entry_less_def split: if_splits)
  show "a \<le> a"
    by (simp add: less_eq_Entry_def)
  show "a \<le> b \<Longrightarrow> b \<le> c \<Longrightarrow> a \<le> c"
    by (auto simp: less_eq_Entry_def entry_less_def split: if_splits)
  show "a \<le> b \<Longrightarrow> b \<le> a \<Longrightarrow> a = b"
    by (auto simp: less_eq_Entry_def entry_less_def split: if_splits)
  show "a \<le> b \<or> b \<le> a"
    by (cases a; cases b) (auto simp: less_eq_Entry_def entry_less_def)
qed

end

text \<open>
  \<open>sort.SliceStable\<close> by \<open>Less\<close>: insertion of each element before the first one it is less than
  or equal to is a stable sort, and \<open>Less\<close> leaves no two different entries unordered.
\<close>

definition rank :: "Entry list \<Rightarrow> Entry list" where
  "rank entries = sort entries"

fun number_from :: "nat \<Rightarrow> Entry list \<Rightarrow> Standing list" where
  "number_from n [] = []"
| "number_from n (e # es) = \<lparr>st_entry = e, st_place = Suc n\<rparr> # number_from (Suc n) es"

definition board :: "(Entry list \<Rightarrow> Entry list) \<Rightarrow> Event list \<Rightarrow> Standing list" where
  "board iter evs = number_from 0 (rank (aggregate iter evs))"

subsection \<open>The fold as a function of the multiset of events\<close>

definition fold_event :: "Event \<Rightarrow> (id \<Rightarrow> Entry option) \<Rightarrow> (id \<Rightarrow> Entry option)" where
  "fold_event ev m =
    (if counts ev then m(ev_account ev \<mapsto> bump_entry ev (m (ev_account ev))) else m)"

lemma map_of_by_account: "map_of (by_account evs m) = fold fold_event evs (map_of m)"
  by (induction evs m rule: by_account.induct) (simp_all add: fold_event_def update_conv' fun_upd_def)

lemma distinct_by_account: "distinct (map fst m) \<Longrightarrow> distinct (map fst (by_account evs m))"
  by (induction evs m rule: by_account.induct) (simp_all add: distinct_update)

lemma fold_event_commute:
  "fold_event e1 \<circ> fold_event e2 = fold_event e2 \<circ> fold_event e1"
proof
  fix m
  show "(fold_event e1 \<circ> fold_event e2) m = (fold_event e2 \<circ> fold_event e1) m"
  proof (cases "counts e1 \<and> counts e2 \<and> ev_account e1 = ev_account e2")
    case True
    then show ?thesis
      by (auto simp: fold_event_def bump_entry_def Let_def go_arith algebra_simps
          split: option.splits)
  next
    case False
    then show ?thesis
      by (auto simp: fold_event_def fun_upd_twist)
  qed
qed

lemma by_account_mset:
  assumes "mset evs = mset evs'"
  shows "map_of (by_account evs []) = map_of (by_account evs' [])"
proof -
  have "fold fold_event evs = fold fold_event evs'"
    using assms by (intro fold_multiset_equiv) (auto simp: fold_event_commute)
  then show ?thesis by (simp add: map_of_by_account)
qed

lemma mset_map_of:
  assumes "distinct (map fst xs)" "distinct (map fst ys)" "map_of xs = map_of ys"
  shows "mset xs = mset ys"
proof -
  have "set xs = set ys"
    using assms by (metis map_of_eq_Some_iff subrelI subset_antisym)
  moreover have "distinct xs" "distinct ys"
    using assms by (simp_all add: distinct_map)
  ultimately show ?thesis by (simp add: set_eq_iff_mset_eq_distinct)
qed

lemma aggregate_mset:
  assumes "mset evs = mset evs'" "\<And>xs. mset (iter xs) = mset xs" "\<And>xs. mset (iter' xs) = mset xs"
  shows "mset (aggregate iter evs) = mset (aggregate iter' evs')"
  using mset_map_of [OF distinct_by_account distinct_by_account by_account_mset [OF assms(1)]]
    assms(2,3)
  by (simp add: aggregate_def)

subsection \<open>What one account's row says\<close>

definition scoring_events :: "Event list \<Rightarrow> id \<Rightarrow> Event list" where
  "scoring_events evs a = filter (\<lambda>ev. counts ev \<and> ev_account ev = a) evs"

definition standing_of :: "Event list \<Rightarrow> id \<Rightarrow> Entry" where
  "standing_of evs a =
    Entry a (i64 (sum_list (map ev_value (scoring_events evs a))))
      (fold max (map ev_at (scoring_events evs a)) zero_time)"

definition fold_entry :: "Event list \<Rightarrow> Entry option \<Rightarrow> Entry option" where
  "fold_entry evs o0 = fold (\<lambda>ev e. Some (bump_entry ev e)) evs o0"

lemma fold_event_at: "fold fold_event evs m a = fold_entry (scoring_events evs a) (m a)"
  by (induction evs arbitrary: m) (auto simp: fold_entry_def scoring_events_def fold_event_def)

lemma fold_entry_Some:
  "fold_entry evs (Some (Entry a s t))
    = Some (Entry a (if evs = [] then s else i64 (s + sum_list (map ev_value evs)))
        (fold max (map ev_at evs) t))"
proof (induction evs arbitrary: s t)
  case (Cons ev evs)
  then show ?case
    by (auto simp: fold_entry_def bump_entry_def Let_def go_arith max_def algebra_simps)
qed (simp add: fold_entry_def)

lemma fold_entry_None:
  assumes "evs \<noteq> []" "\<And>ev. ev \<in> set evs \<Longrightarrow> ev_account ev = a"
  shows "fold_entry evs None
    = Some (Entry a (i64 (sum_list (map ev_value evs))) (fold max (map ev_at evs) zero_time))"
proof -
  obtain ev evs' where evs: "evs = ev # evs'" using assms(1) by (cases evs) auto
  have "fold_entry evs None = fold_entry evs' (Some (bump_entry ev None))"
    by (simp add: evs fold_entry_def)
  also have "bump_entry ev None = Entry a (i64 (ev_value ev)) (max (ev_at ev) zero_time)"
    using assms(2) by (simp add: evs bump_entry_def Let_def max_def)
  finally show ?thesis
    by (auto simp: fold_entry_Some evs go_arith)
qed

lemma map_of_by_account_row:
  "map_of (by_account evs []) a
    = (if scoring_events evs a = [] then None else Some (standing_of evs a))"
proof (cases "scoring_events evs a = []")
  case False
  then show ?thesis
    using fold_entry_None [of "scoring_events evs a" a]
    by (simp add: map_of_by_account fold_event_at standing_of_def) (simp add: scoring_events_def)
qed (simp add: map_of_by_account fold_event_at fold_entry_def)

lemma aggregate_rows:
  assumes "\<And>xs. mset (iter xs) = mset xs"
  shows "set (aggregate iter evs) = standing_of evs ` {a. scoring_events evs a \<noteq> []}"
    and "distinct (map e_account (aggregate iter evs))"
proof -
  let ?m = "by_account evs []"
  have d: "distinct (map fst ?m)" by (simp add: distinct_by_account)
  have kv: "(a, e) \<in> set ?m \<longleftrightarrow> scoring_events evs a \<noteq> [] \<and> e = standing_of evs a" for a e
  proof -
    have "(a, e) \<in> set ?m \<longleftrightarrow> map_of ?m a = Some e"
      using map_of_eq_Some_iff [OF d] by simp
    then show ?thesis by (auto simp: map_of_by_account_row)
  qed
  have set_iter: "set (iter xs) = set xs" for xs
    using assms [of xs] by (rule mset_eq_setD)
  show "set (aggregate iter evs) = standing_of evs ` {a. scoring_events evs a \<noteq> []}"
  proof -
    have "e \<in> snd ` set ?m \<longleftrightarrow> (\<exists>a. (a, e) \<in> set ?m)" for e
      by force
    then have "snd ` set ?m = standing_of evs ` {a. scoring_events evs a \<noteq> []}"
      by (auto simp: kv)
    then show ?thesis by (simp add: aggregate_def set_iter)
  qed
  have "e_account (snd p) = fst p" if "p \<in> set ?m" for p
    using that kv [of "fst p" "snd p"] by (simp add: standing_of_def)
  then have m: "map (e_account \<circ> snd) ?m = map fst ?m"
    by simp
  have "distinct (map e_account (map snd ?m))" using d by (simp only: map_map m)
  moreover have "mset (map e_account (iter (map snd ?m))) = mset (map e_account (map snd ?m))"
    using assms by (simp del: map_map)
  ultimately show "distinct (map e_account (aggregate iter evs))"
    unfolding aggregate_def by (metis mset_eq_imp_distinct_iff)
qed

lemma number_from_entries: "map st_entry (number_from n es) = es"
  by (induction es arbitrary: n) simp_all

lemma number_from_places: "map st_place (number_from n es) = [Suc n..<Suc n + length es]"
  by (induction es arbitrary: n) (simp_all add: upt_rec)

lemma length_number_from: "length (number_from n es) = length es"
  by (induction es arbitrary: n) simp_all

subsection \<open>Properties\<close>

text \<open>
  The board is a function of the multiset of events: any interleaving of the same solves and
  awards, and any iteration order of the Go map, give the same board, row for row and place for
  place.
\<close>

theorem board_independent_of_order:
  assumes "mset evs = mset evs'"
    and "\<And>xs. mset (iter xs) = mset xs" and "\<And>xs. mset (iter' xs) = mset xs"
  shows "board iter evs = board iter' evs'"
  using aggregate_mset [OF assms]
  unfolding board_def rank_def by (metis mset_sort properties_for_sort sorted_sort)

theorem board_independent_of_order_witness:
  "board rev [\<lparr>ev_account = 1, ev_value = 100, ev_at = 5\<rparr>, \<lparr>ev_account = 2, ev_value = 100, ev_at = 4\<rparr>]
   = board (\<lambda>xs. xs) [\<lparr>ev_account = 2, ev_value = 100, ev_at = 4\<rparr>, \<lparr>ev_account = 1, ev_value = 100, ev_at = 5\<rparr>]"
  by (rule board_independent_of_order) simp_all

text \<open>
  What the board holds. Its rows are, one each, the accounts with at least one non-zero
  event (an account with only zero-valued events is absent, not shown at 0); a row carries the
  wrapped sum of the account's values and the latest of its non-zero events; rows stand in the
  strict order score descending, last event ascending, account ascending; and places count
  from 1 without gaps, ties included.
\<close>

theorem board_characterised:
  assumes "\<And>xs. mset (iter xs) = mset xs"
  shows "set (map st_entry (board iter evs)) = standing_of evs ` {a. scoring_events evs a \<noteq> []}
    \<and> distinct (map (e_account \<circ> st_entry) (board iter evs))
    \<and> sorted_wrt entry_less (map st_entry (board iter evs))
    \<and> map st_place (board iter evs) = [1..<Suc (length (board iter evs))]"
proof -
  let ?es = "rank (aggregate iter evs)"
  have d: "distinct (map e_account ?es)"
  proof -
    have "mset (map e_account ?es) = mset (map e_account (aggregate iter evs))"
      by (simp add: rank_def)
    then show ?thesis
      using aggregate_rows(2) [OF assms] by (metis mset_eq_imp_distinct_iff)
  qed
  then have "distinct ?es" by (rule distinct_map [THEN iffD1, THEN conjunct1])
  then have "sorted_wrt (<) ?es"
    by (simp add: strict_sorted_iff rank_def)
  then have "sorted_wrt entry_less ?es"
    by (rule sorted_wrt_mono_rel [rotated]) (simp add: less_Entry_def)
  moreover have "set ?es = standing_of evs ` {a. scoring_events evs a \<noteq> []}"
    using aggregate_rows(1) [OF assms] by (simp add: rank_def)
  moreover have "map (e_account \<circ> st_entry) (board iter evs) = map e_account ?es"
    by (simp only: map_map [symmetric] board_def number_from_entries)
  ultimately show ?thesis
    using d by (simp add: board_def number_from_entries number_from_places length_number_from
        del: upt_Suc)
qed

theorem board_characterised_witness:
  "map st_place (board rev [\<lparr>ev_account = 1, ev_value = 100, ev_at = 5\<rparr>, \<lparr>ev_account = 2, ev_value = 0, ev_at = 4\<rparr>])
   = [1..<Suc (length (board rev [\<lparr>ev_account = 1, ev_value = 100, ev_at = 5\<rparr>, \<lparr>ev_account = 2, ev_value = 0, ev_at = 4\<rparr>]))]"
  using board_characterised [of rev] by simp

end
