(* ===== verification/Account.thy ===== *)
theory Account
  imports Go_Strings
begin

section \<open>The user/team duality (internal/domain/account/account.go)\<close>

text \<open>
  The account model of the instance, the resolution of a membership to the account that plays,
  and the boot assertion that the stored mode agrees with the data. \<open>ModeOther\<close> stands for a
  value of the underlying \<open>uint8\<close> that is neither declared constant: the code has an arm for it.
\<close>

datatype Mode = ModeUsers | ModeTeams | ModeOther nat

datatype account_error =
    ErrUnknownMode string
  | ErrTeamless
  | ErrNoUserID
  | ErrModeMismatch string int

definition mode_names :: "(Mode \<times> string) list" where
  "mode_names = [(ModeUsers, ''users''), (ModeTeams, ''teams'')]"

definition mode_string :: "Mode \<Rightarrow> string" where
  "mode_string m =
    (case map_of mode_names m of
       Some s \<Rightarrow> s
     | None \<Rightarrow> (case m of ModeOther n \<Rightarrow> ''Mode('' @ decimal (int n) @ '')'' | _ \<Rightarrow> ''''))"

text \<open>The loop over the name table returns the entry whose name is the argument.\<close>

definition parse_mode :: "string \<Rightarrow> (account_error, Mode) result" where
  "parse_mode s =
    (case find (\<lambda>(m, name). name = s) mode_names of
       Some (m, _) \<Rightarrow> Inr m
     | None \<Rightarrow> Inl (ErrUnknownMode s))"

record Membership =
  mem_user_id :: id
  mem_team_id :: "id option"

definition resolve :: "Mode \<Rightarrow> Membership \<Rightarrow> (account_error, id) result" where
  "resolve m mem =
    (case m of
       ModeUsers \<Rightarrow> if mem_user_id mem = 0 then Inl ErrNoUserID else Inr (mem_user_id mem)
     | ModeTeams \<Rightarrow>
         (case mem_team_id mem of
            None \<Rightarrow> Inl ErrTeamless
          | Some t \<Rightarrow> if t = 0 then Inl ErrTeamless else Inr t)
     | ModeOther n \<Rightarrow> Inl (ErrUnknownMode (mode_string m)))"

definition teamless :: "Mode \<Rightarrow> Membership \<Rightarrow> bool" where
  "teamless m mem = (case resolve m mem of Inl ErrTeamless \<Rightarrow> True | _ \<Rightarrow> False)"

definition assert_mode_at_boot :: "Mode \<Rightarrow> int \<Rightarrow> (account_error, unit) result" where
  "assert_mode_at_boot m team_count =
    (if m = ModeUsers \<and> 0 < team_count then Inl (ErrModeMismatch (mode_string m) team_count)
     else Inr ())"

subsection \<open>Facts\<close>

lemma parse_mode_string: "parse_mode s = Inr m \<longleftrightarrow> m \<in> {ModeUsers, ModeTeams} \<and> mode_string m = s"
  by (auto simp: parse_mode_def mode_string_def mode_names_def split: option.splits if_splits)

lemma resolve_users: "resolve ModeUsers mem = Inr a \<longleftrightarrow> a = mem_user_id mem \<and> a \<noteq> 0"
  by (auto simp: resolve_def)

lemma resolve_teams: "resolve ModeTeams mem = Inr a \<longleftrightarrow> mem_team_id mem = Some a \<and> a \<noteq> 0"
  by (auto simp: resolve_def split: option.splits)

lemma resolve_nonzero: "resolve m mem = Inr a \<Longrightarrow> a \<noteq> 0"
  by (auto simp: resolve_def split: Mode.splits option.splits if_splits)

lemma teamless_iff:
  "teamless m mem \<longleftrightarrow> m = ModeTeams \<and> (mem_team_id mem = None \<or> mem_team_id mem = Some 0)"
  by (auto simp: teamless_def resolve_def split: Mode.splits option.splits if_splits)

text \<open>
  Every membership resolves, under a mode that came from the stored configuration, to
  exactly one of an account and a named refusal: in users mode the account is the user and the
  team is ignored, in teams mode it is the team and a teamless user has none, and
  \<open>Teamless\<close> is the refusal of the second kind and nothing else.
\<close>

theorem resolve_complete:
  assumes "parse_mode s = Inr m"
  shows "resolve m mem =
      (if s = ''users'' then (if mem_user_id mem = 0 then Inl ErrNoUserID else Inr (mem_user_id mem))
       else if teamless m mem then Inl ErrTeamless else Inr (the (mem_team_id mem)))
    \<and> (teamless m mem \<longleftrightarrow> s = ''teams'' \<and> resolve m mem = Inl ErrTeamless)"
  using assms
  by (auto simp: parse_mode_string teamless_iff resolve_def mode_string_def mode_names_def
      split: option.splits)

theorem resolve_complete_witness:
  "resolve ModeTeams \<lparr>mem_user_id = 7, mem_team_id = Some 3\<rparr> = Inr 3
   \<and> \<not> teamless ModeTeams \<lparr>mem_user_id = 7, mem_team_id = Some 3\<rparr>"
  using resolve_complete [of "''teams''" ModeTeams "\<lparr>mem_user_id = 7, mem_team_id = Some 3\<rparr>"]
  by (simp add: parse_mode_def mode_names_def teamless_iff)

end
