(* ===== verification/Policy.thy ===== *)
theory Policy
  imports Account
begin

section \<open>The policy vocabulary (internal/domain/policy/policy.go)\<close>

text \<open>
  The inputs of the route policy gate: the phase of the event, the visibility settings, the
  configuration, the principal and the call site. \<open>VisOther\<close> and \<open>VisKindOther\<close> stand for the
  \<open>uint8\<close> values outside the declared constants, for which the code has fail-closed arms.
\<close>

datatype Phase = PhaseBeforeStart | PhaseRunning | PhaseEnded

definition phase_string :: "Phase \<Rightarrow> string" where
  "phase_string p =
    (case p of PhaseBeforeStart \<Rightarrow> ''before-start'' | PhaseRunning \<Rightarrow> ''running''
     | PhaseEnded \<Rightarrow> ''ended'')"

definition phase_at :: "time \<Rightarrow> time option \<Rightarrow> time option \<Rightarrow> Phase" where
  "phase_at now start end_at =
    (if (case start of Some s \<Rightarrow> \<not> s < now | None \<Rightarrow> False) then PhaseBeforeStart
     else if (case end_at of Some e \<Rightarrow> e < now | None \<Rightarrow> False) then PhaseEnded
     else PhaseRunning)"

datatype Vis = VisPublic | VisPrivate | VisAdmins | VisHidden | VisMLC | VisOther nat

definition vis_string :: "Vis \<Rightarrow> string" where
  "vis_string v =
    (case v of
       VisPublic \<Rightarrow> ''public'' | VisPrivate \<Rightarrow> ''private'' | VisAdmins \<Rightarrow> ''admins''
     | VisHidden \<Rightarrow> ''hidden'' | VisMLC \<Rightarrow> ''mlc''
     | VisOther n \<Rightarrow> ''Vis('' @ decimal (int n) @ '')'')"

definition parse_vis :: "string \<Rightarrow> (string, Vis) result" where
  "parse_vis s =
    (if s = ''public'' then Inr VisPublic
     else if s = ''private'' then Inr VisPrivate
     else if s = ''admins'' then Inr VisAdmins
     else if s = ''hidden'' then Inr VisHidden
     else if s = ''mlc'' then Inr VisMLC
     else Inl s)"

datatype VisKind = VisChallenge | VisScore | VisAccount | VisRegistration | VisKindOther nat

datatype Surface = SurfacePublic | SurfaceAdmin

record Event =
  ev_mode :: Mode
  setup_done :: bool
  challenge_vis :: Vis
  score_vis :: Vis
  account_vis :: Vis
  registration_vis :: Vis
  verify_emails :: bool
  view_after_ctf :: bool
  phase :: Phase
  paused :: bool
  freeze_at :: "time option"
  team_creation :: bool

definition vis_for :: "Event \<Rightarrow> VisKind \<Rightarrow> Vis" where
  "vis_for e k =
    (case k of
       VisChallenge \<Rightarrow> challenge_vis e
     | VisScore \<Rightarrow> score_vis e
     | VisAccount \<Rightarrow> account_vis e
     | VisRegistration \<Rightarrow> registration_vis e
     | VisKindOther _ \<Rightarrow> VisAdmins)"

record Principal =
  authed :: bool
  is_admin :: bool
  verified :: bool
  banned :: bool
  team_banned :: bool
  p_teamless :: bool
  profile_complete :: bool
  team_profile_complete :: bool
  force_password_change :: bool
  user_id :: id
  account_id :: id

lemma parse_vis_iff: "parse_vis s = Inr v \<longleftrightarrow> vis_string v = s \<and> (\<forall>n. v \<noteq> VisOther n)"
  by (cases v) (auto simp: parse_vis_def vis_string_def split: if_splits)

lemma phase_at_cases:
  "phase_at now start end_at = PhaseBeforeStart \<longleftrightarrow> (\<exists>s. start = Some s \<and> now \<le> s)"
  "phase_at now start end_at = PhaseEnded
    \<longleftrightarrow> (\<forall>s. start = Some s \<longrightarrow> s < now) \<and> (\<exists>e. end_at = Some e \<and> e < now)"
  "phase_at now start end_at = PhaseRunning
    \<longleftrightarrow> (\<forall>s. start = Some s \<longrightarrow> s < now) \<and> (\<forall>e. end_at = Some e \<longrightarrow> now \<le> e)"
  by (auto simp: phase_at_def split: option.splits if_splits)

end
