(* ===== verification/Route_Class.thy ===== *)
theory Route_Class
  imports Policy
begin

section \<open>Route classes and their attributes (internal/domain/policy/routeclass.go)\<close>

text \<open>
  The decision table: one row of attributes per route class. \<open>ClassOther\<close> is a value of the
  \<open>uint8\<close> outside the declared constants; the Go map has no row for it and yields the zero
  attributes, as it does for \<open>ClassUnknown\<close>.
\<close>

datatype RouteClass =
    ClassUnknown
  | ClassThemeAsset | ClassSetup | ClassIndex | ClassPages
  | ClassRegister | ClassLogin | ClassLogout | ClassReset | ClassConfirm
  | ClassChallengeList | ClassChallengeDetail | ClassChallengeAttempt | ClassChallengeSolves
  | ClassHintUnlock | ClassSolutionUnlock
  | ClassScoreboard | ClassScoreboardDetail
  | ClassAccountList | ClassAccountDetail | ClassAccountSelf
  | ClassPasswordChange
  | ClassTeamEnrollment | ClassTeamSelf | ClassTeamCreate | ClassTeamDetail
  | ClassTokens | ClassSSE | ClassNotifications | ClassSolveFeed
  | ClassAdmin | ClassAdminScoreboard | ClassStatistics | ClassExport
  | ClassOther nat

record attrs =
  vis_gates :: "VisKind list"
  modes :: "Mode list"
  requires_auth :: bool
  requires_verified :: bool
  requires_profile :: bool
  requires_team :: bool
  time_gated :: bool
  mutates_score :: bool
  closes_at_end :: bool
  admin_only :: bool
  exempt_from_ban :: bool
  exempt_from_password_change :: bool

definition no_attrs :: attrs where
  "no_attrs =
    \<lparr>vis_gates = [], modes = [], requires_auth = False, requires_verified = False,
     requires_profile = False, requires_team = False, time_gated = False, mutates_score = False,
     closes_at_end = False, admin_only = False, exempt_from_ban = False,
     exempt_from_password_change = False\<rparr>"

definition class_attrs :: "RouteClass \<Rightarrow> attrs" where
  "class_attrs c =
    (case c of
       ClassUnknown \<Rightarrow> no_attrs
     | ClassThemeAsset \<Rightarrow> no_attrs\<lparr>exempt_from_ban := True, exempt_from_password_change := True\<rparr>
     | ClassSetup \<Rightarrow> no_attrs\<lparr>exempt_from_password_change := True\<rparr>
     | ClassIndex \<Rightarrow> no_attrs
     | ClassPages \<Rightarrow> no_attrs
     | ClassRegister \<Rightarrow> no_attrs\<lparr>vis_gates := [VisRegistration]\<rparr>
     | ClassLogin \<Rightarrow> no_attrs\<lparr>exempt_from_password_change := True\<rparr>
     | ClassLogout \<Rightarrow> no_attrs\<lparr>exempt_from_password_change := True\<rparr>
     | ClassReset \<Rightarrow> no_attrs\<lparr>exempt_from_password_change := True\<rparr>
     | ClassConfirm \<Rightarrow> no_attrs
     | ClassChallengeList \<Rightarrow>
         no_attrs\<lparr>vis_gates := [VisChallenge], requires_verified := True, requires_profile := True,
           requires_team := True, time_gated := True\<rparr>
     | ClassChallengeDetail \<Rightarrow>
         no_attrs\<lparr>vis_gates := [VisChallenge], requires_verified := True, requires_profile := True,
           requires_team := True, time_gated := True\<rparr>
     | ClassChallengeAttempt \<Rightarrow>
         no_attrs\<lparr>vis_gates := [VisChallenge], requires_auth := True, requires_verified := True,
           requires_profile := True, requires_team := True, time_gated := True,
           mutates_score := True\<rparr>
     | ClassChallengeSolves \<Rightarrow>
         no_attrs\<lparr>vis_gates := [VisChallenge, VisAccount], requires_verified := True,
           time_gated := True\<rparr>
     | ClassHintUnlock \<Rightarrow>
         no_attrs\<lparr>requires_auth := True, requires_verified := True, time_gated := True,
           mutates_score := True\<rparr>
     | ClassSolutionUnlock \<Rightarrow>
         no_attrs\<lparr>requires_auth := True, requires_verified := True, time_gated := True,
           mutates_score := True\<rparr>
     | ClassScoreboard \<Rightarrow> no_attrs\<lparr>vis_gates := [VisAccount, VisScore]\<rparr>
     | ClassScoreboardDetail \<Rightarrow> no_attrs\<lparr>vis_gates := [VisAccount, VisScore]\<rparr>
     | ClassAccountList \<Rightarrow> no_attrs\<lparr>vis_gates := [VisAccount]\<rparr>
     | ClassAccountDetail \<Rightarrow> no_attrs\<lparr>vis_gates := [VisAccount]\<rparr>
     | ClassAccountSelf \<Rightarrow> no_attrs\<lparr>requires_auth := True\<rparr>
     | ClassPasswordChange \<Rightarrow>
         no_attrs\<lparr>requires_auth := True, exempt_from_password_change := True\<rparr>
     | ClassTeamEnrollment \<Rightarrow>
         no_attrs\<lparr>requires_auth := True, modes := [ModeTeams], closes_at_end := True\<rparr>
     | ClassTeamCreate \<Rightarrow>
         no_attrs\<lparr>requires_auth := True, modes := [ModeTeams], closes_at_end := True\<rparr>
     | ClassTeamSelf \<Rightarrow> no_attrs\<lparr>requires_auth := True, modes := [ModeTeams]\<rparr>
     | ClassTeamDetail \<Rightarrow> no_attrs\<lparr>vis_gates := [VisAccount], modes := [ModeTeams]\<rparr>
     | ClassTokens \<Rightarrow> no_attrs\<lparr>requires_auth := True, requires_verified := True\<rparr>
     | ClassSSE \<Rightarrow> no_attrs\<lparr>requires_auth := True\<rparr>
     | ClassNotifications \<Rightarrow> no_attrs\<lparr>requires_auth := True\<rparr>
     | ClassSolveFeed \<Rightarrow>
         no_attrs\<lparr>vis_gates := [VisChallenge], requires_auth := True, requires_verified := True,
           time_gated := True\<rparr>
     | ClassAdmin \<Rightarrow> no_attrs\<lparr>admin_only := True\<rparr>
     | ClassAdminScoreboard \<Rightarrow> no_attrs\<lparr>admin_only := True\<rparr>
     | ClassStatistics \<Rightarrow> no_attrs\<lparr>admin_only := True\<rparr>
     | ClassExport \<Rightarrow> no_attrs\<lparr>admin_only := True\<rparr>
     | ClassOther n \<Rightarrow> no_attrs)"

definition available_in :: "RouteClass \<Rightarrow> Mode \<Rightarrow> bool" where
  "available_in c m =
    (if length (modes (class_attrs c)) = 0 then True else List.member (modes (class_attrs c)) m)"

definition class_name :: "RouteClass \<Rightarrow> string" where
  "class_name c =
    (case c of
       ClassUnknown \<Rightarrow> ''unknown'' | ClassThemeAsset \<Rightarrow> ''theme-asset'' | ClassSetup \<Rightarrow> ''setup''
     | ClassIndex \<Rightarrow> ''index'' | ClassPages \<Rightarrow> ''pages'' | ClassRegister \<Rightarrow> ''register''
     | ClassLogin \<Rightarrow> ''login'' | ClassLogout \<Rightarrow> ''logout'' | ClassReset \<Rightarrow> ''reset''
     | ClassConfirm \<Rightarrow> ''confirm''
     | ClassChallengeList \<Rightarrow> ''challenge-list'' | ClassChallengeDetail \<Rightarrow> ''challenge-detail''
     | ClassChallengeAttempt \<Rightarrow> ''challenge-attempt'' | ClassChallengeSolves \<Rightarrow> ''challenge-solves''
     | ClassHintUnlock \<Rightarrow> ''hint-unlock'' | ClassSolutionUnlock \<Rightarrow> ''solution-unlock''
     | ClassScoreboard \<Rightarrow> ''scoreboard'' | ClassScoreboardDetail \<Rightarrow> ''scoreboard-detail''
     | ClassAccountList \<Rightarrow> ''account-list'' | ClassAccountDetail \<Rightarrow> ''account-detail''
     | ClassAccountSelf \<Rightarrow> ''account-self'' | ClassPasswordChange \<Rightarrow> ''password-change''
     | ClassTeamEnrollment \<Rightarrow> ''team-enrollment'' | ClassTeamSelf \<Rightarrow> ''team-self''
     | ClassTeamCreate \<Rightarrow> ''team-create'' | ClassTeamDetail \<Rightarrow> ''team-detail''
     | ClassTokens \<Rightarrow> ''tokens'' | ClassSSE \<Rightarrow> ''sse'' | ClassNotifications \<Rightarrow> ''notifications''
     | ClassSolveFeed \<Rightarrow> ''solve-feed''
     | ClassAdmin \<Rightarrow> ''admin'' | ClassAdminScoreboard \<Rightarrow> ''admin-scoreboard''
     | ClassStatistics \<Rightarrow> ''statistics'' | ClassExport \<Rightarrow> ''export''
     | ClassOther n \<Rightarrow> ''RouteClass('' @ decimal (int n) @ '')'')"

definition all_classes :: "RouteClass list" where
  "all_classes =
    [ClassThemeAsset, ClassSetup, ClassIndex, ClassPages,
     ClassRegister, ClassLogin, ClassLogout, ClassReset, ClassConfirm,
     ClassChallengeList, ClassChallengeDetail, ClassChallengeAttempt, ClassChallengeSolves,
     ClassHintUnlock, ClassSolutionUnlock,
     ClassScoreboard, ClassScoreboardDetail,
     ClassAccountList, ClassAccountDetail, ClassAccountSelf,
     ClassPasswordChange,
     ClassTeamEnrollment, ClassTeamSelf, ClassTeamCreate, ClassTeamDetail,
     ClassTokens, ClassSSE, ClassNotifications, ClassSolveFeed,
     ClassAdmin, ClassAdminScoreboard, ClassStatistics, ClassExport]"

subsection \<open>Consistency of the table\<close>

text \<open>Facts of the table that the gates rely on, each by going through its rows.\<close>

lemma mutates_score_requires:
  "mutates_score (class_attrs c) \<Longrightarrow> requires_auth (class_attrs c)
    \<and> requires_verified (class_attrs c) \<and> time_gated (class_attrs c)
    \<and> \<not> exempt_from_ban (class_attrs c) \<and> \<not> exempt_from_password_change (class_attrs c)"
  by (cases c) (simp_all add: class_attrs_def no_attrs_def)

lemma ban_exempt_only_assets: "exempt_from_ban (class_attrs c) \<longleftrightarrow> c = ClassThemeAsset"
  by (cases c) (simp_all add: class_attrs_def no_attrs_def)

lemma admin_only_classes:
  "admin_only (class_attrs c)
    \<longleftrightarrow> c \<in> {ClassAdmin, ClassAdminScoreboard, ClassStatistics, ClassExport}"
  by (cases c) (simp_all add: class_attrs_def no_attrs_def)

lemma closes_at_end_classes:
  "closes_at_end (class_attrs c) \<longleftrightarrow> c = ClassTeamEnrollment \<or> c = ClassTeamCreate"
  by (cases c) (simp_all add: class_attrs_def no_attrs_def)

lemma registration_gate_only_register:
  "VisRegistration \<in> set (vis_gates (class_attrs c)) \<longleftrightarrow> c = ClassRegister"
  by (cases c) (simp_all add: class_attrs_def no_attrs_def)

lemma class_name_inj:
  "list_all (\<lambda>c. list_all (\<lambda>d. class_name c = class_name d \<longrightarrow> c = d) all_classes) all_classes"
  by code_simp

lemma all_classes_complete: "c \<in> set all_classes \<longleftrightarrow> c \<noteq> ClassUnknown \<and> (\<forall>n. c \<noteq> ClassOther n)"
  by (cases c) (simp_all add: all_classes_def)

end
