(* ===== verification/Decide.thy ===== *)
theory Decide
  imports Route_Class "HOL-Library.Multiset"
begin

section \<open>The route policy gate (internal/domain/policy/decide.go)\<close>

text \<open>
  \<open>Decide\<close> is a chain of gates with early returns: each numbered paragraph of the Go function is
  one definition here, a function from the input to an optional outcome (\<open>None\<close> falls through to
  the next gate), and \<open>decide\<close> runs them in the order of the source. The theory first states what
  any such chain satisfies, as the locale \<open>gate_chain\<close>, then interprets it on the gates of the code
  and on the loop over the visibility gates.
\<close>

subsection \<open>Gate chains\<close>

fun run_gates :: "'o \<Rightarrow> ('p \<Rightarrow> 'o option) list \<Rightarrow> 'p \<Rightarrow> 'o" where
  "run_gates pass [] p = pass"
| "run_gates pass (g # gs) p = (case g p of Some out \<Rightarrow> out | None \<Rightarrow> run_gates pass gs p)"

locale gate_chain =
  fixes gates :: "('p \<Rightarrow> 'o option) list"
    and pass :: 'o
    and allows :: "'o \<Rightarrow> bool"
  assumes pass_allows: "allows pass"
    and gates_deny: "g \<in> set gates \<Longrightarrow> g p = Some out \<Longrightarrow> \<not> allows out"
begin

lemma run_sub_allows:
  "set gs \<subseteq> set gates \<Longrightarrow> allows (run_gates pass gs p) \<longleftrightarrow> (\<forall>g\<in>set gs. g p = None)"
  by (induction gs) (auto simp: pass_allows dest: gates_deny split: option.splits)

lemma run_allows: "allows (run_gates pass gates p) \<longleftrightarrow> (\<forall>g\<in>set gates. g p = None)"
  by (rule run_sub_allows) simp

lemma run_allows_pass: "allows (run_gates pass gates p) \<longleftrightarrow> run_gates pass gates p = pass"
proof
  assume "allows (run_gates pass gates p)"
  then have none: "\<forall>g\<in>set gates. g p = None" by (simp add: run_allows)
  have "\<forall>g\<in>set gs. g p = None \<Longrightarrow> run_gates pass gs p = pass" for gs
    by (induction gs) simp_all
  with none show "run_gates pass gates p = pass" by blast
qed (simp add: pass_allows)

lemma order_irrelevant:
  assumes "set gs = set gates"
  shows "allows (run_gates pass gs p) = allows (run_gates pass gates p)"
  using run_sub_allows [of gs p] run_allows [of p] assms by simp

end

lemma run_gates_outcome:
  assumes "list_all (\<lambda>g. \<forall>out. g p = Some out \<longrightarrow> Q out) gs" "Q pass"
  shows "Q (run_gates pass gs p)"
  using assms by (induction gs) (auto split: option.splits)

subsection \<open>Reasons and outcomes\<close>

datatype Reason =
    ReasonNone | ReasonSetupIncomplete | ReasonBanned | ReasonTeamBanned
  | ReasonPasswordChangeRequired | ReasonNotFound | ReasonAuthRequired
  | ReasonAuthenticationRequired | ReasonAdminsOnly | ReasonScoresHidden | ReasonUnverified
  | ReasonIncompleteProfile | ReasonIncompleteTeamProfile | ReasonTeamRequired
  | ReasonAlreadyOnTeam | ReasonTeamCreationDisabled | ReasonCTFNotStarted | ReasonCTFEnded
  | ReasonPaused | ReasonAlreadyAuthed | ReasonAdminRequired
  | ReasonOther nat

definition reason_string :: "Reason \<Rightarrow> string" where
  "reason_string r =
    (case r of
       ReasonNone \<Rightarrow> '''' | ReasonSetupIncomplete \<Rightarrow> ''setup-incomplete''
     | ReasonBanned \<Rightarrow> ''banned'' | ReasonTeamBanned \<Rightarrow> ''team-banned''
     | ReasonPasswordChangeRequired \<Rightarrow> ''password-change-required''
     | ReasonNotFound \<Rightarrow> ''not-found'' | ReasonAuthRequired \<Rightarrow> ''auth-required''
     | ReasonAuthenticationRequired \<Rightarrow> ''authentication-required''
     | ReasonAdminsOnly \<Rightarrow> ''admins-only'' | ReasonScoresHidden \<Rightarrow> ''scores-hidden''
     | ReasonUnverified \<Rightarrow> ''unverified'' | ReasonIncompleteProfile \<Rightarrow> ''incomplete-profile''
     | ReasonIncompleteTeamProfile \<Rightarrow> ''incomplete-team-profile''
     | ReasonTeamRequired \<Rightarrow> ''team-required'' | ReasonAlreadyOnTeam \<Rightarrow> ''already-on-team''
     | ReasonTeamCreationDisabled \<Rightarrow> ''team-creation-disabled''
     | ReasonCTFNotStarted \<Rightarrow> ''ctf-not-started'' | ReasonCTFEnded \<Rightarrow> ''ctf-ended''
     | ReasonPaused \<Rightarrow> ''paused'' | ReasonAlreadyAuthed \<Rightarrow> ''already-authed''
     | ReasonAdminRequired \<Rightarrow> ''admin-required''
     | ReasonOther n \<Rightarrow> ''Reason('' @ decimal (int n) @ '')'')"

record Outcome =
  allow :: bool
  status :: int
  redirect :: string
  reason :: Reason

definition denied :: "Outcome \<Rightarrow> bool" where
  "denied out \<longleftrightarrow> \<not> allow out"

definition Allow :: Outcome where
  "Allow = \<lparr>allow = True, status = 0, redirect = '''', reason = ReasonNone\<rparr>"

definition AuthRequired :: Outcome where
  "AuthRequired =
    \<lparr>allow = False, status = 403, redirect = ''/login'', reason = ReasonAuthRequired\<rparr>"

definition NotFound :: Outcome where
  "NotFound = \<lparr>allow = False, status = 404, redirect = '''', reason = ReasonNotFound\<rparr>"

text \<open>The two literals the code writes in place: a bare refusal, and a redirect without a status.\<close>

abbreviation refuse :: "Reason \<Rightarrow> Outcome" where
  "refuse r \<equiv> \<lparr>allow = False, status = 403, redirect = '''', reason = r\<rparr>"

abbreviation send_to :: "string \<Rightarrow> Reason \<Rightarrow> Outcome" where
  "send_to url r \<equiv> \<lparr>allow = False, status = 0, redirect = url, reason = r\<rparr>"

subsection \<open>The input\<close>

record Request =
  req_class :: RouteClass
  surface :: Surface
  admin_view :: bool
  preview :: bool

record Policy =
  E :: Event
  P :: Principal
  R :: Request

subsection \<open>The gates\<close>

definition check_vis :: "VisKind \<Rightarrow> Event \<Rightarrow> Principal \<Rightarrow> Outcome" where
  "check_vis kind e pr =
    (case vis_for e kind of
       VisPublic \<Rightarrow> Allow
     | VisPrivate \<Rightarrow>
         (if kind = VisRegistration then NotFound
          else if authed pr then Allow else AuthRequired)
     | VisHidden \<Rightarrow> (if is_admin pr then Allow else refuse ReasonScoresHidden)
     | VisAdmins \<Rightarrow>
         (if is_admin pr then Allow
          else if kind = VisChallenge then
            (if authed pr then refuse ReasonAdminsOnly else AuthRequired)
          else NotFound)
     | VisMLC \<Rightarrow> NotFound
     | VisOther _ \<Rightarrow> NotFound)"

definition vis_gate :: "VisKind \<Rightarrow> Policy \<Rightarrow> Outcome option" where
  "vis_gate kind p =
    (if denied (check_vis kind (E p) (P p)) then Some (check_vis kind (E p) (P p)) else None)"

definition gate_unknown :: "Policy \<Rightarrow> Outcome option" where
  "gate_unknown p = (if req_class (R p) = ClassUnknown then Some NotFound else None)"

definition gate_setup :: "Policy \<Rightarrow> Outcome option" where
  "gate_setup p =
    (if \<not> setup_done (E p) \<and> req_class (R p) \<noteq> ClassSetup \<and> req_class (R p) \<noteq> ClassThemeAsset
     then Some (send_to ''/setup'' ReasonSetupIncomplete)
     else if setup_done (E p) \<and> req_class (R p) = ClassSetup then Some NotFound
     else None)"

definition gate_ban :: "Policy \<Rightarrow> Outcome option" where
  "gate_ban p =
    (if authed (P p) \<and> \<not> exempt_from_ban (class_attrs (req_class (R p))) then
       (if banned (P p) then Some (refuse ReasonBanned)
        else if team_banned (P p) then Some (refuse ReasonTeamBanned)
        else None)
     else None)"

definition gate_password :: "Policy \<Rightarrow> Outcome option" where
  "gate_password p =
    (if authed (P p) \<and> force_password_change (P p)
        \<and> \<not> exempt_from_password_change (class_attrs (req_class (R p)))
     then Some (send_to ''/change-password'' ReasonPasswordChangeRequired)
     else None)"

definition gate_mode :: "Policy \<Rightarrow> Outcome option" where
  "gate_mode p = (if \<not> available_in (req_class (R p)) (ev_mode (E p)) then Some NotFound else None)"

definition gate_admin :: "Policy \<Rightarrow> Outcome option" where
  "gate_admin p =
    (if admin_only (class_attrs (req_class (R p))) \<and> \<not> is_admin (P p)
     then Some (refuse ReasonAdminRequired) else None)"

definition gate_visibility :: "Policy \<Rightarrow> Outcome option" where
  "gate_visibility p =
    (let out = run_gates Allow (map vis_gate (vis_gates (class_attrs (req_class (R p))))) p
     in if denied out then Some out else None)"

definition gate_auth :: "Policy \<Rightarrow> Outcome option" where
  "gate_auth p =
    (if requires_auth (class_attrs (req_class (R p))) \<and> \<not> authed (P p) then
       (if req_class (R p) = ClassChallengeAttempt
        then Some (refuse ReasonAuthenticationRequired)
        else Some AuthRequired)
     else if req_class (R p) = ClassRegister \<and> authed (P p)
     then Some (send_to ''/challenges'' ReasonAlreadyAuthed)
     else None)"

definition gate_verified :: "Policy \<Rightarrow> Outcome option" where
  "gate_verified p =
    (if verify_emails (E p) \<and> authed (P p) \<and> \<not> is_admin (P p) \<and> \<not> verified (P p)
        \<and> requires_verified (class_attrs (req_class (R p)))
     then Some \<lparr>allow = False, status = 403, redirect = ''/confirm'', reason = ReasonUnverified\<rparr>
     else None)"

definition gate_profile :: "Policy \<Rightarrow> Outcome option" where
  "gate_profile p =
    (if requires_profile (class_attrs (req_class (R p))) \<and> authed (P p) \<and> \<not> is_admin (P p) then
       (if \<not> profile_complete (P p) then Some (send_to ''/settings'' ReasonIncompleteProfile)
        else if ev_mode (E p) = ModeTeams \<and> \<not> p_teamless (P p) \<and> \<not> team_profile_complete (P p)
        then Some (refuse ReasonIncompleteTeamProfile)
        else None)
     else None)"

definition gate_team :: "Policy \<Rightarrow> Outcome option" where
  "gate_team p =
    (if requires_team (class_attrs (req_class (R p))) \<and> ev_mode (E p) = ModeTeams
        \<and> p_teamless (P p) \<and> \<not> is_admin (P p)
     then Some \<lparr>allow = False, status = 403, redirect = ''/team'', reason = ReasonTeamRequired\<rparr>
     else if req_class (R p) = ClassTeamCreate then
       (if \<not> team_creation (E p) \<and> \<not> is_admin (P p)
        then Some (refuse ReasonTeamCreationDisabled)
        else if \<not> p_teamless (P p) then Some (refuse ReasonAlreadyOnTeam)
        else None)
     else None)"

definition gate_clock :: "Policy \<Rightarrow> Outcome option" where
  "gate_clock p =
    (if time_gated (class_attrs (req_class (R p))) \<and> \<not> is_admin (P p) then
       (case phase (E p) of
          PhaseRunning \<Rightarrow> None
        | PhaseEnded \<Rightarrow>
            (if mutates_score (class_attrs (req_class (R p))) \<or> \<not> view_after_ctf (E p)
             then Some (refuse ReasonCTFEnded) else None)
        | PhaseBeforeStart \<Rightarrow>
            (if ev_mode (E p) = ModeTeams \<and> p_teamless (P p)
             then Some (send_to ''/team'' ReasonTeamRequired)
             else Some (refuse ReasonCTFNotStarted)))
     else None)"

definition gate_enrollment :: "Policy \<Rightarrow> Outcome option" where
  "gate_enrollment p =
    (if closes_at_end (class_attrs (req_class (R p))) \<and> \<not> is_admin (P p)
        \<and> phase (E p) = PhaseEnded
     then Some (refuse ReasonCTFEnded) else None)"

definition gate_pause :: "Policy \<Rightarrow> Outcome option" where
  "gate_pause p =
    (if req_class (R p) = ClassChallengeAttempt \<and> paused (E p)
        \<and> (\<not> preview (R p) \<or> \<not> is_admin (P p))
     then Some (refuse ReasonPaused) else None)"

definition decide_gates :: "(Policy \<Rightarrow> Outcome option) list" where
  "decide_gates =
    [gate_unknown, gate_setup, gate_ban, gate_password, gate_mode, gate_admin, gate_visibility,
     gate_auth, gate_verified, gate_profile, gate_team, gate_clock, gate_enrollment, gate_pause]"

definition decide :: "Policy \<Rightarrow> Outcome" where
  "decide p = run_gates Allow decide_gates p"

text \<open>The gate of one published page, which runs after \<open>decide\<close> on the row (page.go).\<close>

definition page_view :: "bool \<Rightarrow> bool \<Rightarrow> Principal \<Rightarrow> Outcome" where
  "page_view draft auth_required pr =
    (if draft then NotFound
     else if auth_required \<and> \<not> authed pr then AuthRequired
     else Allow)"

subsection \<open>Interpretations\<close>

lemma outcome_consts [simp]:
  "allow Allow" "\<not> allow AuthRequired" "\<not> allow NotFound"
  by (simp_all add: Allow_def AuthRequired_def NotFound_def)

lemmas gate_defs =
  gate_unknown_def gate_setup_def gate_ban_def gate_password_def gate_mode_def gate_admin_def
  gate_visibility_def gate_auth_def gate_verified_def gate_profile_def gate_team_def
  gate_clock_def gate_enrollment_def gate_pause_def

text \<open>
  What the attributes of a class and the configuration admit: a visibility setting \<open>v\<close> of kind \<open>k\<close>
  admits a caller when it is public, or private to an authenticated caller, or names an
  administrator; registration is never merely private.
\<close>

definition admits :: "Vis \<Rightarrow> VisKind \<Rightarrow> Principal \<Rightarrow> bool" where
  "admits v k pr \<longleftrightarrow>
    v = VisPublic
    \<or> v = VisPrivate \<and> k \<noteq> VisRegistration \<and> authed pr
    \<or> v \<in> {VisHidden, VisAdmins} \<and> is_admin pr"

lemma check_vis_allow: "allow (check_vis k e pr) \<longleftrightarrow> admits (vis_for e k) k pr"
  by (cases "vis_for e k") (auto simp: check_vis_def admits_def)

lemma check_vis_pass: "allow (check_vis k e pr) \<Longrightarrow> check_vis k e pr = Allow"
  by (cases "vis_for e k") (auto simp: check_vis_def split: if_splits)

interpretation vg: gate_chain "map vis_gate kinds" Allow allow for kinds
  by unfold_locales (auto simp: vis_gate_def denied_def split: if_splits)

lemma vis_gate_None: "vis_gate k p = None \<longleftrightarrow> admits (vis_for (E p) k) k (P p)"
  by (simp add: vis_gate_def denied_def check_vis_allow)

lemma gate_visibility_None:
  "gate_visibility p = None
    \<longleftrightarrow> (\<forall>k\<in>set (vis_gates (class_attrs (req_class (R p)))). admits (vis_for (E p) k) k (P p))"
  by (simp add: gate_visibility_def Let_def denied_def vg.run_allows vis_gate_None)

lemma decide_gates_deny: "g \<in> set decide_gates \<Longrightarrow> g p = Some out \<Longrightarrow> \<not> allow out"
  by (auto simp: decide_gates_def gate_defs Let_def denied_def
      split: if_splits Phase.splits)

interpretation dg: gate_chain decide_gates Allow allow
  by unfold_locales (auto dest: decide_gates_deny)

lemma decide_allows_iff: "allow (decide p) \<longleftrightarrow> (\<forall>g\<in>set decide_gates. g p = None)"
  by (simp add: decide_def dg.run_allows)

lemma gates_None:
  "gate_unknown p = None \<longleftrightarrow> req_class (R p) \<noteq> ClassUnknown"
  "gate_setup p = None \<longleftrightarrow>
    (if setup_done (E p) then req_class (R p) \<noteq> ClassSetup
     else req_class (R p) \<in> {ClassSetup, ClassThemeAsset})"
  "gate_ban p = None \<longleftrightarrow>
    (authed (P p) \<longrightarrow> (banned (P p) \<or> team_banned (P p)) \<longrightarrow> req_class (R p) = ClassThemeAsset)"
  "gate_password p = None \<longleftrightarrow>
    (authed (P p) \<longrightarrow> force_password_change (P p)
      \<longrightarrow> exempt_from_password_change (class_attrs (req_class (R p))))"
  "gate_mode p = None \<longleftrightarrow> available_in (req_class (R p)) (ev_mode (E p))"
  "gate_admin p = None \<longleftrightarrow> (admin_only (class_attrs (req_class (R p))) \<longrightarrow> is_admin (P p))"
  "gate_auth p = None \<longleftrightarrow>
    (requires_auth (class_attrs (req_class (R p))) \<longrightarrow> authed (P p))
    \<and> (req_class (R p) = ClassRegister \<longrightarrow> \<not> authed (P p))"
  "gate_verified p = None \<longleftrightarrow>
    (requires_verified (class_attrs (req_class (R p))) \<longrightarrow> verify_emails (E p) \<longrightarrow> authed (P p)
      \<longrightarrow> is_admin (P p) \<or> verified (P p))"
  "gate_profile p = None \<longleftrightarrow>
    (requires_profile (class_attrs (req_class (R p))) \<longrightarrow> authed (P p) \<longrightarrow> \<not> is_admin (P p)
      \<longrightarrow> profile_complete (P p)
        \<and> (ev_mode (E p) = ModeTeams \<longrightarrow> p_teamless (P p) \<or> team_profile_complete (P p)))"
  "gate_team p = None \<longleftrightarrow>
    (requires_team (class_attrs (req_class (R p))) \<longrightarrow> ev_mode (E p) = ModeTeams
      \<longrightarrow> p_teamless (P p) \<longrightarrow> is_admin (P p))
    \<and> (req_class (R p) = ClassTeamCreate
      \<longrightarrow> p_teamless (P p) \<and> (team_creation (E p) \<or> is_admin (P p)))"
  "gate_clock p = None \<longleftrightarrow>
    (time_gated (class_attrs (req_class (R p))) \<longrightarrow> \<not> is_admin (P p)
      \<longrightarrow> phase (E p) = PhaseRunning
        \<or> phase (E p) = PhaseEnded \<and> view_after_ctf (E p)
          \<and> \<not> mutates_score (class_attrs (req_class (R p))))"
  "gate_enrollment p = None \<longleftrightarrow>
    (closes_at_end (class_attrs (req_class (R p))) \<longrightarrow> \<not> is_admin (P p)
      \<longrightarrow> phase (E p) \<noteq> PhaseEnded)"
  "gate_pause p = None \<longleftrightarrow>
    (req_class (R p) = ClassChallengeAttempt \<longrightarrow> paused (E p) \<longrightarrow> preview (R p) \<and> is_admin (P p))"
  subgoal by (simp add: gate_defs)
  subgoal by (simp add: gate_defs)
  subgoal by (auto simp: gate_defs ban_exempt_only_assets)
  subgoal by (auto simp: gate_defs)
  subgoal by (simp add: gate_defs)
  subgoal by (simp add: gate_defs)
  subgoal by (auto simp: gate_defs)
  subgoal by (auto simp: gate_defs)
  subgoal by (auto simp: gate_defs)
  subgoal by (auto simp: gate_defs class_attrs_def no_attrs_def)
  subgoal by (cases "phase (E p)") (auto simp: gate_defs)
  subgoal by (auto simp: gate_defs)
  subgoal by (auto simp: gate_defs)
  done

subsection \<open>What the gate decides\<close>

text \<open>
  The specification, with no order in it: the route must exist for this event, the caller must be
  acceptable, the visibility settings must admit the caller, the account must be ready to play, and
  the clock must be open.
\<close>

definition route_exists :: "Policy \<Rightarrow> bool" where
  "route_exists p \<longleftrightarrow>
    req_class (R p) \<noteq> ClassUnknown
    \<and> (if setup_done (E p) then req_class (R p) \<noteq> ClassSetup
       else req_class (R p) \<in> {ClassSetup, ClassThemeAsset})
    \<and> available_in (req_class (R p)) (ev_mode (E p))"

definition caller_acceptable :: "Policy \<Rightarrow> bool" where
  "caller_acceptable p \<longleftrightarrow>
    (let a = class_attrs (req_class (R p)); pr = P p in
      (if authed pr then
         (req_class (R p) = ClassThemeAsset \<or> \<not> banned pr \<and> \<not> team_banned pr)
         \<and> (exempt_from_password_change a \<or> \<not> force_password_change pr)
         \<and> req_class (R p) \<noteq> ClassRegister
       else \<not> requires_auth a)
      \<and> (admin_only a \<longrightarrow> is_admin pr))"

definition sees :: "Policy \<Rightarrow> bool" where
  "sees p \<longleftrightarrow>
    list_all (\<lambda>k. admits (vis_for (E p) k) k (P p)) (vis_gates (class_attrs (req_class (R p))))"

definition ready_to_play :: "Policy \<Rightarrow> bool" where
  "ready_to_play p \<longleftrightarrow>
    (let a = class_attrs (req_class (R p)); pr = P p; teams = (ev_mode (E p) = ModeTeams) in
      (is_admin pr \<or>
        (requires_verified a \<and> verify_emails (E p) \<and> authed pr \<longrightarrow> verified pr)
        \<and> (requires_profile a \<and> authed pr \<longrightarrow>
            profile_complete pr \<and> (teams \<longrightarrow> p_teamless pr \<or> team_profile_complete pr))
        \<and> (requires_team a \<and> teams \<longrightarrow> \<not> p_teamless pr)
        \<and> (req_class (R p) = ClassTeamCreate \<longrightarrow> team_creation (E p)))
      \<and> (req_class (R p) = ClassTeamCreate \<longrightarrow> p_teamless pr))"

definition clock_open :: "Policy \<Rightarrow> bool" where
  "clock_open p \<longleftrightarrow>
    (let a = class_attrs (req_class (R p)) in
      (is_admin (P p) \<or>
        (case phase (E p) of
           PhaseBeforeStart \<Rightarrow> \<not> time_gated a
         | PhaseRunning \<Rightarrow> True
         | PhaseEnded \<Rightarrow>
             (time_gated a \<longrightarrow> view_after_ctf (E p) \<and> \<not> mutates_score a) \<and> \<not> closes_at_end a))
      \<and> (req_class (R p) = ClassChallengeAttempt \<and> paused (E p)
          \<longrightarrow> is_admin (P p) \<and> preview (R p)))"

definition permitted :: "Policy \<Rightarrow> bool" where
  "permitted p \<longleftrightarrow>
    route_exists p \<and> caller_acceptable p \<and> sees p \<and> ready_to_play p \<and> clock_open p"

lemma decide_gates_all:
  "(\<forall>g\<in>set decide_gates. g p = None) \<longleftrightarrow>
    (gate_unknown p = None \<and> gate_setup p = None \<and> gate_mode p = None)
    \<and> (gate_ban p = None \<and> gate_password p = None \<and> gate_auth p = None \<and> gate_admin p = None)
    \<and> gate_visibility p = None
    \<and> (gate_verified p = None \<and> gate_profile p = None \<and> gate_team p = None)
    \<and> (gate_clock p = None \<and> gate_enrollment p = None \<and> gate_pause p = None)"
  by (auto simp: decide_gates_def)

lemma permitted_gates: "permitted p \<longleftrightarrow> (\<forall>g\<in>set decide_gates. g p = None)"
proof -
  have "route_exists p \<longleftrightarrow>
      gate_unknown p = None \<and> gate_setup p = None \<and> gate_mode p = None"
    by (auto simp: route_exists_def gates_None)
  moreover have "caller_acceptable p \<longleftrightarrow>
      gate_ban p = None \<and> gate_password p = None \<and> gate_auth p = None \<and> gate_admin p = None"
    by (auto simp: caller_acceptable_def gates_None Let_def)
  moreover have "sees p \<longleftrightarrow> gate_visibility p = None"
    by (simp add: sees_def gate_visibility_None list_all_iff)
  moreover have "ready_to_play p \<longleftrightarrow>
      gate_verified p = None \<and> gate_profile p = None \<and> gate_team p = None"
    by (auto simp: ready_to_play_def gates_None Let_def)
  moreover have "clock_open p \<longleftrightarrow>
      gate_clock p = None \<and> gate_enrollment p = None \<and> gate_pause p = None"
    by (cases "phase (E p)") (auto simp: clock_open_def gates_None Let_def)
  ultimately show ?thesis
    unfolding decide_gates_all permitted_def by simp
qed

lemma decide_permitted: "allow (decide p) \<longleftrightarrow> permitted p"
  by (simp add: decide_allows_iff permitted_gates)

text \<open>A sample input for the witnesses: a confirmed player submitting a flag in a running event.\<close>

definition sample_event :: Event where
  "sample_event =
    \<lparr>ev_mode = ModeUsers, setup_done = True, challenge_vis = VisPublic, score_vis = VisPublic,
     account_vis = VisPublic, registration_vis = VisPublic, verify_emails = True,
     view_after_ctf = True, phase = PhaseRunning, paused = False, freeze_at = None,
     team_creation = True\<rparr>"

definition anonymous :: Principal where
  "anonymous =
    \<lparr>authed = False, is_admin = False, verified = False, banned = False, team_banned = False,
     p_teamless = False, profile_complete = False, team_profile_complete = False,
     force_password_change = False, user_id = 0, account_id = 0\<rparr>"

definition sample_player :: Principal where
  "sample_player =
    anonymous\<lparr>authed := True, verified := True, profile_complete := True, user_id := 7,
      account_id := 7\<rparr>"

definition sample_request :: "RouteClass \<Rightarrow> Request" where
  "sample_request c =
    \<lparr>req_class = c, surface = SurfacePublic, admin_view = False, preview = False\<rparr>"

definition sample_policy :: "RouteClass \<Rightarrow> Policy" where
  "sample_policy c = \<lparr>E = sample_event, P = sample_player, R = sample_request c\<rparr>"

lemmas sample_defs =
  sample_event_def anonymous_def sample_player_def sample_request_def sample_policy_def

text \<open>A denial the transport can render: a reason, and a status or a place to go.\<close>

definition renderable :: "Outcome \<Rightarrow> bool" where
  "renderable out \<longleftrightarrow>
    reason out \<noteq> ReasonNone
    \<and> (status out \<in> {403, 404} \<or> status out = 0 \<and> 0 < length (redirect out))"

lemma check_vis_renderable: "allow (check_vis k e pr) \<or> renderable (check_vis k e pr)"
  by (cases "vis_for e k")
    (auto simp: check_vis_def Allow_def NotFound_def AuthRequired_def renderable_def)

lemma visibility_renderable: "gate_visibility p = Some out \<Longrightarrow> renderable out"
proof -
  have "allow (run_gates Allow (map vis_gate ks) p)
      \<or> renderable (run_gates Allow (map vis_gate ks) p)" for ks
    by (rule run_gates_outcome)
      (use check_vis_renderable in \<open>auto simp: list_all_iff vis_gate_def denied_def\<close>)
  then show "gate_visibility p = Some out \<Longrightarrow> renderable out"
    by (auto simp: gate_visibility_def Let_def denied_def split: if_splits)
qed

lemma gates_renderable: "list_all (\<lambda>g. \<forall>out. g p = Some out \<longrightarrow> renderable out) decide_gates"
proof -
  note d = renderable_def NotFound_def AuthRequired_def
  have "gate_unknown p = Some out \<Longrightarrow> renderable out" for out
    by (auto simp: gate_unknown_def d split: if_splits)
  moreover have "gate_setup p = Some out \<Longrightarrow> renderable out" for out
    by (auto simp: gate_setup_def d split: if_splits)
  moreover have "gate_ban p = Some out \<Longrightarrow> renderable out" for out
    by (auto simp: gate_ban_def d split: if_splits)
  moreover have "gate_password p = Some out \<Longrightarrow> renderable out" for out
    by (auto simp: gate_password_def d split: if_splits)
  moreover have "gate_mode p = Some out \<Longrightarrow> renderable out" for out
    by (auto simp: gate_mode_def d split: if_splits)
  moreover have "gate_admin p = Some out \<Longrightarrow> renderable out" for out
    by (auto simp: gate_admin_def d split: if_splits)
  moreover have "gate_auth p = Some out \<Longrightarrow> renderable out" for out
    by (auto simp: gate_auth_def d split: if_splits)
  moreover have "gate_verified p = Some out \<Longrightarrow> renderable out" for out
    by (auto simp: gate_verified_def d split: if_splits)
  moreover have "gate_profile p = Some out \<Longrightarrow> renderable out" for out
    by (auto simp: gate_profile_def d split: if_splits)
  moreover have "gate_team p = Some out \<Longrightarrow> renderable out" for out
    by (auto simp: gate_team_def d split: if_splits)
  moreover have "gate_clock p = Some out \<Longrightarrow> renderable out" for out
    by (cases "phase (E p)") (auto simp: gate_clock_def d split: if_splits)
  moreover have "gate_enrollment p = Some out \<Longrightarrow> renderable out" for out
    by (auto simp: gate_enrollment_def d split: if_splits)
  moreover have "gate_pause p = Some out \<Longrightarrow> renderable out" for out
    by (auto simp: gate_pause_def d split: if_splits)
  ultimately show ?thesis
    using visibility_renderable [of p] by (simp add: decide_gates_def)
qed

lemma decide_renderable: "allow (decide p) \<or> renderable (decide p)"
  unfolding decide_def
  by (rule run_gates_outcome) (use gates_renderable [of p] in \<open>auto simp: list_all_iff\<close>)

text \<open>
  C18: \<open>Decide\<close> allows a request exactly when the order-free specification permits it, and then
  returns \<open>Allow\<close> itself with no reason; a denied request carries a reason and either the status
  403 or 404 or a place to go, so the transport has something to render whichever form it picks.
\<close>
theorem decide_exact:
  "(allow (decide p) \<longleftrightarrow> permitted p) \<and> (permitted p \<longleftrightarrow> decide p = Allow)
    \<and> (permitted p \<longleftrightarrow> \<not> renderable (decide p))"
proof -
  have "permitted p \<longleftrightarrow> decide p = Allow"
    using dg.run_allows_pass [of p] decide_permitted [of p] by (simp add: decide_def)
  moreover have "\<not> renderable Allow" by (simp add: renderable_def Allow_def)
  ultimately show ?thesis
    using decide_renderable [of p] decide_permitted [of p] by auto
qed

text \<open>
  The order of the gates is part of the contract only for the answer a denied caller gets:
  running the same gates in any other order allows the same requests.
\<close>
theorem gate_order_never_changes_allow:
  "mset gs = mset decide_gates \<Longrightarrow> allow (run_gates Allow gs p) = allow (decide p)"
  unfolding decide_def by (rule dg.order_irrelevant) (rule mset_eq_setD)

lemma gate_order_never_changes_allow_witness:
  "allow (run_gates Allow (rev decide_gates) (sample_policy ClassChallengeAttempt))"
proof -
  have "allow (decide (sample_policy ClassChallengeAttempt))" by code_simp
  then show ?thesis
    using gate_order_never_changes_allow [of "rev decide_gates"] by simp
qed

text \<open>
  No request that can change a score gets through unless the event is set up, the caller is
  authenticated, neither it nor its team is banned, its address is confirmed where that is
  required, the instant lies after the start and not after the end, and, for a flag submission,
  the event is not paused. Only an administrator is excused from the confirmation and the clock,
  and from the pause only when previewing; \<open>view_after_ctf\<close> excuses nobody.
\<close>
theorem score_mutation_guarded:
  assumes "allow (decide p)" "mutates_score (class_attrs (req_class (R p)))"
    "phase (E p) = phase_at now start end_at"
  shows "setup_done (E p) \<and> authed (P p) \<and> \<not> banned (P p) \<and> \<not> team_banned (P p)
    \<and> (is_admin (P p) \<or>
        (verify_emails (E p) \<longrightarrow> verified (P p))
        \<and> list_all (\<lambda>s. s < now) (case start of None \<Rightarrow> [] | Some s \<Rightarrow> [s])
        \<and> list_all (\<lambda>e. now \<le> e) (case end_at of None \<Rightarrow> [] | Some e \<Rightarrow> [e]))
    \<and> (req_class (R p) = ClassChallengeAttempt \<and> paused (E p)
        \<longrightarrow> is_admin (P p) \<and> preview (R p))"
proof -
  have perm: "permitted p" using assms(1) by (simp add: decide_permitted)
  have c: "req_class (R p) \<noteq> ClassSetup" "req_class (R p) \<noteq> ClassThemeAsset"
    using assms(2) by (auto simp: class_attrs_def no_attrs_def)
  have "setup_done (E p)" "authed (P p)" "\<not> banned (P p)" "\<not> team_banned (P p)"
    using perm c mutates_score_requires [OF assms(2)]
    by (auto simp: permitted_def route_exists_def caller_acceptable_def Let_def split: if_splits)
  moreover have "is_admin (P p) \<or> (verify_emails (E p) \<longrightarrow> verified (P p))"
    using perm mutates_score_requires [OF assms(2)] \<open>authed (P p)\<close>
    by (auto simp: permitted_def ready_to_play_def Let_def)
  moreover have "is_admin (P p) \<or> phase (E p) = PhaseRunning"
    using perm mutates_score_requires [OF assms(2)] assms(2)
    by (cases "phase (E p)") (auto simp: permitted_def clock_open_def Let_def)
  moreover have "req_class (R p) = ClassChallengeAttempt \<and> paused (E p)
      \<longrightarrow> is_admin (P p) \<and> preview (R p)"
    using perm by (simp add: permitted_def clock_open_def Let_def)
  ultimately show ?thesis
    using assms(3) phase_at_cases(3) [of now start end_at] by (auto split: option.splits)
qed

lemma score_mutation_guarded_witness:
  "\<not> banned (P (sample_policy ClassHintUnlock)) \<and> (10::time) < 20"
proof -
  have "allow (decide (sample_policy ClassHintUnlock))" by code_simp
  moreover have "mutates_score (class_attrs (req_class (R (sample_policy ClassHintUnlock))))"
    by code_simp
  moreover have "phase (E (sample_policy ClassHintUnlock)) = phase_at 20 (Some 10) (Some 20)"
    by (simp add: sample_defs phase_at_def)
  ultimately have "\<not> banned (P (sample_policy ClassHintUnlock))"
    using score_mutation_guarded [of "sample_policy ClassHintUnlock" 20 "Some 10" "Some 20"] by blast
  then show ?thesis by simp
qed

text \<open>
  The ban wall. An authenticated caller who is banned, or whose team is, is denied every class
  but the theme assets; and where the route exists for the event's setup state the answer is
  exactly the 403 that names the ban, the caller's own ban first.
\<close>
theorem ban_wall:
  assumes "authed (P p)" "banned (P p) \<or> team_banned (P p)" "req_class (R p) \<noteq> ClassThemeAsset"
  shows "\<not> allow (decide p)
    \<and> (req_class (R p) \<noteq> ClassUnknown \<and> (setup_done (E p) \<longleftrightarrow> req_class (R p) \<noteq> ClassSetup)
        \<longrightarrow> decide p = refuse (if banned (P p) then ReasonBanned else ReasonTeamBanned))"
proof
  show "\<not> allow (decide p)"
    using assms by (auto simp: decide_permitted permitted_def caller_acceptable_def Let_def)
  show "req_class (R p) \<noteq> ClassUnknown \<and> (setup_done (E p) \<longleftrightarrow> req_class (R p) \<noteq> ClassSetup)
        \<longrightarrow> decide p = refuse (if banned (P p) then ReasonBanned else ReasonTeamBanned)"
    using assms by (auto simp: decide_def decide_gates_def gate_unknown_def gate_setup_def
        gate_ban_def ban_exempt_only_assets)
qed

lemma ban_wall_witness:
  "let p = (sample_policy ClassLogout)\<lparr>P := sample_player\<lparr>team_banned := True\<rparr>\<rparr>
   in reason (decide p) = ReasonTeamBanned"
  using ban_wall [of "(sample_policy ClassLogout)\<lparr>P := sample_player\<lparr>team_banned := True\<rparr>\<rparr>"]
  by (simp add: sample_defs)

lemma admin_components:
  fixes p :: Policy
  defines "q \<equiv> p\<lparr>P := (P p)\<lparr>is_admin := True\<rparr>\<rparr>"
  shows "route_exists q = route_exists p"
    "caller_acceptable p \<Longrightarrow> caller_acceptable q"
    "sees p \<Longrightarrow> sees q"
    "ready_to_play p \<Longrightarrow> ready_to_play q"
    "clock_open p \<Longrightarrow> clock_open q"
  subgoal by (simp add: q_def route_exists_def)
  subgoal by (simp add: q_def caller_acceptable_def Let_def)
  subgoal by (auto simp: q_def sees_def admits_def list_all_iff)
  subgoal by (simp add: q_def ready_to_play_def Let_def)
  subgoal by (simp add: q_def clock_open_def Let_def)
  done

lemma phase_components:
  fixes p :: Policy and ph :: Phase
  defines "q \<equiv> p\<lparr>E := (E p)\<lparr>phase := ph\<rparr>\<rparr>"
  shows "route_exists q = route_exists p"
    "caller_acceptable q = caller_acceptable p"
    "sees q = sees p"
    "ready_to_play q = ready_to_play p"
  subgoal by (simp add: q_def route_exists_def)
  subgoal by (simp add: q_def caller_acceptable_def Let_def)
  subgoal
    unfolding q_def sees_def by (rule list.pred_cong) (auto simp: vis_for_def split: VisKind.splits)
  subgoal by (simp add: q_def ready_to_play_def Let_def)
  done

text \<open>
  Being an administrator only ever widens what is allowed, whatever the class, the
  configuration and the rest of the principal are.
\<close>
theorem admin_only_widens:
  "allow (decide p) \<Longrightarrow> allow (decide (p\<lparr>P := (P p)\<lparr>is_admin := True\<rparr>\<rparr>))"
  by (simp add: decide_permitted permitted_def admin_components)

lemma admin_only_widens_witness:
  "allow (decide ((sample_policy ClassTokens)\<lparr>P := sample_player\<lparr>is_admin := True\<rparr>\<rparr>))"
proof -
  have "allow (decide (sample_policy ClassTokens))" by code_simp
  from admin_only_widens [OF this] show ?thesis by (simp add: sample_defs)
qed

text \<open>
  With email verification on, a logged-in caller whose address is not confirmed is sent to the
  confirmation page from every class that requires it, also where an anonymous visitor is let in:
  being logged out is strictly more permissive than being unverified.
\<close>
theorem unverified_stricter_than_anonymous:
  assumes "verify_emails (E p)" "requires_verified (class_attrs (req_class (R p)))"
    "authed (P p)" "\<not> is_admin (P p)" "\<not> verified (P p)"
    "\<not> banned (P p)" "\<not> team_banned (P p)" "\<not> force_password_change (P p)"
    "allow (decide (p\<lparr>P := anonymous\<rparr>))"
  shows "decide p =
    \<lparr>allow = False, status = 403, redirect = ''/confirm'', reason = ReasonUnverified\<rparr>"
proof -
  have perm: "permitted (p\<lparr>P := anonymous\<rparr>)" using assms(9) by (simp add: decide_permitted)
  have "gate_unknown p = None" "gate_setup p = None" "gate_mode p = None"
    using perm by (auto simp: permitted_def route_exists_def gates_None split: if_splits)
  moreover have "gate_ban p = None" "gate_password p = None"
    using assms by (auto simp: gates_None)
  moreover have "gate_admin p = None"
    using perm by (auto simp: permitted_def caller_acceptable_def Let_def gates_None anonymous_def)
  moreover have "gate_visibility p = None"
    using perm by (auto simp: permitted_def sees_def gate_visibility_None list_all_iff admits_def
        anonymous_def)
  moreover have "req_class (R p) \<noteq> ClassRegister"
    using assms(2) by (auto simp: class_attrs_def no_attrs_def)
  then have "gate_auth p = None" using assms(3) by (simp add: gates_None)
  ultimately show ?thesis
    using assms by (simp add: decide_def decide_gates_def gate_verified_def)
qed

lemma unverified_stricter_than_anonymous_witness:
  "let p = (sample_policy ClassChallengeList)\<lparr>P := sample_player\<lparr>verified := False\<rparr>\<rparr>
   in redirect (decide p) = ''/confirm''"
proof -
  let ?p = "(sample_policy ClassChallengeList)\<lparr>P := sample_player\<lparr>verified := False\<rparr>\<rparr>"
  have "allow (decide (?p\<lparr>P := anonymous\<rparr>))" by code_simp
  moreover have "requires_verified (class_attrs (req_class (R ?p)))" by code_simp
  ultimately have "decide ?p =
      \<lparr>allow = False, status = 403, redirect = ''/confirm'', reason = ReasonUnverified\<rparr>"
    by (intro unverified_stricter_than_anonymous) (simp_all add: sample_defs)
  then show ?thesis by simp
qed

text \<open>
  The enrollment window. For the classes that assemble a team, a request allowed while the
  event runs is allowed before it starts, and after the end only an administrator's is, whatever
  \<open>view_after_ctf\<close> says.
\<close>
theorem enrollment_window:
  assumes "closes_at_end (class_attrs (req_class (R p)))"
  shows "(allow (decide (p\<lparr>E := (E p)\<lparr>phase := PhaseBeforeStart\<rparr>\<rparr>))
          \<longleftrightarrow> allow (decide (p\<lparr>E := (E p)\<lparr>phase := PhaseRunning\<rparr>\<rparr>)))
    \<and> (allow (decide (p\<lparr>E := (E p)\<lparr>phase := PhaseEnded\<rparr>\<rparr>))
          \<longleftrightarrow> is_admin (P p) \<and> allow (decide (p\<lparr>E := (E p)\<lparr>phase := PhaseRunning\<rparr>\<rparr>)))"
proof -
  have "req_class (R p) = ClassTeamEnrollment \<or> req_class (R p) = ClassTeamCreate"
    using assms by (simp add: closes_at_end_classes)
  then have "\<not> time_gated (class_attrs (req_class (R p)))"
    "req_class (R p) \<noteq> ClassChallengeAttempt"
    by (auto simp: class_attrs_def no_attrs_def)
  then show ?thesis
    using assms by (auto simp: decide_permitted permitted_def phase_components clock_open_def)
qed

lemma enrollment_window_witness:
  "\<not> allow (decide \<lparr>E = sample_event\<lparr>ev_mode := ModeTeams, phase := PhaseEnded\<rparr>,
      P = sample_player\<lparr>p_teamless := True\<rparr>, R = sample_request ClassTeamCreate\<rparr>)"
  using enrollment_window
    [of "\<lparr>E = sample_event\<lparr>ev_mode := ModeTeams\<rparr>, P = sample_player\<lparr>p_teamless := True\<rparr>,
         R = sample_request ClassTeamCreate\<rparr>"]
  by (simp add: sample_defs class_attrs_def no_attrs_def)

end
