(* ===== verification/Freeze_Redact.thy ===== *)
theory Freeze_Redact
  imports Decide
begin

section \<open>Freeze exemption and redaction (freeze.go, redact.go, named_policies.go)\<close>

text \<open>
  Freeze and redaction are the two consumers of the policy beside the gate: the first decides
  whether a query sees rows past the freeze, the second which fetched values are withheld. A Go
  pointer is an option here, and \<open>nil\<close> for a slice the empty list, which is what a caller can see
  of it.
\<close>

subsection \<open>Freeze\<close>

definition freeze_exempt :: "Policy \<Rightarrow> bool" where
  "freeze_exempt p =
    (case req_class (R p) of
       ClassScoreboard \<Rightarrow> surface (R p) = SurfaceAdmin \<or> is_admin (P p) \<and> preview (R p)
     | ClassScoreboardDetail \<Rightarrow> surface (R p) = SurfaceAdmin
     | ClassAccountDetail \<Rightarrow> surface (R p) = SurfaceAdmin
     | ClassAccountList \<Rightarrow> surface (R p) = SurfaceAdmin
     | ClassChallengeList \<Rightarrow> is_admin (P p) \<and> admin_view (R p)
     | ClassChallengeDetail \<Rightarrow> False
     | ClassChallengeSolves \<Rightarrow> is_admin (P p) \<and> \<not> preview (R p)
     | ClassStatistics \<Rightarrow> True
     | ClassExport \<Rightarrow> True
     | ClassAdminScoreboard \<Rightarrow> True
     | _ \<Rightarrow> False)"

definition frozen :: "Policy \<Rightarrow> bool" where
  "frozen p \<longleftrightarrow> freeze_at (E p) \<noteq> None \<and> \<not> freeze_exempt p"

definition suppressed_by_freeze :: "time option \<Rightarrow> time \<Rightarrow> bool" where
  "suppressed_by_freeze horizon at =
    (case horizon of None \<Rightarrow> False | Some f \<Rightarrow> \<not> at < f)"

subsection \<open>Redaction\<close>

record Redactor =
  scores_visible :: bool
  accounts_visible :: bool

definition vis_visible :: "Vis \<Rightarrow> Principal \<Rightarrow> bool" where
  "vis_visible v pr =
    (case v of
       VisPublic \<Rightarrow> True
     | VisPrivate \<Rightarrow> authed pr
     | VisAdmins \<Rightarrow> is_admin pr
     | VisHidden \<Rightarrow> False
     | VisMLC \<Rightarrow> False
     | VisOther _ \<Rightarrow> False)"

definition new_redactor :: "Policy \<Rightarrow> Redactor" where
  "new_redactor p =
    \<lparr>scores_visible = vis_visible (score_vis (E p)) (P p),
     accounts_visible = vis_visible (account_vis (E p)) (P p)\<rparr>"

record AccountFields =
  af_score :: "int option"
  af_place :: "int option"

definition redact_account :: "Redactor \<Rightarrow> AccountFields \<Rightarrow> AccountFields" where
  "redact_account r f =
    (if \<not> scores_visible r then f\<lparr>af_score := None, af_place := None\<rparr> else f)"

definition redact_self :: "Redactor \<Rightarrow> AccountFields \<Rightarrow> AccountFields" where
  "redact_self r f = (if \<not> scores_visible r then f\<lparr>af_place := None\<rparr> else f)"

definition challenge_solve_count :: "Redactor \<Rightarrow> int option \<Rightarrow> int option" where
  "challenge_solve_count r n =
    (if scores_visible r \<and> accounts_visible r then n else None)"

record SolveEntry =
  se_name :: string
  se_value :: int
  se_date :: time

definition challenge_solve_list :: "Redactor \<Rightarrow> SolveEntry list \<Rightarrow> SolveEntry list" where
  "challenge_solve_list r solves =
    (if scores_visible r \<and> accounts_visible r then solves else [])"

record ProfileSolveEntry =
  pse_challenge :: id
  pse_name :: string
  pse_category :: string
  pse_value :: int
  pse_date :: time

definition profile_solve_list ::
  "Redactor \<Rightarrow> ProfileSolveEntry list \<Rightarrow> ProfileSolveEntry list" where
  "profile_solve_list r solves = (if scores_visible r then solves else [])"

record HistoryPoint =
  hp_date :: time
  hp_delta :: int
  hp_score :: int

definition profile_score_history :: "Redactor \<Rightarrow> HistoryPoint list \<Rightarrow> HistoryPoint list" where
  "profile_score_history r points = (if scores_visible r then points else [])"

record MemberContribution =
  mc_points :: "int option"
  mc_solve_count :: "int option"

definition redact_team_member :: "Redactor \<Rightarrow> MemberContribution \<Rightarrow> MemberContribution" where
  "redact_team_member r c =
    (if \<not> scores_visible r then c\<lparr>mc_points := None, mc_solve_count := None\<rparr> else c)"

subsection \<open>Caps and manual grading\<close>

definition counts_toward_cap :: "bool \<Rightarrow> bool \<Rightarrow> bool" where
  "counts_toward_cap is_banned is_hidden \<longleftrightarrow> \<not> is_banned \<and> \<not> is_hidden"

definition bypasses_caps :: "Principal \<Rightarrow> bool" where
  "bypasses_caps pr = is_admin pr"

definition solve_date_for_manual_grade :: "time \<Rightarrow> time" where
  "solve_date_for_manual_grade submitted_at = submitted_at"

subsection \<open>Properties\<close>

lemma freeze_exempt_public:
  assumes "freeze_exempt p" "surface (R p) = SurfacePublic"
  shows "is_admin (P p) \<or> admin_only (class_attrs (req_class (R p)))"
  using assms
  by (cases "req_class (R p)") (simp_all add: freeze_exempt_def class_attrs_def no_attrs_def)

text \<open>
  The frozen data never leaks on the public surface: with a freeze configured, a request on it
  that the gate allows is served live data only to an administrator who asked for it on one of the
  surfaces that offer it, and a query parameter moves nothing for anyone else.
\<close>
theorem public_surface_stays_frozen:
  assumes "allow (decide p)" "surface (R p) = SurfacePublic" "freeze_at (E p) = Some f"
  shows "(frozen p \<or> is_admin (P p))
    \<and> (\<not> is_admin (P p) \<longrightarrow>
        frozen (p\<lparr>R := (R p)\<lparr>preview := b, admin_view := b'\<rparr>\<rparr>))"
proof -
  have adm: "admin_only (class_attrs (req_class (R p))) \<longrightarrow> is_admin (P p)"
    using assms(1) by (simp add: decide_permitted permitted_def caller_acceptable_def Let_def)
  have "frozen p \<or> is_admin (P p)"
    using freeze_exempt_public [of p] adm assms by (auto simp: frozen_def)
  moreover have "\<not> is_admin (P p) \<longrightarrow> frozen (p\<lparr>R := (R p)\<lparr>preview := b, admin_view := b'\<rparr>\<rparr>)"
    using freeze_exempt_public [of "p\<lparr>R := (R p)\<lparr>preview := b, admin_view := b'\<rparr>\<rparr>"] adm assms
    by (auto simp: frozen_def)
  ultimately show ?thesis by blast
qed

lemma public_surface_stays_frozen_witness:
  "frozen \<lparr>E = sample_event\<lparr>freeze_at := Some 5\<rparr>, P = sample_player,
     R = (sample_request ClassScoreboard)\<lparr>preview := True, admin_view := True\<rparr>\<rparr>"
proof -
  let ?p = "\<lparr>E = sample_event\<lparr>freeze_at := Some 5\<rparr>, P = sample_player,
     R = sample_request ClassScoreboard\<rparr>"
  have "allow (decide ?p)" by code_simp
  then show ?thesis
    using public_surface_stays_frozen [of ?p 5 True True] by (simp add: sample_defs)
qed

text \<open>
  The gate and the redactor read a score or account setting alike: whoever the redactor shows
  the values to is let in by the gate, and the only caller the gate lets in and the redactor still
  withholds from is an administrator under \<open>hidden\<close>.
\<close>
theorem redactor_agrees_with_gate:
  "(vis_visible (score_vis (E p)) (P p) \<longleftrightarrow>
      allow (check_vis VisScore (E p) (P p)) \<and> score_vis (E p) \<noteq> VisHidden)
    \<and> (vis_visible (account_vis (E p)) (P p) \<longleftrightarrow>
      allow (check_vis VisAccount (E p) (P p)) \<and> account_vis (E p) \<noteq> VisHidden)
    \<and> new_redactor p = \<lparr>scores_visible = vis_visible (score_vis (E p)) (P p),
        accounts_visible = vis_visible (account_vis (E p)) (P p)\<rparr>"
  by (cases "score_vis (E p)"; cases "account_vis (E p)")
    (simp_all add: check_vis_allow admits_def vis_for_def vis_visible_def new_redactor_def)

text \<open>
  Redaction is non-interference. Where scores are withheld, what is served of another account,
  of a team member, of a profile's solves and of its score history is the same whatever the values
  were, and where scores or accounts are withheld so are the solve count of a challenge and the
  list whose length is that count; of the caller's own row only the place is withheld.
\<close>
theorem redaction_non_interference:
  "(if scores_visible r then
      redact_account r f = f \<and> redact_self r f = f \<and> redact_team_member r c = c
      \<and> profile_solve_list r ss = ss \<and> profile_score_history r hs = hs
    else
      redact_account r f = redact_account r f' \<and> redact_team_member r c = redact_team_member r c'
      \<and> profile_solve_list r ss = profile_solve_list r ss'
      \<and> profile_score_history r hs = profile_score_history r hs'
      \<and> af_score (redact_self r f) = af_score f
      \<and> af_place (redact_self r f) = af_place (redact_self r f'))
   \<and> (if scores_visible r \<and> accounts_visible r then
        challenge_solve_list r es = es
        \<and> challenge_solve_count r (Some (int (length es))) = Some (int (length es))
      else
        challenge_solve_list r es = challenge_solve_list r es'
        \<and> challenge_solve_count r n = challenge_solve_count r n')"
  by (simp add: redact_account_def redact_self_def redact_team_member_def profile_solve_list_def
      profile_score_history_def challenge_solve_list_def challenge_solve_count_def)

text \<open>The horizon of a suppressed announcement is the scoreboard's: the freeze instant is hidden.\<close>

lemma suppressed_by_freeze_iff [simp]:
  "suppressed_by_freeze None at \<longleftrightarrow> False"
  "suppressed_by_freeze (Some f) at \<longleftrightarrow> f \<le> at"
  by (auto simp: suppressed_by_freeze_def)

end
