(* ===== verification/Json.thy ===== *)
theory Json
  imports Go_Strings
begin

section \<open>JSON documents\<close>

text \<open>
  JSON values as \<open>encoding/json\<close> hands them to the program: syntax trees, with the members of an
  object in the order of the document and repeated names kept. An integer literal is \<open>JInt\<close>, any
  other number the text \<open>JNumber\<close>. A \<open>raw\<close> value is the bytes of a column or of a request member
  as far as the program looks at them: nothing but white space, no JSON, or one document.
\<close>

datatype json =
    JNull
  | JBool bool
  | JInt int
  | JNumber string
  | JString string
  | JArray "json list"
  | JObject "(string \<times> json) list"

datatype raw = RawEmpty | RawMalformed | RawDoc json

end
