(* ===== verification/Input_Rules.thy ===== *)
theory Input_Rules
  imports Json
begin

section \<open>The rules of operator and player input (internal/domain/geo, annotation, award, page, field)\<close>

text \<open>
  Five pure packages that decide what a write may store: country codes, challenge annotations,
  manual awards, CMS pages and custom registration fields. Each operation either refuses with one
  of its sentinel errors or returns the value to store. What they share is the locale \<open>cleaner\<close>:
  a value that came out of one goes through it again unchanged.
\<close>

locale cleaner =
  fixes clean :: "'a \<Rightarrow> ('e, 'a) result"
  assumes clean_idem: "clean v = Inr w \<Longrightarrow> clean w = Inr w"
begin

lemma stored_iff_fixed: "(\<exists>v. clean v = Inr w) \<longleftrightarrow> clean w = Inr w"
  using clean_idem by blast

lemma resave: "clean v = Inr w \<Longrightarrow> bind_result (clean w) clean = Inr w"
  by (simp add: clean_idem)

lemma resave_many: "clean v = Inr w \<Longrightarrow> foldl (\<lambda>r _. bind_result r clean) (Inr w) (xs :: 'b list) = Inr w"
  by (induction xs) (simp_all add: clean_idem)

end

subsection \<open>Country codes (geo.go)\<close>

datatype geo_error = ErrNotAlpha2 | ErrUnassigned

definition codes :: string where
  "codes =
    ''AD AE AF AG AI AL AM AO AQ AR AS AT AU AW AX AZ '' @
    ''BA BB BD BE BF BG BH BI BJ BL BM BN BO BQ BR BS BT BV BW BY BZ '' @
    ''CA CC CD CF CG CH CI CK CL CM CN CO CR CU CV CW CX CY CZ '' @
    ''DE DJ DK DM DO DZ '' @
    ''EC EE EG EH ER ES ET '' @
    ''FI FJ FK FM FO FR '' @
    ''GA GB GD GE GF GG GH GI GL GM GN GP GQ GR GS GT GU GW GY '' @
    ''HK HM HN HR HT HU '' @
    ''ID IE IL IM IN IO IQ IR IS IT '' @
    ''JE JM JO JP '' @
    ''KE KG KH KI KM KN KP KR KW KY KZ '' @
    ''LA LB LC LI LK LR LS LT LU LV LY '' @
    ''MA MC MD ME MF MG MH MK ML MM MN MO MP MQ MR MS MT MU MV MW MX MY MZ '' @
    ''NA NC NE NF NG NI NL NO NP NR NU NZ '' @
    ''OM '' @
    ''PA PE PF PG PH PK PL PM PN PR PS PT PW PY '' @
    ''QA '' @
    ''RE RO RS RU RW '' @
    ''SA SB SC SD SE SG SH SI SJ SK SL SM SN SO SR SS ST SV SX SY SZ '' @
    ''TC TD TF TG TH TJ TK TL TM TN TO TR TT TV TW TZ '' @
    ''UA UG UM US UY UZ '' @
    ''VA VC VE VG VI VN VU '' @
    ''WF WS '' @
    ''YE YT '' @
    ''ZA ZM ZW''"

definition assigned :: "string list" where
  "assigned = fields codes"

definition well_shaped :: "string \<Rightarrow> bool" where
  "well_shaped s = (if length s \<noteq> 2 then False else is_upper (s ! 0) \<and> is_upper (s ! 1))"

definition parse_alpha2 :: "string \<Rightarrow> (geo_error, string) result" where
  "parse_alpha2 s =
    (if \<not> well_shaped s then Inl ErrNotAlpha2
     else if \<not> List.member assigned s then Inl ErrUnassigned
     else Inr s)"

definition valid_alpha2 :: "string \<Rightarrow> bool" where
  "valid_alpha2 s = is_ok (parse_alpha2 s)"

definition country_count :: int where
  "country_count = int (length (remdups assigned))"

subsection \<open>Challenge annotations (annotation.go)\<close>

datatype annotation_error = ErrKeyShape | ErrValueEmpty | ErrValueTooLong | ErrCountry geo_error

definition max_key_len :: nat where "max_key_len = 64"
definition max_value_len :: nat where "max_value_len = 256"

definition key_country :: string where "key_country = ''country''"

definition key_byte :: "char \<Rightarrow> bool" where
  "key_byte c \<longleftrightarrow> is_lower c \<or> is_digit c \<or> c = CHR ''_''"

definition parse_key :: "string \<Rightarrow> (annotation_error, string) result" where
  "parse_key s =
    (if s = '''' \<or> max_key_len < length s then Inl ErrKeyShape
     else if \<not> is_lower (hd s) then Inl ErrKeyShape
     else if \<not> list_all key_byte (tl s) then Inl ErrKeyShape
     else Inr s)"

definition well_known :: "string \<Rightarrow> (string \<Rightarrow> (annotation_error, string) result) option" where
  "well_known k =
    (if k = key_country then
       Some (\<lambda>v. case parse_alpha2 v of Inl e \<Rightarrow> Inl (ErrCountry e) | Inr c \<Rightarrow> Inr c)
     else None)"

definition annotation_clean :: "string \<Rightarrow> string \<Rightarrow> (annotation_error, string) result" where
  "annotation_clean k v =
    (if v = '''' then Inl ErrValueEmpty
     else if max_value_len < rune_count v then Inl ErrValueTooLong
     else (case well_known k of Some f \<Rightarrow> f v | None \<Rightarrow> Inr v))"

definition is_well_known :: "string \<Rightarrow> bool" where
  "is_well_known k = (case well_known k of Some _ \<Rightarrow> True | None \<Rightarrow> False)"

subsection \<open>Manual awards (award.go)\<close>

datatype award_error = ErrZeroValue | ErrEmptyReason | ErrReasonTooLong

definition max_reason_len :: nat where "max_reason_len = 500"

definition validate_manual :: "int \<Rightarrow> string \<Rightarrow> (award_error, string) result" where
  "validate_manual v why =
    (if v = 0 then Inl ErrZeroValue
     else
       let cleaned = trim_space why in
       if cleaned = '''' then Inl ErrEmptyReason
       else if max_reason_len < rune_count cleaned then Inl ErrReasonTooLong
       else Inr cleaned)"

subsection \<open>CMS pages (page.go)\<close>

datatype page_error =
    ErrEmptyRoute | ErrRouteTooLong | ErrRouteInvalid | ErrEmptyTitle | ErrTitleTooLong
  | ErrContentTooLong | ErrUnknownFormat

definition max_route_len :: nat where "max_route_len = 64"
definition max_title_len :: nat where "max_title_len = 200"
definition max_content_bytes :: nat where "max_content_bytes = 262144"
definition format_markdown :: string where "format_markdown = ''markdown''"

record Content =
  pg_route :: string
  pg_title :: string
  pg_body :: string
  pg_format :: string

text \<open>
  The scan of \<open>validRoute\<close>. Go ranges over code points; a byte of 128 and above opens a code point
  that no arm accepts, so the scan over bytes stops with the same answer.
\<close>

fun route_scan :: "bool \<Rightarrow> bool \<Rightarrow> string \<Rightarrow> bool" where
  "route_scan first prev_hyphen [] = (\<not> prev_hyphen)"
| "route_scan first prev_hyphen (c # cs) =
    (if is_lower c \<or> is_digit c then route_scan False False cs
     else if c = CHR ''-'' then
       (if first \<or> prev_hyphen then False else route_scan False True cs)
     else False)"

definition valid_route :: "string \<Rightarrow> bool" where
  "valid_route s = route_scan True False s"

definition validate_route :: "string \<Rightarrow> (page_error, string) result" where
  "validate_route route =
    (let r = trim_space route in
     if r = '''' then Inl ErrEmptyRoute
     else if max_route_len < length r then Inl ErrRouteTooLong
     else if \<not> valid_route r then Inl ErrRouteInvalid
     else Inr r)"

definition validate_title :: "string \<Rightarrow> (page_error, string) result" where
  "validate_title title =
    (let t = trim_space title in
     if t = '''' then Inl ErrEmptyTitle
     else if max_title_len < rune_count t then Inl ErrTitleTooLong
     else Inr t)"

definition validate_body :: "string \<Rightarrow> (page_error, string) result" where
  "validate_body body = (if max_content_bytes < length body then Inl ErrContentTooLong else Inr body)"

definition validate_format :: "string \<Rightarrow> (page_error, string) result" where
  "validate_format fmt =
    (let f = (if fmt = '''' then format_markdown else fmt) in
     if f \<noteq> format_markdown then Inl ErrUnknownFormat else Inr f)"

definition validate_page :: "Content \<Rightarrow> (page_error, Content) result" where
  "validate_page c =
    bind_result (validate_route (pg_route c)) (\<lambda>r.
    bind_result (validate_title (pg_title c)) (\<lambda>t.
    bind_result (validate_body (pg_body c)) (\<lambda>b.
    bind_result (validate_format (pg_format c)) (\<lambda>f.
      Inr \<lparr>pg_route = r, pg_title = t, pg_body = b, pg_format = f\<rparr>))))"

subsection \<open>Registration fields (field.go)\<close>

datatype field_error =
    ErrEmptyName | ErrNameTooLong | ErrDescriptionTooLong | ErrUnknownType | ErrTypeMismatch
  | ErrTextTooLong

definition type_text :: string where "type_text = ''text''"
definition type_boolean :: string where "type_boolean = ''boolean''"
definition applies_user :: string where "applies_user = ''user''"
definition applies_team :: string where "applies_team = ''team''"

definition max_name_len :: nat where "max_name_len = 128"
definition max_description_len :: nat where "max_description_len = 500"
definition max_text_answer_len :: nat where "max_text_answer_len = 500"

definition valid_type :: "string \<Rightarrow> bool" where
  "valid_type t \<longleftrightarrow> t = type_text \<or> t = type_boolean"

definition valid_applies_to :: "string \<Rightarrow> bool" where
  "valid_applies_to a \<longleftrightarrow> a = applies_user \<or> a = applies_team"

definition clean_name :: "string \<Rightarrow> (field_error, string) result" where
  "clean_name name =
    (let cleaned = trim_space name in
     if cleaned = '''' then Inl ErrEmptyName
     else if max_name_len < rune_count cleaned then Inl ErrNameTooLong
     else Inr cleaned)"

definition clean_description :: "string option \<Rightarrow> (field_error, string option) result" where
  "clean_description desc =
    (case desc of
       None \<Rightarrow> Inr None
     | Some d \<Rightarrow>
         let cleaned = trim_space d in
         if cleaned = '''' then Inr None
         else if max_description_len < rune_count cleaned then Inl ErrDescriptionTooLong
         else Inr (Some cleaned))"

text \<open>
  An answer arrives as raw JSON; what is stored is again raw JSON. \<open>isJSONAbsent\<close> and \<open>IsAnswered\<close>
  compare trimmed bytes with the literals \<open>null\<close> and the empty string literal, which are the only
  spellings of those documents.
\<close>

definition is_json_absent :: "raw \<Rightarrow> bool" where
  "is_json_absent r \<longleftrightarrow> r = RawEmpty \<or> r = RawDoc JNull"

definition normalize_answer :: "string \<Rightarrow> raw \<Rightarrow> (field_error, raw \<times> bool) result" where
  "normalize_answer field_type r =
    (if is_json_absent r then Inr (RawDoc JNull, False)
     else if field_type = type_text then
       (case r of
          RawDoc (JString s) \<Rightarrow>
            let t = trim_space s in
            if t = '''' then Inr (RawDoc JNull, False)
            else if max_text_answer_len < rune_count t then Inl ErrTextTooLong
            else Inr (RawDoc (JString t), True)
        | _ \<Rightarrow> Inl ErrTypeMismatch)
     else if field_type = type_boolean then
       (case r of
          RawDoc (JBool b) \<Rightarrow> Inr (RawDoc (JBool b), True)
        | _ \<Rightarrow> Inl ErrTypeMismatch)
     else Inl ErrUnknownType)"

definition is_answered :: "raw \<Rightarrow> bool" where
  "is_answered r \<longleftrightarrow> \<not> (r = RawEmpty \<or> r = RawDoc JNull \<or> r = RawDoc (JString ''''))"

subsection \<open>What is stored stays acceptable\<close>

lemma parse_alpha2_Inr: "parse_alpha2 s = Inr c \<longleftrightarrow> c = s \<and> well_shaped s \<and> List.member assigned s"
  by (auto simp: parse_alpha2_def)

interpretation alpha2: cleaner parse_alpha2
  by unfold_locales (auto simp: parse_alpha2_Inr)

interpretation key: cleaner parse_key
  by unfold_locales (auto simp: parse_key_def split: if_splits)

lemma annotation_clean_Inr:
  "annotation_clean k v = Inr w \<longleftrightarrow>
    w = v \<and> v \<noteq> '''' \<and> rune_count v \<le> 256 \<and> (k = key_country \<longrightarrow> valid_alpha2 v)"
  by (auto simp: annotation_clean_def well_known_def max_value_len_def valid_alpha2_def
      parse_alpha2_def)

interpretation annotation: cleaner "annotation_clean k" for k
  by unfold_locales (auto simp: annotation_clean_Inr)

lemma validate_manual_Inr:
  "validate_manual v why = Inr w \<longleftrightarrow>
    v \<noteq> 0 \<and> w = trim_space why \<and> w \<noteq> '''' \<and> rune_count w \<le> 500"
  by (auto simp: validate_manual_def Let_def max_reason_len_def)

interpretation manual: cleaner "validate_manual v" for v
  by unfold_locales (auto simp: validate_manual_Inr)

lemma validate_route_Inr:
  "validate_route s = Inr r \<longleftrightarrow>
    r = trim_space s \<and> r \<noteq> '''' \<and> length r \<le> 64 \<and> valid_route r"
  by (auto simp: validate_route_def Let_def max_route_len_def)

interpretation route: cleaner validate_route
  by unfold_locales (auto simp: validate_route_Inr)

lemma validate_title_Inr:
  "validate_title s = Inr r \<longleftrightarrow> r = trim_space s \<and> r \<noteq> '''' \<and> rune_count r \<le> 200"
  by (auto simp: validate_title_def Let_def max_title_len_def)

interpretation title: cleaner validate_title
  by unfold_locales (auto simp: validate_title_Inr)

interpretation body: cleaner validate_body
  by unfold_locales (auto simp: validate_body_def split: if_splits)

lemma validate_format_Inr:
  "validate_format f = Inr g \<longleftrightarrow> g = format_markdown \<and> (f = '''' \<or> f = format_markdown)"
  by (auto simp only: validate_format_def Let_def sum.inject sum.distinct split: if_splits)

interpretation format: cleaner validate_format
  by unfold_locales (simp add: validate_format_Inr)

lemma validate_page_Inr:
  "validate_page c = Inr d \<longleftrightarrow>
    validate_route (pg_route c) = Inr (pg_route d) \<and> validate_title (pg_title c) = Inr (pg_title d)
    \<and> validate_body (pg_body c) = Inr (pg_body d) \<and> validate_format (pg_format c) = Inr (pg_format d)"
  by (cases d) (auto simp: validate_page_def bind_result_Inr_iff)

interpretation page: cleaner validate_page
  by unfold_locales
    (auto simp: validate_page_Inr
      intro: route.clean_idem title.clean_idem body.clean_idem format.clean_idem)

interpretation field_name: cleaner clean_name
  by unfold_locales (auto simp: clean_name_def Let_def split: if_splits)

interpretation description: cleaner clean_description
  by unfold_locales (auto simp: clean_description_def Let_def split: option.splits if_splits)

text \<open>An answer is stored without the \<open>present\<close> flag.\<close>

definition stored_answer :: "string \<Rightarrow> raw \<Rightarrow> (field_error, raw) result" where
  "stored_answer t r = bind_result (normalize_answer t r) (\<lambda>(v, present). Inr v)"

lemma normalize_answer_shape:
  assumes "normalize_answer t r = Inr (v, present)"
  shows "v = RawDoc JNull \<and> \<not> present
    \<or> t = type_text \<and> present
        \<and> (\<exists>s. v = RawDoc (JString s) \<and> s \<noteq> '''' \<and> trim_space s = s \<and> rune_count s \<le> 500)
    \<or> t = type_boolean \<and> present \<and> (\<exists>b. v = RawDoc (JBool b))"
  using assms
  by (auto simp: normalize_answer_def is_json_absent_def Let_def max_text_answer_len_def
      split: if_splits raw.splits json.splits)

lemma normalize_answer_fixed:
  assumes "normalize_answer t r = Inr (v, present)"
  shows "normalize_answer t v = Inr (v, present)"
  using normalize_answer_shape [OF assms]
  by (auto simp: normalize_answer_def is_json_absent_def Let_def max_text_answer_len_def
      type_text_def type_boolean_def)

interpretation answer: cleaner "stored_answer t" for t
  by unfold_locales (auto simp: stored_answer_def bind_result_Inr_iff dest: normalize_answer_fixed)

subsection \<open>The slug grammar\<close>

definition slug_segment :: "string \<Rightarrow> bool" where
  "slug_segment seg \<longleftrightarrow> seg \<noteq> '''' \<and> list_all (\<lambda>c. is_lower c \<or> is_digit c) seg"

definition slug :: "string \<Rightarrow> bool" where
  "slug s \<longleftrightarrow> list_all slug_segment (split_on CHR ''-'' s)"

lemma slug_segment_simps [simp]:
  "\<not> slug_segment ''''"
  "slug_segment (c # cs)
    \<longleftrightarrow> (is_lower c \<or> is_digit c) \<and> list_all (\<lambda>c. is_lower c \<or> is_digit c) cs"
  by (simp_all add: slug_segment_def)

lemma hyphen_no_alnum: "\<not> is_lower CHR ''-''" "\<not> is_digit CHR ''-''"
  by (simp_all add: is_lower_def is_digit_def byte_in_def) (simp_all add: byte_def)

text \<open>
  Inside a segment the rest must complete it; after a hyphen, as at the start, a segment must begin.
\<close>

lemma route_scan_segment:
  "route_scan False False s \<longleftrightarrow>
     (case split_on CHR ''-'' s of
        seg # segs \<Rightarrow> list_all (\<lambda>c. is_lower c \<or> is_digit c) seg \<and> list_all slug_segment segs
      | [] \<Rightarrow> True)"
  "route_scan False True s \<longleftrightarrow> list_all slug_segment (split_on CHR ''-'' s)"
proof (induction s)
  case (Cons c cs)
  { case 1
    show ?case
      using Cons by (auto simp: hyphen_no_alnum split: list.splits) }
  { case 2
    show ?case
      using Cons by (auto simp: hyphen_no_alnum split: list.splits) }
qed simp_all

lemma valid_route_slug: "s \<noteq> '''' \<Longrightarrow> valid_route s \<longleftrightarrow> slug s"
  using route_scan_segment(2) [of s]
  by (cases s) (auto simp: valid_route_def slug_def)

subsection \<open>Properties\<close>

text \<open>
  A page is accepted with exactly the cleaned content its parts determine: the trimmed route,
  at most 64 bytes of non-empty runs of lower-case letters and digits joined by single hyphens, the
  trimmed non-empty title of at most 200 characters, the body verbatim up to 256 KiB and the
  markdown format, which an empty one stands for; and what can be stored is exactly what validates
  to itself.
\<close>
theorem validate_page_exact:
  "(validate_page c = Inr d \<longleftrightarrow>
      pg_route d = trim_space (pg_route c) \<and> length (pg_route d) \<le> 64 \<and> slug (pg_route d)
      \<and> pg_title d = trim_space (pg_title c) \<and> pg_title d \<noteq> '''' \<and> rune_count (pg_title d) \<le> 200
      \<and> pg_body d = pg_body c \<and> length (pg_body c) \<le> 262144
      \<and> pg_format d = ''markdown'' \<and> pg_format c \<in> {'''', ''markdown''})
    \<and> ((\<exists>c. validate_page c = Inr d) \<longleftrightarrow> validate_page d = Inr d)"
proof -
  have "\<not> slug ''''" by (simp add: slug_def)
  then have "validate_route s = Inr r \<longleftrightarrow> r = trim_space s \<and> length r \<le> 64 \<and> slug r" for s r
    by (cases "r = ''''") (auto simp: validate_route_Inr valid_route_slug)
  moreover have "validate_body (pg_body c) = Inr (pg_body d) \<longleftrightarrow>
      pg_body d = pg_body c \<and> length (pg_body c) \<le> 262144"
    by (auto simp: validate_body_def max_content_bytes_def)
  ultimately show ?thesis
    unfolding page.stored_iff_fixed
    by (auto simp: validate_page_Inr validate_title_Inr validate_format_Inr format_markdown_def)
qed

text \<open>
  \<open>Normalize\<close> and the login gate agree on what an answer is: whatever it accepts is stored as
  the canonical null, a trimmed text of at most 500 characters that is not empty, or a boolean,
  its \<open>present\<close> flag is what \<open>IsAnswered\<close> says of the stored value, and normalising the stored
  value again gives the same value and the same flag.
\<close>
theorem normalize_agrees_with_gate:
  assumes "normalize_answer t r = Inr (v, present)"
  shows "is_answered v = present \<and> normalize_answer t v = Inr (v, present)
    \<and> (v = RawDoc JNull \<or> t = type_boolean \<and> v \<in> {RawDoc (JBool True), RawDoc (JBool False)}
       \<or> t = type_text \<and> (\<exists>s. v = RawDoc (JString s) \<and> s \<noteq> '''' \<and> trim_space s = s
            \<and> rune_count s \<le> 500))"
  using normalize_answer_shape [OF assms] normalize_answer_fixed [OF assms]
  by (auto simp: is_answered_def)

lemma normalize_agrees_with_gate_witness:
  "\<not> is_answered (RawDoc JNull) \<and> is_answered (RawDoc (JString ''CTU''))"
proof -
  have trim: "trim_space ''  CTU '' = ''CTU''" "trim_space ''  '' = ''''"
    by (simp_all add: trim_space_def trim_left_def trim_right_def strip_front.simps spaces_def)
  have "normalize_answer type_text (RawDoc (JString ''  CTU '')) = Inr (RawDoc (JString ''CTU''), True)"
    using rune_count_le_length [of "''CTU''"]
    by (simp add: normalize_answer_def is_json_absent_def trim max_text_answer_len_def)
  moreover have "normalize_answer type_text (RawDoc (JString ''  '')) = Inr (RawDoc JNull, False)"
    by (simp add: normalize_answer_def is_json_absent_def trim)
  ultimately show ?thesis
    using normalize_agrees_with_gate [of type_text] by blast
qed

definition letters :: string where
  "letters = ''ABCDEFGHIJKLMNOPQRSTUVWXYZ''"

lemma letters_upper: "list_all is_upper letters"
  by (simp add: letters_def is_upper_def byte_in_def byte_def)

lemma assigned_letters: "list_all (\<lambda>s. length s = 2 \<and> list_all (List.member letters) s) assigned"
  by code_simp

lemma assigned_well_shaped: "c \<in> set assigned \<Longrightarrow> well_shaped c \<and> length c = 2"
proof -
  assume "c \<in> set assigned"
  then have "length c = 2" "\<forall>d\<in>set c. d \<in> set letters"
    using assigned_letters by (auto simp: list_all_iff)
  moreover then have "\<forall>d\<in>set c. is_upper d" using letters_upper by (simp add: list_all_iff)
  ultimately show ?thesis by (simp add: well_shaped_def)
qed

text \<open>
  A country annotation is stored only as one of the assigned codes, every one of which can be
  stored and is two upper-case letters; any other key stores the value exactly as given when it has
  between 1 and 256 characters.
\<close>
theorem annotation_clean_exact:
  "(annotation_clean k v = Inr w \<longleftrightarrow>
      w = v \<and> v \<noteq> '''' \<and> rune_count v \<le> 256
      \<and> (if k = ''country'' then v \<in> set assigned else True))
    \<and> list_all (\<lambda>c. well_shaped c \<and> annotation_clean ''country'' c = Inr c) assigned"
proof -
  have count: "c \<in> set assigned \<Longrightarrow> rune_count c \<le> 256" for c
    using assigned_well_shaped [of c] rune_count_le_length [of c] by simp
  have valid: "valid_alpha2 v \<longleftrightarrow> v \<in> set assigned" for v
    using assigned_well_shaped [of v] by (auto simp: valid_alpha2_def parse_alpha2_def)
  have nonempty: "c \<in> set assigned \<Longrightarrow> c \<noteq> ''''" for c
    using assigned_well_shaped [of c] by auto
  have "annotation_clean k v = Inr w \<longleftrightarrow>
      w = v \<and> v \<noteq> '''' \<and> rune_count v \<le> 256
      \<and> (if k = ''country'' then v \<in> set assigned else True)" for k v w
    by (simp only: annotation_clean_Inr key_country_def valid) auto
  then show ?thesis
    using assigned_well_shaped count nonempty by (simp add: list_all_iff)
qed

end
