(* ===== verification/Decay.thy ===== *)
theory Decay
  imports Go_Strings
begin

section \<open>The decay curve (internal/domain/scoring/decay.go)\<close>

text \<open>
  The value of a challenge as a function of how many accounts have solved it, computed with
  Go's wrapping 64-bit arithmetic, its validation, and the SQL statement that recomputes the
  same value in the database (\<open>RecalcChallengeValue\<close>). \<open>curve_spec\<close> is the curve over the
  unbounded integers; the lemmas show where the machine computations agree with it, and one
  theorem shows a validated curve for which Go's does not.
\<close>

datatype Function = FunctionStatic | FunctionLinear | FunctionLogarithmic | FunctionOther nat

definition function_names :: "(Function \<times> string) list" where
  "function_names =
    [(FunctionStatic, ''static''), (FunctionLinear, ''linear''),
     (FunctionLogarithmic, ''logarithmic'')]"

definition function_string :: "Function \<Rightarrow> string" where
  "function_string f =
    (case map_of function_names f of
       Some s \<Rightarrow> s
     | None \<Rightarrow> (case f of FunctionOther n \<Rightarrow> ''Function('' @ decimal (int n) @ '')'' | _ \<Rightarrow> ''''))"

datatype curve_fault =
    UnknownCurve string
  | NegativeInitial int
  | NegativeMinimum int
  | MinimumAboveInitial int int
  | DecayBelowOne int string

datatype scoring_error = ErrUnknownFunction string | ErrInvalidCurve curve_fault

definition parse_function :: "string \<Rightarrow> (scoring_error, Function) result" where
  "parse_function s =
    (case find (\<lambda>(f, name). name = s) function_names of
       Some (f, _) \<Rightarrow> Inr f
     | None \<Rightarrow> Inl (ErrUnknownFunction s))"

definition decays :: "Function \<Rightarrow> bool" where
  "decays f \<longleftrightarrow> f \<noteq> FunctionStatic"

record Curve =
  c_function :: Function
  c_initial :: int
  c_minimum :: int
  c_decay :: int

definition validate :: "Curve \<Rightarrow> (scoring_error, unit) result" where
  "validate c =
    (if map_of function_names (c_function c) = None
     then Inl (ErrInvalidCurve (UnknownCurve (function_string (c_function c))))
     else if c_initial c < 0 then Inl (ErrInvalidCurve (NegativeInitial (c_initial c)))
     else if \<not> decays (c_function c) then Inr ()
     else if c_minimum c < 0 then Inl (ErrInvalidCurve (NegativeMinimum (c_minimum c)))
     else if c_initial c < c_minimum c
     then Inl (ErrInvalidCurve (MinimumAboveInitial (c_minimum c) (c_initial c)))
     else if c_decay c < 1
     then Inl (ErrInvalidCurve (DecayBelowOne (c_decay c) (function_string (c_function c))))
     else Inr ())"

text \<open>The final clamp of \<open>ValueAt\<close>.\<close>

definition floor_at :: "Curve \<Rightarrow> int \<Rightarrow> int" where
  "floor_at c v = (if v < c_minimum c then c_minimum c else v)"

text \<open>\<open>None\<close> is the run-time panic of an integer division by zero.\<close>

definition value_at :: "Curve \<Rightarrow> int \<Rightarrow> int option" where
  "value_at c solves =
    (if \<not> decays (c_function c) then Some (c_initial c)
     else
       let n0 = i64 (solves - 1);
           n = (if n0 < 0 then 0 else n0)
       in case c_function c of
            FunctionLinear \<Rightarrow>
              Some (floor_at c (i64 (c_initial c - i64 (c_decay c * n))))
          | FunctionLogarithmic \<Rightarrow>
              if c_decay c \<le> 0 then Some (c_minimum c)
              else if c_decay c \<le> n then Some (c_minimum c)
              else
                (case go_div (i64 (i64 (i64 (c_initial c - c_minimum c) * n) * n))
                             (i64 (c_decay c * c_decay c)) of
                   None \<Rightarrow> None
                 | Some dr \<Rightarrow> Some (floor_at c (i64 (c_initial c - dr))))
          | _ \<Rightarrow> Some (c_initial c))"

subsection \<open>The same curve in SQL: RecalcChallengeValue\<close>

text \<open>
  Postgres raises an error where an \<open>int\<close> or \<open>bigint\<close> result does not fit; it never wraps.
  A zero decay makes the quotient NULL, and GREATEST ignores NULL.
\<close>

datatype sql_error = NumericOutOfRange

definition pg_int8 :: "int \<Rightarrow> (sql_error, int) result" where
  "pg_int8 x = (if in_i64 x then Inr x else Inl NumericOutOfRange)"

definition pg_int4 :: "int \<Rightarrow> (sql_error, int) result" where
  "pg_int4 x = (if in_i32 x then Inr x else Inl NumericOutOfRange)"

definition recalc_value :: "Curve \<Rightarrow> int \<Rightarrow> (sql_error, int) result" where
  "recalc_value c n =
    (let m = max (n - 1) 0 in
     if c_function c = FunctionLinear then
       bind_result (pg_int8 (c_decay c * m)) (\<lambda>p.
       bind_result (pg_int8 (c_initial c - p)) (\<lambda>v.
       pg_int4 (max (c_minimum c) v)))
     else
       let k = min m (c_decay c) in
       bind_result (pg_int4 (c_initial c - c_minimum c)) (\<lambda>d.
       bind_result (pg_int8 (d * k)) (\<lambda>p.
       bind_result (pg_int8 (p * k)) (\<lambda>q.
       if c_decay c = 0 then pg_int4 (c_minimum c)
       else
         bind_result (pg_int8 (c_decay c * c_decay c)) (\<lambda>dd.
         bind_result (pg_int8 (c_initial c - quot_trunc q dd)) (\<lambda>v.
         pg_int4 (max (c_minimum c) v)))))))"

subsection \<open>The curve over the integers\<close>

definition curve_spec :: "Curve \<Rightarrow> int \<Rightarrow> int" where
  "curve_spec c solves =
    (let n = max (solves - 1) 0 in
     case c_function c of
       FunctionLinear \<Rightarrow> max (c_minimum c) (c_initial c - c_decay c * n)
     | FunctionLogarithmic \<Rightarrow>
         if c_decay c \<le> n then c_minimum c
         else c_initial c - ((c_initial c - c_minimum c) * n * n) div (c_decay c * c_decay c)
     | _ \<Rightarrow> c_initial c)"

text \<open>
  The curves and solve counts for which 64 bits are enough: \<open>int4\<close> columns, a solve count
  below \<open>2 ^ 31\<close>, and, for the logarithmic curve, a squared product below \<open>2 ^ 63\<close>.
\<close>

definition fits :: "Curve \<Rightarrow> bool" where
  "fits c \<longleftrightarrow> in_i32 (c_initial c) \<and> in_i32 (c_minimum c) \<and> in_i32 (c_decay c)
    \<and> (c_function c = FunctionLogarithmic \<longrightarrow>
        (c_initial c - c_minimum c) * c_decay c * c_decay c < 9223372036854775808)"

lemma validate_ok:
  "validate c = Inr () \<longleftrightarrow>
    0 \<le> c_initial c \<and>
    (c_function c = FunctionStatic
     \<or> (c_function c = FunctionLinear \<or> c_function c = FunctionLogarithmic)
       \<and> 0 \<le> c_minimum c \<and> c_minimum c \<le> c_initial c \<and> 1 \<le> c_decay c)"
  by (cases "c_function c") (auto simp: validate_def function_names_def decays_def)

lemma mult_sq_mono:
  fixes d :: int
  assumes "0 \<le> d" "0 \<le> n" "n \<le> k"
  shows "d * n \<le> d * k * k \<or> n = 0" "d * n * n \<le> d * k * k"
proof -
  have "d * n \<le> d * k" using assms by (simp add: mult_left_mono)
  then show 2: "d * n * n \<le> d * k * k" using assms by (intro mult_mono) auto
  show "d * n \<le> d * k * k \<or> n = 0"
  proof (cases "n = 0")
    case False
    then have "d * n * 1 \<le> d * n * n" using assms by (intro mult_left_mono) auto
    with 2 show ?thesis by simp
  qed simp
qed

lemma mult_31_bits:
  fixes a b :: int
  assumes "0 \<le> a" "a \<le> 2147483648" "0 \<le> b" "b \<le> 2147483648"
  shows "a * b \<le> 4611686018427387904"
  using mult_mono [OF assms(2,4)] assms by simp

lemma log_quotient_le:
  fixes d :: int
  assumes "0 \<le> d" "0 \<le> n" "n \<le> k" "0 < k"
  shows "(d * n * n) div (k * k) \<le> d"
proof -
  have "(d * n * n) div (k * k) \<le> (d * (k * k)) div (k * k)"
    using mult_sq_mono(2) [OF assms(1-3)] assms(4)
    by (intro zdiv_mono1) (simp_all add: mult.assoc)
  also have "\<dots> = d" using assms(4) by simp
  finally show ?thesis .
qed

subsection \<open>The machine computations against the specification\<close>

lemma curve_spec_bounds:
  assumes "validate c = Inr ()" "decays (c_function c)"
  shows "c_minimum c \<le> curve_spec c n \<and> curve_spec c n \<le> c_initial c"
proof (cases "c_function c")
  case FunctionLogarithmic
  have v: "0 \<le> c_minimum c" "c_minimum c \<le> c_initial c" "1 \<le> c_decay c"
    using assms FunctionLogarithmic by (auto simp: validate_ok)
  let ?m = "max (n - 1) 0"
  have "\<not> c_decay c \<le> ?m \<Longrightarrow>
      ((c_initial c - c_minimum c) * ?m * ?m) div (c_decay c * c_decay c) \<le> c_initial c - c_minimum c"
    using v by (intro log_quotient_le) auto
  moreover have "0 \<le> ((c_initial c - c_minimum c) * ?m * ?m) div (c_decay c * c_decay c)"
    using v by (intro pos_imp_zdiv_nonneg_iff [THEN iffD2] mult_pos_pos mult_nonneg_nonneg) auto
  ultimately show ?thesis
    using v FunctionLogarithmic by (auto simp: curve_spec_def Let_def)
next
  case FunctionLinear
  then have "0 \<le> c_decay c * max (n - 1) 0" and "c_minimum c \<le> c_initial c"
    using assms by (auto simp: validate_ok intro!: mult_nonneg_nonneg)
  then show ?thesis using FunctionLinear by (auto simp: curve_spec_def Let_def)
qed (use assms in \<open>auto simp: validate_ok decays_def\<close>)

lemma floor_at_max: "floor_at c v = max (c_minimum c) v"
  by (simp add: floor_at_def)

lemma value_at_spec:
  assumes "validate c = Inr ()" "fits c" "0 \<le> n" "n < 2147483648"
  shows "value_at c n = Some (curve_spec c n)"
proof (cases "c_function c")
  case FunctionStatic
  then show ?thesis by (simp add: value_at_def decays_def curve_spec_def)
next
  case FunctionLinear
  define m where "m = max (n - 1) 0"
  have "0 \<le> c_decay c" "c_decay c < 2147483648" and i: "0 \<le> c_initial c" "c_initial c < 2147483648"
    using assms FunctionLinear by (auto simp: validate_ok fits_def)
  then have p: "0 \<le> c_decay c * m" "c_decay c * m \<le> 4611686018427387904"
    using assms(3,4) by (auto intro!: mult_nonneg_nonneg mult_31_bits simp: m_def)
  have "(if i64 (n - 1) < 0 then 0 else i64 (n - 1)) = m"
    using assms(3,4) by (simp add: go_arith m_def)
  moreover have "i64 (c_initial c - i64 (c_decay c * m)) = c_initial c - c_decay c * m"
    using p i by (simp add: go_arith)
  ultimately show ?thesis
    using FunctionLinear
    by (simp add: value_at_def decays_def curve_spec_def floor_at_max Let_def m_def [symmetric])
next
  case FunctionLogarithmic
  define m where "m = max (n - 1) 0"
  let ?d = "c_initial c - c_minimum c" and ?k = "c_decay c"
  have v: "0 \<le> c_minimum c" "0 \<le> ?d" "1 \<le> ?k" "?k < 2147483648" "c_initial c < 2147483648"
    "?d * ?k * ?k < 9223372036854775808"
    using assms FunctionLogarithmic by (auto simp: validate_ok fits_def)
  have m: "0 \<le> m" "(if i64 (n - 1) < 0 then 0 else i64 (n - 1)) = m"
    using assms(3,4) by (simp_all add: go_arith m_def)
  have kk: "?k * ?k \<le> 4611686018427387904" "0 < ?k * ?k"
    using v by (auto intro!: mult_31_bits mult_pos_pos)
  show ?thesis
  proof (cases "?k \<le> m")
    case True
    then show ?thesis using FunctionLogarithmic v m
      by (simp add: value_at_def decays_def curve_spec_def Let_def m_def [symmetric])
  next
    case False
    have b: "0 \<le> ?d * m" "0 \<le> ?d * m * m" "?d * m * m \<le> ?d * ?k * ?k"
      "?d * m \<le> ?d * ?k * ?k \<or> m = 0"
      using v m False mult_sq_mono [of ?d m ?k] by auto
    then have dm: "?d * m < 9223372036854775808" using v by auto
    have "in_i64 ?d" "in_i64 (?d * m)" "in_i64 (?d * m * m)" "in_i64 (?k * ?k)"
      using v b dm kk by linarith+
    then have e: "i64 ?d = ?d" "i64 (?d * m) = ?d * m" "i64 (?d * m * m) = ?d * m * m"
      "i64 (?k * ?k) = ?k * ?k"
      by (intro i64_id; blast)+
    let ?q = "(?d * m * m) div (?k * ?k)"
    have q: "0 \<le> ?q" "?q \<le> ?d"
      using v m False kk b by (auto intro!: log_quotient_le simp: pos_imp_zdiv_nonneg_iff)
    have "go_div (?d * m * m) (?k * ?k) = Some ?q"
      using b kk q v by (simp add: go_div_def go_arith)
    moreover have "floor_at c (i64 (c_initial c - ?q)) = c_initial c - ?q"
      using q v by (simp add: floor_at_def go_arith)
    ultimately show ?thesis using FunctionLogarithmic v m e False
      by (simp add: value_at_def decays_def curve_spec_def Let_def m_def [symmetric])
  qed
qed (use assms in \<open>auto simp: validate_ok\<close>)

lemma pg_ok: "in_i64 x \<Longrightarrow> pg_int8 x = Inr x" "in_i32 x \<Longrightarrow> pg_int4 x = Inr x"
  by (simp_all add: pg_int8_def pg_int4_def)

lemma recalc_value_spec:
  assumes "validate c = Inr ()" "decays (c_function c)" "fits c" "0 \<le> n" "n < 2147483648"
  shows "recalc_value c n = Inr (curve_spec c n)"
proof (cases "c_function c")
  case FunctionLinear
  define m where "m = max (n - 1) 0"
  have v: "0 \<le> c_decay c" "c_decay c < 2147483648" "0 \<le> c_initial c" "c_initial c < 2147483648"
    "0 \<le> c_minimum c" "c_minimum c \<le> c_initial c"
    using assms FunctionLinear by (auto simp: validate_ok fits_def)
  then have p: "0 \<le> c_decay c * m" "c_decay c * m \<le> 4611686018427387904"
    using assms(4,5) by (auto intro!: mult_nonneg_nonneg mult_31_bits simp: m_def)
  then have "pg_int8 (c_decay c * m) = Inr (c_decay c * m)"
    "pg_int8 (c_initial c - c_decay c * m) = Inr (c_initial c - c_decay c * m)"
    "pg_int4 (max (c_minimum c) (c_initial c - c_decay c * m))
      = Inr (max (c_minimum c) (c_initial c - c_decay c * m))"
    using v by (auto simp: pg_int8_def pg_int4_def)
  then show ?thesis using FunctionLinear
    by (simp add: recalc_value_def curve_spec_def Let_def m_def [symmetric])
next
  case FunctionLogarithmic
  define m where "m = max (n - 1) 0"
  let ?d = "c_initial c - c_minimum c" and ?k = "c_decay c"
  let ?j = "min m ?k"
  have v: "0 \<le> c_minimum c" "0 \<le> ?d" "1 \<le> ?k" "?k < 2147483648" "c_initial c < 2147483648"
    "?d * ?k * ?k < 9223372036854775808"
    using assms FunctionLogarithmic by (auto simp: validate_ok fits_def)
  have m: "0 \<le> m" by (simp add: m_def)
  have kk: "?k * ?k \<le> 4611686018427387904" "0 < ?k * ?k"
    using v by (auto intro!: mult_31_bits mult_pos_pos)
  have b: "0 \<le> ?d * ?j" "0 \<le> ?d * ?j * ?j" "?d * ?j * ?j \<le> ?d * ?k * ?k"
    "?d * ?j \<le> ?d * ?k * ?k \<or> ?j = 0"
    using v m mult_sq_mono [of ?d ?j ?k] by (auto simp del: zero_le_mult_iff)
  let ?q = "(?d * ?j * ?j) div (?k * ?k)"
  have q: "0 \<le> ?q" "?q \<le> ?d"
    using v m kk log_quotient_le [of ?d ?j ?k] pos_imp_zdiv_nonneg_iff [OF kk(2)] b(2) by auto
  have dj: "?d * ?j < 9223372036854775808" using b v by auto
  have "in_i32 ?d" "in_i64 (?d * ?j)" "in_i64 (?d * ?j * ?j)" "in_i64 (?k * ?k)"
    "in_i64 (c_initial c - ?q)" "in_i32 (c_initial c - ?q)"
    using v b kk q dj by linarith+
  then have "pg_int4 ?d = Inr ?d" "pg_int8 (?d * ?j) = Inr (?d * ?j)"
    "pg_int8 (?d * ?j * ?j) = Inr (?d * ?j * ?j)" "pg_int8 (?k * ?k) = Inr (?k * ?k)"
    "pg_int8 (c_initial c - ?q) = Inr (c_initial c - ?q)"
    "pg_int4 (c_initial c - ?q) = Inr (c_initial c - ?q)"
    by (intro pg_ok; blast)+
  then have "recalc_value c n = Inr (c_initial c - ?q)"
    using FunctionLogarithmic v b kk q max_absorb2 [of "c_minimum c" "c_initial c - ?q"]
    by (simp add: recalc_value_def Let_def go_arith m_def [symmetric])
  moreover have "?k \<le> m \<Longrightarrow> ?q = ?d"
    using kk v by (simp add: min_def mult.assoc)
  ultimately show ?thesis
    using FunctionLogarithmic by (auto simp: curve_spec_def Let_def m_def [symmetric] min_def)
qed (use assms in \<open>auto simp: validate_ok decays_def\<close>)

lemma curve_spec_antitone:
  assumes "validate c = Inr ()" "m \<le> n"
  shows "curve_spec c n \<le> curve_spec c m"
proof (cases "c_function c")
  case FunctionLinear
  then have "c_decay c * max (m - 1) 0 \<le> c_decay c * max (n - 1) 0"
    using assms by (intro mult_left_mono) (auto simp: validate_ok)
  then show ?thesis using FunctionLinear by (auto simp: curve_spec_def Let_def)
next
  case FunctionLogarithmic
  then have v: "0 \<le> c_initial c - c_minimum c" "1 \<le> c_decay c"
    using assms by (auto simp: validate_ok)
  let ?m = "max (m - 1) 0" and ?n = "max (n - 1) 0"
  have mono: "(c_initial c - c_minimum c) * ?m * ?m \<le> (c_initial c - c_minimum c) * ?n * ?n"
    using v assms(2) by (intro mult_sq_mono) auto
  show ?thesis
  proof (cases "c_decay c \<le> ?n")
    case True
    then show ?thesis
      using curve_spec_bounds [of c m] assms FunctionLogarithmic
      by (simp add: curve_spec_def Let_def decays_def)
  next
    case False
    then have "\<not> c_decay c \<le> ?m" using assms(2) by simp
    moreover have "0 < c_decay c * c_decay c" using v by (intro mult_pos_pos) auto
    ultimately show ?thesis
      using FunctionLogarithmic False zdiv_mono1 [OF mono] by (simp add: curve_spec_def Let_def)
  qed
qed (simp_all add: curve_spec_def)

subsection \<open>Properties\<close>

text \<open>
  C37: The price the board shows (Go's \<open>ValueAt\<close>) and the price the database stores
  (\<open>RecalcChallengeValue\<close>) are the same number, computed without a panic or an SQL error and
  between the floor and the initial value, for every validated decaying curve whose arithmetic fits
  in 64 bits (\<open>fits\<close>) and every count of solves from 0 below 2^31.
\<close>

theorem value_at_agrees_with_recalc:
  assumes "validate c = Inr ()" "decays (c_function c)" "fits c" "0 \<le> n" "n < 2147483648"
  shows "\<exists>v. value_at c n = Some v \<and> recalc_value c n = Inr v
    \<and> c_minimum c \<le> v \<and> v \<le> c_initial c"
  using value_at_spec [OF assms(1,3-5)] recalc_value_spec [OF assms] curve_spec_bounds [OF assms(1,2)]
  by blast

theorem value_at_agrees_with_recalc_witness:
  "\<exists>v. value_at \<lparr>c_function = FunctionLogarithmic, c_initial = 3901, c_minimum = 205, c_decay = 142\<rparr> 143
        = Some v
      \<and> recalc_value \<lparr>c_function = FunctionLogarithmic, c_initial = 3901, c_minimum = 205, c_decay = 142\<rparr> 143
        = Inr v
      \<and> 205 \<le> v \<and> v \<le> 3901"
  using value_at_agrees_with_recalc
    [of "\<lparr>c_function = FunctionLogarithmic, c_initial = 3901, c_minimum = 205, c_decay = 142\<rparr>" 143]
  by (simp add: validate_ok decays_def fits_def)

text \<open>
  The shape of the curve: the first solver pays the full initial value, the value never
  rises as more accounts solve, and a logarithmic curve is at its floor exactly from
  \<open>decay + 1\<close> solves on.
\<close>

theorem value_at_shape:
  assumes "validate c = Inr ()" "fits c" "0 \<le> m" "m \<le> n" "n < 2147483648"
  shows "value_at c 1 = Some (c_initial c)
    \<and> (\<exists>v w. value_at c m = Some v \<and> value_at c n = Some w \<and> w \<le> v)
    \<and> (c_function c = FunctionLogarithmic \<and> c_decay c < n \<longrightarrow> value_at c n = Some (c_minimum c))"
proof (intro conjI impI)
  have "curve_spec c 1 = c_initial c"
    using assms(1) by (cases "c_function c") (auto simp: curve_spec_def validate_ok)
  then show "value_at c 1 = Some (c_initial c)"
    using value_at_spec [OF assms(1,2), of 1] by simp
  show "\<exists>v w. value_at c m = Some v \<and> value_at c n = Some w \<and> w \<le> v"
    using value_at_spec [OF assms(1,2)] curve_spec_antitone [OF assms(1,4)] assms by simp
  assume log: "c_function c = FunctionLogarithmic \<and> c_decay c < n"
  then have "c_decay c \<le> max (n - 1) 0" by auto
  then have "curve_spec c n = c_minimum c"
    using log by (simp add: curve_spec_def)
  then show "value_at c n = Some (c_minimum c)"
    using value_at_spec [OF assms(1,2)] assms by simp
qed

theorem value_at_shape_witness:
  "value_at \<lparr>c_function = FunctionLogarithmic, c_initial = 500, c_minimum = 100, c_decay = 10\<rparr> 1 = Some 500
   \<and> value_at \<lparr>c_function = FunctionLogarithmic, c_initial = 500, c_minimum = 100, c_decay = 10\<rparr> 11 = Some 100"
  using value_at_shape
    [of "\<lparr>c_function = FunctionLogarithmic, c_initial = 500, c_minimum = 100, c_decay = 10\<rparr>" 5 11]
  by (simp add: validate_ok fits_def)

text \<open>
  The bound of the previous properties is needed. \<open>Validate\<close> admits a curve, with every
  parameter well inside an \<open>int4\<close> column, whose squared product leaves 64 bits: Go's value then
  lies above the initial value, where the comment on the code says the product cannot overflow
  for any curve \<open>Validate\<close> admits; on the same input the SQL statement raises an error.
\<close>

theorem value_at_overflows_on_validated_curve:
  "validate \<lparr>c_function = FunctionLogarithmic, c_initial = 1000000000, c_minimum = 0, c_decay = 200000\<rparr>
     = Inr ()
   \<and> value_at \<lparr>c_function = FunctionLogarithmic, c_initial = 1000000000, c_minimum = 0, c_decay = 200000\<rparr>
       100002 = Some 1211163601
   \<and> recalc_value \<lparr>c_function = FunctionLogarithmic, c_initial = 1000000000, c_minimum = 0, c_decay = 200000\<rparr>
       100002 = Inl NumericOutOfRange"
  by (simp add: validate_ok value_at_def decays_def go_div_def quot_trunc_def floor_at_def i64_def
      recalc_value_def pg_int4_def pg_int8_def)

end
