(* ===== verification/Flags.thy ===== *)
theory Flags
  imports Sha256
begin

section \<open>Flag comparison (internal/domain/flags/flags.go)\<close>

text \<open>
  The three comparison paths of a submission: timing-safe byte equality, an anchored regular
  expression, and the hash of the unique-flag mode. Go's regular-expression engine is the
  argument \<open>re\<close>: \<open>re pattern\<close> is \<open>None\<close> where \<open>regexp.Compile\<close> fails and otherwise the
  matcher \<open>MatchString\<close> of the compiled pattern. Nothing is assumed of it.
\<close>

unbundle bit_operations_syntax

type_synonym regex = "string \<Rightarrow> (string \<Rightarrow> bool) option"

datatype FlagMode = ModeStatic | ModeUnique | FlagModeOther nat
datatype FlagType = TypeStatic | TypeRegex | FlagTypeOther nat
datatype Logic = LogicAny | LogicAll | LogicOther nat

datatype flags_error =
    UnknownFlagMode string
  | UnknownFlagType string
  | UnknownLogic string
  | UnhandledType nat
  | ContentEmpty
  | ErrBadPattern string

definition flag_mode_names :: "(FlagMode \<times> string) list" where
  "flag_mode_names = [(ModeStatic, ''static''), (ModeUnique, ''unique'')]"

definition flag_mode_string :: "FlagMode \<Rightarrow> string" where
  "flag_mode_string m =
    (case map_of flag_mode_names m of
       Some s \<Rightarrow> s
     | None \<Rightarrow> (case m of FlagModeOther n \<Rightarrow> ''Mode('' @ decimal (int n) @ '')'' | _ \<Rightarrow> ''''))"

definition parse_flag_mode :: "string \<Rightarrow> (flags_error, FlagMode) result" where
  "parse_flag_mode s =
    (case find (\<lambda>(m, name). name = s) flag_mode_names of
       Some (m, _) \<Rightarrow> Inr m
     | None \<Rightarrow> Inl (UnknownFlagMode s))"

definition flag_type_names :: "(FlagType \<times> string) list" where
  "flag_type_names = [(TypeStatic, ''static''), (TypeRegex, ''regex'')]"

definition parse_flag_type :: "string \<Rightarrow> (flags_error, FlagType) result" where
  "parse_flag_type s =
    (case find (\<lambda>(t, name). name = s) flag_type_names of
       Some (t, _) \<Rightarrow> Inr t
     | None \<Rightarrow> Inl (UnknownFlagType s))"

definition timing_safe :: "FlagType \<Rightarrow> bool" where
  "timing_safe t \<longleftrightarrow> t = TypeStatic"

definition logic_names :: "(Logic \<times> string) list" where
  "logic_names = [(LogicAny, ''any''), (LogicAll, ''all'')]"

definition parse_logic :: "string \<Rightarrow> (flags_error, Logic) result" where
  "parse_logic s =
    (case find (\<lambda>(l, name). name = s) logic_names of
       Some (l, _) \<Rightarrow> Inr l
     | None \<Rightarrow> Inl (UnknownLogic s))"

record Flag =
  f_type :: FlagType
  f_content :: string
  f_case_insensitive :: bool

text \<open>\<open>strings.TrimSpace\<close>, and nothing else.\<close>

definition normalize :: "string \<Rightarrow> string" where
  "normalize provided = trim_space provided"

definition fold_ascii :: "string \<Rightarrow> string" where
  "fold_ascii s = map fold_byte s"

text \<open>
  \<open>crypto/subtle.ConstantTimeCompare\<close>: 0 on a length mismatch; otherwise the differences of
  all bytes are or-ed together and compared with 0 without a branch.
\<close>

definition byte_word :: "char \<Rightarrow> 8 word" where
  "byte_word c = of_nat (byte c)"

definition constant_time_compare :: "string \<Rightarrow> string \<Rightarrow> nat" where
  "constant_time_compare x y =
    (if length x \<noteq> length y then 0
     else
       let v = fold (\<lambda>(a, b) acc. acc OR (byte_word a XOR byte_word b)) (zip x y) (0 :: 8 word)
       in unat (drop_bit 31 (ucast v - 1 :: 32 word)))"

definition match_static :: "string \<Rightarrow> string \<Rightarrow> bool \<Rightarrow> bool" where
  "match_static saved provided case_insensitive =
    (let (s, p) = (if case_insensitive then (fold_ascii saved, fold_ascii provided)
                   else (saved, provided))
     in constant_time_compare s p = 1)"

definition pattern_of :: "Flag \<Rightarrow> string" where
  "pattern_of f =
    (let pattern = [CHR 0x5C] @ ''A(?:'' @ f_content f @ '')'' @ [CHR 0x5C] @ ''z''
     in if f_case_insensitive f then ''(?i)'' @ pattern else pattern)"

definition compile :: "regex \<Rightarrow> Flag \<Rightarrow> (flags_error, string \<Rightarrow> bool) result" where
  "compile re f =
    (case re (pattern_of f) of
       None \<Rightarrow> Inl (ErrBadPattern (f_content f))
     | Some m \<Rightarrow> Inr m)"

definition validate_flag :: "regex \<Rightarrow> Flag \<Rightarrow> (flags_error, unit) result" where
  "validate_flag re f =
    (if f_content f = [] then Inl ContentEmpty
     else if f_type f = TypeRegex then
       (case compile re f of Inl e \<Rightarrow> Inl e | Inr _ \<Rightarrow> Inr ())
     else Inr ())"

definition flag_match :: "regex \<Rightarrow> Flag \<Rightarrow> string \<Rightarrow> (flags_error, bool) result" where
  "flag_match re f provided =
    (let p = normalize provided in
     case f_type f of
       TypeStatic \<Rightarrow> Inr (match_static (f_content f) p (f_case_insensitive f))
     | TypeRegex \<Rightarrow> (case compile re f of Inl e \<Rightarrow> Inl e | Inr m \<Rightarrow> Inr (m p))
     | FlagTypeOther n \<Rightarrow> Inl (UnhandledType n))"

text \<open>The two folds; neither stops at the first flag that decides the answer.\<close>

fun match_any_loop :: "regex \<Rightarrow> Flag list \<Rightarrow> string \<Rightarrow> bool \<Rightarrow> (flags_error, bool) result" where
  "match_any_loop re [] provided matched = Inr matched"
| "match_any_loop re (f # fs) provided matched =
    (case flag_match re f provided of
       Inl e \<Rightarrow> Inl e
     | Inr ok \<Rightarrow> match_any_loop re fs provided (matched \<or> ok))"

definition match_any :: "regex \<Rightarrow> Flag list \<Rightarrow> string \<Rightarrow> (flags_error, bool) result" where
  "match_any re fs provided = match_any_loop re fs provided False"

fun match_all_loop :: "regex \<Rightarrow> Flag list \<Rightarrow> string \<Rightarrow> bool \<Rightarrow> (flags_error, bool) result" where
  "match_all_loop re [] provided matched = Inr matched"
| "match_all_loop re (f # fs) provided matched =
    (case flag_match re f provided of
       Inl e \<Rightarrow> Inl e
     | Inr ok \<Rightarrow> match_all_loop re fs provided (matched \<and> ok))"

definition match_all :: "regex \<Rightarrow> Flag list \<Rightarrow> string \<Rightarrow> (flags_error, bool) result" where
  "match_all re fs provided =
    (if fs = [] then Inr False else match_all_loop re fs provided True)"

text \<open>The unique-flag comparison: the hash of the normalized submission.\<close>

definition flag_hash :: "string \<Rightarrow> string" where
  "flag_hash provided = sha256 (normalize provided)"

subsection \<open>The timing-safe comparison is equality\<close>

lemma byte_word_inj: "byte_word a = byte_word b \<longleftrightarrow> a = b"
proof -
  have "unat (byte_word c) = byte c" for c
    using byte_lt [of c] by (simp add: byte_word_def unat_of_nat)
  then show ?thesis by (metis byte_inj)
qed

lemma word_xor_eq_0: "(a :: 8 word) XOR b = 0 \<longleftrightarrow> a = b"
  by (metis xor.assoc xor.left_neutral xor_self_eq)

lemma or_xor_fold_zero:
  "fold (\<lambda>(a, b) acc. acc OR (byte_word a XOR byte_word b)) ps v = 0
    \<longleftrightarrow> v = 0 \<and> list_all (\<lambda>(a, b). a = b) ps"
proof (induction ps arbitrary: v)
  case (Cons p ps)
  then show ?case
    by (cases p) (simp add: or_eq_0_iff word_xor_eq_0 byte_word_inj)
qed simp

lemma byte_eq_zero: "unat (drop_bit 31 (ucast (v :: 8 word) - 1 :: 32 word)) = Suc 0 \<longleftrightarrow> v = 0"
proof (cases "v = 0")
  case False
  have lt: "unat v < 256" using unsigned_less [of v, where ?'a = nat] by simp
  then have u: "unat (ucast v :: 32 word) = unat v"
    by (simp add: unsigned_ucast_eq take_bit_nat_eq_self)
  have "(ucast v :: 32 word) \<noteq> 0"
    using False u by (metis unat_eq_zero)
  then have "unat (ucast v - 1 :: 32 word) = unat v - 1"
    using u by (simp add: unat_minus_one)
  moreover have "drop_bit 31 (unat v - 1) = 0"
    using lt by (simp add: drop_bit_eq_div)
  ultimately have "unat (drop_bit 31 (ucast v - 1 :: 32 word)) = 0"
    by (simp only: unat_drop_bit_eq)
  then show ?thesis using False by simp
qed simp

lemma list_all_zip_eq: "length x = length y \<Longrightarrow> list_all (\<lambda>(a, b). a = b) (zip x y) \<longleftrightarrow> x = y"
  by (induction x y rule: list_induct2) auto

lemma constant_time_compare_eq: "constant_time_compare x y = Suc 0 \<longleftrightarrow> x = y"
  by (auto simp: constant_time_compare_def Let_def byte_eq_zero or_xor_fold_zero list_all_zip_eq)

lemma match_static_eq:
  "match_static saved provided ci
    \<longleftrightarrow> (if ci then fold_ascii saved = fold_ascii provided else saved = provided)"
  by (simp add: match_static_def constant_time_compare_eq)

subsection \<open>Facts\<close>

lemma parse_flag_mode_iff:
  "parse_flag_mode s = Inr m \<longleftrightarrow> m \<in> {ModeStatic, ModeUnique} \<and> flag_mode_string m = s"
  by (auto simp: parse_flag_mode_def flag_mode_string_def flag_mode_names_def
      split: option.splits if_splits)

lemma parse_flag_type_Inr: "parse_flag_type s = Inr t \<Longrightarrow> t = TypeStatic \<or> t = TypeRegex"
  by (auto simp: parse_flag_type_def flag_type_names_def split: option.splits if_splits)

lemma flag_match_normalize: "flag_match re f (normalize p) = flag_match re f p"
  by (simp add: flag_match_def normalize_def)

lemma flag_hash_normalize: "flag_hash (normalize p) = flag_hash p"
  by (simp add: flag_hash_def normalize_def)

text \<open>The two folds, as one pass over the results of all flags.\<close>

definition flag_ok :: "regex \<Rightarrow> string \<Rightarrow> Flag \<Rightarrow> bool" where
  "flag_ok re p f \<longleftrightarrow> flag_match re f p = Inr True"

definition flag_evaluates :: "regex \<Rightarrow> string \<Rightarrow> Flag \<Rightarrow> bool" where
  "flag_evaluates re p f = is_ok (flag_match re f p)"

lemma match_any_loop_eq:
  "match_any_loop re fs p b = Inr r
    \<longleftrightarrow> list_all (flag_evaluates re p) fs \<and> r = (b \<or> list_ex (flag_ok re p) fs)"
  by (induction re fs p b rule: match_any_loop.induct)
    (auto simp: flag_evaluates_def flag_ok_def split: sum.splits)

lemma match_all_loop_eq:
  "match_all_loop re fs p b = Inr r
    \<longleftrightarrow> list_all (flag_evaluates re p) fs \<and> r = (b \<and> list_all (flag_ok re p) fs)"
  by (induction re fs p b rule: match_all_loop.induct)
    (auto simp: flag_evaluates_def flag_ok_def split: sum.splits)

lemma flag_evaluates_iff:
  "flag_evaluates re p f
    \<longleftrightarrow> f_type f = TypeStatic \<or> f_type f = TypeRegex \<and> re (pattern_of f) \<noteq> None"
  by (auto simp: flag_evaluates_def flag_match_def compile_def Let_def
      split: FlagType.splits option.splits)

lemma match_folds_answer:
  "is_ok (match_any re fs p) \<longleftrightarrow> list_all (flag_evaluates re p) fs"
  "is_ok (match_all re fs p) \<longleftrightarrow> list_all (flag_evaluates re p) fs"
  by (auto simp: match_any_def match_all_def match_any_loop_eq match_all_loop_eq is_ok_iff)

subsection \<open>Properties\<close>

text \<open>
  A static flag is satisfied exactly by the submissions that, stripped of surrounding white
  space, equal it byte for byte; with the case-insensitive marker exactly by those that equal it
  after lower-casing A-Z on both sides, which changes no length and no other byte. The
  comparison that computes this has no branch on a byte, and the static path never errors.
\<close>

theorem flag_match_static:
  assumes "f_type f = TypeStatic"
  shows "flag_match re f p
      = Inr (if f_case_insensitive f then map fold_byte (f_content f) = map fold_byte (trim_space p)
             else f_content f = trim_space p)
    \<and> (flag_match re f p = Inr True \<longrightarrow> length (f_content f) = length (trim_space p))"
proof -
  have "map fold_byte (f_content f) = map fold_byte (trim_space p)
      \<Longrightarrow> length (f_content f) = length (trim_space p)"
    by (rule map_eq_imp_length_eq)
  then show ?thesis
    using assms by (auto simp: flag_match_def normalize_def match_static_eq fold_ascii_def)
qed

theorem flag_match_static_witness:
  "flag_match (\<lambda>_. None) \<lparr>f_type = TypeStatic, f_content = ''flag{A}'', f_case_insensitive = True\<rparr>
      '' FLAG{a} '' = Inr True"
proof -
  have "map fold_byte ''flag{A}'' = map fold_byte (trim_space '' FLAG{a} '')"
    by code_simp
  then show ?thesis
    using flag_match_static [of "\<lparr>f_type = TypeStatic, f_content = ''flag{A}'', f_case_insensitive = True\<rparr>"
        "\<lambda>_. None" "'' FLAG{a} ''"] by simp
qed

text \<open>
  Both folds evaluate every flag. Any-of answers the disjunction and all-of the conjunction
  of the single answers, the empty set satisfying neither; and a flag that cannot be evaluated
  makes either fold fail wherever it stands in the list, so the answer and the work done never
  depend on which flag matched first.
\<close>

theorem match_folds_evaluate_every_flag:
  "(match_any re fs p = Inr b
      \<longleftrightarrow> list_all (flag_evaluates re p) fs \<and> b = list_ex (flag_ok re p) fs)
   \<and> (match_all re fs p = Inr b
      \<longleftrightarrow> list_all (flag_evaluates re p) fs \<and> b = (fs \<noteq> [] \<and> list_all (flag_ok re p) fs))"
  by (auto simp: match_any_def match_all_def match_any_loop_eq match_all_loop_eq)

text \<open>
  A wrong guess cannot fail the request: if every stored flag was accepted by \<open>Validate\<close> when
  it was written and has one of the two stored types, then both folds return an answer on every
  submission.
\<close>

theorem validated_flags_always_answer:
  assumes "list_all (\<lambda>f. validate_flag re f = Inr ()) fs"
    and "list_all (\<lambda>f. f_type f = TypeStatic \<or> f_type f = TypeRegex) fs"
  shows "is_ok (match_any re fs p) \<and> is_ok (match_all re fs p)"
proof -
  have "list_all (flag_evaluates re p) fs"
    using assms
    by (auto simp: list_all_iff flag_evaluates_iff validate_flag_def compile_def
        split: if_splits option.splits sum.splits)
  then show ?thesis
    using match_folds_answer by blast
qed

theorem validated_flags_always_answer_witness:
  "is_ok (match_any (\<lambda>pat. Some (\<lambda>s. s = ''x''))
      [\<lparr>f_type = TypeRegex, f_content = ''x'', f_case_insensitive = False\<rparr>] ''y'')
   \<and> is_ok (match_all (\<lambda>pat. Some (\<lambda>s. s = ''x''))
      [\<lparr>f_type = TypeRegex, f_content = ''x'', f_case_insensitive = False\<rparr>] ''y'')"
  by (rule validated_flags_always_answer) (simp_all add: validate_flag_def compile_def)

end
