(* ===== verification/Prereq.thy ===== *)
theory Prereq
  imports Json
begin

section \<open>Prerequisites (internal/domain/prereq)\<close>

text \<open>
  The \<open>requirements\<close> document of a challenge or hint: decoding it from JSON, encoding it, the
  vocabulary of its visibility flag, and the search for a prerequisite cycle. The decoder
  matches member names the way \<open>encoding/json\<close> does, by ASCII case and by the long s.
\<close>

datatype Visibility = Hidden | Masked | Preview | VisibilityOther nat

definition visible :: "Visibility \<Rightarrow> bool" where
  "visible v \<longleftrightarrow> v \<noteq> Hidden"

record Requirements =
  prerequisites :: "id list"
  visibility :: Visibility

definition no_requirements :: Requirements where
  "no_requirements = \<lparr>prerequisites = [], visibility = Hidden\<rparr>"

datatype prereq_error = BadDocument | BadAnonymize json | UnknownVisibility string

subsection \<open>Decoding\<close>

fun fold_key :: "string \<Rightarrow> string" where
  "fold_key (c # d # cs) =
    (if c = CHR 0xC5 \<and> d = CHR 0xBF then CHR ''s'' # fold_key cs
     else fold_byte c # fold_key (d # cs))"
| "fold_key [c] = [fold_byte c]"
| "fold_key [] = []"

definition members :: "string \<Rightarrow> (string \<times> json) list \<Rightarrow> json list" where
  "members name ms = map snd (filter (\<lambda>(k, v). fold_key k = name) ms)"

text \<open>An element of a \<open>[]int64\<close>: null leaves the zero value, an integer must fit.\<close>

definition decode_int :: "json \<Rightarrow> int option" where
  "decode_int j =
    (case j of JNull \<Rightarrow> Some 0 | JInt n \<Rightarrow> if in_i64 n then Some n else None | _ \<Rightarrow> None)"

fun decode_ints :: "json list \<Rightarrow> int list option" where
  "decode_ints [] = Some []"
| "decode_ints (j # js) =
    (case decode_int j of
       None \<Rightarrow> None
     | Some n \<Rightarrow> map_option (Cons n) (decode_ints js))"

definition decode_int_slice :: "json \<Rightarrow> int list option" where
  "decode_int_slice j =
    (case j of JNull \<Rightarrow> Some [] | JArray js \<Rightarrow> decode_ints js | _ \<Rightarrow> None)"

text \<open>A repeated member: every occurrence must decode, the last one stands.\<close>

fun decode_last :: "json list \<Rightarrow> int list \<Rightarrow> int list option" where
  "decode_last [] acc = Some acc"
| "decode_last (j # js) acc =
    (case decode_int_slice j of None \<Rightarrow> None | Some ns \<Rightarrow> decode_last js ns)"

definition parse_visibility :: "json option \<Rightarrow> (prereq_error, Visibility) result" where
  "parse_visibility rawv =
    (case rawv of
       None \<Rightarrow> Inr Hidden
     | Some JNull \<Rightarrow> Inr Hidden
     | Some (JBool b) \<Rightarrow> if b then Inr Masked else Inr Hidden
     | Some (JString s) \<Rightarrow> if s = ''preview'' then Inr Preview else Inl (BadAnonymize (JString s))
     | Some j \<Rightarrow> Inl (BadAnonymize j))"

definition parse :: "raw \<Rightarrow> (prereq_error, Requirements) result" where
  "parse r =
    (case r of
       RawEmpty \<Rightarrow> Inr no_requirements
     | RawMalformed \<Rightarrow> Inl BadDocument
     | RawDoc JNull \<Rightarrow> Inr no_requirements
     | RawDoc (JObject ms) \<Rightarrow>
         (case decode_last (members ''prerequisites'' ms) [] of
            None \<Rightarrow> Inl BadDocument
          | Some ids \<Rightarrow>
              bind_result
                (parse_visibility
                  (if members ''anonymize'' ms = [] then None
                   else Some (last (members ''anonymize'' ms))))
                (\<lambda>vis. Inr \<lparr>prerequisites = ids, visibility = vis\<rparr>))
     | RawDoc _ \<Rightarrow> Inl BadDocument)"

subsection \<open>Encoding and the visibility vocabulary\<close>

text \<open>\<open>json.Marshal\<close> of a map writes its members in the order of their names.\<close>

definition encode :: "Requirements \<Rightarrow> json" where
  "encode r =
    JObject
      ((case visibility r of
          Masked \<Rightarrow> [(''anonymize'', JBool True)]
        | Preview \<Rightarrow> [(''anonymize'', JString ''preview'')]
        | _ \<Rightarrow> [])
       @ (if 0 < length (prerequisites r)
          then [(''prerequisites'', JArray (map JInt (prerequisites r)))] else []))"

definition visibility_name :: "Visibility \<Rightarrow> string" where
  "visibility_name v =
    (case v of Masked \<Rightarrow> ''masked'' | Preview \<Rightarrow> ''preview'' | _ \<Rightarrow> ''hidden'')"

definition visibility_from_name :: "string \<Rightarrow> (prereq_error, Visibility) result" where
  "visibility_from_name name =
    (if name = ''hidden'' then Inr Hidden
     else if name = ''masked'' then Inr Masked
     else if name = ''preview'' then Inr Preview
     else Inl (UnknownVisibility name))"

lemma fold_key_names: "fold_key ''prerequisites'' = ''prerequisites''" "fold_key ''anonymize'' = ''anonymize''"
  by code_simp+

declare fold_key.simps [simp del]

lemma decode_ints_JInt: "list_all in_i64 ns \<Longrightarrow> decode_ints (map JInt ns) = Some ns"
  by (induction ns) (simp_all add: decode_int_def)

lemma decode_ints_range: "decode_ints js = Some ns \<Longrightarrow> list_all in_i64 ns"
  by (induction js arbitrary: ns)
    (auto simp: decode_int_def split: option.splits json.splits if_splits)

subsection \<open>Cycle search\<close>

text \<open>
  \<open>edges\<close> is a Go map, here an association list; a missing key has no successors. The recursive
  closure \<open>walk\<close> extends the path by its node and then scans the node's successors, so
  \<open>scan g start ns path vis\<close> is the loop of the call that owns \<open>path\<close>, from the successors \<open>ns\<close>
  on, with the shared set \<open>visited\<close> threaded through.
\<close>

type_synonym graph = "(id \<times> id list) list"

definition succs :: "graph \<Rightarrow> id \<Rightarrow> id list" where
  "succs g n = (case map_of g n of None \<Rightarrow> [] | Some ns \<Rightarrow> ns)"

definition nodes :: "graph \<Rightarrow> id set" where
  "nodes g = set (map fst g) \<union> set (concat (map snd g))"

lemma finite_nodes [simp]: "finite (nodes g)"
  by (simp add: nodes_def)

lemma succs_outside: "n \<notin> nodes g \<Longrightarrow> succs g n = []"
  by (force simp: succs_def nodes_def split: option.split dest: map_of_SomeD)

function scan :: "graph \<Rightarrow> id \<Rightarrow> id list \<Rightarrow> id list \<Rightarrow> id list \<Rightarrow> id list option \<times> id list" where
  "scan g start [] path vis = (None, vis)"
| "scan g start (n # ns) path vis =
    (if n = start then (Some (path @ [start]), vis)
     else if n \<in> set vis then scan g start ns path vis
     else
       (case scan g start (succs g n) (path @ [n]) (n # vis) of
          (Some found, vis') \<Rightarrow> (Some found, vis')
        | (None, vis') \<Rightarrow> scan g start ns path vis'))"
  by pat_completeness auto

lemma scan_visited_grows:
  "scan_dom (g, start, ns, path, vis) \<Longrightarrow> set vis \<subseteq> set (snd (scan g start ns path vis))"
proof (induction g start ns path vis rule: scan.pinduct)
  case (2 g start n ns path vis)
  note unfold = scan.psimps(2) [OF 2(1)]
  obtain r vis' where inner: "scan g start (succs g n) (path @ [n]) (n # vis) = (r, vis')"
    by fastforce
  show ?case
  proof (cases "n = start \<or> n \<in> set vis")
    case True
    then show ?thesis using 2(2) by (auto simp: unfold)
  next
    case False
    then have "set (n # vis) \<subseteq> set vis'" using 2(3) inner by simp
    then show ?thesis
      using False 2(4) inner by (cases r) (auto simp: unfold)
  qed
qed (simp add: scan.psimps)

termination scan
proof (relation "measures [\<lambda>(g, start, ns, path, vis). card (nodes g - set vis),
    \<lambda>(g, start, ns, path, vis). length ns]", goal_cases)
  case (3 g start n ns path vis)
  show ?case
  proof (cases "n \<in> nodes g")
    case True
    then have "nodes g - set (n # vis) \<subset> nodes g - set vis" using 3 by auto
    then have "card (nodes g - set (n # vis)) < card (nodes g - set vis)"
      by (intro psubset_card_mono) auto
    then show ?thesis by simp
  next
    case False
    then have "nodes g - set (n # vis) = nodes g - set vis" by auto
    then show ?thesis using False by (simp add: succs_outside)
  qed
next
  case (4 g start n ns path vis r vis')
  then have "set (n # vis) \<subseteq> set vis'"
    using scan_visited_grows [of g start "succs g n" "path @ [n]" "n # vis"]
    by (metis snd_conv)
  then have "nodes g - set vis' \<subseteq> nodes g - set vis" by auto
  then have "card (nodes g - set vis') \<le> card (nodes g - set vis)"
    by (intro card_mono) auto
  then show ?case by auto
qed auto

definition find_cycle :: "graph \<Rightarrow> id \<Rightarrow> id list option" where
  "find_cycle g start = fst (scan g start (succs g start) [start] [])"

definition edges :: "graph \<Rightarrow> (id \<times> id) set" where
  "edges g = {(u, v). v \<in> set (succs g u)}"

lemma scan_grows: "set vis \<subseteq> set (snd (scan g start ns path vis))"
proof (induction g start ns path vis rule: scan.induct)
  case (2 g start n ns path vis)
  then show ?case
    by (cases "scan g start (succs g n) (path @ [n]) (n # vis)")
      (auto simp: subset_iff split: option.splits)
qed simp

text \<open>A path whose consecutive nodes are joined by edges.\<close>

fun edge_path :: "graph \<Rightarrow> id list \<Rightarrow> bool" where
  "edge_path g (u # v # p) = (v \<in> set (succs g u) \<and> edge_path g (v # p))"
| "edge_path g _ = True"

lemma edge_path_snoc:
  "p \<noteq> [] \<Longrightarrow> edge_path g p \<Longrightarrow> v \<in> set (succs g (last p)) \<Longrightarrow> edge_path g (p @ [v])"
  by (induction g p rule: edge_path.induct) auto

lemma edge_path_trancl:
  "edge_path g (u # p) \<Longrightarrow> p \<noteq> [] \<Longrightarrow> (u, last p) \<in> (edges g)\<^sup>+"
proof (induction p arbitrary: u)
  case (Cons v p)
  then have e: "(u, v) \<in> edges g" by (simp add: edges_def)
  show ?case
  proof (cases "p = []")
    case False
    then have "(v, last p) \<in> (edges g)\<^sup>+" using Cons by simp
    with e False show ?thesis by (simp add: trancl_into_trancl2)
  qed (use e in auto)
qed simp

text \<open>
  What a scan returns. A found path extends the owner's path to the start along edges. A scan
  that finds nothing has put every scanned node into the visited set, none of them the start,
  and has closed every node it newly visited.
\<close>

definition closed_in :: "graph \<Rightarrow> id \<Rightarrow> id set \<Rightarrow> id \<Rightarrow> bool" where
  "closed_in g start V u \<longleftrightarrow> start \<notin> set (succs g u) \<and> set (succs g u) \<subseteq> V"

lemma scan_found:
  "scan g start ns path vis = (Some found, vis') \<Longrightarrow> path \<noteq> [] \<Longrightarrow> edge_path g path
    \<Longrightarrow> set ns \<subseteq> set (succs g (last path))
    \<Longrightarrow> edge_path g found \<and> (\<exists>q. found = path @ q \<and> q \<noteq> [] \<and> last q = start)"
proof (induction g start ns path vis arbitrary: found vis' rule: scan.induct)
  case (2 g start n ns path vis)
  obtain r w where inner: "scan g start (succs g n) (path @ [n]) (n # vis) = (r, w)"
    by fastforce
  have snoc: "edge_path g (path @ [n])"
    using "2.prems" by (intro edge_path_snoc) auto
  consider "n = start" | "n \<noteq> start" "n \<in> set vis"
    | "n \<noteq> start" "n \<notin> set vis" "r = None" | f where "n \<noteq> start" "n \<notin> set vis" "r = Some f"
    by (cases r) auto
  then show ?case
  proof cases
    case 1
    then show ?thesis using snoc "2.prems" by auto
  next
    case 2
    then show ?thesis using "2.IH"(1) "2.prems" by auto
  next
    case 3
    then show ?thesis using "2.IH"(3) [OF 3(1,2) inner [symmetric] 3(3)] "2.prems" inner by auto
  next
    case 4
    have "edge_path g f \<and> (\<exists>q. f = (path @ [n]) @ q \<and> q \<noteq> [] \<and> last q = start)"
      using "2.IH"(2) [OF 4(1,2), of f w] inner 4(3) snoc by simp
    moreover have "found = f" using "2.prems"(1) 4 inner by simp
    ultimately show ?thesis by auto
  qed
qed simp

lemma scan_none:
  "scan g start ns path vis = (None, vis')
    \<Longrightarrow> start \<notin> set ns \<and> set ns \<subseteq> set vis' \<and> set vis \<subseteq> set vis'
      \<and> (\<forall>u \<in> set vis' - set vis. closed_in g start (set vis') u)"
proof (induction g start ns path vis arbitrary: vis' rule: scan.induct)
  case (2 g start n ns path vis)
  have neq: "n \<noteq> start" using "2.prems" by (auto split: if_splits)
  show ?case
  proof (cases "n \<in> set vis")
    case True
    then show ?thesis using "2.IH"(1) [OF neq True] "2.prems" neq by auto
  next
    case False
    then obtain w where w: "scan g start (succs g n) (path @ [n]) (n # vis) = (None, w)"
      and rest: "scan g start ns path w = (None, vis')"
      using "2.prems" neq by (auto split: option.splits prod.splits)
    have 1: "start \<notin> set (succs g n)" "set (succs g n) \<subseteq> set w" "set (n # vis) \<subseteq> set w"
      "\<forall>u \<in> set w - set (n # vis). closed_in g start (set w) u"
      using "2.IH"(2) [OF neq False w] by auto
    have 2: "start \<notin> set ns" "set ns \<subseteq> set vis'" "set w \<subseteq> set vis'"
      "\<forall>u \<in> set vis' - set w. closed_in g start (set vis') u"
      using "2.IH"(3) [OF neq False w [symmetric] refl rest] by auto
    have "closed_in g start (set vis') u" if "u \<in> set vis' - set vis" for u
    proof (cases "u \<in> set w")
      case True
      then have "closed_in g start (set w) u"
        using that 1 by (cases "u = n") (auto simp: closed_in_def)
      then show ?thesis using 2(3) by (auto simp: closed_in_def)
    qed (use that 2(4) in auto)
    then show ?thesis using 1 2 neq by auto
  qed
qed simp

lemma closed_no_cycle:
  assumes "start \<notin> set (succs g start)" "set (succs g start) \<subseteq> V"
    and "\<And>u. u \<in> V \<Longrightarrow> closed_in g start V u"
  shows "(start, start) \<notin> (edges g)\<^sup>+"
proof -
  have "(start, v) \<in> (edges g)\<^sup>+ \<Longrightarrow> v \<in> V \<and> v \<noteq> start" for v
  proof (induction rule: trancl_induct)
    case (base v)
    then show ?case using assms(1,2) by (auto simp: edges_def)
  next
    case (step u v)
    then show ?case using assms(3) [of u] by (auto simp: edges_def closed_in_def)
  qed
  then show ?thesis by auto
qed

lemma find_cycle_spec:
  "(find_cycle g start = None \<longleftrightarrow> (start, start) \<notin> (edges g)\<^sup>+)
   \<and> (\<forall>p. find_cycle g start = Some p \<longrightarrow>
        hd p = start \<and> last p = start \<and> 2 \<le> length p \<and> edge_path g p)"
proof (cases "scan g start (succs g start) [start] []")
  case (Pair r vis)
  show ?thesis
  proof (cases r)
    case None
    then have "start \<notin> set (succs g start) \<and> set (succs g start) \<subseteq> set vis
        \<and> (\<forall>u \<in> set vis. closed_in g start (set vis) u)"
      using scan_none [of g start "succs g start" "[start]" "[]" vis] Pair by simp
    then show ?thesis
      using closed_no_cycle [of start g "set vis"] None Pair by (simp add: find_cycle_def)
  next
    case (Some found)
    then obtain q where q: "edge_path g found" "found = [start] @ q" "q \<noteq> []" "last q = start"
      using scan_found [of g start "succs g start" "[start]" "[]" found vis] Pair by auto
    then have "(start, start) \<in> (edges g)\<^sup>+"
      using edge_path_trancl [of g start q] by simp
    moreover have "2 \<le> length found" using q by (cases q) auto
    ultimately show ?thesis using q Some Pair by (simp add: find_cycle_def)
  qed
qed

lemma parse_encode:
  "list_all in_i64 (prerequisites r) \<Longrightarrow> visibility r \<in> {Hidden, Masked, Preview}
    \<Longrightarrow> parse (RawDoc (encode r)) = Inr r"
  by (cases r)
    (auto simp: parse_def encode_def members_def fold_key_names decode_int_slice_def
      decode_ints_JInt parse_visibility_def)

subsection \<open>Properties\<close>

text \<open>
  C40: The cycle search is exact. It terminates on every edge map, cyclic ones included; it
  answers nothing exactly when the start lies on no cycle; and what it returns is a path along
  edges that leaves the start and comes back to it.
\<close>

theorem find_cycle_exact:
  "(find_cycle g start = None \<longleftrightarrow> (start, start) \<notin> (edges g)\<^sup>+)
   \<and> (\<forall>p. find_cycle g start = Some p \<longrightarrow>
        hd p = start \<and> last p = start \<and> 2 \<le> length p \<and> edge_path g p)"
  by (rule find_cycle_spec)

theorem find_cycle_exact_witness:
  "find_cycle [(1, [2, 3]), (2, [2]), (3, [4]), (4, [1])] 1 = Some [1, 3, 4, 1]
   \<and> find_cycle [(1, [2]), (2, [2])] 1 = None \<and> (1, 1) \<notin> (edges [(1, [2]), (2, [2])])\<^sup>+"
proof -
  have "find_cycle [(1, [2, 3]), (2, [2]), (3, [4]), (4, [1])] 1 = Some [1, 3, 4, 1]"
    and n: "find_cycle [(1, [2]), (2, [2])] 1 = None"
    by code_simp+
  then show ?thesis
    using find_cycle_exact [of "[(1, [2]), (2, [2])]" 1] by blast
qed

text \<open>
  Requirements survive the round trip through their stored document: decoding what was
  encoded gives back the same prerequisites and the same visibility, and the admin vocabulary of
  visibility names is a faithful renaming.
\<close>

theorem requirements_roundtrip:
  assumes "list_all in_i64 (prerequisites r)" and "visibility r \<in> {Hidden, Masked, Preview}"
  shows "parse (RawDoc (encode r)) = Inr r
    \<and> visibility_from_name (visibility_name (visibility r)) = Inr (visibility r)"
  using assms by (auto simp: parse_encode visibility_from_name_def visibility_name_def)

theorem requirements_roundtrip_witness:
  "parse (RawDoc (encode \<lparr>prerequisites = [3, 5], visibility = Preview\<rparr>))
     = Inr \<lparr>prerequisites = [3, 5], visibility = Preview\<rparr>"
  using requirements_roundtrip [of "\<lparr>prerequisites = [3, 5], visibility = Preview\<rparr>"] by simp

end
