(* ===== verification/Store.thy ===== *)
theory Store
  imports Decay Flags Prereq Account
begin

section \<open>The store: tables, constraints and queries (internal/db)\<close>

text \<open>
  The rows and tables that game play reads and writes, and the queries of \<open>gameplay.sql\<close>,
  \<open>unlocks.sql\<close> and \<open>flags.sql\<close> on them. A table is the list of its rows in insertion order, a
  nullable column an option, a \<open>bigserial\<close> key a counter. A statement that violates a constraint
  is an error; \<open>ON CONFLICT DO NOTHING\<close> returns no row. A transaction is a function from the store
  to an error or a new store, so an error leaves no trace, as a rollback does.

  Columns that no modelled statement reads (descriptions, categories, positions, timestamps other
  than the date of a row) are left out. \<open>initial\<close>, \<open>minimum\<close> and \<open>decay\<close> are plain integers: they
  are read only where \<open>function\<close> is not static, and there the table's CHECK makes them present.
  The ids that a rolled-back or conflicting insert consumes from a sequence are not modelled: ids
  are fresh, not gapless in the same places.
\<close>

subsection \<open>Rows\<close>

record AccountRow =
  acc_id :: id
  acc_hidden :: bool
  acc_banned :: bool

record ChallengeRow =
  ch_id :: id
  ch_name :: string
  ch_state :: string
  ch_value :: int
  ch_function :: string
  ch_initial :: int
  ch_minimum :: int
  ch_decay :: int
  ch_max_attempts :: int
  ch_logic :: string
  ch_next_id :: "id option"
  ch_requirements :: raw
  ch_flag_mode :: string
  ch_first_blood :: string
  ch_first_blood_bonus :: "int option"

record FlagRow =
  fl_id :: id
  fl_challenge :: id
  fl_type :: string
  fl_content :: string
  fl_case_insensitive :: bool

record HintRow =
  h_id :: id
  h_challenge :: id
  h_title :: "string option"
  h_content :: string
  h_cost :: int
  h_requirements :: raw

record InstanceRow =
  in_id :: id
  in_challenge :: id
  in_hash :: string
  in_artifact :: "id option"
  in_vars :: raw
  in_generation :: int

record IssueRow =
  is_challenge :: id
  is_account :: id
  is_instance :: id

record SubmissionRow =
  sb_id :: id
  sb_challenge :: id
  sb_user :: id
  sb_team :: "id option"
  sb_type :: string
  sb_provided :: string
  sb_ip :: "string option"
  sb_attributed :: "id option"
  sb_date :: time

record SolveRow =
  sv_id :: id
  sv_submission :: "id option"
  sv_challenge :: id
  sv_user :: id
  sv_team :: "id option"
  sv_value :: int
  sv_date :: time

record AwardRow =
  aw_id :: id
  aw_user :: id
  aw_team :: "id option"
  aw_type :: string
  aw_challenge :: "id option"
  aw_name :: string
  aw_description :: "string option"
  aw_value :: int
  aw_date :: time

record UnlockRow =
  hu_id :: id
  hu_hint :: id
  hu_user :: id
  hu_team :: "id option"
  hu_award :: id

text \<open>What a committed solve sends on: the enqueued announcement and the signalled pulse.\<close>

record Announcement =
  an_challenge :: id
  an_name :: string
  an_user :: id
  an_team :: "id option"
  an_solve :: id
  an_at :: time

record Pulse =
  pu_solve :: id
  pu_challenge :: id
  pu_first_blood :: bool
  pu_at :: time

record db =
  user_mode :: string
  users :: "AccountRow list"
  teams :: "AccountRow list"
  challenges :: "ChallengeRow list"
  flags :: "FlagRow list"
  hints :: "HintRow list"
  instances :: "InstanceRow list"
  issues :: "IssueRow list"
  submissions :: "SubmissionRow list"
  solves :: "SolveRow list"
  awards :: "AwardRow list"
  unlocks :: "UnlockRow list"
  next_submission :: id
  next_solve :: id
  next_award :: id
  next_unlock :: id
  announcements :: "Announcement list"
  pulses :: "Pulse list"

datatype gameplay_error =
    ErrAccount account_error
  | ErrChallengeNotFound
  | ErrChallengeLocked
  | ErrNoAttemptsRemaining
  | ErrHintNotFound
  | ErrHintLocked
  | ErrInsufficientScore
  | ErrAlreadyUnlocked
  | ErrRequirements prereq_error
  | ErrFlags flags_error
  | ErrNoFlags
  | ErrUnhandledFlagMode nat
  | ErrNoBonus
  | ErrAccountNotFound id
  | ErrPoolExhausted
  | ErrUniqueViolation string
  | ErrForeignKey
  | ErrCheckViolation
  | ErrSql sql_error

subsection \<open>Scoping and visibility of accounts\<close>

text \<open>The CASE on \<open>instance.user_mode\<close>: which of the two id columns of a row is compared.\<close>

definition eq_id :: "id option \<Rightarrow> id option \<Rightarrow> bool" where
  "eq_id a b = (case (a, b) of (Some x, Some y) \<Rightarrow> x = y | _ \<Rightarrow> False)"

definition scoped :: "db \<Rightarrow> id \<Rightarrow> id option \<Rightarrow> id \<Rightarrow> id option \<Rightarrow> bool" where
  "scoped d user team row_user row_team =
    (if user_mode d = ''teams'' then eq_id row_team team else row_user = user)"

definition find_account :: "AccountRow list \<Rightarrow> id \<Rightarrow> AccountRow option" where
  "find_account rows i = find (\<lambda>r. acc_id r = i) rows"

definition row_visible :: "AccountRow option \<Rightarrow> bool" where
  "row_visible r = (case r of None \<Rightarrow> False | Some a \<Rightarrow> \<not> acc_hidden a \<and> \<not> acc_banned a)"

definition eligible :: "db \<Rightarrow> id \<Rightarrow> id option \<Rightarrow> bool" where
  "eligible d user team =
    (if user_mode d = ''teams''
     then (case team of None \<Rightarrow> False | Some t \<Rightarrow> row_visible (find_account (teams d) t))
     else row_visible (find_account (users d) user))"

text \<open>The foreign keys of every game-play row: the user, and the team when there is one.\<close>

definition fk_ok :: "db \<Rightarrow> id \<Rightarrow> id option \<Rightarrow> bool" where
  "fk_ok d user team \<longleftrightarrow>
    find_account (users d) user \<noteq> None
    \<and> (case team of None \<Rightarrow> True | Some t \<Rightarrow> find_account (teams d) t \<noteq> None)"

subsection \<open>gameplay.sql\<close>

definition count_incorrect_submissions :: "db \<Rightarrow> id \<Rightarrow> id option \<Rightarrow> id \<Rightarrow> int" where
  "count_incorrect_submissions d challenge team user =
    int (length (filter (\<lambda>s. sb_challenge s = challenge \<and> sb_type s = ''incorrect''
                            \<and> scoped d user team (sb_user s) (sb_team s)) (submissions d)))"

definition count_solved_prerequisites :: "db \<Rightarrow> id list \<Rightarrow> id option \<Rightarrow> id \<Rightarrow> int" where
  "count_solved_prerequisites d ids team user =
    int (length (remdups (map sv_challenge
      (filter (\<lambda>s. List.member ids (sv_challenge s)
                  \<and> scoped d user team (sv_user s) (sv_team s)) (solves d)))))"

definition prior_solves :: "db \<Rightarrow> id \<Rightarrow> id \<Rightarrow> int" where
  "prior_solves d challenge excluded =
    int (length (filter (\<lambda>s. sv_challenge s = challenge \<and> sv_id s \<noteq> excluded
                            \<and> eligible d (sv_user s) (sv_team s)) (solves d)))"

definition visible_solve_count :: "db \<Rightarrow> id \<Rightarrow> int" where
  "visible_solve_count d challenge =
    int (length (filter (\<lambda>s. sv_challenge s = challenge
                            \<and> eligible d (sv_user s) (sv_team s)) (solves d)))"

definition get_challenge :: "db \<Rightarrow> id \<Rightarrow> ChallengeRow option" where
  "get_challenge d i = find (\<lambda>c. ch_id c = i \<and> ch_state c = ''visible'') (challenges d)"

text \<open>\<open>ORDER BY id\<close>.\<close>

definition get_challenge_flags :: "db \<Rightarrow> id \<Rightarrow> FlagRow list" where
  "get_challenge_flags d i = sort_key fl_id (filter (\<lambda>f. fl_challenge f = i) (flags d))"

definition insert_submission ::
  "db \<Rightarrow> time \<Rightarrow> id \<Rightarrow> id \<Rightarrow> id option \<Rightarrow> string \<Rightarrow> string \<Rightarrow> string option \<Rightarrow> id option
    \<Rightarrow> (gameplay_error, id \<times> db) result" where
  "insert_submission d now challenge user team typ provided ip attributed =
    (if \<not> fk_ok d user team then Inl ErrForeignKey
     else
       Inr (next_submission d,
         d\<lparr>submissions := submissions d @
             [\<lparr>sb_id = next_submission d, sb_challenge = challenge, sb_user = user, sb_team = team,
               sb_type = typ, sb_provided = provided, sb_ip = ip, sb_attributed = attributed,
               sb_date = now\<rparr>],
           next_submission := next_submission d + 1\<rparr>))"

text \<open>UNIQUE (challenge, user), UNIQUE (challenge, team), UNIQUE (submission); NULLs are distinct.\<close>

definition solve_conflict :: "id option \<Rightarrow> id \<Rightarrow> id \<Rightarrow> id option \<Rightarrow> SolveRow \<Rightarrow> bool" where
  "solve_conflict submission challenge user team s \<longleftrightarrow>
    sv_challenge s = challenge \<and> (sv_user s = user \<or> eq_id (sv_team s) team)
    \<or> eq_id (sv_submission s) submission"

definition insert_solve ::
  "db \<Rightarrow> time \<Rightarrow> id option \<Rightarrow> id \<Rightarrow> id \<Rightarrow> id option \<Rightarrow> int
    \<Rightarrow> (gameplay_error, SolveRow option \<times> db) result" where
  "insert_solve d now submission challenge user team value =
    (if list_ex (solve_conflict submission challenge user team) (solves d) then Inr (None, d)
     else if \<not> fk_ok d user team then Inl ErrForeignKey
     else
       let s = \<lparr>sv_id = next_solve d, sv_submission = submission, sv_challenge = challenge,
                sv_user = user, sv_team = team, sv_value = value, sv_date = now\<rparr>
       in Inr (Some s, d\<lparr>solves := solves d @ [s], next_solve := next_solve d + 1\<rparr>))"

text \<open>The partial unique index and the CHECK that a typed award names its challenge.\<close>

definition insert_award ::
  "db \<Rightarrow> time \<Rightarrow> id \<Rightarrow> id option \<Rightarrow> string \<Rightarrow> id option \<Rightarrow> string \<Rightarrow> int
    \<Rightarrow> (gameplay_error, id \<times> db) result" where
  "insert_award d now user team typ challenge name value =
    (if typ \<noteq> ''standard'' \<and> challenge = None then Inl ErrCheckViolation
     else if typ = ''first_blood''
        \<and> list_ex (\<lambda>a. aw_type a = ''first_blood'' \<and> eq_id (aw_challenge a) challenge) (awards d)
     then Inl (ErrUniqueViolation ''awards_one_first_blood_per_challenge'')
     else if \<not> fk_ok d user team then Inl ErrForeignKey
     else
       Inr (next_award d,
         d\<lparr>awards := awards d @
             [\<lparr>aw_id = next_award d, aw_user = user, aw_team = team, aw_type = typ,
               aw_challenge = challenge, aw_name = name, aw_description = None, aw_value = value,
               aw_date = now\<rparr>],
           next_award := next_award d + 1\<rparr>))"

definition curve_of :: "ChallengeRow \<Rightarrow> Curve" where
  "curve_of c =
    \<lparr>c_function = (if ch_function c = ''linear'' then FunctionLinear else FunctionLogarithmic),
     c_initial = ch_initial c, c_minimum = ch_minimum c, c_decay = ch_decay c\<rparr>"

definition recalc_challenge_value :: "db \<Rightarrow> id \<Rightarrow> (gameplay_error, db) result" where
  "recalc_challenge_value d i =
    (case find (\<lambda>c. ch_id c = i \<and> ch_function c \<noteq> ''static'') (challenges d) of
       None \<Rightarrow> Inr d
     | Some c \<Rightarrow>
         (case recalc_value (curve_of c) (visible_solve_count d i) of
            Inl e \<Rightarrow> Inl (ErrSql e)
          | Inr v \<Rightarrow>
              Inr (d\<lparr>challenges :=
                map (\<lambda>r. if ch_id r = i \<and> ch_function r \<noteq> ''static'' then r\<lparr>ch_value := v\<rparr> else r)
                  (challenges d)\<rparr>)))"

subsection \<open>unlocks.sql\<close>

definition count_unlocked_hint_prerequisites :: "db \<Rightarrow> id list \<Rightarrow> id option \<Rightarrow> id \<Rightarrow> int" where
  "count_unlocked_hint_prerequisites d ids team user =
    int (length (remdups (map hu_hint
      (filter (\<lambda>u. List.member ids (hu_hint u)
                  \<and> scoped d user team (hu_user u) (hu_team u)) (unlocks d)))))"

definition get_account_score :: "db \<Rightarrow> id option \<Rightarrow> id \<Rightarrow> int" where
  "get_account_score d team user =
    sum_list (map sv_value (filter (\<lambda>s. scoped d user team (sv_user s) (sv_team s)) (solves d)))
    + sum_list (map aw_value (filter (\<lambda>a. scoped d user team (aw_user a) (aw_team a)) (awards d)))"

text \<open>A hint of a visible challenge, with that challenge's requirements.\<close>

definition get_hint :: "db \<Rightarrow> id \<Rightarrow> id \<Rightarrow> (HintRow \<times> raw) option" where
  "get_hint d hint challenge =
    (case find (\<lambda>h. h_id h = hint \<and> h_challenge h = challenge) (hints d) of
       None \<Rightarrow> None
     | Some h \<Rightarrow> map_option (\<lambda>c. (h, ch_requirements c)) (get_challenge d (h_challenge h)))"

definition get_hint_unlock :: "db \<Rightarrow> id \<Rightarrow> id option \<Rightarrow> id \<Rightarrow> id option" where
  "get_hint_unlock d hint team user =
    map_option hu_id
      (find (\<lambda>u. hu_hint u = hint \<and> scoped d user team (hu_user u) (hu_team u)) (unlocks d))"

definition insert_hint_unlock ::
  "db \<Rightarrow> id \<Rightarrow> id \<Rightarrow> id option \<Rightarrow> id \<Rightarrow> (gameplay_error, id option \<times> db) result" where
  "insert_hint_unlock d hint user team award =
    (if list_ex (\<lambda>u. hu_hint u = hint \<and> (hu_user u = user \<or> eq_id (hu_team u) team)
                    \<or> hu_award u = award) (unlocks d)
     then Inr (None, d)
     else if \<not> fk_ok d user team then Inl ErrForeignKey
     else
       Inr (Some (next_unlock d),
         d\<lparr>unlocks := unlocks d @
             [\<lparr>hu_id = next_unlock d, hu_hint = hint, hu_user = user, hu_team = team,
               hu_award = award\<rparr>],
           next_unlock := next_unlock d + 1\<rparr>))"

definition lock_team_for_spend :: "db \<Rightarrow> id \<Rightarrow> id option" where
  "lock_team_for_spend d i = map_option acc_id (find_account (teams d) i)"

definition lock_user_for_spend :: "db \<Rightarrow> id \<Rightarrow> id option" where
  "lock_user_for_spend d i = map_option acc_id (find_account (users d) i)"

subsection \<open>flags.sql\<close>

definition issued :: "db \<Rightarrow> id \<Rightarrow> bool" where
  "issued d inst = list_ex (\<lambda>f. is_instance f = inst) (issues d)"

text \<open>The first row of an ordering: \<open>ORDER BY ... LIMIT 1\<close>.\<close>

definition first_by :: "('a \<Rightarrow> 'b::linorder) \<Rightarrow> 'a list \<Rightarrow> 'a option" where
  "first_by k xs = (case sort_key k xs of [] \<Rightarrow> None | x # _ \<Rightarrow> Some x)"

definition pick_instance :: "db \<Rightarrow> id \<Rightarrow> InstanceRow option" where
  "pick_instance d challenge =
    first_by (\<lambda>i. - in_generation i)
      (sort_key in_id
        (filter (\<lambda>i. in_challenge i = challenge \<and> \<not> issued d (in_id i)) (instances d)))"

definition assign_instance :: "db \<Rightarrow> id \<Rightarrow> id \<Rightarrow> (gameplay_error, id option \<times> db) result" where
  "assign_instance d challenge account =
    (case pick_instance d challenge of
       None \<Rightarrow> Inr (None, d)
     | Some i \<Rightarrow>
         if list_ex (\<lambda>f. is_challenge f = challenge \<and> is_account f = account) (issues d)
         then Inr (None, d)
         else if issued d (in_id i) then Inl (ErrUniqueViolation ''flag_issues_instance_id_key'')
         else Inr (Some (in_id i),
           d\<lparr>issues := issues d @
               [\<lparr>is_challenge = challenge, is_account = account, is_instance = in_id i\<rparr>]\<rparr>))"

definition get_issued_instance :: "db \<Rightarrow> id \<Rightarrow> id \<Rightarrow> InstanceRow option" where
  "get_issued_instance d challenge account =
    (case find (\<lambda>f. is_challenge f = challenge \<and> is_account f = account) (issues d) of
       None \<Rightarrow> None
     | Some f \<Rightarrow> find (\<lambda>i. in_id i = is_instance f) (instances d))"

text \<open>
  The probe by hash: \<open>Some None\<close> is a hit nobody was issued. An issued row sorts before an
  unissued one, then the newest generation.
\<close>

definition issued_to :: "db \<Rightarrow> id \<Rightarrow> id option" where
  "issued_to d inst = map_option is_account (find (\<lambda>f. is_instance f = inst) (issues d))"

definition lookup_instance_by_hash :: "db \<Rightarrow> id \<Rightarrow> string \<Rightarrow> id option option" where
  "lookup_instance_by_hash d challenge hash =
    map_option (\<lambda>i. issued_to d (in_id i))
      (first_by (\<lambda>i. if issued_to d (in_id i) = None then 1 else 0 :: int)
        (sort_key (\<lambda>i. - in_generation i)
          (filter (\<lambda>i. in_challenge i = challenge \<and> in_hash i = hash) (instances d))))"

subsection \<open>Facts about the queries\<close>

lemma eq_id_simps [simp]:
  "eq_id (Some x) (Some y) \<longleftrightarrow> x = y" "\<not> eq_id None b" "\<not> eq_id a None"
  by (auto simp: eq_id_def split: option.splits)

lemma eq_id_iff: "eq_id a b \<longleftrightarrow> a = b \<and> a \<noteq> None"
  by (cases a; cases b) auto

lemma insert_submission_Inr:
  "insert_submission d now challenge user team typ provided ip attributed = Inr (i, d') \<longleftrightarrow>
    fk_ok d user team \<and> i = next_submission d
    \<and> d' = d\<lparr>submissions := submissions d @
             [\<lparr>sb_id = next_submission d, sb_challenge = challenge, sb_user = user, sb_team = team,
               sb_type = typ, sb_provided = provided, sb_ip = ip, sb_attributed = attributed,
               sb_date = now\<rparr>],
           next_submission := next_submission d + 1\<rparr>"
  by (auto simp: insert_submission_def)

lemma insert_solve_Inr_None:
  "insert_solve d now sub challenge user team v = Inr (None, d') \<longleftrightarrow>
    d' = d \<and> list_ex (solve_conflict sub challenge user team) (solves d)"
  by (auto simp: insert_solve_def Let_def)

lemma insert_solve_Inr_Some:
  "insert_solve d now sub challenge user team v = Inr (Some s, d') \<longleftrightarrow>
    \<not> list_ex (solve_conflict sub challenge user team) (solves d) \<and> fk_ok d user team
    \<and> s = \<lparr>sv_id = next_solve d, sv_submission = sub, sv_challenge = challenge, sv_user = user,
           sv_team = team, sv_value = v, sv_date = now\<rparr>
    \<and> d' = d\<lparr>solves := solves d @ [s], next_solve := next_solve d + 1\<rparr>"
  by (auto simp: insert_solve_def Let_def)

lemma insert_award_Inr:
  "insert_award d now user team typ challenge name v = Inr (i, d') \<longleftrightarrow>
    (typ = ''standard'' \<or> challenge \<noteq> None)
    \<and> \<not> (typ = ''first_blood''
        \<and> list_ex (\<lambda>a. aw_type a = ''first_blood'' \<and> eq_id (aw_challenge a) challenge) (awards d))
    \<and> fk_ok d user team \<and> i = next_award d
    \<and> d' = d\<lparr>awards := awards d @
             [\<lparr>aw_id = next_award d, aw_user = user, aw_team = team, aw_type = typ,
               aw_challenge = challenge, aw_name = name, aw_description = None, aw_value = v,
               aw_date = now\<rparr>],
           next_award := next_award d + 1\<rparr>"
  by (auto simp: insert_award_def)

lemma insert_hint_unlock_Inr_Some:
  "insert_hint_unlock d hint user team award = Inr (Some i, d') \<longleftrightarrow>
    \<not> list_ex (\<lambda>u. hu_hint u = hint \<and> (hu_user u = user \<or> eq_id (hu_team u) team)
                  \<or> hu_award u = award) (unlocks d)
    \<and> fk_ok d user team \<and> i = next_unlock d
    \<and> d' = d\<lparr>unlocks := unlocks d @
             [\<lparr>hu_id = next_unlock d, hu_hint = hint, hu_user = user, hu_team = team,
               hu_award = award\<rparr>],
           next_unlock := next_unlock d + 1\<rparr>"
  by (auto simp: insert_hint_unlock_def)

lemma get_challenge_Some:
  "get_challenge d i = Some ch \<Longrightarrow> ch_id ch = i \<and> ch_state ch = ''visible'' \<and> ch \<in> set (challenges d)"
  by (auto simp: get_challenge_def dest: find_Some_in)

lemma first_by_in: "first_by k xs = Some x \<Longrightarrow> x \<in> set xs"
  by (auto simp: first_by_def split: list.splits)
    (metis list.set_intros(1) set_sort)

lemma first_by_min: "first_by k xs = Some x \<Longrightarrow> y \<in> set xs \<Longrightarrow> k x \<le> k y"
proof -
  assume x: "first_by k xs = Some x" and y: "y \<in> set xs"
  then obtain ys where s: "sort_key k xs = x # ys"
    by (auto simp: first_by_def split: list.splits)
  have "y = x \<or> y \<in> set ys" using y s by (metis set_sort set_ConsD)
  moreover have "\<forall>z\<in>set ys. k x \<le> k z"
    using sorted_sort_key [of k xs] by (simp add: s)
  ultimately show ?thesis by auto
qed

lemma first_by_None [simp]: "first_by k xs = None \<longleftrightarrow> xs = []"
  by (auto simp: first_by_def split: list.splits) (metis length_0_conv length_sort)+

text \<open>
  What every transaction of game play keeps: accounts, hints, flags and pools are read only,
  challenges change at most their asking price, and that only on a curve, and the ledger tables only
  grow at their end.
\<close>

definition unpriced :: "ChallengeRow \<Rightarrow> ChallengeRow" where
  "unpriced c = (if ch_function c = ''static'' then c else c\<lparr>ch_value := 0\<rparr>)"

lemma unpriced_simps [simp]:
  "ch_id (unpriced c) = ch_id c" "ch_max_attempts (unpriced c) = ch_max_attempts c"
  "ch_function (unpriced c) = ch_function c"
  by (simp_all add: unpriced_def)

lemma unpriced_value [simp]: "ch_function c \<noteq> ''static'' \<Longrightarrow> unpriced (c\<lparr>ch_value := v\<rparr>) = unpriced c"
  by (simp add: unpriced_def)

definition reprices :: "ChallengeRow list \<Rightarrow> ChallengeRow list \<Rightarrow> bool" where
  "reprices cs cs' \<longleftrightarrow> map unpriced cs = map unpriced cs'"

definition extends :: "db \<Rightarrow> db \<Rightarrow> bool" where
  "extends d d' \<longleftrightarrow>
    user_mode d' = user_mode d \<and> users d' = users d \<and> teams d' = teams d
    \<and> flags d' = flags d \<and> hints d' = hints d \<and> instances d' = instances d
    \<and> reprices (challenges d) (challenges d')
    \<and> prefix (submissions d) (submissions d') \<and> prefix (solves d) (solves d')
    \<and> prefix (awards d) (awards d') \<and> prefix (unlocks d) (unlocks d')
    \<and> prefix (issues d) (issues d')
    \<and> prefix (announcements d) (announcements d') \<and> prefix (pulses d) (pulses d')"

lemma reprices_refl: "reprices cs cs"
  by (simp add: reprices_def)

lemma reprices_trans: "reprices a b \<Longrightarrow> reprices b c \<Longrightarrow> reprices a c"
  by (simp add: reprices_def)

lemma extends_refl: "extends d d"
  by (simp add: extends_def reprices_refl)

lemma extends_trans: "extends a b \<Longrightarrow> extends b c \<Longrightarrow> extends a c"
  by (auto simp: extends_def intro: reprices_trans prefix_order.trans)

lemma extends_eligible: "extends d d' \<Longrightarrow> eligible d' u t = eligible d u t"
  by (cases t) (simp_all add: extends_def eligible_def)

lemma extends_scoped: "extends d d' \<Longrightarrow> scoped d' u t ru rt = scoped d u t ru rt"
  by (simp add: extends_def scoped_def)

lemma extends_fk: "extends d d' \<Longrightarrow> fk_ok d' u t = fk_ok d u t"
  by (cases t) (simp_all add: extends_def fk_ok_def)

lemma reprices_map:
  "reprices cs (map (\<lambda>r. if P r \<and> ch_function r \<noteq> ''static'' then r\<lparr>ch_value := v\<rparr> else r) cs)"
  by (induction cs) (auto simp: reprices_def)

lemma recalc_extends: "recalc_challenge_value d i = Inr d' \<Longrightarrow> extends d d'"
  by (auto simp: recalc_challenge_value_def extends_def reprices_refl reprices_map
      split: option.splits sum.splits)

end
