(* ===== verification/Submit.thy ===== *)
theory Submit
  imports Store
begin

section \<open>Submitting a flag (internal/gameplay/submit.go, prereq.go, gameplay.go)\<close>

text \<open>
  \<open>Submit\<close> is one transaction in three parts, which the code keeps apart on purpose: everything up
  to the flag comparison reads without a lock; a wrong answer then inserts one row; only a correct
  one takes the challenge lock, reads the challenge again and goes on from the locked row. The
  parts are \<open>submit_open\<close>, \<open>submit_check\<close>, \<open>submit_incorrect\<close> and \<open>submit_correct\<close>, each a function of
  the store it runs on, and \<open>submit\<close> runs them on one store; the theory \<open>Interleaving\<close> runs them on
  the stores that other transactions leave in between. \<open>re\<close> is the regular-expression engine, \<open>now\<close>
  the transaction's clock.
\<close>

record Actor =
  ac_user :: id
  ac_team :: "id option"
  ac_ip :: "string option"

definition actor_account :: "Mode \<Rightarrow> Actor \<Rightarrow> (gameplay_error, id) result" where
  "actor_account mode a =
    (case resolve mode \<lparr>mem_user_id = ac_user a, mem_team_id = ac_team a\<rparr> of
       Inl e \<Rightarrow> Inl (ErrAccount e)
     | Inr i \<Rightarrow> Inr i)"

datatype Status = StatusIncorrect | StatusCorrect | StatusAlreadySolved | StatusOther nat

definition status_string :: "Status \<Rightarrow> string" where
  "status_string s =
    (case s of StatusIncorrect \<Rightarrow> ''incorrect'' | StatusCorrect \<Rightarrow> ''correct''
     | StatusAlreadySolved \<Rightarrow> ''already_solved''
     | StatusOther n \<Rightarrow> ''Status('' @ decimal (int n) @ '')'')"

record SubmitInput =
  si_challenge :: id
  si_actor :: Actor
  si_provided :: string

record Result =
  r_status :: Status
  r_first_blood :: bool
  r_value :: int
  r_next_id :: "id option"

definition bare_result :: "Status \<Rightarrow> Result" where
  "bare_result s = \<lparr>r_status = s, r_first_blood = False, r_value = 0, r_next_id = None\<rparr>"

subsection \<open>Prerequisites\<close>

text \<open>The loop over a seen-set keeps the first occurrence of each id.\<close>

fun dedupe_loop :: "id list \<Rightarrow> id list \<Rightarrow> id list \<Rightarrow> id list" where
  "dedupe_loop seen out [] = out"
| "dedupe_loop seen out (i # ids) =
    (if List.member seen i then dedupe_loop seen out ids
     else dedupe_loop (i # seen) (out @ [i]) ids)"

definition dedupe :: "id list \<Rightarrow> id list" where
  "dedupe ids = (if length ids = 0 then [] else dedupe_loop [] [] ids)"

definition challenge_prereqs_met :: "db \<Rightarrow> Actor \<Rightarrow> Requirements \<Rightarrow> bool" where
  "challenge_prereqs_met d a reqs =
    (let ids = dedupe (prerequisites reqs) in
     if length ids = 0 then True
     else count_solved_prerequisites d ids (ac_team a) (ac_user a) = int (length ids))"

definition hint_prereqs_met :: "db \<Rightarrow> Actor \<Rightarrow> Requirements \<Rightarrow> bool" where
  "hint_prereqs_met d a reqs =
    (let ids = dedupe (prerequisites reqs) in
     if length ids = 0 then True
     else count_unlocked_hint_prerequisites d ids (ac_team a) (ac_user a) = int (length ids))"

subsection \<open>Comparing the flag\<close>

record match_result =
  m_correct :: bool
  m_attributed :: "id option"

definition lift_flags :: "(flags_error, 'a) result \<Rightarrow> (gameplay_error, 'a) result" where
  "lift_flags r = (case r of Inl e \<Rightarrow> Inl (ErrFlags e) | Inr a \<Rightarrow> Inr a)"

fun parse_flag_rows :: "FlagRow list \<Rightarrow> (gameplay_error, Flag list) result" where
  "parse_flag_rows [] = Inr []"
| "parse_flag_rows (r # rs) =
    bind_result (lift_flags (parse_flag_type (fl_type r))) (\<lambda>t.
    bind_result (parse_flag_rows rs) (\<lambda>fs.
      Inr (\<lparr>f_type = t, f_content = fl_content r, f_case_insensitive = fl_case_insensitive r\<rparr> # fs)))"

definition check_static ::
  "regex \<Rightarrow> db \<Rightarrow> ChallengeRow \<Rightarrow> string \<Rightarrow> (gameplay_error, match_result) result" where
  "check_static re d ch provided =
    (let rows = get_challenge_flags d (ch_id ch) in
     if length rows = 0 then Inl ErrNoFlags
     else
       bind_result (parse_flag_rows rows) (\<lambda>fs.
       bind_result (lift_flags (parse_logic (ch_logic ch))) (\<lambda>logic.
       bind_result (lift_flags (if logic = LogicAll then match_all re fs provided
                                else match_any re fs provided)) (\<lambda>ok.
         Inr \<lparr>m_correct = ok, m_attributed = None\<rparr>))))"

definition check_unique ::
  "db \<Rightarrow> ChallengeRow \<Rightarrow> string \<Rightarrow> (gameplay_error, match_result) result" where
  "check_unique d ch provided =
    (case lookup_instance_by_hash d (ch_id ch) (flag_hash provided) of
       None \<Rightarrow> Inr \<lparr>m_correct = False, m_attributed = None\<rparr>
     | Some attributed \<Rightarrow> Inr \<lparr>m_correct = True, m_attributed = attributed\<rparr>)"

definition check ::
  "regex \<Rightarrow> db \<Rightarrow> ChallengeRow \<Rightarrow> string \<Rightarrow> (gameplay_error, match_result) result" where
  "check re d ch provided =
    bind_result (lift_flags (parse_flag_mode (ch_flag_mode ch))) (\<lambda>mode.
      case mode of
        ModeStatic \<Rightarrow> check_static re d ch provided
      | ModeUnique \<Rightarrow> check_unique d ch provided
      | FlagModeOther n \<Rightarrow> Inl (ErrUnhandledFlagMode n))"

subsection \<open>The transaction\<close>

definition prereq_gate :: "db \<Rightarrow> Actor \<Rightarrow> ChallengeRow \<Rightarrow> (gameplay_error, unit) result" where
  "prereq_gate d a ch =
    (case parse (ch_requirements ch) of
       Inl e \<Rightarrow> Inl (ErrRequirements e)
     | Inr reqs \<Rightarrow>
         if challenge_prereqs_met d a reqs then Inr ()
         else if visible (visibility reqs) then Inl ErrChallengeLocked
         else Inl ErrChallengeNotFound)"

definition submit_open ::
  "Mode \<Rightarrow> db \<Rightarrow> SubmitInput \<Rightarrow> (gameplay_error, id \<times> ChallengeRow) result" where
  "submit_open mode d inp =
    bind_result (actor_account mode (si_actor inp)) (\<lambda>acct.
      case get_challenge d (si_challenge inp) of
        None \<Rightarrow> Inl ErrChallengeNotFound
      | Some ch \<Rightarrow> bind_result (prereq_gate d (si_actor inp) ch) (\<lambda>_. Inr (acct, ch)))"

definition attempts_gate :: "db \<Rightarrow> Actor \<Rightarrow> ChallengeRow \<Rightarrow> (gameplay_error, unit) result" where
  "attempts_gate d a ch =
    (if 0 < ch_max_attempts ch
        \<and> ch_max_attempts ch \<le> count_incorrect_submissions d (ch_id ch) (ac_team a) (ac_user a)
     then Inl ErrNoAttemptsRemaining else Inr ())"

definition submit_check ::
  "regex \<Rightarrow> db \<Rightarrow> SubmitInput \<Rightarrow> ChallengeRow \<Rightarrow> (gameplay_error, match_result) result" where
  "submit_check re d inp ch =
    bind_result (attempts_gate d (si_actor inp) ch) (\<lambda>_. check re d ch (si_provided inp))"

definition submit_incorrect ::
  "time \<Rightarrow> db \<Rightarrow> SubmitInput \<Rightarrow> ChallengeRow \<Rightarrow> (gameplay_error, Result \<times> db) result" where
  "submit_incorrect now d inp ch =
    bind_result
      (insert_submission d now (ch_id ch) (ac_user (si_actor inp)) (ac_team (si_actor inp))
        ''incorrect'' (si_provided inp) (ac_ip (si_actor inp)) None)
      (\<lambda>(_, d'). Inr (bare_result StatusIncorrect, d'))"

definition takes_first_blood :: "db \<Rightarrow> Actor \<Rightarrow> ChallengeRow \<Rightarrow> SolveRow \<Rightarrow> bool" where
  "takes_first_blood d a locked solve =
    (ch_first_blood locked \<noteq> ''none''
     \<and> prior_solves d (ch_id locked) (sv_id solve) = 0
     \<and> eligible d (ac_user a) (ac_team a))"

definition award_first_blood ::
  "time \<Rightarrow> db \<Rightarrow> Actor \<Rightarrow> ChallengeRow \<Rightarrow> (gameplay_error, db) result" where
  "award_first_blood now d a locked =
    (if ch_first_blood locked = ''bonus'' then
       (case ch_first_blood_bonus locked of
          None \<Rightarrow> Inl ErrNoBonus
        | Some bonus \<Rightarrow>
            bind_result
              (insert_award d now (ac_user a) (ac_team a) ''first_blood'' (Some (ch_id locked))
                (''First blood: '' @ ch_name locked) bonus)
              (\<lambda>(_, d'). Inr d'))
     else Inr d)"

definition announce :: "db \<Rightarrow> Actor \<Rightarrow> ChallengeRow \<Rightarrow> SolveRow \<Rightarrow> db" where
  "announce d a locked solve =
    d\<lparr>announcements := announcements d @
        [\<lparr>an_challenge = ch_id locked, an_name = ch_name locked, an_user = ac_user a,
          an_team = ac_team a, an_solve = sv_id solve, an_at = sv_date solve\<rparr>]\<rparr>"

definition publish :: "db \<Rightarrow> ChallengeRow \<Rightarrow> SolveRow \<Rightarrow> bool \<Rightarrow> db" where
  "publish d locked solve blood =
    d\<lparr>pulses := pulses d @
        [\<lparr>pu_solve = sv_id solve, pu_challenge = ch_id locked, pu_first_blood = blood,
          pu_at = sv_date solve\<rparr>]\<rparr>"

definition after_solve ::
  "time \<Rightarrow> db \<Rightarrow> Actor \<Rightarrow> ChallengeRow \<Rightarrow> SolveRow \<Rightarrow> (gameplay_error, Result \<times> db) result" where
  "after_solve now d a locked solve =
    (let blood = takes_first_blood d a locked solve in
     bind_result
       (if blood
        then bind_result (award_first_blood now d a locked) (\<lambda>d'. Inr (announce d' a locked solve))
        else Inr d)
       (\<lambda>d1. bind_result
         (if ch_function locked \<noteq> ''static''
          then recalc_challenge_value (publish d1 locked solve blood) (ch_id locked)
          else Inr (publish d1 locked solve blood))
         (\<lambda>d2. Inr (\<lparr>r_status = StatusCorrect, r_first_blood = blood, r_value = sv_value solve,
                     r_next_id = ch_next_id locked\<rparr>, d2))))"

definition submit_correct ::
  "time \<Rightarrow> db \<Rightarrow> SubmitInput \<Rightarrow> id \<Rightarrow> match_result \<Rightarrow> (gameplay_error, Result \<times> db) result" where
  "submit_correct now d inp i m =
    (case get_challenge d i of
       None \<Rightarrow> Inl ErrChallengeNotFound
     | Some locked \<Rightarrow>
         bind_result
           (insert_submission d now (ch_id locked) (ac_user (si_actor inp)) (ac_team (si_actor inp))
             ''correct'' (si_provided inp) (ac_ip (si_actor inp)) (m_attributed m))
           (\<lambda>(sub, d1). bind_result
             (insert_solve d1 now (Some sub) (ch_id locked) (ac_user (si_actor inp))
               (ac_team (si_actor inp)) (ch_value locked))
             (\<lambda>(solve, d2).
               case solve of
                 None \<Rightarrow> Inr (bare_result StatusAlreadySolved, d2)
               | Some s \<Rightarrow> after_solve now d2 (si_actor inp) locked s)))"

definition submit_write ::
  "time \<Rightarrow> db \<Rightarrow> SubmitInput \<Rightarrow> ChallengeRow \<Rightarrow> match_result
    \<Rightarrow> (gameplay_error, Result \<times> db) result" where
  "submit_write now d inp ch m =
    (if \<not> m_correct m then submit_incorrect now d inp ch
     else submit_correct now d inp (ch_id ch) m)"

definition submit ::
  "Mode \<Rightarrow> regex \<Rightarrow> time \<Rightarrow> db \<Rightarrow> SubmitInput \<Rightarrow> (gameplay_error, Result \<times> db) result" where
  "submit mode re now d inp =
    bind_result (submit_open mode d inp) (\<lambda>(acct, ch).
    bind_result (submit_check re d inp ch) (\<lambda>m.
      submit_write now d inp ch m))"

subsection \<open>What a submission does to the store\<close>

lemma dedupe_loop_set: "set (dedupe_loop seen out ids) = set out \<union> (set ids - set seen)"
  by (induction seen out ids rule: dedupe_loop.induct) auto

lemma dedupe_loop_distinct:
  "distinct out \<Longrightarrow> set out \<subseteq> set seen \<Longrightarrow> distinct (dedupe_loop seen out ids)"
  by (induction seen out ids rule: dedupe_loop.induct) auto

lemma dedupe_set [simp]: "set (dedupe ids) = set ids"
  by (simp add: dedupe_def dedupe_loop_set)

lemma dedupe_distinct: "distinct (dedupe ids)"
  by (simp add: dedupe_def dedupe_loop_distinct)

lemma dedupe_Nil_iff: "dedupe ids = [] \<longleftrightarrow> ids = []"
  by (metis dedupe_set set_empty)

text \<open>Counting distinct matches against the number asked for means that every one is there.\<close>

lemma count_all_iff:
  assumes "distinct ids"
  shows "length (remdups (map f (filter (\<lambda>x. f x \<in> set ids \<and> P x) xs))) = length ids
    \<longleftrightarrow> (\<forall>i\<in>set ids. \<exists>x\<in>set xs. f x = i \<and> P x)"
proof -
  let ?S = "f ` {x \<in> set xs. f x \<in> set ids \<and> P x}"
  have "length (remdups (map f (filter (\<lambda>x. f x \<in> set ids \<and> P x) xs))) = card ?S"
    by (simp add: length_remdups_card_conv)
  moreover have "length ids = card (set ids)" using assms by (simp add: distinct_card)
  moreover have "card ?S = card (set ids) \<longleftrightarrow> ?S = set ids"
    by (metis (no_types, lifting) List.finite_set card_subset_eq image_subsetI mem_Collect_eq)
  moreover have "?S = set ids \<longleftrightarrow> (\<forall>i\<in>set ids. \<exists>x\<in>set xs. f x = i \<and> P x)"
    by (auto simp: set_eq_iff image_iff) metis
  ultimately show ?thesis by simp
qed

lemma challenge_prereqs_met_iff:
  "challenge_prereqs_met d a reqs \<longleftrightarrow>
    (\<forall>i\<in>set (prerequisites reqs).
      \<exists>s\<in>set (solves d). sv_challenge s = i \<and> scoped d (ac_user a) (ac_team a) (sv_user s) (sv_team s))"
  using count_all_iff [OF dedupe_distinct, of sv_challenge "prerequisites reqs"
      "\<lambda>s. scoped d (ac_user a) (ac_team a) (sv_user s) (sv_team s)" "solves d"]
  by (auto simp: challenge_prereqs_met_def count_solved_prerequisites_def Let_def dedupe_Nil_iff)

lemma hint_prereqs_met_iff:
  "hint_prereqs_met d a reqs \<longleftrightarrow>
    (\<forall>i\<in>set (prerequisites reqs).
      \<exists>u\<in>set (unlocks d). hu_hint u = i \<and> scoped d (ac_user a) (ac_team a) (hu_user u) (hu_team u))"
  using count_all_iff [OF dedupe_distinct, of hu_hint "prerequisites reqs"
      "\<lambda>u. scoped d (ac_user a) (ac_team a) (hu_user u) (hu_team u)" "unlocks d"]
  by (auto simp: hint_prereqs_met_def count_unlocked_hint_prerequisites_def Let_def dedupe_Nil_iff)

lemma submit_Inr_iff:
  "submit mode re now d inp = Inr (r, d') \<longleftrightarrow>
    (\<exists>acct ch m. submit_open mode d inp = Inr (acct, ch) \<and> submit_check re d inp ch = Inr m
      \<and> submit_write now d inp ch m = Inr (r, d'))"
  by (auto simp: submit_def bind_result_Inr_iff)

lemma submit_open_Inr:
  "submit_open mode d inp = Inr (acct, ch) \<longleftrightarrow>
    actor_account mode (si_actor inp) = Inr acct \<and> get_challenge d (si_challenge inp) = Some ch
    \<and> prereq_gate d (si_actor inp) ch = Inr ()"
  by (auto simp: submit_open_def bind_result_Inr_iff split: option.splits)

lemma prereq_gate_Inr:
  "prereq_gate d a ch = Inr () \<longleftrightarrow>
    (\<exists>reqs. parse (ch_requirements ch) = Inr reqs \<and> challenge_prereqs_met d a reqs)"
  by (auto simp: prereq_gate_def split: sum.splits)

lemma submit_check_Inr:
  "submit_check re d inp ch = Inr m \<longleftrightarrow>
    attempts_gate d (si_actor inp) ch = Inr () \<and> check re d ch (si_provided inp) = Inr m"
  by (auto simp: submit_check_def bind_result_Inr_iff)

text \<open>The row a submission leaves in the log.\<close>

definition log_row :: "time \<Rightarrow> db \<Rightarrow> SubmitInput \<Rightarrow> id \<Rightarrow> string \<Rightarrow> id option \<Rightarrow> SubmissionRow" where
  "log_row now d inp challenge typ attributed =
    \<lparr>sb_id = next_submission d, sb_challenge = challenge, sb_user = ac_user (si_actor inp),
     sb_team = ac_team (si_actor inp), sb_type = typ, sb_provided = si_provided inp,
     sb_ip = ac_ip (si_actor inp), sb_attributed = attributed, sb_date = now\<rparr>"

definition logged :: "db \<Rightarrow> SubmissionRow \<Rightarrow> db" where
  "logged d row = d\<lparr>submissions := submissions d @ [row], next_submission := next_submission d + 1\<rparr>"

lemma submit_incorrect_Inr:
  "submit_incorrect now d inp ch = Inr (r, d') \<longleftrightarrow>
    fk_ok d (ac_user (si_actor inp)) (ac_team (si_actor inp)) \<and> r = bare_result StatusIncorrect
    \<and> d' = logged d (log_row now d inp (ch_id ch) ''incorrect'' None)"
  by (auto simp: submit_incorrect_def bind_result_Inr_iff insert_submission_Inr logged_def
      log_row_def)

text \<open>The solve a correct submission stamps, and the store it is stamped into.\<close>

definition stamp :: "time \<Rightarrow> db \<Rightarrow> SubmitInput \<Rightarrow> ChallengeRow \<Rightarrow> SolveRow" where
  "stamp now d inp locked =
    \<lparr>sv_id = next_solve d, sv_submission = Some (next_submission d), sv_challenge = ch_id locked,
     sv_user = ac_user (si_actor inp), sv_team = ac_team (si_actor inp),
     sv_value = ch_value locked, sv_date = now\<rparr>"

definition stamped :: "db \<Rightarrow> SolveRow \<Rightarrow> db" where
  "stamped d s = d\<lparr>solves := solves d @ [s], next_solve := next_solve d + 1\<rparr>"

lemma submit_correct_Inr:
  "submit_correct now d inp i m = Inr (r, d') \<longleftrightarrow>
    (\<exists>locked. get_challenge d i = Some locked
      \<and> fk_ok d (ac_user (si_actor inp)) (ac_team (si_actor inp))
      \<and> (let d1 = logged d (log_row now d inp (ch_id locked) ''correct'' (m_attributed m)) in
         if list_ex (solve_conflict (Some (next_submission d)) (ch_id locked)
              (ac_user (si_actor inp)) (ac_team (si_actor inp))) (solves d)
         then r = bare_result StatusAlreadySolved \<and> d' = d1
         else after_solve now (stamped d1 (stamp now d inp locked)) (si_actor inp) locked
                (stamp now d inp locked) = Inr (r, d')))"
  by (auto simp: submit_correct_def bind_result_def insert_submission_def insert_solve_def
      logged_def log_row_def stamp_def stamped_def Let_def fk_ok_def split: option.splits)

lemma after_solve_Inr:
  assumes "after_solve now d a locked s = Inr (r, d')"
  defines "blood \<equiv> takes_first_blood d a locked s"
  obtains d1 where
    "r = \<lparr>r_status = StatusCorrect, r_first_blood = blood, r_value = sv_value s,
          r_next_id = ch_next_id locked\<rparr>"
    "if blood \<and> ch_first_blood locked = ''bonus''
     then (\<exists>bonus i. ch_first_blood_bonus locked = Some bonus
        \<and> insert_award d now (ac_user a) (ac_team a) ''first_blood'' (Some (ch_id locked))
            (''First blood: '' @ ch_name locked) bonus = Inr (i, d1))
     else d1 = d"
    "if ch_function locked = ''static''
     then d' = publish (if blood then announce d1 a locked s else d1) locked s blood
     else recalc_challenge_value
            (publish (if blood then announce d1 a locked s else d1) locked s blood) (ch_id locked)
          = Inr d'"
  using assms
  by (auto simp: after_solve_def Let_def bind_result_Inr_iff award_first_blood_def
      split: if_splits option.splits)

lemma recalc_Inr:
  assumes "recalc_challenge_value d i = Inr d'"
  shows "\<exists>cs. d' = d\<lparr>challenges := cs\<rparr> \<and> reprices (challenges d) cs"
proof (cases "find (\<lambda>c. ch_id c = i \<and> ch_function c \<noteq> ''static'') (challenges d)")
  case None
  then have "d' = d\<lparr>challenges := challenges d\<rparr>"
    using assms by (simp add: recalc_challenge_value_def)
  then show ?thesis using reprices_refl by blast
next
  case (Some c)
  then obtain v where "d' = d\<lparr>challenges :=
      map (\<lambda>r. if ch_id r = i \<and> ch_function r \<noteq> ''static'' then r\<lparr>ch_value := v\<rparr> else r)
        (challenges d)\<rparr>"
    using assms by (auto simp: recalc_challenge_value_def split: sum.splits)
  then show ?thesis by (intro exI conjI) (assumption, rule reprices_map)
qed

definition blood_award :: "time \<Rightarrow> db \<Rightarrow> Actor \<Rightarrow> ChallengeRow \<Rightarrow> int \<Rightarrow> AwardRow" where
  "blood_award now d a locked bonus =
    \<lparr>aw_id = next_award d, aw_user = ac_user a, aw_team = ac_team a, aw_type = ''first_blood'',
     aw_challenge = Some (ch_id locked), aw_name = ''First blood: '' @ ch_name locked,
     aw_description = None, aw_value = bonus, aw_date = now\<rparr>"

text \<open>
  Everything after the solve row, as one update of the store: at most one award, one announcement
  when it is a first blood, one pulse, and new asking prices.
\<close>

lemma after_solve_exact:
  assumes "after_solve now d a locked s = Inr (r, d')"
  defines "blood \<equiv> takes_first_blood d a locked s"
  obtains aws ans cs where
    "d' = d\<lparr>awards := awards d @ aws, next_award := next_award d + int (length aws),
            announcements := announcements d @ ans,
            pulses := pulses d @ [\<lparr>pu_solve = sv_id s, pu_challenge = ch_id locked,
                                   pu_first_blood = blood, pu_at = sv_date s\<rparr>],
            challenges := cs\<rparr>"
    "r = \<lparr>r_status = StatusCorrect, r_first_blood = blood, r_value = sv_value s,
          r_next_id = ch_next_id locked\<rparr>"
    "if blood \<and> ch_first_blood locked = ''bonus''
     then (\<exists>bonus. ch_first_blood_bonus locked = Some bonus \<and> aws = [blood_award now d a locked bonus]
        \<and> \<not> list_ex (\<lambda>w. aw_type w = ''first_blood'' \<and> eq_id (aw_challenge w) (Some (ch_id locked)))
              (awards d))
     else aws = []"
    "reprices (challenges d) cs"
    "ch_function locked = ''static'' \<Longrightarrow> cs = challenges d"
    "ans = (if blood then [\<lparr>an_challenge = ch_id locked, an_name = ch_name locked,
        an_user = ac_user a, an_team = ac_team a, an_solve = sv_id s, an_at = sv_date s\<rparr>] else [])"
    "ch_function locked \<noteq> ''static'' \<Longrightarrow>
       recalc_challenge_value
         (d\<lparr>awards := awards d @ aws, next_award := next_award d + int (length aws),
            announcements := announcements d @ ans,
            pulses := pulses d @ [\<lparr>pu_solve = sv_id s, pu_challenge = ch_id locked,
                                   pu_first_blood = blood, pu_at = sv_date s\<rparr>]\<rparr>) (ch_id locked)
       = Inr d'"
proof -
  obtain d1 where r: "r = \<lparr>r_status = StatusCorrect, r_first_blood = blood, r_value = sv_value s,
          r_next_id = ch_next_id locked\<rparr>"
    and aw: "if blood \<and> ch_first_blood locked = ''bonus''
     then (\<exists>bonus i. ch_first_blood_bonus locked = Some bonus
        \<and> insert_award d now (ac_user a) (ac_team a) ''first_blood'' (Some (ch_id locked))
            (''First blood: '' @ ch_name locked) bonus = Inr (i, d1))
     else d1 = d"
    and re: "if ch_function locked = ''static''
     then d' = publish (if blood then announce d1 a locked s else d1) locked s blood
     else recalc_challenge_value
            (publish (if blood then announce d1 a locked s else d1) locked s blood) (ch_id locked)
          = Inr d'"
    using after_solve_Inr [OF assms(1)] unfolding blood_def by metis
  obtain aws where d1: "d1 = d\<lparr>awards := awards d @ aws, next_award := next_award d + int (length aws)\<rparr>"
    and aws: "if blood \<and> ch_first_blood locked = ''bonus''
     then (\<exists>bonus. ch_first_blood_bonus locked = Some bonus \<and> aws = [blood_award now d a locked bonus]
        \<and> \<not> list_ex (\<lambda>w. aw_type w = ''first_blood'' \<and> eq_id (aw_challenge w) (Some (ch_id locked)))
              (awards d))
     else aws = []"
  proof (cases "blood \<and> ch_first_blood locked = ''bonus''")
    case True
    then obtain bonus i where "ch_first_blood_bonus locked = Some bonus"
      "insert_award d now (ac_user a) (ac_team a) ''first_blood'' (Some (ch_id locked))
            (''First blood: '' @ ch_name locked) bonus = Inr (i, d1)"
      using aw by auto
    then show ?thesis
      using True that [of "[blood_award now d a locked bonus]"]
      by (simp add: insert_award_Inr blood_award_def)
  next
    case False
    then show ?thesis using aw that [of "[]"] by simp
  qed
  define ans where "ans = (if blood then [\<lparr>an_challenge = ch_id locked, an_name = ch_name locked,
      an_user = ac_user a, an_team = ac_team a, an_solve = sv_id s, an_at = sv_date s\<rparr>] else [])"
  define d2 where "d2 = publish (if blood then announce d1 a locked s else d1) locked s blood"
  have d2: "d2 = d\<lparr>awards := awards d @ aws, next_award := next_award d + int (length aws),
            announcements := announcements d @ ans,
            pulses := pulses d @ [\<lparr>pu_solve = sv_id s, pu_challenge = ch_id locked,
                                   pu_first_blood = blood, pu_at = sv_date s\<rparr>]\<rparr>"
    by (simp add: d2_def publish_def announce_def d1 ans_def)
  obtain cs where cs: "d' = d2\<lparr>challenges := cs\<rparr>" "reprices (challenges d2) cs"
    "ch_function locked = ''static'' \<Longrightarrow> cs = challenges d2"
  proof (cases "ch_function locked = ''static''")
    case True
    then have "d' = d2" using re by (simp add: d2_def)
    then show ?thesis using that [of "challenges d2"] reprices_refl by simp
  next
    case False
    then have "recalc_challenge_value d2 (ch_id locked) = Inr d'" using re by (simp add: d2_def)
    then show ?thesis using recalc_Inr that False by blast
  qed
  have exact: "ch_function locked \<noteq> ''static'' \<Longrightarrow> recalc_challenge_value d2 (ch_id locked) = Inr d'"
    using re by (simp add: d2_def)
  show ?thesis
    by (rule that [where aws = aws and ans = ans and cs = cs])
      (use cs r aws exact in \<open>simp_all add: d2 ans_def\<close>)
qed

text \<open>The same without the wording of the announcement and the statement that reprices.\<close>

lemma after_solve_effect:
  assumes "after_solve now d a locked s = Inr (r, d')"
  defines "blood \<equiv> takes_first_blood d a locked s"
  obtains aws ans cs where
    "d' = d\<lparr>awards := awards d @ aws, next_award := next_award d + int (length aws),
            announcements := announcements d @ ans,
            pulses := pulses d @ [\<lparr>pu_solve = sv_id s, pu_challenge = ch_id locked,
                                   pu_first_blood = blood, pu_at = sv_date s\<rparr>],
            challenges := cs\<rparr>"
    "r = \<lparr>r_status = StatusCorrect, r_first_blood = blood, r_value = sv_value s,
          r_next_id = ch_next_id locked\<rparr>"
    "if blood \<and> ch_first_blood locked = ''bonus''
     then (\<exists>bonus. ch_first_blood_bonus locked = Some bonus \<and> aws = [blood_award now d a locked bonus]
        \<and> \<not> list_ex (\<lambda>w. aw_type w = ''first_blood'' \<and> eq_id (aw_challenge w) (Some (ch_id locked)))
              (awards d))
     else aws = []"
    "length ans = (if blood then 1 else 0)"
    "reprices (challenges d) cs"
    "ch_function locked = ''static'' \<Longrightarrow> cs = challenges d"
  unfolding blood_def
  by (rule after_solve_exact [OF assms(1)], rule that [unfolded blood_def], assumption+, simp, assumption+)

end
