(* ===== verification/Unlock.thy ===== *)
theory Unlock
  imports Submit
begin

section \<open>Buying a hint (internal/gameplay/unlock.go)\<close>

record Unlock =
  ul_hint :: id
  ul_content :: string
  ul_charged :: int
  ul_score :: int

definition hint_name :: "HintRow \<Rightarrow> string" where
  "hint_name h =
    (case h_title h of
       Some t \<Rightarrow> if t \<noteq> '''' then ''Hint: '' @ t else ''Hint #'' @ decimal (h_id h)
     | None \<Rightarrow> ''Hint #'' @ decimal (h_id h))"

definition lock_account :: "Mode \<Rightarrow> db \<Rightarrow> Actor \<Rightarrow> id \<Rightarrow> (gameplay_error, unit) result" where
  "lock_account mode d a i =
    (case mode of
       ModeTeams \<Rightarrow>
         (case lock_team_for_spend d i of None \<Rightarrow> Inl (ErrAccountNotFound i) | Some _ \<Rightarrow> Inr ())
     | ModeUsers \<Rightarrow>
         (case lock_user_for_spend d (ac_user a) of
            None \<Rightarrow> Inl (ErrAccountNotFound i) | Some _ \<Rightarrow> Inr ())
     | ModeOther n \<Rightarrow> Inl (ErrAccount (ErrUnknownMode (mode_string mode))))"

text \<open>The gates before the spend: the challenge's prerequisites, then the hint's own.\<close>

definition unlock_open ::
  "db \<Rightarrow> Actor \<Rightarrow> id \<Rightarrow> id \<Rightarrow> (gameplay_error, HintRow) result" where
  "unlock_open d a challenge hint =
    (case get_hint d hint challenge of
       None \<Rightarrow> Inl ErrHintNotFound
     | Some (h, ch_reqs) \<Rightarrow>
         (case parse ch_reqs of
            Inl e \<Rightarrow> Inl (ErrRequirements e)
          | Inr creqs \<Rightarrow>
              if \<not> challenge_prereqs_met d a creqs then Inl ErrHintNotFound
              else
                (case parse (h_requirements h) of
                   Inl e \<Rightarrow> Inl (ErrRequirements e)
                 | Inr reqs \<Rightarrow>
                     if \<not> hint_prereqs_met d a reqs then Inl ErrHintLocked else Inr h)))"

text \<open>From the account lock on: ownership, the balance, the charge and the row it pays for.\<close>

definition unlock_spend ::
  "Mode \<Rightarrow> time \<Rightarrow> db \<Rightarrow> Actor \<Rightarrow> id \<Rightarrow> HintRow \<Rightarrow> (gameplay_error, Unlock \<times> db) result" where
  "unlock_spend mode now d a acct h =
    bind_result (lock_account mode d a acct) (\<lambda>_.
      case get_hint_unlock d (h_id h) (ac_team a) (ac_user a) of
        Some _ \<Rightarrow> Inl ErrAlreadyUnlocked
      | None \<Rightarrow>
          let score = get_account_score d (ac_team a) (ac_user a) in
          if score < h_cost h then Inl ErrInsufficientScore
          else
            bind_result
              (insert_award d now (ac_user a) (ac_team a) ''hint_unlock'' (Some (h_challenge h))
                (hint_name h) (i32 (- h_cost h)))
              (\<lambda>(award, d1). bind_result
                (insert_hint_unlock d1 (h_id h) (ac_user a) (ac_team a) award)
                (\<lambda>(u, d2).
                  case u of
                    None \<Rightarrow> Inl ErrAlreadyUnlocked
                  | Some _ \<Rightarrow>
                      Inr (\<lparr>ul_hint = h_id h, ul_content = h_content h, ul_charged = h_cost h,
                            ul_score = i64 (score - h_cost h)\<rparr>, d2))))"

definition unlock_hint ::
  "Mode \<Rightarrow> time \<Rightarrow> db \<Rightarrow> id \<Rightarrow> id \<Rightarrow> Actor \<Rightarrow> (gameplay_error, Unlock \<times> db) result" where
  "unlock_hint mode now d challenge hint a =
    bind_result (actor_account mode a) (\<lambda>acct.
    bind_result (unlock_open d a challenge hint) (\<lambda>h.
      unlock_spend mode now d a acct h))"

end
