(* ===== verification/Issue.thy ===== *)
theory Issue
  imports Submit
begin

section \<open>Issuing unique flags (internal/gameplay/issuer.go, internal/domain/flags/issuer.go)\<close>

record IssuedInstance =
  ii_instance :: id
  ii_artifact :: "id option"
  ii_vars :: raw
  ii_generation :: int

definition to_issued :: "InstanceRow \<Rightarrow> IssuedInstance" where
  "to_issued r =
    \<lparr>ii_instance = in_id r, ii_artifact = in_artifact r, ii_vars = in_vars r,
     ii_generation = in_generation r\<rparr>"

definition issue_instance ::
  "db \<Rightarrow> id \<Rightarrow> id \<Rightarrow> (gameplay_error, IssuedInstance \<times> db) result" where
  "issue_instance d challenge account =
    (case get_issued_instance d challenge account of
       Some got \<Rightarrow> Inr (to_issued got, d)
     | None \<Rightarrow>
         bind_result (assign_instance d challenge account) (\<lambda>(_, d1).
           case get_issued_instance d1 challenge account of
             None \<Rightarrow> Inl ErrPoolExhausted
           | Some got \<Rightarrow> Inr (to_issued got, d1)))"

end
