(* ===== verification/Ledger.thy ===== *)
theory Ledger
  imports Unlock Issue
begin

section \<open>The ledger: sequences of transactions and the store invariant\<close>

text \<open>
  Submissions, hint unlocks and instance issues as commands on one store, the invariant that the
  constraints of the schema and the transactions keep together, and what any sequence of commands
  does to it. The locale \<open>transactional\<close> says what a store with an invariant and a growth relation
  owes its transactions; it is interpreted on the three transactions of game play.
\<close>

subsection \<open>Transactions in sequence\<close>

text \<open>A transaction that fails leaves the store as it was.\<close>

fun run_all :: "('c \<Rightarrow> 'd \<Rightarrow> ('e, 'r \<times> 'd) result) \<Rightarrow> 'c list \<Rightarrow> 'd \<Rightarrow> 'd" where
  "run_all exec [] d = d"
| "run_all exec (c # cs) d =
    run_all exec cs (case exec c d of Inl _ \<Rightarrow> d | Inr (_, d') \<Rightarrow> d')"

locale transactional =
  fixes exec :: "'c \<Rightarrow> 'd \<Rightarrow> ('e, 'r \<times> 'd) result"
    and inv :: "'d \<Rightarrow> bool"
    and grows :: "'d \<Rightarrow> 'd \<Rightarrow> bool"
  assumes grows_refl: "grows d d"
    and grows_trans: "grows a b \<Longrightarrow> grows b c \<Longrightarrow> grows a c"
    and exec_grows: "exec cmd d = Inr (r, d') \<Longrightarrow> grows d d'"
    and exec_inv: "inv d \<Longrightarrow> exec cmd d = Inr (r, d') \<Longrightarrow> inv d'"
begin

lemma run_inv: "inv d \<Longrightarrow> inv (run_all exec cmds d)"
  by (induction cmds arbitrary: d) (auto split: sum.split dest: exec_inv)

lemma run_grows: "grows d (run_all exec cmds d)"
proof (induction cmds arbitrary: d)
  case (Cons c cs)
  define d1 where "d1 = (case exec c d of Inl _ \<Rightarrow> d | Inr (_, d') \<Rightarrow> d')"
  have "grows d d1"
    by (auto simp: d1_def grows_refl split: sum.split dest: exec_grows)
  moreover have "grows d1 (run_all exec cs d1)" by (rule Cons.IH)
  ultimately show ?case by (auto simp: d1_def intro: grows_trans)
qed (simp add: grows_refl)

lemma run_append: "run_all exec (as @ bs) d = run_all exec bs (run_all exec as d)"
  by (induction as arbitrary: d) simp_all

end

datatype command =
    CSubmit time SubmitInput
  | CUnlock time id id Actor
  | CIssue id id

datatype outcome = OSubmit Result | OUnlock Unlock | OIssue IssuedInstance

definition tag :: "('a \<Rightarrow> 'b) \<Rightarrow> ('e, 'a \<times> 'd) result \<Rightarrow> ('e, 'b \<times> 'd) result" where
  "tag f r = (case r of Inl e \<Rightarrow> Inl e | Inr (a, d) \<Rightarrow> Inr (f a, d))"

definition exec :: "Mode \<Rightarrow> regex \<Rightarrow> command \<Rightarrow> db \<Rightarrow> (gameplay_error, outcome \<times> db) result" where
  "exec mode re c d =
    (case c of
       CSubmit now inp \<Rightarrow> tag OSubmit (submit mode re now d inp)
     | CUnlock now challenge hint a \<Rightarrow> tag OUnlock (unlock_hint mode now d challenge hint a)
     | CIssue challenge account \<Rightarrow> tag OIssue (issue_instance d challenge account))"

lemma tag_Inr: "tag f r = Inr (b, d) \<longleftrightarrow> (\<exists>a. r = Inr (a, d) \<and> b = f a)"
  by (auto simp: tag_def split: sum.splits)

subsection \<open>The invariant\<close>

definition opt_below :: "int \<Rightarrow> int option \<Rightarrow> bool" where
  "opt_below n x \<longleftrightarrow> (case x of None \<Rightarrow> True | Some i \<Rightarrow> i < n)"

lemma opt_below_simps [simp]: "opt_below n None" "opt_below n (Some i) \<longleftrightarrow> i < n"
  by (simp_all add: opt_below_def)

lemma opt_below_mono: "opt_below n x \<Longrightarrow> n \<le> m \<Longrightarrow> opt_below m x"
  by (cases x) simp_all

definition solves_ok :: "db \<Rightarrow> bool" where
  "solves_ok d \<longleftrightarrow>
    distinct (map (\<lambda>s. (sv_challenge s, sv_user s)) (solves d))
    \<and> distinct (map (\<lambda>s. (sv_challenge s, sv_team s)) (filter (\<lambda>s. sv_team s \<noteq> None) (solves d)))
    \<and> distinct (map sv_id (solves d)) \<and> list_all (\<lambda>s. sv_id s < next_solve d) (solves d)
    \<and> list_all (\<lambda>s. opt_below (next_submission d) (sv_submission s)) (solves d)"

definition awards_ok :: "db \<Rightarrow> bool" where
  "awards_ok d \<longleftrightarrow>
    distinct (map aw_id (awards d)) \<and> list_all (\<lambda>a. aw_id a < next_award d) (awards d)
    \<and> distinct (map aw_challenge (filter (\<lambda>a. aw_type a = ''first_blood'') (awards d)))
    \<and> list_all (\<lambda>a. aw_type a = ''standard'' \<or> aw_challenge a \<noteq> None) (awards d)"

text \<open>An unlock is paid for by its own charge, of exactly the price of its hint.\<close>

definition paid :: "db \<Rightarrow> UnlockRow \<Rightarrow> bool" where
  "paid d u \<longleftrightarrow>
    list_ex (\<lambda>a. aw_id a = hu_award u \<and> aw_type a = ''hint_unlock'' \<and> aw_user a = hu_user u
      \<and> aw_team a = hu_team u
      \<and> list_ex (\<lambda>h. h_id h = hu_hint u \<and> aw_value a = - h_cost h
                    \<and> aw_challenge a = Some (h_challenge h)) (hints d)) (awards d)"

definition unlocks_ok :: "db \<Rightarrow> bool" where
  "unlocks_ok d \<longleftrightarrow>
    distinct (map (\<lambda>u. (hu_hint u, hu_user u)) (unlocks d))
    \<and> distinct (map (\<lambda>u. (hu_hint u, hu_team u)) (filter (\<lambda>u. hu_team u \<noteq> None) (unlocks d)))
    \<and> distinct (map hu_award (unlocks d)) \<and> list_all (paid d) (unlocks d)"

definition issues_ok :: "db \<Rightarrow> bool" where
  "issues_ok d \<longleftrightarrow>
    distinct (map (\<lambda>f. (is_challenge f, is_account f)) (issues d))
    \<and> distinct (map is_instance (issues d))
    \<and> list_all (\<lambda>f. list_ex (\<lambda>i. in_id i = is_instance f \<and> in_challenge i = is_challenge f)
                  (instances d)) (issues d)"

text \<open>The CHECKs on the read-only tables: costs are \<open>int4\<close> and not negative.\<close>

definition content_ok :: "db \<Rightarrow> bool" where
  "content_ok d \<longleftrightarrow>
    distinct (map h_id (hints d)) \<and> distinct (map ch_id (challenges d))
    \<and> distinct (map in_id (instances d))
    \<and> list_all (\<lambda>h. 0 \<le> h_cost h \<and> in_i32 (h_cost h)) (hints d)"

definition store_ok :: "db \<Rightarrow> bool" where
  "store_ok d \<longleftrightarrow> solves_ok d \<and> awards_ok d \<and> unlocks_ok d \<and> issues_ok d \<and> content_ok d"

lemma distinct_snoc: "distinct (map f (xs @ [x])) \<longleftrightarrow> distinct (map f xs) \<and> f x \<notin> f ` set xs"
  by auto

lemma distinct_filter_snoc:
  "distinct (map f (filter P (xs @ [x]))) \<longleftrightarrow>
    distinct (map f (filter P xs)) \<and> (P x \<longrightarrow> f x \<notin> f ` {y \<in> set xs. P y})"
  by auto

lemma less_not_in: "list_all (\<lambda>x. f x < (n::int)) xs \<Longrightarrow> n \<notin> f ` set xs"
  by (auto simp: list_all_iff)

lemma list_all_less_weaken: "list_all (\<lambda>x. f x < (n::int)) xs \<Longrightarrow> n \<le> m \<Longrightarrow> list_all (\<lambda>x. f x < m) xs"
  by (auto simp: list_all_iff)

subsection \<open>Each table under the inserts\<close>

lemma logged_fields [frame]:
  "solves (logged d row) = solves d" "awards (logged d row) = awards d"
  "unlocks (logged d row) = unlocks d" "issues (logged d row) = issues d"
  "challenges (logged d row) = challenges d" "hints (logged d row) = hints d"
  "instances (logged d row) = instances d" "next_solve (logged d row) = next_solve d"
  "next_award (logged d row) = next_award d"
  "next_submission (logged d row) = next_submission d + 1"
  "submissions (logged d row) = submissions d @ [row]"
  "users (logged d row) = users d" "teams (logged d row) = teams d"
  "user_mode (logged d row) = user_mode d"
  "pulses (logged d row) = pulses d" "announcements (logged d row) = announcements d"
  by (simp_all add: logged_def)

lemma stamped_fields [frame]:
  "solves (stamped d s) = solves d @ [s]" "awards (stamped d s) = awards d"
  "unlocks (stamped d s) = unlocks d" "issues (stamped d s) = issues d"
  "challenges (stamped d s) = challenges d" "hints (stamped d s) = hints d"
  "instances (stamped d s) = instances d" "next_solve (stamped d s) = next_solve d + 1"
  "next_award (stamped d s) = next_award d"
  "next_submission (stamped d s) = next_submission d"
  "submissions (stamped d s) = submissions d"
  "users (stamped d s) = users d" "teams (stamped d s) = teams d"
  "user_mode (stamped d s) = user_mode d"
  "pulses (stamped d s) = pulses d" "announcements (stamped d s) = announcements d"
  by (simp_all add: stamped_def)

lemma fk_frame [frame]:
  "fk_ok (logged d row) u t = fk_ok d u t" "fk_ok (stamped d s) u t = fk_ok d u t"
  by (cases t; simp add: fk_ok_def frame)+

lemma paid_mono:
  "paid d u \<Longrightarrow> hints d' = hints d \<Longrightarrow> set (awards d) \<subseteq> set (awards d') \<Longrightarrow> paid d' u"
  by (auto simp: paid_def list_ex_iff)

lemma paid_stamped [frame]: "paid (stamped d s) = paid d"
  by (rule ext) (simp add: paid_def frame)

lemma logged_ok [inv]: "store_ok d \<Longrightarrow> store_ok (logged d row)"
  by (auto simp: store_ok_def solves_ok_def awards_ok_def unlocks_ok_def issues_ok_def
      content_ok_def paid_def list_all_iff frame intro: opt_below_mono)

lemma stamped_ok [inv]:
  assumes "store_ok d"
    "\<not> list_ex (solve_conflict (Some sub) (sv_challenge s) (sv_user s) (sv_team s)) (solves d)"
    "sv_id s = next_solve d" "sv_submission s = Some sub" "sub < next_submission d"
  shows "store_ok (stamped d s)"
proof -
  have "solves_ok (stamped d s)"
  proof -
    have old: "solves_ok d" using assms(1) by (simp add: store_ok_def)
    have free: "\<forall>t\<in>set (solves d). \<not> solve_conflict (Some sub) (sv_challenge s) (sv_user s) (sv_team s) t"
      using assms(2) by (simp add: list_ex_iff)
    have "(sv_challenge s, sv_user s) \<notin> (\<lambda>s. (sv_challenge s, sv_user s)) ` set (solves d)"
      using free by (auto simp: solve_conflict_def)
    moreover have "sv_team s \<noteq> None \<longrightarrow> (sv_challenge s, sv_team s)
        \<notin> (\<lambda>s. (sv_challenge s, sv_team s)) ` {y \<in> set (solves d). sv_team y \<noteq> None}"
      using free by (auto simp: solve_conflict_def)
    moreover have "sv_id s \<notin> sv_id ` set (solves d)"
      using old assms(3) by (auto simp: solves_ok_def list_all_iff)
    moreover have "list_all (\<lambda>s. sv_id s < next_solve d + 1) (solves d)"
      using old by (auto simp: solves_ok_def list_all_iff)
    ultimately show ?thesis
      using old assms(3-5)
      by (simp only: solves_ok_def frame distinct_snoc distinct_filter_snoc list_all_append) simp
  qed
  then show ?thesis
    using assms(1)
    by (simp add: store_ok_def awards_ok_def unlocks_ok_def issues_ok_def content_ok_def frame)
qed

text \<open>An inserted award: what \<open>awards_ok\<close> and \<open>unlocks_ok\<close> become.\<close>

definition awarded :: "db \<Rightarrow> AwardRow \<Rightarrow> db" where
  "awarded d a = d\<lparr>awards := awards d @ [a], next_award := next_award d + 1\<rparr>"

lemma awarded_fields [frame]:
  "solves (awarded d a) = solves d" "awards (awarded d a) = awards d @ [a]"
  "unlocks (awarded d a) = unlocks d" "issues (awarded d a) = issues d"
  "challenges (awarded d a) = challenges d" "hints (awarded d a) = hints d"
  "instances (awarded d a) = instances d" "next_solve (awarded d a) = next_solve d"
  "next_award (awarded d a) = next_award d + 1"
  "next_submission (awarded d a) = next_submission d"
  "submissions (awarded d a) = submissions d"
  "users (awarded d a) = users d" "teams (awarded d a) = teams d"
  "user_mode (awarded d a) = user_mode d"
  "pulses (awarded d a) = pulses d" "announcements (awarded d a) = announcements d"
  by (simp_all add: awarded_def)

lemma awarded_ok [inv]:
  assumes "store_ok d" "aw_id a = next_award d" "aw_challenge a \<noteq> None"
    "aw_type a = ''first_blood''
      \<longrightarrow> \<not> list_ex (\<lambda>w. aw_type w = ''first_blood'' \<and> eq_id (aw_challenge w) (aw_challenge a)) (awards d)"
  shows "store_ok (awarded d a)"
proof -
  have old: "awards_ok d" "unlocks_ok d" using assms(1) by (simp_all add: store_ok_def)
  have "awards_ok (awarded d a)"
  proof -
    have "aw_id a \<notin> aw_id ` set (awards d)"
      using old(1) assms(2) by (auto simp: awards_ok_def list_all_iff)
    moreover have "list_all (\<lambda>x. aw_id x < next_award d + 1) (awards d)"
      using old(1) by (auto simp: awards_ok_def list_all_iff)
    moreover have "aw_type a = ''first_blood'' \<longrightarrow>
        aw_challenge a \<notin> aw_challenge ` {y \<in> set (awards d). aw_type y = ''first_blood''}"
    proof
      assume "aw_type a = ''first_blood''"
      then have "\<forall>w\<in>set (awards d). aw_type w = ''first_blood'' \<longrightarrow> \<not> eq_id (aw_challenge w) (aw_challenge a)"
        using assms(4) by (simp add: list_ex_iff)
      then show "aw_challenge a \<notin> aw_challenge ` {y \<in> set (awards d). aw_type y = ''first_blood''}"
        using assms(3) by (auto simp: eq_id_iff)
    qed
    ultimately show ?thesis
      using old(1) assms(2,3)
      by (simp only: awards_ok_def frame distinct_snoc distinct_filter_snoc list_all_append) simp
  qed
  moreover have "unlocks_ok (awarded d a)"
    using old(2) paid_mono [of d _ "awarded d a"]
    by (auto simp: unlocks_ok_def frame list_all_iff)
  ultimately show ?thesis
    using assms(1) by (simp add: store_ok_def solves_ok_def issues_ok_def content_ok_def frame)
qed

lemma messages_ok [inv]:
  "store_ok d \<Longrightarrow> store_ok (d\<lparr>announcements := ans, pulses := ps\<rparr>)"
  by (simp add: store_ok_def solves_ok_def awards_ok_def unlocks_ok_def issues_ok_def content_ok_def
      paid_def [abs_def])

lemma reprices_ids: "reprices cs cs' \<Longrightarrow> map ch_id cs' = map ch_id cs"
proof -
  assume "reprices cs cs'"
  then have "map ch_id (map unpriced cs) = map ch_id (map unpriced cs')"
    by (simp only: reprices_def)
  then show ?thesis by (simp add: o_def)
qed

lemma repriced_ok [inv]:
  "store_ok d \<Longrightarrow> reprices (challenges d) cs \<Longrightarrow> store_ok (d\<lparr>challenges := cs\<rparr>)"
  by (auto simp: store_ok_def solves_ok_def awards_ok_def unlocks_ok_def issues_ok_def
      content_ok_def paid_def [abs_def] dest: reprices_ids)

definition unlocked :: "db \<Rightarrow> UnlockRow \<Rightarrow> db" where
  "unlocked d u = d\<lparr>unlocks := unlocks d @ [u], next_unlock := next_unlock d + 1\<rparr>"

lemma unlocked_ok [inv]:
  assumes "store_ok d" "paid d u"
    "\<not> list_ex (\<lambda>v. hu_hint v = hu_hint u \<and> (hu_user v = hu_user u \<or> eq_id (hu_team v) (hu_team u))
                  \<or> hu_award v = hu_award u) (unlocks d)"
  shows "store_ok (unlocked d u)"
proof -
  have old: "unlocks_ok d" using assms(1) by (simp add: store_ok_def)
  have "unlocks_ok (unlocked d u)"
  proof -
    have free: "\<forall>v\<in>set (unlocks d). \<not> (hu_hint v = hu_hint u
        \<and> (hu_user v = hu_user u \<or> eq_id (hu_team v) (hu_team u)) \<or> hu_award v = hu_award u)"
      using assms(3) by (simp add: list_ex_iff)
    have "(hu_hint u, hu_user u) \<notin> (\<lambda>u. (hu_hint u, hu_user u)) ` set (unlocks d)"
      using free by auto
    moreover have "hu_team u \<noteq> None \<longrightarrow> (hu_hint u, hu_team u)
        \<notin> (\<lambda>u. (hu_hint u, hu_team u)) ` {y \<in> set (unlocks d). hu_team y \<noteq> None}"
      using free by (auto simp: eq_id_iff)
    moreover have "hu_award u \<notin> hu_award ` set (unlocks d)"
      using free by auto
    moreover have "paid (unlocked d u) = paid d"
      by (rule ext) (simp add: paid_def unlocked_def)
    moreover have "unlocks (unlocked d u) = unlocks d @ [u]" by (simp add: unlocked_def)
    ultimately show ?thesis
      using old assms(2)
      by (simp only: unlocks_ok_def distinct_snoc distinct_filter_snoc list_all_append) simp
  qed
  moreover have "solves_ok (unlocked d u) = solves_ok d" "awards_ok (unlocked d u) = awards_ok d"
    "issues_ok (unlocked d u) = issues_ok d" "content_ok (unlocked d u) = content_ok d"
    by (simp_all add: unlocked_def solves_ok_def awards_ok_def issues_ok_def content_ok_def)
  ultimately show ?thesis using assms(1) by (simp add: store_ok_def)
qed

subsection \<open>The transactions keep the invariant and only extend the store\<close>

lemma after_solve_ok:
  assumes "store_ok d" "after_solve now d a locked s = Inr (r, d')"
  shows "store_ok d'"
proof -
  obtain aws ans cs where d': "d' = d\<lparr>awards := awards d @ aws,
      next_award := next_award d + int (length aws), announcements := announcements d @ ans,
      pulses := pulses d @ [\<lparr>pu_solve = sv_id s, pu_challenge = ch_id locked,
        pu_first_blood = takes_first_blood d a locked s, pu_at = sv_date s\<rparr>],
      challenges := cs\<rparr>"
    and aws: "if takes_first_blood d a locked s \<and> ch_first_blood locked = ''bonus''
     then (\<exists>bonus. ch_first_blood_bonus locked = Some bonus \<and> aws = [blood_award now d a locked bonus]
        \<and> \<not> list_ex (\<lambda>w. aw_type w = ''first_blood'' \<and> eq_id (aw_challenge w) (Some (ch_id locked)))
              (awards d))
     else aws = []"
    and cs: "reprices (challenges d) cs"
    by (rule after_solve_effect [OF assms(2)], rule that; assumption)
  define d1 where "d1 = d\<lparr>awards := awards d @ aws, next_award := next_award d + int (length aws)\<rparr>"
  have "store_ok d1"
  proof (cases "aws = []")
    case True
    then show ?thesis using assms(1) by (simp add: d1_def)
  next
    case False
    then obtain bonus where w: "aws = [blood_award now d a locked bonus]"
      "\<not> list_ex (\<lambda>w. aw_type w = ''first_blood'' \<and> eq_id (aw_challenge w) (Some (ch_id locked)))
              (awards d)"
      using aws by (auto split: if_splits)
    have "store_ok (awarded d (blood_award now d a locked bonus))"
      by (rule awarded_ok [OF assms(1)]) (use w(2) in \<open>simp_all add: blood_award_def\<close>)
    then show ?thesis by (simp add: d1_def w(1) awarded_def)
  qed
  from repriced_ok [OF messages_ok [OF this, where ans = "announcements d @ ans" and ps =
        "pulses d @ [\<lparr>pu_solve = sv_id s, pu_challenge = ch_id locked,
           pu_first_blood = takes_first_blood d a locked s, pu_at = sv_date s\<rparr>]"], of cs] cs
  show ?thesis by (simp add: d' d1_def)
qed

lemma after_solve_extends:
  "after_solve now d a locked s = Inr (r, d') \<Longrightarrow> extends d d'"
  by (erule after_solve_effect) (simp add: extends_def)

lemma logged_extends: "extends d (logged d row)"
  by (simp add: extends_def logged_def reprices_refl)

lemma stamped_extends: "extends d (stamped d s)"
  by (simp add: extends_def stamped_def reprices_refl)

lemma awarded_extends: "extends d (awarded d a)"
  by (simp add: extends_def awarded_def reprices_refl)

lemma unlocked_extends: "extends d (unlocked d u)"
  by (simp add: extends_def unlocked_def reprices_refl)

lemma log_then_stamp_ok:
  assumes "store_ok d"
    "\<not> list_ex (solve_conflict (Some (next_submission d)) (ch_id locked)
        (ac_user (si_actor inp)) (ac_team (si_actor inp))) (solves d)"
  shows "store_ok (stamped (logged d row) (stamp now d inp locked))"
  by (rule stamped_ok [where sub = "next_submission d"])
    (use assms in \<open>simp_all add: logged_ok stamp_def frame\<close>)

lemma submit_write_ok:
  assumes "store_ok d" "submit_write now d inp ch m = Inr (r, d')"
  shows "store_ok d'"
  using assms
  by (auto simp: submit_write_def submit_incorrect_Inr submit_correct_Inr Let_def logged_ok
      split: if_splits intro: after_solve_ok [OF log_then_stamp_ok])

lemma submit_write_extends:
  assumes "submit_write now d inp ch m = Inr (r, d')"
  shows "extends d d'"
proof (cases "m_correct m")
  case False
  then show ?thesis using assms by (auto simp: submit_write_def submit_incorrect_Inr logged_extends)
next
  case True
  then obtain locked where w: "let d1 = logged d (log_row now d inp (ch_id locked) ''correct'' (m_attributed m)) in
         if list_ex (solve_conflict (Some (next_submission d)) (ch_id locked)
              (ac_user (si_actor inp)) (ac_team (si_actor inp))) (solves d)
         then r = bare_result StatusAlreadySolved \<and> d' = d1
         else after_solve now (stamped d1 (stamp now d inp locked)) (si_actor inp) locked
                (stamp now d inp locked) = Inr (r, d')"
    using assms by (auto simp: submit_write_def submit_correct_Inr)
  then show ?thesis
    by (auto simp: Let_def logged_extends split: if_splits dest!: after_solve_extends
        intro: extends_trans [OF extends_trans [OF logged_extends stamped_extends]])
qed

text \<open>The hint unlock.\<close>

lemma unlock_open_Inr:
  "unlock_open d a challenge hint = Inr h \<longleftrightarrow>
    (\<exists>creq creqs reqs. get_hint d hint challenge = Some (h, creq) \<and> parse creq = Inr creqs
      \<and> challenge_prereqs_met d a creqs \<and> parse (h_requirements h) = Inr reqs
      \<and> hint_prereqs_met d a reqs)"
  by (auto simp: unlock_open_def split: option.splits sum.splits)

lemma get_hint_Some:
  "get_hint d hint challenge = Some (h, creq) \<Longrightarrow>
    h \<in> set (hints d) \<and> h_id h = hint \<and> h_challenge h = challenge"
  by (auto simp: get_hint_def split: option.splits dest: find_Some_in)

definition charge :: "time \<Rightarrow> db \<Rightarrow> Actor \<Rightarrow> HintRow \<Rightarrow> AwardRow" where
  "charge now d a h =
    \<lparr>aw_id = next_award d, aw_user = ac_user a, aw_team = ac_team a, aw_type = ''hint_unlock'',
     aw_challenge = Some (h_challenge h), aw_name = hint_name h, aw_description = None,
     aw_value = i32 (- h_cost h), aw_date = now\<rparr>"

definition unlock_row :: "db \<Rightarrow> Actor \<Rightarrow> HintRow \<Rightarrow> UnlockRow" where
  "unlock_row d a h =
    \<lparr>hu_id = next_unlock d, hu_hint = h_id h, hu_user = ac_user a, hu_team = ac_team a,
     hu_award = next_award d\<rparr>"

lemma unlock_spend_Inr:
  "unlock_spend mode now d a acct h = Inr (u, d') \<longleftrightarrow>
    lock_account mode d a acct = Inr ()
    \<and> get_hint_unlock d (h_id h) (ac_team a) (ac_user a) = None
    \<and> h_cost h \<le> get_account_score d (ac_team a) (ac_user a)
    \<and> fk_ok d (ac_user a) (ac_team a)
    \<and> \<not> list_ex (\<lambda>u. hu_hint u = h_id h \<and> (hu_user u = ac_user a \<or> eq_id (hu_team u) (ac_team a))
                  \<or> hu_award u = next_award d) (unlocks d)
    \<and> u = \<lparr>ul_hint = h_id h, ul_content = h_content h, ul_charged = h_cost h,
           ul_score = i64 (get_account_score d (ac_team a) (ac_user a) - h_cost h)\<rparr>
    \<and> d' = unlocked (awarded d (charge now d a h)) (unlock_row d a h)"
  by (auto simp: unlock_spend_def bind_result_def insert_award_def insert_hint_unlock_def Let_def
      charge_def unlock_row_def unlocked_def awarded_def fk_ok_def
      split: option.splits sum.splits if_splits)

lemma i32_neg_cost: "0 \<le> c \<Longrightarrow> in_i32 c \<Longrightarrow> i32 (- c) = - c"
  by (simp add: i32_def)

lemma hint_cost_ok:
  "store_ok d \<Longrightarrow> h \<in> set (hints d) \<Longrightarrow> 0 \<le> h_cost h \<and> i32 (- h_cost h) = - h_cost h"
  using i32_neg_cost [of "h_cost h"] by (auto simp: store_ok_def content_ok_def list_all_iff)

lemma charge_then_unlock_ok:
  assumes "store_ok d" "h \<in> set (hints d)"
    "\<not> list_ex (\<lambda>u. hu_hint u = h_id h \<and> (hu_user u = ac_user a \<or> eq_id (hu_team u) (ac_team a))
                  \<or> hu_award u = next_award d) (unlocks d)"
  shows "store_ok (unlocked (awarded d (charge now d a h)) (unlock_row d a h))"
proof (rule unlocked_ok)
  show "store_ok (awarded d (charge now d a h))"
    by (rule awarded_ok [OF assms(1)]) (simp_all add: charge_def)
  show "paid (awarded d (charge now d a h)) (unlock_row d a h)"
    using hint_cost_ok [OF assms(1,2)] assms(2)
    by (auto simp: paid_def frame charge_def unlock_row_def list_ex_iff)
qed (use assms(3) in \<open>simp add: frame unlock_row_def\<close>)

lemma unlock_hint_Inr:
  "unlock_hint mode now d challenge hint a = Inr (u, d') \<longleftrightarrow>
    (\<exists>acct h. actor_account mode a = Inr acct \<and> unlock_open d a challenge hint = Inr h
      \<and> unlock_spend mode now d a acct h = Inr (u, d'))"
  by (auto simp: unlock_hint_def bind_result_Inr_iff)

lemma unlock_hint_ok:
  assumes "store_ok d" "unlock_hint mode now d challenge hint a = Inr (u, d')"
  shows "store_ok d'"
  using assms(2)
  by (auto simp: unlock_hint_Inr unlock_open_Inr unlock_spend_Inr
      intro: charge_then_unlock_ok [OF assms(1)] dest: get_hint_Some)

lemma unlock_hint_extends:
  assumes "unlock_hint mode now d challenge hint a = Inr (u, d')"
  shows "extends d d'"
  using assms
  by (auto simp: unlock_hint_Inr unlock_spend_Inr
      intro: extends_trans [OF awarded_extends unlocked_extends])

text \<open>Issuing.\<close>

definition issue_row :: "id \<Rightarrow> id \<Rightarrow> InstanceRow \<Rightarrow> IssueRow" where
  "issue_row challenge account i =
    \<lparr>is_challenge = challenge, is_account = account, is_instance = in_id i\<rparr>"

lemma pick_instance_Some:
  "pick_instance d challenge = Some i \<Longrightarrow>
    i \<in> set (instances d) \<and> in_challenge i = challenge \<and> \<not> issued d (in_id i)"
  by (auto simp: pick_instance_def dest: first_by_in)

lemma pick_instance_None:
  "pick_instance d challenge = None \<longleftrightarrow>
    (\<forall>i\<in>set (instances d). in_challenge i = challenge \<longrightarrow> issued d (in_id i))"
proof -
  have "sort_key in_id xs = [] \<longleftrightarrow> xs = []" for xs :: "InstanceRow list"
    by (metis length_0_conv length_sort)
  then show ?thesis by (auto simp: pick_instance_def filter_empty_conv)
qed

lemma assign_instance_Inr:
  "assign_instance d challenge account = Inr (x, d') \<Longrightarrow>
    x = None \<and> d' = d
    \<or> (\<exists>i. pick_instance d challenge = Some i \<and> x = Some (in_id i)
        \<and> \<not> list_ex (\<lambda>f. is_challenge f = challenge \<and> is_account f = account) (issues d)
        \<and> d' = d\<lparr>issues := issues d @ [issue_row challenge account i]\<rparr>)"
  by (auto simp: assign_instance_def issue_row_def split: option.splits if_splits)

lemma issued_row_ok [inv]:
  assumes "store_ok d" "pick_instance d challenge = Some i"
    "\<not> list_ex (\<lambda>f. is_challenge f = challenge \<and> is_account f = account) (issues d)"
  shows "store_ok (d\<lparr>issues := issues d @ [issue_row challenge account i]\<rparr>)"
proof -
  have old: "issues_ok d" using assms(1) by (simp add: store_ok_def)
  have i: "i \<in> set (instances d)" "in_challenge i = challenge" "\<not> issued d (in_id i)"
    using pick_instance_Some [OF assms(2)] by auto
  have "(challenge, account) \<notin> (\<lambda>f. (is_challenge f, is_account f)) ` set (issues d)"
    using assms(3) by (auto simp: list_ex_iff)
  moreover have "in_id i \<notin> is_instance ` set (issues d)"
    using i(3) by (auto simp: issued_def list_ex_iff)
  ultimately have "issues_ok (d\<lparr>issues := issues d @ [issue_row challenge account i]\<rparr>)"
    using old i(1,2) by (auto simp: issues_ok_def issue_row_def list_ex_iff)
  then show ?thesis
    using assms(1)
    by (simp add: store_ok_def solves_ok_def awards_ok_def unlocks_ok_def content_ok_def
        paid_def [abs_def])
qed

lemma issue_instance_cases:
  assumes "issue_instance d challenge account = Inr (x, d')"
  shows "get_issued_instance d challenge account = None \<and>
      (\<exists>i. pick_instance d challenge = Some i
        \<and> \<not> list_ex (\<lambda>f. is_challenge f = challenge \<and> is_account f = account) (issues d)
        \<and> d' = d\<lparr>issues := issues d @ [issue_row challenge account i]\<rparr>)
    \<or> d' = d"
  using assms
  by (auto simp: issue_instance_def bind_result_Inr_iff split: option.splits
      dest!: assign_instance_Inr)

lemma issue_instance_ok:
  "store_ok d \<Longrightarrow> issue_instance d challenge account = Inr (x, d') \<Longrightarrow> store_ok d'"
  using issue_instance_cases issued_row_ok by blast

lemma issue_instance_extends:
  "issue_instance d challenge account = Inr (x, d') \<Longrightarrow> extends d d'"
  by (drule issue_instance_cases) (auto simp: extends_def reprices_refl)

interpretation game: transactional "exec mode re" store_ok extends for mode re
proof (unfold_locales, goal_cases)
  case (1 d)
  show ?case by (rule extends_refl)
next
  case (2 a b c)
  then show ?case by (rule extends_trans)
next
  case (3 cmd d r d')
  then show ?case
    by (cases cmd) (auto simp: exec_def tag_Inr submit_Inr_iff
        intro: submit_write_extends unlock_hint_extends issue_instance_extends)
next
  case (4 d cmd r d')
  then show ?case
    by (cases cmd) (auto simp: exec_def tag_Inr submit_Inr_iff
        intro: submit_write_ok unlock_hint_ok issue_instance_ok)
qed

end
