(* ===== verification/Sample_Event.thy ===== *)
theory Sample_Event
  imports Ledger
begin

section \<open>A small event for the witnesses\<close>

text \<open>
  A users-mode event with three players (7 and 9 visible, 8 hidden) and three challenges: 1 is
  static, worth 100, with a first-blood bonus of 25, three attempts and one hint for 40 points;
  2 decays linearly from 500 by 50 to 200; 3 requires 1 and hides until then. A pool of two
  instances belongs to challenge 2. The flag of every challenge is \<open>flag\<close>.
\<close>

definition sample_challenge :: "id \<Rightarrow> ChallengeRow" where
  "sample_challenge i =
    \<lparr>ch_id = i, ch_name = ''warmup'', ch_state = ''visible'', ch_value = 100,
     ch_function = ''static'', ch_initial = 0, ch_minimum = 0, ch_decay = 0, ch_max_attempts = 3,
     ch_logic = ''any'', ch_next_id = Some 2, ch_requirements = RawDoc (JObject []),
     ch_flag_mode = ''static'', ch_first_blood = ''bonus'', ch_first_blood_bonus = Some 25\<rparr>"

definition sample_decaying :: ChallengeRow where
  "sample_decaying =
    (sample_challenge 2)\<lparr>ch_value := 500, ch_function := ''linear'', ch_initial := 500,
      ch_minimum := 200, ch_decay := 50, ch_first_blood := ''none'', ch_first_blood_bonus := None\<rparr>"

definition sample_locked :: ChallengeRow where
  "sample_locked =
    (sample_challenge 3)\<lparr>ch_requirements :=
      RawDoc (JObject [(''prerequisites'', JArray [JInt 1])])\<rparr>"

definition sample_flag :: "id \<Rightarrow> FlagRow" where
  "sample_flag i =
    \<lparr>fl_id = i, fl_challenge = i, fl_type = ''static'', fl_content = ''flag'',
     fl_case_insensitive = False\<rparr>"

definition sample_hint :: HintRow where
  "sample_hint =
    \<lparr>h_id = 1, h_challenge = 1, h_title = None, h_content = ''look closer'', h_cost = 40,
     h_requirements = RawDoc (JObject [])\<rparr>"

definition sample_instance :: "id \<Rightarrow> InstanceRow" where
  "sample_instance i =
    \<lparr>in_id = i, in_challenge = 2, in_hash = [], in_artifact = None, in_vars = RawEmpty,
     in_generation = i\<rparr>"

definition sample_account :: "id \<Rightarrow> bool \<Rightarrow> AccountRow" where
  "sample_account i hid = \<lparr>acc_id = i, acc_hidden = hid, acc_banned = False\<rparr>"

definition sample_db :: db where
  "sample_db =
    \<lparr>user_mode = ''users'',
     users = [sample_account 7 False, sample_account 8 True, sample_account 9 False], teams = [],
     challenges = [sample_challenge 1, sample_decaying, sample_locked],
     flags = [sample_flag 1, sample_flag 2, sample_flag 3], hints = [sample_hint],
     instances = [sample_instance 1, sample_instance 2], issues = [], submissions = [],
     solves = [], awards = [], unlocks = [], next_submission = 1, next_solve = 1, next_award = 1,
     next_unlock = 1, announcements = [], pulses = []\<rparr>"

definition player :: "id \<Rightarrow> Actor" where
  "player i = \<lparr>ac_user = i, ac_team = None, ac_ip = None\<rparr>"

definition attempt :: "id \<Rightarrow> id \<Rightarrow> string \<Rightarrow> SubmitInput" where
  "attempt challenge user guess =
    \<lparr>si_challenge = challenge, si_actor = player user, si_provided = guess\<rparr>"

text \<open>No flag of the sample is a regular expression.\<close>

definition no_regex :: regex where
  "no_regex = (\<lambda>_. None)"

abbreviation play :: "command list \<Rightarrow> db" where
  "play cmds \<equiv> run_all (exec ModeUsers no_regex) cmds sample_db"

lemmas sample_store_defs =
  sample_db_def sample_challenge_def sample_decaying_def sample_locked_def sample_flag_def
  sample_hint_def sample_instance_def sample_account_def player_def attempt_def no_regex_def

lemma sample_store_ok: "store_ok sample_db"
  by code_simp

subsection \<open>Evaluating a submission of the sample\<close>

lemma sample_check:
  assumes "flags d = flags sample_db" "ch_flag_mode c = ''static''" "ch_logic c = ''any''"
    "ch_id c \<in> {1, 2, 3}"
  shows "check no_regex d c p = Inr \<lparr>m_correct = (''flag'' = trim_space p), m_attributed = None\<rparr>"
  using assms
  by (auto simp: check_def check_static_def sample_store_defs get_challenge_flags_def
      parse_flag_mode_def flag_mode_names_def lift_flags_def parse_flag_type_def
      flag_type_names_def parse_logic_def logic_names_def match_any_def flag_match_def
      match_static_eq normalize_def Let_def)

lemma sample_requirements: "parse (RawDoc (JObject [])) = Inr no_requirements"
  by code_simp

lemma sample_submit:
  assumes "get_challenge d i = Some c" "ch_requirements c = RawDoc (JObject [])" "u \<noteq> 0"
    "flags d = flags sample_db" "ch_flag_mode c = ''static''" "ch_logic c = ''any''"
    "ch_id c \<in> {1, 2, 3}"
  shows "submit ModeUsers no_regex now d (attempt i u p) =
    bind_result (attempts_gate d (player u) c) (\<lambda>_.
      submit_write now d (attempt i u p) c
        \<lparr>m_correct = (''flag'' = trim_space p), m_attributed = None\<rparr>)"
proof -
  have "submit_open ModeUsers d (attempt i u p) = Inr (u, c)"
    using assms(1-3)
    by (simp add: submit_open_def actor_account_def resolve_def attempt_def player_def
        prereq_gate_def sample_requirements challenge_prereqs_met_def no_requirements_def
        dedupe_def)
  moreover have "submit_check no_regex d (attempt i u p) c =
      bind_result (attempts_gate d (player u) c)
        (\<lambda>_. Inr \<lparr>m_correct = (''flag'' = trim_space p), m_attributed = None\<rparr>)"
    using sample_check [OF assms(4-7)] by (simp add: submit_check_def attempt_def)
  ultimately show ?thesis
    by (cases "attempts_gate d (player u) c") (simp_all add: submit_def)
qed

text \<open>The store after the first player solved the first challenge, and after a wrong guess.\<close>

definition after_first :: db where
  "after_first =
    (case submit_write 100 sample_db (attempt 1 7 ''flag'') (sample_challenge 1)
        \<lparr>m_correct = True, m_attributed = None\<rparr> of Inl _ \<Rightarrow> sample_db | Inr (_, d) \<Rightarrow> d)"

lemma first_solve:
  "submit ModeUsers no_regex 100 sample_db (attempt 1 7 ''flag'') =
    Inr (\<lparr>r_status = StatusCorrect, r_first_blood = True, r_value = 100, r_next_id = Some 2\<rparr>,
         after_first)"
proof -
  have "submit ModeUsers no_regex 100 sample_db (attempt 1 7 ''flag'') =
    bind_result (attempts_gate sample_db (player 7) (sample_challenge 1)) (\<lambda>_.
      submit_write 100 sample_db (attempt 1 7 ''flag'') (sample_challenge 1)
        \<lparr>m_correct = (''flag'' = trim_space ''flag''), m_attributed = None\<rparr>)"
    by (rule sample_submit) code_simp+
  also have "\<dots> = Inr (\<lparr>r_status = StatusCorrect, r_first_blood = True, r_value = 100,
      r_next_id = Some 2\<rparr>, after_first)"
    by code_simp
  finally show ?thesis .
qed

lemma wrong_guess:
  "submit ModeUsers no_regex 100 sample_db (attempt 1 7 ''nope'') =
    Inr (bare_result StatusIncorrect,
         logged sample_db (log_row 100 sample_db (attempt 1 7 ''nope'') 1 ''incorrect'' None))"
proof -
  have "submit ModeUsers no_regex 100 sample_db (attempt 1 7 ''nope'') =
    bind_result (attempts_gate sample_db (player 7) (sample_challenge 1)) (\<lambda>_.
      submit_write 100 sample_db (attempt 1 7 ''nope'') (sample_challenge 1)
        \<lparr>m_correct = (''flag'' = trim_space ''nope''), m_attributed = None\<rparr>)"
    by (rule sample_submit) code_simp+
  also have "\<dots> = Inr (bare_result StatusIncorrect,
         logged sample_db (log_row 100 sample_db (attempt 1 7 ''nope'') 1 ''incorrect'' None))"
    by code_simp
  finally show ?thesis .
qed

lemma after_first_ok: "store_ok after_first"
  by code_simp

end
