(* ===== verification/Game_Properties.thy ===== *)
theory Game_Properties
  imports Sample_Event
begin

section \<open>Properties of game play\<close>

subsection \<open>Submissions\<close>

text \<open>The account of the actor already holds a solve of the challenge, under either key.\<close>

definition has_solved :: "db \<Rightarrow> Actor \<Rightarrow> id \<Rightarrow> bool" where
  "has_solved d a challenge \<longleftrightarrow>
    list_ex (\<lambda>s. sv_challenge s = challenge \<and> (sv_user s = ac_user a \<or> eq_id (sv_team s) (ac_team a)))
      (solves d)"

lemma fresh_submission:
  "store_ok d \<Longrightarrow> s \<in> set (solves d) \<Longrightarrow> \<not> eq_id (sv_submission s) (Some (next_submission d))"
  by (auto simp: store_ok_def solves_ok_def list_all_iff eq_id_iff)

lemma solve_conflict_iff:
  "store_ok d \<Longrightarrow> list_ex (solve_conflict (Some (next_submission d)) challenge (ac_user a) (ac_team a)) (solves d)
    \<longleftrightarrow> has_solved d a challenge"
  using fresh_submission by (auto simp: has_solved_def solve_conflict_def list_ex_iff)

lemma submit_InrE:
  assumes "store_ok d" "submit mode re now d inp = Inr (r, d')"
  obtains (Incorrect) ch m where
      "get_challenge d (si_challenge inp) = Some ch" "ch_id ch = si_challenge inp"
      "submit_check re d inp ch = Inr m" "\<not> m_correct m"
      "r = bare_result StatusIncorrect"
      "d' = logged d (log_row now d inp (si_challenge inp) ''incorrect'' None)"
  | (Already) ch m where
      "get_challenge d (si_challenge inp) = Some ch" "ch_id ch = si_challenge inp"
      "submit_check re d inp ch = Inr m" "m_correct m"
      "r = bare_result StatusAlreadySolved" "has_solved d (si_actor inp) (si_challenge inp)"
      "d' = logged d (log_row now d inp (si_challenge inp) ''correct'' (m_attributed m))"
  | (Correct) ch m where
      "get_challenge d (si_challenge inp) = Some ch" "ch_id ch = si_challenge inp"
      "submit_check re d inp ch = Inr m" "m_correct m"
      "\<not> has_solved d (si_actor inp) (si_challenge inp)"
      "after_solve now
        (stamped (logged d (log_row now d inp (si_challenge inp) ''correct'' (m_attributed m)))
          (stamp now d inp ch)) (si_actor inp) ch (stamp now d inp ch) = Inr (r, d')"
proof -
  obtain acct ch m where open1: "submit_open mode d inp = Inr (acct, ch)"
    and check: "submit_check re d inp ch = Inr m"
    and w: "submit_write now d inp ch m = Inr (r, d')"
    using assms(2) by (auto simp: submit_Inr_iff)
  have ch: "get_challenge d (si_challenge inp) = Some ch" using open1 by (simp add: submit_open_Inr)
  then have i: "ch_id ch = si_challenge inp" using get_challenge_Some by blast
  show thesis
  proof (cases "m_correct m")
    case False
    then show thesis using Incorrect [OF ch i check] w i
      by (simp add: submit_write_def submit_incorrect_Inr)
  next
    case True
    then show thesis
      using w i ch Already [OF ch i check] Correct [OF ch i check] solve_conflict_iff [OF assms(1)]
      by (auto simp: submit_write_def submit_correct_Inr Let_def split: if_splits)
  qed
qed

text \<open>The gates an answered submission passed, and the account it counts for.\<close>

lemma submit_gates:
  assumes "submit mode re now d inp = Inr (r, d')" "get_challenge d (si_challenge inp) = Some ch"
  shows "\<exists>acct. actor_account mode (si_actor inp) = Inr acct"
    "prereq_gate d (si_actor inp) ch = Inr ()" "attempts_gate d (si_actor inp) ch = Inr ()"
  using assms by (auto simp: submit_Inr_iff submit_open_Inr submit_check_Inr)

text \<open>
  What a first correct submission leaves, column by column: its row in the log, the solve stamped
  with the price, where it draws first blood the announcement and, where the challenge pays for it,
  the bonus, one pulse, and \<open>v\<close> as the asking price of the challenge it solves, unless that is fixed.
\<close>

definition draws_blood :: "db \<Rightarrow> SubmitInput \<Rightarrow> ChallengeRow \<Rightarrow> bool" where
  "draws_blood d inp ch \<longleftrightarrow>
    ch_first_blood ch \<noteq> ''none'' \<and> visible_solve_count d (ch_id ch) = 0
    \<and> eligible d (ac_user (si_actor inp)) (ac_team (si_actor inp))"

definition blood_rows :: "time \<Rightarrow> db \<Rightarrow> SubmitInput \<Rightarrow> ChallengeRow \<Rightarrow> AwardRow list" where
  "blood_rows now d inp ch =
    (if draws_blood d inp ch \<and> ch_first_blood ch = ''bonus''
     then map (blood_award now d (si_actor inp) ch)
            (case ch_first_blood_bonus ch of None \<Rightarrow> [] | Some b \<Rightarrow> [b])
     else [])"

definition repriced :: "id \<Rightarrow> int \<Rightarrow> ChallengeRow list \<Rightarrow> ChallengeRow list" where
  "repriced i v cs =
    map (\<lambda>c. if ch_id c = i \<and> ch_function c \<noteq> ''static'' then c\<lparr>ch_value := v\<rparr> else c) cs"

definition solved_store ::
  "time \<Rightarrow> db \<Rightarrow> SubmitInput \<Rightarrow> ChallengeRow \<Rightarrow> id option \<Rightarrow> int \<Rightarrow> db" where
  "solved_store now d inp ch attributed v =
    d\<lparr>submissions := submissions d @ [log_row now d inp (ch_id ch) ''correct'' attributed],
      next_submission := next_submission d + 1,
      solves := solves d @ [stamp now d inp ch],
      next_solve := next_solve d + 1,
      awards := awards d @ blood_rows now d inp ch,
      next_award := next_award d + int (length (blood_rows now d inp ch)),
      announcements := announcements d @
        (if draws_blood d inp ch
         then [\<lparr>an_challenge = ch_id ch, an_name = ch_name ch, an_user = ac_user (si_actor inp),
                an_team = ac_team (si_actor inp), an_solve = next_solve d, an_at = now\<rparr>]
         else []),
      pulses := pulses d @
        [\<lparr>pu_solve = next_solve d, pu_challenge = ch_id ch, pu_first_blood = draws_blood d inp ch,
          pu_at = now\<rparr>],
      challenges := repriced (ch_id ch) v (challenges d)\<rparr>"

lemma eligible_stamped: "eligible (stamped (logged d row) s) u t = eligible d u t"
  by (cases t) (simp_all add: eligible_def frame)

lemma takes_first_blood_iff:
  assumes "store_ok d"
  shows "takes_first_blood (stamped (logged d row) (stamp now d inp ch)) (si_actor inp) ch (stamp now d inp ch)
    \<longleftrightarrow> draws_blood d inp ch"
proof -
  have "\<forall>s\<in>set (solves d). sv_id s \<noteq> next_solve d"
    using assms(1) by (auto simp: store_ok_def solves_ok_def list_all_iff)
  then have "filter (\<lambda>s. sv_challenge s = ch_id ch \<and> sv_id s \<noteq> next_solve d
          \<and> eligible d (sv_user s) (sv_team s)) (solves d)
      = filter (\<lambda>s. sv_challenge s = ch_id ch \<and> eligible d (sv_user s) (sv_team s)) (solves d)"
    by (intro filter_cong) auto
  then have "prior_solves (stamped (logged d row) (stamp now d inp ch)) (ch_id ch) (next_solve d)
      = visible_solve_count d (ch_id ch)"
    by (simp add: prior_solves_def visible_solve_count_def frame eligible_stamped stamp_def)
  then show ?thesis
    by (auto simp: takes_first_blood_def draws_blood_def eligible_stamped stamp_def)
qed

lemma visible_count_stamped:
  assumes "solves d' = solves d @ [stamp now d inp ch]" "user_mode d' = user_mode d"
    "users d' = users d" "teams d' = teams d"
  shows "visible_solve_count d' (ch_id ch) = visible_solve_count d (ch_id ch)
    + (if eligible d (ac_user (si_actor inp)) (ac_team (si_actor inp)) then 1 else 0)"
proof -
  have "eligible d' = eligible d"
    using assms(2-4) by (intro ext) (simp add: eligible_def split: option.split)
  then show ?thesis by (simp add: visible_solve_count_def assms(1) stamp_def)
qed

text \<open>Recalculation rewrites the price of the one challenge it is for.\<close>

lemma find_challenge:
  "content_ok d \<Longrightarrow> get_challenge d i = Some c \<Longrightarrow> ch_function c \<noteq> ''static'' \<Longrightarrow>
    find (\<lambda>c. ch_id c = i \<and> ch_function c \<noteq> ''static'') (challenges d) = Some c"
  using get_challenge_Some by (intro find_distinct) (auto simp: content_ok_def)

lemma recalc_exact:
  assumes "content_ok d" "get_challenge d i = Some c" "ch_function c \<noteq> ''static''"
    "recalc_challenge_value d i = Inr d'"
  obtains v where "recalc_value (curve_of c) (visible_solve_count d i) = Inr v"
    "d' = d\<lparr>challenges := repriced i v (challenges d)\<rparr>"
  using assms(4) find_challenge [OF assms(1-3)]
  by (auto simp: recalc_challenge_value_def repriced_def split: sum.splits)

lemma repriced_static:
  assumes "content_ok d" "get_challenge d i = Some c" "ch_function c = ''static''"
  shows "repriced i v (challenges d) = challenges d"
proof -
  have c: "c \<in> set (challenges d)" "ch_id c = i" using get_challenge_Some [OF assms(2)] by auto
  have "inj_on ch_id (set (challenges d))"
    using assms(1) by (simp add: content_ok_def distinct_map)
  then have "ch_function x = ''static''" if "x \<in> set (challenges d)" "ch_id x = i" for x
    using that c assms(3) by (metis inj_onD)
  then show ?thesis by (auto simp: repriced_def intro!: map_idI)
qed

lemma solved_exactly:
  assumes "store_ok d" "get_challenge d (ch_id ch) = Some ch"
    "after_solve now
        (stamped (logged d (log_row now d inp (ch_id ch) ''correct'' attributed))
          (stamp now d inp ch)) (si_actor inp) ch (stamp now d inp ch) = Inr (r, d')"
  obtains v where
    "r = \<lparr>r_status = StatusCorrect, r_first_blood = draws_blood d inp ch, r_value = ch_value ch,
          r_next_id = ch_next_id ch\<rparr>"
    "d' = solved_store now d inp ch attributed v"
    "ch_function ch \<noteq> ''static'' \<Longrightarrow>
      recalc_value (curve_of ch) (visible_solve_count d (ch_id ch)
        + (if eligible d (ac_user (si_actor inp)) (ac_team (si_actor inp)) then 1 else 0)) = Inr v"
proof -
  let ?s = "stamp now d inp ch"
  let ?d1 = "stamped (logged d (log_row now d inp (ch_id ch) ''correct'' attributed)) ?s"
  have blood: "takes_first_blood ?d1 (si_actor inp) ch ?s = draws_blood d inp ch"
    by (rule takes_first_blood_iff [OF assms(1)])
  have award: "blood_award now ?d1 = blood_award now d"
    by (intro ext) (simp add: blood_award_def frame)
  have content: "content_ok d" using assms(1) by (simp add: store_ok_def)
  show thesis
  proof (rule after_solve_exact [OF assms(3)], unfold blood)
    fix aws ans cs
    assume d': "d' = ?d1\<lparr>awards := awards ?d1 @ aws,
          next_award := next_award ?d1 + int (length aws), announcements := announcements ?d1 @ ans,
          pulses := pulses ?d1 @ [\<lparr>pu_solve = sv_id ?s, pu_challenge = ch_id ch,
            pu_first_blood = draws_blood d inp ch, pu_at = sv_date ?s\<rparr>], challenges := cs\<rparr>"
      and r: "r = \<lparr>r_status = StatusCorrect, r_first_blood = draws_blood d inp ch,
          r_value = sv_value ?s, r_next_id = ch_next_id ch\<rparr>"
      and aws: "if draws_blood d inp ch \<and> ch_first_blood ch = ''bonus''
          then (\<exists>bonus. ch_first_blood_bonus ch = Some bonus
            \<and> aws = [blood_award now ?d1 (si_actor inp) ch bonus]
            \<and> \<not> list_ex (\<lambda>w. aw_type w = ''first_blood'' \<and> eq_id (aw_challenge w) (Some (ch_id ch)))
                  (awards ?d1))
          else aws = []"
      and ans: "ans = (if draws_blood d inp ch
          then [\<lparr>an_challenge = ch_id ch, an_name = ch_name ch, an_user = ac_user (si_actor inp),
                 an_team = ac_team (si_actor inp), an_solve = sv_id ?s, an_at = sv_date ?s\<rparr>] else [])"
      and static: "ch_function ch = ''static'' \<Longrightarrow> cs = challenges ?d1"
      and re: "ch_function ch \<noteq> ''static'' \<Longrightarrow>
        recalc_challenge_value
         (?d1\<lparr>awards := awards ?d1 @ aws, next_award := next_award ?d1 + int (length aws),
            announcements := announcements ?d1 @ ans,
            pulses := pulses ?d1 @ [\<lparr>pu_solve = sv_id ?s, pu_challenge = ch_id ch,
              pu_first_blood = draws_blood d inp ch, pu_at = sv_date ?s\<rparr>]\<rparr>) (ch_id ch) = Inr d'"
        (is "_ \<Longrightarrow> recalc_challenge_value ?d2 _ = _")
    have aws: "aws = blood_rows now d inp ch"
      using aws by (auto simp: blood_rows_def award)
    have d': "d' = ?d2\<lparr>challenges := cs\<rparr>" by (simp add: d')
    have same: "?d2\<lparr>challenges := repriced (ch_id ch) v (challenges d)\<rparr>
        = solved_store now d inp ch attributed v" for v
      by (simp add: solved_store_def aws ans stamped_def logged_def stamp_def)
    show thesis
    proof (cases "ch_function ch = ''static''")
      case True
      have "cs = repriced (ch_id ch) 0 (challenges d)"
        using static [OF True] repriced_static [OF content assms(2) True] by (simp add: frame)
      then show thesis using that [of 0] True r d' same by (simp add: stamp_def)
    next
      case False
      have "content_ok ?d2" using content by (simp add: content_ok_def frame)
      moreover have "get_challenge ?d2 (ch_id ch) = Some ch"
        using assms(2) by (simp add: get_challenge_def frame)
      ultimately obtain v where v: "recalc_value (curve_of ch) (visible_solve_count ?d2 (ch_id ch)) = Inr v"
        "d' = ?d2\<lparr>challenges := repriced (ch_id ch) v (challenges ?d2)\<rparr>"
        using recalc_exact [OF _ _ False re [OF False]] by blast
      have "visible_solve_count ?d2 (ch_id ch) = visible_solve_count d (ch_id ch)
          + (if eligible d (ac_user (si_actor inp)) (ac_team (si_actor inp)) then 1 else 0)"
        by (rule visible_count_stamped) (simp_all add: frame)
      then show thesis using that [of v] v same r by (simp add: frame stamp_def)
    qed
  qed
qed

text \<open>
  C1: What a submission that is answered does, to the last column. It passed the gates of the
  prerequisites and of the attempts, and its answer is what the comparison of its flag says. A wrong
  one appends one row to the log and leaves every other table as it is. A right one by an account
  that already holds a solve of the challenge also appends just its row. Any other right one leaves
  exactly \<open>solved_store\<close>: its row in the log, one solve stamped with the price of the row it is written
  to, one pulse, on first blood one announcement and, where the challenge pays a bonus, one award;
  the asking price of this challenge, unless it is fixed, becomes the curve at the visible solves
  then in the store, and no other price, row or table changes.
\<close>
theorem submit_outcomes:
  assumes "store_ok d" "submit mode re now d inp = Inr (r, d')"
  shows "\<exists>ch m. get_challenge d (si_challenge inp) = Some ch
    \<and> prereq_gate d (si_actor inp) ch = Inr () \<and> attempts_gate d (si_actor inp) ch = Inr ()
    \<and> check re d ch (si_provided inp) = Inr m
    \<and> (m_correct m \<longleftrightarrow> r_status r \<noteq> StatusIncorrect)
    \<and> extends d d' \<and>
    (case r_status r of
       StatusIncorrect \<Rightarrow>
         r = bare_result StatusIncorrect
         \<and> d' = logged d (log_row now d inp (si_challenge inp) ''incorrect'' None)
     | StatusAlreadySolved \<Rightarrow>
         r = bare_result StatusAlreadySolved \<and> has_solved d (si_actor inp) (si_challenge inp)
         \<and> d' = logged d (log_row now d inp (si_challenge inp) ''correct'' (m_attributed m))
     | StatusCorrect \<Rightarrow>
         \<not> has_solved d (si_actor inp) (si_challenge inp)
         \<and> r = \<lparr>r_status = StatusCorrect, r_first_blood = draws_blood d inp ch,
                r_value = ch_value ch, r_next_id = ch_next_id ch\<rparr>
         \<and> (\<exists>v. d' = solved_store now d inp ch (m_attributed m) v
              \<and> (ch_function ch = ''static''
                 \<or> recalc_value (curve_of ch) (visible_solve_count d (si_challenge inp)
                     + (if eligible d (ac_user (si_actor inp)) (ac_team (si_actor inp)) then 1 else 0))
                   = Inr v))
     | StatusOther _ \<Rightarrow> False)"
  using assms
proof (cases rule: submit_InrE)
  case (Incorrect ch m)
  then show ?thesis using submit_gates [OF assms(2)]
    by (auto simp: bare_result_def logged_extends submit_check_Inr)
next
  case (Already ch m)
  then show ?thesis using submit_gates [OF assms(2)]
    by (auto simp: bare_result_def logged_extends submit_check_Inr)
next
  case (Correct ch m)
  have "extends d d'"
    by (rule extends_trans [OF extends_trans [OF logged_extends stamped_extends]
          after_solve_extends [OF Correct(6)]])
  moreover obtain v where v:
    "r = \<lparr>r_status = StatusCorrect, r_first_blood = draws_blood d inp ch, r_value = ch_value ch,
          r_next_id = ch_next_id ch\<rparr>"
    "d' = solved_store now d inp ch (m_attributed m) v"
    "ch_function ch \<noteq> ''static'' \<Longrightarrow>
      recalc_value (curve_of ch) (visible_solve_count d (ch_id ch)
        + (if eligible d (ac_user (si_actor inp)) (ac_team (si_actor inp)) then 1 else 0)) = Inr v"
    using solved_exactly [OF assms(1), of ch now inp "m_attributed m" r d'] Correct(1,2,6) by auto
  moreover have "ch_function ch = ''static''
      \<or> recalc_value (curve_of ch) (visible_solve_count d (si_challenge inp)
          + (if eligible d (ac_user (si_actor inp)) (ac_team (si_actor inp)) then 1 else 0)) = Inr v"
    using v(3) Correct(2) by (cases "ch_function ch = ''static''") simp_all
  ultimately have w: "extends d d'" "\<exists>v. d' = solved_store now d inp ch (m_attributed m) v
      \<and> (ch_function ch = ''static''
         \<or> recalc_value (curve_of ch) (visible_solve_count d (si_challenge inp)
             + (if eligible d (ac_user (si_actor inp)) (ac_team (si_actor inp)) then 1 else 0)) = Inr v)"
    by blast+
  have "check re d ch (si_provided inp) = Inr m" using Correct(3) by (simp add: submit_check_Inr)
  then show ?thesis
    using Correct(1,4,5) submit_gates(2,3) [OF assms(2) Correct(1)] w
    by (intro exI [of _ ch] exI [of _ m] conjI) (simp_all add: v(1))
qed

text \<open>A solve of a decaying challenge of the sample event.\<close>

definition second_result :: "Result \<times> db" where
  "second_result =
    (case submit_write 120 sample_db (attempt 2 7 '' flag '') sample_decaying
        \<lparr>m_correct = True, m_attributed = None\<rparr> of
       Inl _ \<Rightarrow> (bare_result StatusIncorrect, sample_db) | Inr res \<Rightarrow> res)"

lemma decaying_solve:
  "submit ModeUsers no_regex 120 sample_db (attempt 2 7 '' flag '') =
    Inr (\<lparr>r_status = StatusCorrect, r_first_blood = False, r_value = 500, r_next_id = Some 2\<rparr>,
         snd second_result)"
proof -
  have "submit ModeUsers no_regex 120 sample_db (attempt 2 7 '' flag '') =
    bind_result (attempts_gate sample_db (player 7) sample_decaying) (\<lambda>_.
      submit_write 120 sample_db (attempt 2 7 '' flag '') sample_decaying
        \<lparr>m_correct = (''flag'' = trim_space '' flag ''), m_attributed = None\<rparr>)"
    by (rule sample_submit) code_simp+
  also have "\<dots> = Inr (\<lparr>r_status = StatusCorrect, r_first_blood = False, r_value = 500,
      r_next_id = Some 2\<rparr>, snd second_result)"
    by code_simp
  finally show ?thesis .
qed

lemma submit_outcomes_witness:
  "(\<exists>v. after_first = solved_store 100 sample_db (attempt 1 7 ''flag'') (sample_challenge 1) None v)
    \<and> (\<exists>v. snd second_result = solved_store 120 sample_db (attempt 2 7 '' flag '') sample_decaying None v
        \<and> recalc_value (curve_of sample_decaying) 1 = Inr v)"
proof
  have get: "get_challenge sample_db 1 = Some (sample_challenge 1)" by code_simp
  have check: "check no_regex sample_db (sample_challenge 1) p
      = Inr \<lparr>m_correct = (''flag'' = trim_space p), m_attributed = None\<rparr>" for p
    by (rule sample_check) (simp_all add: sample_challenge_def)
  have i: "si_challenge (attempt 1 7 ''flag'') = 1" by (simp add: attempt_def)
  show "\<exists>v. after_first = solved_store 100 sample_db (attempt 1 7 ''flag'') (sample_challenge 1) None v"
    using submit_outcomes [OF sample_store_ok first_solve] get i by (auto simp: check)
next
  have get: "get_challenge sample_db 2 = Some sample_decaying" by code_simp
  have check: "check no_regex sample_db sample_decaying p
      = Inr \<lparr>m_correct = (''flag'' = trim_space p), m_attributed = None\<rparr>" for p
    by (rule sample_check) (simp_all add: sample_decaying_def sample_challenge_def)
  have i: "si_challenge (attempt 2 7 '' flag '') = 2" by (simp add: attempt_def)
  have n: "visible_solve_count sample_db 2 = 0"
    "eligible sample_db (ac_user (si_actor (attempt 2 7 '' flag ''))) (ac_team (si_actor (attempt 2 7 '' flag '')))"
    "ch_function sample_decaying \<noteq> ''static''"
    by code_simp+
  show "\<exists>v. snd second_result = solved_store 120 sample_db (attempt 2 7 '' flag '') sample_decaying None v
        \<and> recalc_value (curve_of sample_decaying) 1 = Inr v"
    using submit_outcomes [OF sample_store_ok decaying_solve] get i n by (auto simp: check)
qed

subsection \<open>First blood\<close>

lemma one_blood_award:
  assumes "store_ok d"
  shows "length (filter (\<lambda>a. aw_type a = ''first_blood'' \<and> aw_challenge a = Some i) (awards d)) \<le> 1"
proof -
  have "distinct (map aw_challenge (filter (\<lambda>a. aw_type a = ''first_blood'') (awards d)))"
    using assms by (simp add: store_ok_def awards_ok_def)
  from distinct_map_count [OF this, of "Some i"] show ?thesis
    by (simp add: conj_commute)
qed

text \<open>
  C3: First blood is taken by a correct submission exactly when the challenge awards it, the
  submitter is visible and no visible account solved the challenge before; hidden and banned
  accounts neither take it nor burn it. It enqueues one announcement, and where it carries a bonus
  one award of that bonus; the store never holds two first-blood awards of one challenge.
\<close>
theorem first_blood_exact:
  assumes "store_ok d" "submit mode re now d inp = Inr (r, d')" "r_status r = StatusCorrect"
    "get_challenge d (si_challenge inp) = Some ch"
  shows "(r_first_blood r \<longleftrightarrow> ch_first_blood ch \<noteq> ''none''
        \<and> eligible d (ac_user (si_actor inp)) (ac_team (si_actor inp))
        \<and> visible_solve_count d (si_challenge inp) = 0)
    \<and> length (announcements d') = length (announcements d) + (if r_first_blood r then 1 else 0)
    \<and> awards d' = awards d @
        (if r_first_blood r \<and> ch_first_blood ch = ''bonus''
         then map (blood_award now d (si_actor inp) ch)
                (case ch_first_blood_bonus ch of None \<Rightarrow> [] | Some b \<Rightarrow> [b])
         else [])
    \<and> length (filter (\<lambda>a. aw_type a = ''first_blood'' \<and> aw_challenge a = Some (si_challenge inp))
                (awards d')) \<le> 1"
  using assms(1,2)
proof (cases rule: submit_InrE)
  case (Correct c m)
  have c: "c = ch" using Correct(1) assms(4) by simp
  obtain v where
    "r = \<lparr>r_status = StatusCorrect, r_first_blood = draws_blood d inp ch, r_value = ch_value ch,
          r_next_id = ch_next_id ch\<rparr>"
    "d' = solved_store now d inp ch (m_attributed m) v"
    using solved_exactly [OF assms(1), of ch now inp "m_attributed m" r d'] Correct(1,2,6) c by auto
  moreover have "store_ok d'"
    using submit_write_ok assms(1,2) by (metis submit_Inr_iff)
  note one_blood_award [OF this, of "si_challenge inp"]
  ultimately show ?thesis
    using Correct(2) c by (auto simp: solved_store_def blood_rows_def draws_blood_def)
qed (use assms(3) in \<open>simp_all add: bare_result_def\<close>)

lemma first_blood_exact_witness:
  "0 < length (announcements after_first) \<and> length (awards after_first) = 1"
proof -
  have "get_challenge sample_db (si_challenge (attempt 1 7 ''flag'')) = Some (sample_challenge 1)"
    by code_simp
  moreover have "awards sample_db = []" by (simp add: sample_db_def)
  ultimately show ?thesis
    using first_blood_exact [OF sample_store_ok first_solve _ \<open>get_challenge _ _ = _\<close>]
    by (simp add: sample_challenge_def)
qed

text \<open>
  C38: A taken bonus can lock a challenge. Where a first-blood bonus was awarded and no solve of a
  visible account is left (the winner was hidden or banned since), every correct submission of an
  eligible account that has not solved the challenge fails on the unique index of the first-blood
  award and is rolled back: nobody can solve the challenge any more.
\<close>
theorem awarded_blood_blocks_solves:
  assumes "store_ok d" "submit_open mode d inp = Inr (acct, ch)"
    "submit_check re d inp ch = Inr m" "m_correct m"
    "ch_first_blood ch = ''bonus''" "ch_first_blood_bonus ch = Some bonus"
    "list_ex (\<lambda>a. aw_type a = ''first_blood'' \<and> aw_challenge a = Some (ch_id ch)) (awards d)"
    "visible_solve_count d (ch_id ch) = 0"
    "eligible d (ac_user (si_actor inp)) (ac_team (si_actor inp))"
    "fk_ok d (ac_user (si_actor inp)) (ac_team (si_actor inp))"
    "\<not> has_solved d (si_actor inp) (ch_id ch)"
  shows "submit mode re now d inp =
    Inl (ErrUniqueViolation ''awards_one_first_blood_per_challenge'')"
proof -
  have get: "get_challenge d (ch_id ch) = Some ch"
    using assms(2) get_challenge_Some by (fastforce simp: submit_open_Inr)
  let ?d1 = "logged d (log_row now d inp (ch_id ch) ''correct'' (m_attributed m))"
  let ?s = "stamp now d inp ch"
  have ins: "insert_submission d now (ch_id ch) (ac_user (si_actor inp)) (ac_team (si_actor inp))
      ''correct'' (si_provided inp) (ac_ip (si_actor inp)) (m_attributed m)
      = Inr (next_submission d, ?d1)"
    using assms(10) by (simp add: insert_submission_Inr logged_def log_row_def)
  have solve: "insert_solve ?d1 now (Some (next_submission d)) (ch_id ch) (ac_user (si_actor inp))
      (ac_team (si_actor inp)) (ch_value ch) = Inr (Some ?s, stamped ?d1 ?s)"
    using assms(10,11) solve_conflict_iff [OF assms(1)]
    by (simp add: insert_solve_def Let_def frame stamp_def stamped_def)
  have blood: "takes_first_blood (stamped ?d1 ?s) (si_actor inp) ch ?s"
    using takes_first_blood_iff [OF assms(1)] assms(5,8,9) by (simp add: draws_blood_def)
  have award: "insert_award (stamped ?d1 ?s) now u t ''first_blood'' (Some (ch_id ch)) nm bonus
      = Inl (ErrUniqueViolation ''awards_one_first_blood_per_challenge'')" for u t nm
    using assms(7) by (simp add: insert_award_def frame eq_id_iff list_ex_iff)
  have "after_solve now (stamped ?d1 ?s) (si_actor inp) ch ?s
      = Inl (ErrUniqueViolation ''awards_one_first_blood_per_challenge'')"
    using blood assms(5,6) by (simp add: after_solve_def Let_def award_first_blood_def award)
  then have "submit_correct now d inp (ch_id ch) m
      = Inl (ErrUniqueViolation ''awards_one_first_blood_per_challenge'')"
    by (simp add: submit_correct_def get ins solve)
  then show ?thesis using assms(2-4) by (simp add: submit_def submit_write_def)
qed

text \<open>The winner of the sample's first challenge is banned; the next solver is refused.\<close>

definition winner_banned :: db where
  "winner_banned =
    after_first\<lparr>users := [(sample_account 7 False)\<lparr>acc_banned := True\<rparr>, sample_account 8 True,
      sample_account 9 False]\<rparr>"

lemma awarded_blood_blocks_solves_witness:
  "submit ModeUsers no_regex 200 winner_banned (attempt 1 9 ''flag'') =
    Inl (ErrUniqueViolation ''awards_one_first_blood_per_challenge'')"
proof (rule awarded_blood_blocks_solves)
  show "store_ok winner_banned" by code_simp
  show "submit_open ModeUsers winner_banned (attempt 1 9 ''flag'') = Inr (9, sample_challenge 1)"
    by code_simp
  have "flags winner_banned = flags sample_db" by code_simp
  moreover have "trim_space ''flag'' = ''flag''" by code_simp
  moreover have "si_provided (attempt 1 9 ''flag'') = ''flag''" by (simp add: attempt_def)
  moreover have "attempts_gate winner_banned (si_actor (attempt 1 9 ''flag'')) (sample_challenge 1) = Inr ()"
    by code_simp
  ultimately show "submit_check no_regex winner_banned (attempt 1 9 ''flag'') (sample_challenge 1)
      = Inr \<lparr>m_correct = True, m_attributed = None\<rparr>"
    using sample_check [of winner_banned "sample_challenge 1" "''flag''"]
    by (simp add: submit_check_def sample_challenge_def)
qed (code_simp | simp add: sample_challenge_def)+

subsection \<open>Prices\<close>

lemma get_repriced:
  assumes "get_challenge d i = Some c" "ch_function c \<noteq> ''static''" "challenges d' = repriced i v (challenges d)"
  shows "get_challenge d' i = Some (c\<lparr>ch_value := v\<rparr>)"
  using assms get_challenge_Some [OF assms(1)]
    find_map_Some [where P = "\<lambda>c. ch_id c = i \<and> ch_state c = ''visible''"
      and g = "\<lambda>r. if ch_id r = i \<and> ch_function r \<noteq> ''static'' then r\<lparr>ch_value := v\<rparr> else r"
      and xs = "challenges d" and x = c]
  by (simp add: repriced_def get_challenge_def)

text \<open>
  Recalculation is exact. After a correct submission on a decaying challenge with a valid curve
  whose arithmetic fits, the asking price the board shows is the curve at the number of visible
  solves then in the store, the same number the Go twin of the curve computes, while the solve
  itself and every earlier one keep the value they were stamped with.
\<close>
theorem price_follows_curve:
  assumes "store_ok d" "submit mode re now d inp = Inr (r, d')" "r_status r = StatusCorrect"
    "get_challenge d (si_challenge inp) = Some ch" "ch_function ch \<noteq> ''static''"
    "validate (curve_of ch) = Inr ()" "fits (curve_of ch)" "int (length (solves d')) < 2147483648"
  shows "\<exists>v. get_challenge d' (si_challenge inp) = Some (ch\<lparr>ch_value := v\<rparr>)
    \<and> v = curve_spec (curve_of ch) (visible_solve_count d' (si_challenge inp))
    \<and> value_at (curve_of ch) (visible_solve_count d' (si_challenge inp)) = Some v
    \<and> map sv_value (solves d') = map sv_value (solves d) @ [ch_value ch]"
  using assms(1,2)
proof (cases rule: submit_InrE)
  case (Correct c m)
  let ?i = "si_challenge inp"
  have c: "c = ch" using Correct(1) assms(4) by simp
  obtain v where d': "d' = solved_store now d inp ch (m_attributed m) v"
    and v: "recalc_value (curve_of ch) (visible_solve_count d ?i
        + (if eligible d (ac_user (si_actor inp)) (ac_team (si_actor inp)) then 1 else 0)) = Inr v"
    using solved_exactly [OF assms(1), of ch now inp "m_attributed m" r d'] Correct(1,2,6) assms(5) c
    by auto
  have get: "get_challenge d' ?i = Some (ch\<lparr>ch_value := v\<rparr>)"
    using Correct(2) c by (intro get_repriced [OF assms(4,5)]) (simp add: d' solved_store_def)
  have "visible_solve_count d' (ch_id ch) = visible_solve_count d (ch_id ch)
      + (if eligible d (ac_user (si_actor inp)) (ac_team (si_actor inp)) then 1 else 0)"
    by (rule visible_count_stamped) (simp_all add: d' solved_store_def)
  then have count: "recalc_value (curve_of ch) (visible_solve_count d' ?i) = Inr v"
    using v Correct(2) c by simp
  have "visible_solve_count d' ?i \<le> int (length (solves d'))"
    by (simp add: visible_solve_count_def)
  from order.strict_trans1 [OF this assms(8)]
  have n: "0 \<le> visible_solve_count d' ?i" "visible_solve_count d' ?i < 2147483648"
    by (simp_all only: visible_solve_count_def of_nat_0_le_iff)
  have dec: "decays (c_function (curve_of ch))" by (simp add: curve_of_def decays_def)
  have "v = curve_spec (curve_of ch) (visible_solve_count d' ?i)"
    using count recalc_value_spec [OF assms(6) dec assms(7) n] by simp
  moreover have "value_at (curve_of ch) (visible_solve_count d' ?i)
      = Some (curve_spec (curve_of ch) (visible_solve_count d' ?i))"
    by (rule value_at_spec [OF assms(6,7) n])
  moreover have "map sv_value (solves d') = map sv_value (solves d) @ [ch_value ch]"
    by (simp add: d' solved_store_def stamp_def)
  ultimately show ?thesis using get by auto
qed (use assms(3) in \<open>simp_all add: bare_result_def\<close>)

lemma price_follows_curve_witness:
  "\<exists>v. get_challenge (snd second_result) 2 = Some (sample_decaying\<lparr>ch_value := v\<rparr>)"
proof -
  have "\<exists>v. get_challenge (snd second_result) (si_challenge (attempt 2 7 '' flag ''))
      = Some (sample_decaying\<lparr>ch_value := v\<rparr>)
    \<and> v = curve_spec (curve_of sample_decaying)
        (visible_solve_count (snd second_result) (si_challenge (attempt 2 7 '' flag '')))
    \<and> value_at (curve_of sample_decaying)
        (visible_solve_count (snd second_result) (si_challenge (attempt 2 7 '' flag ''))) = Some v
    \<and> map sv_value (solves (snd second_result)) = map sv_value (solves sample_db) @ [ch_value sample_decaying]"
  proof (rule price_follows_curve [OF sample_store_ok decaying_solve])
    show "get_challenge sample_db (si_challenge (attempt 2 7 '' flag '')) = Some sample_decaying"
      by code_simp
    show "validate (curve_of sample_decaying) = Inr ()" by code_simp
    show "fits (curve_of sample_decaying)"
      by (simp add: fits_def curve_of_def sample_decaying_def sample_challenge_def)
    have "length (solves (snd second_result)) = 1" by code_simp
    then show "int (length (solves (snd second_result))) < 2147483648" by simp
    show "ch_function sample_decaying \<noteq> ''static''" by code_simp
  qed simp
  then show ?thesis by (auto simp: attempt_def)
qed

end
