(* ===== verification/Pool_Properties.thy ===== *)
theory Pool_Properties
  imports Sample_Event
begin

section \<open>Properties of unique-flag issuance\<close>

text \<open>
  The contract of the \<open>Issuer\<close> interface of the flags package, as a locale: who holds what, what
  issuing does to it, and that a bundle has one holder. The client's facts follow from the contract
  alone, so an implementation without a pool would satisfy them too; the pool is the interpretation.
\<close>

locale issuer =
  fixes issue_for :: "'d \<Rightarrow> id \<Rightarrow> id \<Rightarrow> ('e, 'x \<times> 'd) result"
    and holds :: "'d \<Rightarrow> id \<Rightarrow> id \<Rightarrow> 'x option"
    and ident :: "'x \<Rightarrow> id"
    and valid :: "'d \<Rightarrow> bool"
  assumes issue_valid: "valid d \<Longrightarrow> issue_for d c a = Inr (x, d') \<Longrightarrow> valid d'"
    and issue_gives: "valid d \<Longrightarrow> issue_for d c a = Inr (x, d') \<Longrightarrow> holds d' c a = Some x"
    and issue_held: "holds d c a = Some x \<Longrightarrow> issue_for d c a = Inr (x, d)"
    and issue_keeps: "issue_for d c a = Inr (x, d') \<Longrightarrow> holds d c' b = Some y \<Longrightarrow> holds d' c' b = Some y"
    and one_holder: "valid d \<Longrightarrow> holds d c a = Some x \<Longrightarrow> holds d c' b = Some y
      \<Longrightarrow> ident x = ident y \<Longrightarrow> c = c' \<and> a = b"
begin

abbreviation visit :: "'d \<Rightarrow> id \<times> id \<Rightarrow> 'd" where
  "visit d p \<equiv> (case issue_for d (fst p) (snd p) of Inl _ \<Rightarrow> d | Inr (_, d') \<Rightarrow> d')"

lemma visits_valid: "valid d \<Longrightarrow> valid (foldl visit d ps)"
  by (induction ps arbitrary: d) (auto split: sum.split dest: issue_valid)

lemma visits_keep: "holds d c a = Some x \<Longrightarrow> holds (foldl visit d ps) c a = Some x"
  by (induction ps arbitrary: d) (auto split: sum.split dest: issue_keeps)

lemma reissue:
  assumes "valid d" "issue_for d c a = Inr (x, d')"
  shows "issue_for (foldl visit d' ps) c a = Inr (x, foldl visit d' ps)"
  using issue_gives [OF assms] by (intro issue_held visits_keep)

lemma never_shared:
  assumes "valid d" "issue_for d c a = Inr (x, d1)"
    "issue_for (foldl visit d1 ps) c' b = Inr (y, d2)" "ident x = ident y"
  shows "c = c' \<and> a = b"
proof -
  have v: "valid (foldl visit d1 ps)" using issue_valid assms(1,2) visits_valid by blast
  have "holds d2 c a = Some x"
    using issue_gives [OF assms(1,2)] visits_keep issue_keeps [OF assms(3)] by blast
  moreover have "holds d2 c' b = Some y" by (rule issue_gives [OF v assms(3)])
  ultimately show ?thesis
    using one_holder [of d2 c a x c' b y] issue_valid [OF v assms(3)] assms(4) by blast
qed

end

subsection \<open>The pool\<close>

definition holds :: "db \<Rightarrow> id \<Rightarrow> id \<Rightarrow> IssuedInstance option" where
  "holds d c a = map_option to_issued (get_issued_instance d c a)"

lemma get_issued_Some:
  "get_issued_instance d c a = Some i \<Longrightarrow>
    \<exists>f\<in>set (issues d). is_challenge f = c \<and> is_account f = a \<and> in_id i = is_instance f
      \<and> i \<in> set (instances d)"
  by (auto simp: get_issued_instance_def split: option.splits dest!: find_Some_in)

lemma get_issued_append:
  "get_issued_instance d c a = Some i
    \<Longrightarrow> get_issued_instance (d\<lparr>issues := issues d @ rows\<rparr>) c a = Some i"
  by (auto simp: get_issued_instance_def find_append split: option.splits)

lemma issued_kept:
  assumes "issue_instance d c a = Inr (x, d')" "get_issued_instance d c' b = Some i"
  shows "get_issued_instance d' c' b = Some i"
  using issue_instance_cases [OF assms(1)] get_issued_append [OF assms(2)] assms(2) by auto

lemma issue_instance_gives:
  "issue_instance d c a = Inr (x, d') \<Longrightarrow> holds d' c a = Some x"
  by (auto simp: issue_instance_def holds_def bind_result_Inr_iff split: option.splits)

interpretation pool: issuer issue_instance holds ii_instance store_ok
proof (unfold_locales, goal_cases)
  case (1 d c a x d')
  then show ?case by (rule issue_instance_ok)
next
  case (2 d c a x d')
  from 2(2) show ?case by (rule issue_instance_gives)
next
  case (3 d c a x)
  then show ?case by (auto simp: holds_def issue_instance_def)
next
  case (4 d c a x d' c' b y)
  then show ?case by (auto simp: holds_def dest: issued_kept)
next
  case (5 d c a x c' b y)
  then obtain i j where "get_issued_instance d c a = Some i" "get_issued_instance d c' b = Some j"
    "x = to_issued i" "y = to_issued j"
    by (auto simp: holds_def)
  then obtain f g where fg: "f \<in> set (issues d)" "g \<in> set (issues d)" "is_challenge f = c"
    "is_account f = a" "is_challenge g = c'" "is_account g = b" "is_instance f = is_instance g"
    using 5(4) by (auto dest!: get_issued_Some simp: to_issued_def)
  moreover have "distinct (map is_instance (issues d))"
    using 5(1) by (simp add: store_ok_def issues_ok_def)
  ultimately have "f = g" by (metis distinct_map_eqD)
  then show ?case using fg by simp
qed

text \<open>
  Issuing is idempotent and never shares. What an account was issued for a challenge it gets
  again on every later access, with nothing changed, whoever else has been issued something in
  between; and an instance issued once is never issued again, to anyone else or for another
  challenge.
\<close>
theorem issued_once:
  assumes "store_ok d" "issue_instance d c a = Inr (x, d1)"
    "d2 = foldl (\<lambda>d p. case issue_instance d (fst p) (snd p) of Inl _ \<Rightarrow> d | Inr (_, d') \<Rightarrow> d') d1 visits"
  shows "issue_instance d2 c a = Inr (x, d2)
    \<and> (\<forall>c' b y d3. issue_instance d2 c' b = Inr (y, d3) \<and> ii_instance y = ii_instance x
         \<longrightarrow> c' = c \<and> b = a)"
proof (intro conjI allI impI)
  show "issue_instance d2 c a = Inr (x, d2)"
    using pool.reissue [OF assms(1,2), of visits] by (simp add: assms(3))
  fix c' b y d3
  assume "issue_instance d2 c' b = Inr (y, d3) \<and> ii_instance y = ii_instance x"
  then show "c' = c" "b = a"
    using pool.never_shared [OF assms(1,2), of visits c' b y d3] by (simp_all add: assms(3))
qed

lemma issued_once_witness:
  "\<exists>x d1. issue_instance sample_db 2 7 = Inr (x, d1) \<and> issue_instance d1 2 7 = Inr (x, d1)"
proof -
  obtain x d1 where i: "issue_instance sample_db 2 7 = Inr (x, d1)"
  proof (cases "issue_instance sample_db 2 7")
    case (Inl e)
    moreover have "is_ok (issue_instance sample_db 2 7)" by code_simp
    ultimately show thesis by simp
  qed (use that in force)
  then show ?thesis
    using issued_once [OF sample_store_ok i, of d1 "[]"] by simp
qed

text \<open>
  Issuing fails only when the pool is dry: for an account that holds nothing yet it is the
  exhaustion error exactly when every instance of the challenge is issued, and never a shared
  bundle or a constraint violation; otherwise the account gets an instance nobody had, and of the
  ones nobody had one of the newest generation.
\<close>
theorem issue_fails_only_when_dry:
  assumes "store_ok d" "get_issued_instance d c a = None"
  shows "if list_all (\<lambda>i. in_challenge i \<noteq> c \<or> issued d (in_id i)) (instances d)
    then issue_instance d c a = Inl ErrPoolExhausted
    else (\<exists>i\<in>set (instances d). in_challenge i = c \<and> \<not> issued d (in_id i)
      \<and> issue_instance d c a = Inr (to_issued i, d\<lparr>issues := issues d @ [issue_row c a i]\<rparr>)
      \<and> list_all (\<lambda>j. in_challenge j = c \<and> \<not> issued d (in_id j) \<longrightarrow> in_generation j \<le> in_generation i)
          (instances d))"
proof -
  have none: "find (\<lambda>f. is_challenge f = c \<and> is_account f = a) (issues d) = None"
  proof (cases "find (\<lambda>f. is_challenge f = c \<and> is_account f = a) (issues d)")
    case (Some f)
    then have f: "f \<in> set (issues d)" by (auto dest: find_Some_in)
    then obtain i where "i \<in> set (instances d)" "in_id i = is_instance f"
      using assms(1) by (auto simp: store_ok_def issues_ok_def list_all_iff list_ex_iff)
    moreover have "find (\<lambda>i. in_id i = is_instance f) (instances d) = None"
      using assms(2) Some by (simp add: get_issued_instance_def)
    ultimately show ?thesis by (auto simp: find_None_iff)
  qed simp
  show ?thesis
  proof (cases "pick_instance d c")
    case None
    then have "list_all (\<lambda>i. in_challenge i \<noteq> c \<or> issued d (in_id i)) (instances d)"
      by (auto simp: pick_instance_None list_all_iff)
    moreover have "issue_instance d c a = Inl ErrPoolExhausted"
      using None assms(2) by (simp add: issue_instance_def assign_instance_def)
    ultimately show ?thesis by simp
  next
    case (Some i)
    have i: "i \<in> set (instances d)" "in_challenge i = c" "\<not> issued d (in_id i)"
      using pick_instance_Some [OF Some] by auto
    have free: "\<not> list_ex (\<lambda>f. is_challenge f = c \<and> is_account f = a) (issues d)"
      using none by (auto simp: find_None_iff list_ex_iff)
    let ?d1 = "d\<lparr>issues := issues d @ [issue_row c a i]\<rparr>"
    have "find (\<lambda>j. in_id j = in_id i) (instances d) = Some i"
      using find_distinct [of in_id "instances d" i "in_id i" "\<lambda>_. True"] assms(1) i(1)
      by (simp add: store_ok_def content_ok_def)
    then have "get_issued_instance ?d1 c a = Some i"
      using none by (simp add: get_issued_instance_def find_append issue_row_def)
    moreover have "assign_instance d c a = Inr (Some (in_id i), ?d1)"
      using Some free i(3) by (simp add: assign_instance_def issue_row_def)
    ultimately have issue: "issue_instance d c a = Inr (to_issued i, ?d1)"
      using assms(2) by (simp add: issue_instance_def)
    have "list_all (\<lambda>j. in_challenge j = c \<and> \<not> issued d (in_id j) \<longrightarrow> in_generation j \<le> in_generation i)
          (instances d)"
      using first_by_min [OF Some [unfolded pick_instance_def]] by (auto simp: list_all_iff)
    then show ?thesis using issue i by (auto simp: list_all_iff)
  qed
qed

lemma issue_fails_only_when_dry_witness:
  "issue_instance (sample_db\<lparr>instances := []\<rparr>) 2 7 = Inl ErrPoolExhausted
    \<and> is_ok (issue_instance sample_db 2 7)"
proof
  have "store_ok (sample_db\<lparr>instances := []\<rparr>)" by code_simp
  then show "issue_instance (sample_db\<lparr>instances := []\<rparr>) 2 7 = Inl ErrPoolExhausted"
    using issue_fails_only_when_dry [of "sample_db\<lparr>instances := []\<rparr>" 2 7]
    by (simp add: get_issued_instance_def sample_db_def)
  have "get_issued_instance sample_db 2 7 = None" by code_simp
  moreover have "\<not> list_all (\<lambda>i. in_challenge i \<noteq> 2 \<or> issued sample_db (in_id i)) (instances sample_db)"
    by code_simp
  ultimately show "is_ok (issue_instance sample_db 2 7)"
    using issue_fails_only_when_dry [OF sample_store_ok, of 2 7] by (auto simp: is_ok_def)
qed

text \<open>
  Attribution. A submission on a unique-flag challenge is correct exactly when some instance of
  the challenge's pool carries the hash of its trimmed text, whoever submits it; it is attributed
  to an account exactly when an instance with that hash was issued, and then to an account that was
  issued one for this very challenge, so a re-uploaded pool loses no attribution.
\<close>
theorem attribution_exact:
  assumes "store_ok d" "check_unique d ch provided = Inr m"
  defines "carriers \<equiv> filter (\<lambda>i. in_challenge i = ch_id ch \<and> in_hash i = sha256 (trim_space provided)) (instances d)"
  shows "(m_correct m \<longleftrightarrow> carriers \<noteq> [])
    \<and> (m_attributed m \<noteq> None \<longleftrightarrow> list_ex (\<lambda>i. issued d (in_id i)) carriers)
    \<and> (case m_attributed m of None \<Rightarrow> True
       | Some a \<Rightarrow> list_ex (\<lambda>i. list_ex (\<lambda>f. is_instance f = in_id i \<and> is_account f = a
            \<and> is_challenge f = ch_id ch) (issues d)) carriers)"
proof -
  let ?k = "\<lambda>i. if issued_to d (in_id i) = None then 1 else 0 :: int"
  let ?xs = "sort_key (\<lambda>i. - in_generation i) carriers"
  have h: "flag_hash provided = sha256 (trim_space provided)"
    by (simp add: flag_hash_def normalize_def)
  have lookup: "lookup_instance_by_hash d (ch_id ch) (flag_hash provided)
      = map_option (\<lambda>i. issued_to d (in_id i)) (first_by ?k ?xs)"
    by (simp add: lookup_instance_by_hash_def h carriers_def)
  have xs: "set ?xs = set carriers" "?xs = [] \<longleftrightarrow> carriers = []"
    by (simp, metis length_0_conv length_sort)
  have iss: "issued_to d n \<noteq> None \<longleftrightarrow> issued d n" for n
    by (auto simp: issued_to_def issued_def find_None_iff list_ex_iff)
  show ?thesis
  proof (cases "first_by ?k ?xs")
    case None
    then have "carriers = []" using xs(2) by simp
    moreover have "m = \<lparr>m_correct = False, m_attributed = None\<rparr>"
      using assms(2) None by (simp add: check_unique_def lookup)
    ultimately show ?thesis by simp
  next
    case (Some i)
    have i: "i \<in> set carriers" using first_by_in [OF Some] by simp
    have m: "m = \<lparr>m_correct = True, m_attributed = issued_to d (in_id i)\<rparr>"
      using assms(2) Some by (simp add: check_unique_def lookup)
    have "issued d (in_id i) \<longleftrightarrow> list_ex (\<lambda>i. issued d (in_id i)) carriers"
    proof
      assume "list_ex (\<lambda>i. issued d (in_id i)) carriers"
      then obtain j where "j \<in> set carriers" "issued_to d (in_id j) \<noteq> None"
        unfolding list_ex_iff iss [symmetric] by blast
      then have "?k i \<le> ?k j" using first_by_min [OF Some, of j] by simp
      then show "issued d (in_id i)"
        using \<open>issued_to d (in_id j) \<noteq> None\<close> iss by (auto split: if_splits)
    qed (use i in \<open>auto simp: list_ex_iff\<close>)
    moreover have "list_ex (\<lambda>f. is_instance f = in_id i \<and> is_account f = a \<and> is_challenge f = ch_id ch)
        (issues d)" if "issued_to d (in_id i) = Some a" for a
    proof -
      obtain f where f: "f \<in> set (issues d)" "is_instance f = in_id i" "is_account f = a"
        using \<open>issued_to d (in_id i) = Some a\<close> by (auto simp: issued_to_def dest: find_Some_in)
      then obtain j where j: "j \<in> set (instances d)" "in_id j = in_id i" "in_challenge j = is_challenge f"
        using assms(1) by (auto simp: store_ok_def issues_ok_def list_all_iff list_ex_iff)
      moreover have "i \<in> set (instances d)" "in_challenge i = ch_id ch"
        using i by (auto simp: carriers_def)
      moreover have "distinct (map in_id (instances d))"
        using assms(1) by (simp add: store_ok_def content_ok_def)
      ultimately have "j = i" by (metis distinct_map_eqD)
      then show ?thesis using f j \<open>in_challenge i = ch_id ch\<close> by (auto simp: list_ex_iff)
    qed
    ultimately show ?thesis
      using i iss by (auto simp: m list_ex_iff split: option.split)
  qed
qed

text \<open>A pool whose one instance carries a hash and was issued to player 7.\<close>

definition issued_db :: db where
  "issued_db =
    sample_db\<lparr>instances := [(sample_instance 1)\<lparr>in_hash := sha256 ''flag''\<rparr>],
      issues := [\<lparr>is_challenge = 2, is_account = 7, is_instance = 1\<rparr>]\<rparr>"

lemma attribution_exact_witness:
  "\<exists>m. check_unique issued_db sample_decaying '' flag '' = Inr m \<and> m_correct m
    \<and> m_attributed m \<noteq> None"
proof -
  obtain m where m: "check_unique issued_db sample_decaying '' flag '' = Inr m"
    by (cases "lookup_instance_by_hash issued_db (ch_id sample_decaying) (flag_hash '' flag '')")
      (auto simp: check_unique_def)
  have ok: "store_ok issued_db"
    by (simp add: issued_db_def store_ok_def solves_ok_def awards_ok_def unlocks_ok_def issues_ok_def
        content_ok_def sample_store_defs)
  have "trim_space '' flag '' = ''flag''" by code_simp
  then have "m_correct m \<and> m_attributed m \<noteq> None"
    using attribution_exact [OF ok m]
    by (simp add: issued_db_def sample_instance_def sample_decaying_def sample_challenge_def issued_def)
  then show ?thesis using m by blast
qed

end
