(* ===== verification/Unlock_Properties.thy ===== *)
theory Unlock_Properties
  imports Sample_Event
begin

section \<open>Properties of hints, prerequisites and balances\<close>

subsection \<open>Prerequisites\<close>

definition solved_by :: "db \<Rightarrow> Actor \<Rightarrow> id \<Rightarrow> bool" where
  "solved_by d a i \<longleftrightarrow>
    list_ex (\<lambda>s. sv_challenge s = i \<and> scoped d (ac_user a) (ac_team a) (sv_user s) (sv_team s)) (solves d)"

lemma prereqs_met_solved_by:
  "challenge_prereqs_met d a reqs \<longleftrightarrow> list_all (solved_by d a) (prerequisites reqs)"
  by (auto simp: challenge_prereqs_met_iff solved_by_def list_all_iff list_ex_iff)

text \<open>
  The prerequisite gate. While the account of a caller has not solved every prerequisite of a
  challenge, its submissions to it and its unlocks of any of its hints are refused, whatever flag is
  guessed and whether or not the hint exists, with nothing written: a challenge that hides until
  then answers as a missing one does, and so does every hint.
\<close>
theorem prerequisites_gate:
  assumes "get_challenge d (si_challenge inp) = Some ch" "parse (ch_requirements ch) = Inr reqs"
    "actor_account mode (si_actor inp) = Inr acct"
    "\<not> list_all (solved_by d (si_actor inp)) (prerequisites reqs)"
  shows "submit mode re now d inp =
      Inl (if visibility reqs = Hidden then ErrChallengeNotFound else ErrChallengeLocked)
    \<and> unlock_hint mode now d (si_challenge inp) hint (si_actor inp) = Inl ErrHintNotFound"
proof -
  have unmet: "\<not> challenge_prereqs_met d (si_actor inp) reqs"
    using assms(4) by (simp add: prereqs_met_solved_by)
  then have "submit mode re now d inp =
      Inl (if visibility reqs = Hidden then ErrChallengeNotFound else ErrChallengeLocked)"
    using assms(1-3)
    by (simp add: submit_def submit_open_def prereq_gate_def visible_def)
  moreover have "unlock_open d (si_actor inp) (si_challenge inp) hint = Inl ErrHintNotFound"
  proof (cases "get_hint d hint (si_challenge inp)")
    case (Some p)
    then obtain h where "p = (h, ch_requirements ch)"
      using assms(1) by (auto simp: get_hint_def split: option.splits dest: find_Some_in)
    then show ?thesis using Some assms(2) unmet by (simp add: unlock_open_def)
  qed (simp add: unlock_open_def)
  ultimately show ?thesis using assms(3) by (simp add: unlock_hint_def)
qed

lemma prerequisites_gate_witness:
  "submit ModeUsers no_regex 50 sample_db (attempt 3 7 ''flag'') = Inl ErrChallengeNotFound"
proof -
  have "get_challenge sample_db (si_challenge (attempt 3 7 ''flag'')) = Some sample_locked"
    by code_simp
  moreover have "parse (ch_requirements sample_locked) = Inr \<lparr>prerequisites = [1], visibility = Hidden\<rparr>"
    by code_simp
  moreover have "actor_account ModeUsers (si_actor (attempt 3 7 ''flag'')) = Inr 7"
    by code_simp
  moreover have "\<not> list_all (solved_by sample_db (si_actor (attempt 3 7 ''flag'')))
      (prerequisites \<lparr>prerequisites = [1], visibility = Hidden\<rparr>)"
    by code_simp
  ultimately show ?thesis
    using prerequisites_gate [of sample_db "attempt 3 7 ''flag''" sample_locked] by fastforce
qed

subsection \<open>Balances\<close>

lemma score_awarded:
  "get_account_score (awarded d a) t u =
    get_account_score d t u + (if scoped d u t (aw_user a) (aw_team a) then aw_value a else 0)"
  by (simp add: get_account_score_def frame scoped_def)

lemma score_unlocked: "get_account_score (unlocked d r) t u = get_account_score d t u"
  by (simp add: get_account_score_def unlocked_def scoped_def)

lemma score_logged: "get_account_score (logged d row) t u = get_account_score d t u"
  by (simp add: get_account_score_def frame scoped_def)

lemma score_stamped:
  "get_account_score (stamped d s) t u =
    get_account_score d t u + (if scoped d u t (sv_user s) (sv_team s) then sv_value s else 0)"
  by (simp add: get_account_score_def frame scoped_def)

lemma score_issues: "get_account_score (d\<lparr>issues := rows\<rparr>) t u = get_account_score d t u"
  by (simp add: get_account_score_def scoped_def)

lemma scoped_same_key:
  "scoped d u t u' t' \<Longrightarrow> get_account_score d t u = get_account_score d t' u'"
proof -
  assume "scoped d u t u' t'"
  then have "scoped d u t = scoped d u' t'"
    by (intro ext) (auto simp: scoped_def eq_id_iff split: if_splits)
  then show ?thesis by (simp add: get_account_score_def)
qed

text \<open>Nobody owes: the balance of every account is at least zero.\<close>

definition solvent :: "db \<Rightarrow> bool" where
  "solvent d \<longleftrightarrow> (\<forall>t u. 0 \<le> get_account_score d t u)"

text \<open>The authoring side of it: prices, floors and bonuses are not negative.\<close>

definition priced_ok :: "db \<Rightarrow> bool" where
  "priced_ok d \<longleftrightarrow>
    list_all (\<lambda>c. 0 \<le> ch_value c \<and> 0 \<le> ch_minimum c
      \<and> (case ch_first_blood_bonus c of None \<Rightarrow> True | Some b \<Rightarrow> 0 \<le> b)) (challenges d)"

lemma pg_int4_Inr: "pg_int4 x = Inr v \<longleftrightarrow> v = x \<and> in_i32 x"
  by (auto simp: pg_int4_def)

lemma recalc_value_floor: "recalc_value c n = Inr v \<Longrightarrow> c_minimum c \<le> v"
  by (auto simp: recalc_value_def Let_def bind_result_Inr_iff pg_int4_Inr split: if_splits)

lemma recalc_priced:
  assumes "priced_ok d" "recalc_challenge_value d i = Inr d'"
  shows "priced_ok d'"
proof (cases "find (\<lambda>c. ch_id c = i \<and> ch_function c \<noteq> ''static'') (challenges d)")
  case None
  then show ?thesis using assms by (simp add: recalc_challenge_value_def)
next
  case (Some c)
  then obtain v where v: "recalc_value (curve_of c) (visible_solve_count d i) = Inr v"
    "d' = d\<lparr>challenges :=
        map (\<lambda>r. if ch_id r = i \<and> ch_function r \<noteq> ''static'' then r\<lparr>ch_value := v\<rparr> else r)
          (challenges d)\<rparr>"
    using assms(2) by (auto simp: recalc_challenge_value_def split: sum.splits)
  have "c \<in> set (challenges d)" using Some by (auto dest: find_Some_in)
  then have "0 \<le> ch_minimum c" using assms(1) by (auto simp: priced_ok_def list_all_iff)
  then have "0 \<le> v" using recalc_value_floor [OF v(1)] by (simp add: curve_of_def)
  then show ?thesis using assms(1) by (auto simp: v(2) priced_ok_def list_all_iff)
qed

lemma after_solve_solvent:
  assumes "solvent d" "priced_ok d" "after_solve now d a locked s = Inr (r, d')"
    "locked \<in> set (challenges d)"
  shows "solvent d' \<and> priced_ok d'"
proof
  obtain aws ans cs where d': "d' = d\<lparr>awards := awards d @ aws,
      next_award := next_award d + int (length aws), announcements := announcements d @ ans,
      pulses := pulses d @ [\<lparr>pu_solve = sv_id s, pu_challenge = ch_id locked,
        pu_first_blood = takes_first_blood d a locked s, pu_at = sv_date s\<rparr>],
      challenges := cs\<rparr>"
    and aws: "if takes_first_blood d a locked s \<and> ch_first_blood locked = ''bonus''
     then (\<exists>bonus. ch_first_blood_bonus locked = Some bonus \<and> aws = [blood_award now d a locked bonus]
        \<and> \<not> list_ex (\<lambda>w. aw_type w = ''first_blood'' \<and> eq_id (aw_challenge w) (Some (ch_id locked)))
              (awards d))
     else aws = []"
    by (rule after_solve_effect [OF assms(3)], rule that; assumption)
  have "\<forall>w\<in>set aws. 0 \<le> aw_value w"
    using aws assms(2,4) by (auto simp: blood_award_def priced_ok_def list_all_iff split: if_splits)
  then have "0 \<le> sum_list (map aw_value (filter P aws))" for P
    by (intro sum_list_nonneg) auto
  moreover have "scoped d' = scoped d" by (intro ext) (simp add: d' scoped_def)
  then have "get_account_score d' t u = get_account_score d t u
      + sum_list (map aw_value (filter (\<lambda>w. scoped d u t (aw_user w) (aw_team w)) aws))" for t u
    by (simp add: get_account_score_def) (simp add: d')
  ultimately show "solvent d'"
    using assms(1) by (auto simp: solvent_def intro: add_nonneg_nonneg)
  show "priced_ok d'"
  proof (rule after_solve_Inr [OF assms(3)])
    fix d1
    let ?blood = "takes_first_blood d a locked s"
    assume aw: "if ?blood \<and> ch_first_blood locked = ''bonus''
         then (\<exists>bonus i. ch_first_blood_bonus locked = Some bonus
            \<and> insert_award d now (ac_user a) (ac_team a) ''first_blood'' (Some (ch_id locked))
                (''First blood: '' @ ch_name locked) bonus = Inr (i, d1))
         else d1 = d"
      and re: "if ch_function locked = ''static''
         then d' = publish (if ?blood then announce d1 a locked s else d1) locked s ?blood
         else recalc_challenge_value
                (publish (if ?blood then announce d1 a locked s else d1) locked s ?blood) (ch_id locked)
              = Inr d'"
    have "challenges d1 = challenges d"
      using aw by (auto simp: insert_award_Inr split: if_splits)
    then have "priced_ok (publish (if ?blood then announce d1 a locked s else d1) locked s ?blood)"
      using assms(2) by (simp add: priced_ok_def publish_def announce_def)
    then show ?thesis using re recalc_priced by (auto split: if_splits)
  qed
qed

lemma submit_write_solvent:
  assumes "solvent d" "priced_ok d" "submit_write now d inp ch m = Inr (r, d')"
  shows "solvent d' \<and> priced_ok d'"
proof (cases "m_correct m")
  case False
  then show ?thesis
    using assms by (auto simp: submit_write_def submit_incorrect_Inr solvent_def score_logged
        priced_ok_def frame)
next
  case True
  then obtain locked where l: "get_challenge d (ch_id ch) = Some locked"
    and w: "let d1 = logged d (log_row now d inp (ch_id locked) ''correct'' (m_attributed m)) in
         if list_ex (solve_conflict (Some (next_submission d)) (ch_id locked)
              (ac_user (si_actor inp)) (ac_team (si_actor inp))) (solves d)
         then r = bare_result StatusAlreadySolved \<and> d' = d1
         else after_solve now (stamped d1 (stamp now d inp locked)) (si_actor inp) locked
                (stamp now d inp locked) = Inr (r, d')"
    using assms(3) by (auto simp: submit_write_def submit_correct_Inr)
  have mem: "locked \<in> set (challenges d)" using get_challenge_Some [OF l] by simp
  then have v: "0 \<le> ch_value locked" using assms(2) by (auto simp: priced_ok_def list_all_iff)
  let ?row = "log_row now d inp (ch_id locked) ''correct'' (m_attributed m)"
  let ?d2 = "stamped (logged d ?row) (stamp now d inp locked)"
  have "solvent ?d2"
    using assms(1) v
    by (simp add: solvent_def score_stamped score_logged stamp_def)
  moreover have "priced_ok ?d2" "locked \<in> set (challenges ?d2)"
    using assms(2) mem by (simp_all add: priced_ok_def frame)
  moreover have "solvent (logged d ?row) \<and> priced_ok (logged d ?row)"
    using assms(1,2) by (simp add: solvent_def score_logged priced_ok_def frame)
  moreover have "d' = logged d ?row
      \<or> after_solve now ?d2 (si_actor inp) locked (stamp now d inp locked) = Inr (r, d')"
    using w by (simp add: Let_def split: if_splits)
  ultimately show ?thesis using after_solve_solvent by blast
qed

lemma unlock_solvent:
  assumes "store_ok d" "solvent d" "priced_ok d" "unlock_hint mode now d challenge hint a = Inr (u, d')"
  shows "solvent d' \<and> priced_ok d'"
proof -
  obtain acct h where h: "unlock_open d a challenge hint = Inr h"
    and sp: "unlock_spend mode now d a acct h = Inr (u, d')"
    using assms(4) by (auto simp: unlock_hint_Inr)
  have "h \<in> set (hints d)" using h get_hint_Some by (auto simp: unlock_open_Inr)
  then have cost: "i32 (- h_cost h) = - h_cost h" using hint_cost_ok [OF assms(1)] by simp
  have d': "d' = unlocked (awarded d (charge now d a h)) (unlock_row d a h)"
    and enough: "h_cost h \<le> get_account_score d (ac_team a) (ac_user a)"
    using sp by (auto simp: unlock_spend_Inr)
  have "0 \<le> get_account_score d' t v" for t v
    using assms(2) enough scoped_same_key [of d v t "ac_user a" "ac_team a"]
    by (simp add: d' score_unlocked score_awarded charge_def cost solvent_def)
  then show ?thesis
    using assms(3) by (simp add: solvent_def d' priced_ok_def unlocked_def awarded_def)
qed

interpretation balance: transactional "exec mode re"
  "\<lambda>d. store_ok d \<and> solvent d \<and> priced_ok d" extends for mode re
proof (unfold_locales, goal_cases)
  case (1 d)
  show ?case by (rule extends_refl)
next
  case (2 a b c)
  then show ?case by (rule extends_trans)
next
  case (3 cmd d r d')
  then show ?case by (rule game.exec_grows)
next
  case (4 d cmd r d')
  have "solvent d' \<and> priced_ok d'"
  proof (cases cmd)
    case (CIssue challenge account)
    then have "d' = d \<or> (\<exists>rows. d' = d\<lparr>issues := rows\<rparr>)"
      using 4(2) issue_instance_cases by (fastforce simp: exec_def tag_Inr)
    then show ?thesis
      using 4(1) by (auto simp: solvent_def priced_ok_def score_issues)
  qed (use 4 in \<open>auto simp: exec_def tag_Inr submit_Inr_iff
        dest: submit_write_solvent unlock_solvent\<close>)
  then show ?case using 4 game.exec_inv by blast
qed

text \<open>
  C4: No sequence of submissions, hint unlocks and instance issues, in any order and whether each
  succeeds or fails, breaks a constraint of the ledger (one solve per challenge and account, one
  first blood per challenge, one paid charge per unlock of exactly the hint's cost, one holder per
  instance), changes or removes a row that was there, or drives any balance below zero.
\<close>
theorem ledger_stays_sound:
  assumes "store_ok d" "solvent d" "priced_ok d"
  shows "store_ok (run_all (exec mode re) cmds d) \<and> extends d (run_all (exec mode re) cmds d)
    \<and> (\<forall>t u. 0 \<le> get_account_score (run_all (exec mode re) cmds d) t u)"
  using balance.run_inv [where mode = mode and re = re and d = d and cmds = cmds] assms
    game.run_grows [where mode = mode and re = re and d = d and cmds = cmds]
  by (simp add: solvent_def)

lemma ledger_stays_sound_witness:
  "0 \<le> get_account_score (play [CSubmit 100 (attempt 1 7 ''flag''), CUnlock 110 1 1 (player 7),
      CSubmit 120 (attempt 1 9 ''flag''), CUnlock 130 1 1 (player 9), CIssue 2 9]) None 7"
proof -
  have "solvent sample_db" by (simp add: solvent_def get_account_score_def sample_db_def)
  moreover have "priced_ok sample_db" by code_simp
  ultimately show ?thesis using ledger_stays_sound [OF sample_store_ok] by blast
qed

text \<open>
  An unlock charges exactly once and exactly the cost. When it succeeds the account did not own
  the hint and could afford it, it gets the hint's text, its balance falls by the cost and not below
  zero, and is what the answer reports; no other account's balance moves; and from then on
  every further unlock of the hint by the same actor is refused as already owned, at no charge,
  however little is left.
\<close>
theorem unlock_charges_once:
  assumes "store_ok d" "user_mode d = mode_string mode"
    "unlock_hint mode now d challenge hint a = Inr (u, d')"
    "in_i64 (get_account_score d (ac_team a) (ac_user a))"
  shows "(\<exists>h\<in>set (hints d). h_id h = hint \<and> h_challenge h = challenge
      \<and> u = \<lparr>ul_hint = hint, ul_content = h_content h, ul_charged = h_cost h,
             ul_score = get_account_score d' (ac_team a) (ac_user a)\<rparr>
      \<and> get_account_score d' (ac_team a) (ac_user a)
          = get_account_score d (ac_team a) (ac_user a) - h_cost h)
    \<and> 0 \<le> get_account_score d' (ac_team a) (ac_user a)
    \<and> get_hint_unlock d hint (ac_team a) (ac_user a) = None
    \<and> (\<forall>t v. \<not> scoped d v t (ac_user a) (ac_team a)
          \<longrightarrow> get_account_score d' t v = get_account_score d t v)
    \<and> unlock_hint mode later d' challenge hint a = Inl ErrAlreadyUnlocked"
proof -
  obtain acct h where acct: "actor_account mode a = Inr acct"
    and h: "unlock_open d a challenge hint = Inr h"
    and sp: "unlock_spend mode now d a acct h = Inr (u, d')"
    using assms(3) by (auto simp: unlock_hint_Inr)
  obtain creq creqs reqs where op: "get_hint d hint challenge = Some (h, creq)" "parse creq = Inr creqs"
    "challenge_prereqs_met d a creqs" "parse (h_requirements h) = Inr reqs" "hint_prereqs_met d a reqs"
    using h by (auto simp: unlock_open_Inr)
  have hh: "h \<in> set (hints d)" "h_id h = hint" "h_challenge h = challenge"
    using get_hint_Some [OF op(1)] by auto
  have cost: "0 \<le> h_cost h" "i32 (- h_cost h) = - h_cost h"
    using hint_cost_ok [OF assms(1) hh(1)] by auto
  note s = sp [unfolded unlock_spend_Inr]
  have d': "d' = unlocked (awarded d (charge now d a h)) (unlock_row d a h)" using s by simp
  have own: "scoped d (ac_user a) (ac_team a) (ac_user a) (ac_team a)"
    using acct assms(2)
    by (auto simp: scoped_def actor_account_def resolve_def mode_string_def mode_names_def eq_id_iff
        split: Mode.splits option.splits)
  have score: "get_account_score d' (ac_team a) (ac_user a)
      = get_account_score d (ac_team a) (ac_user a) - h_cost h"
    using own by (simp add: d' score_unlocked score_awarded charge_def cost(2))
  have others: "\<not> scoped d v t (ac_user a) (ac_team a)
      \<Longrightarrow> get_account_score d' t v = get_account_score d t v" for t v
    by (simp add: d' score_unlocked score_awarded charge_def)
  have "unlock_hint mode later d' challenge hint a = Inl ErrAlreadyUnlocked"
  proof -
    have ch: "get_challenge d' i = get_challenge d i" for i
      by (simp add: d' get_challenge_def unlocked_def awarded_def)
    have same: "get_hint d' hint challenge = get_hint d hint challenge" "solves d' = solves d"
      "scoped d' v t v' t' = scoped d v t v' t'" for v t v' t'
      by (simp_all add: get_hint_def ch cong: option.case_cong)
        (simp_all add: d' scoped_def unlocked_def awarded_def)
    have "set (unlocks d) \<subseteq> set (unlocks d')" by (auto simp: d' unlocked_def awarded_def)
    then have "hint_prereqs_met d' a reqs"
      using op(5) unfolding hint_prereqs_met_iff same by blast
    moreover have "challenge_prereqs_met d' a creqs"
      using op(3) by (simp add: challenge_prereqs_met_iff same)
    ultimately have "unlock_open d' a challenge hint = Inr h"
      using op by (simp add: unlock_open_def same)
    moreover have "lock_account mode d' a acct = Inr ()"
      using s by (cases mode) (simp_all add: d' lock_account_def lock_team_for_spend_def
          lock_user_for_spend_def unlocked_def awarded_def)
    moreover have "get_hint_unlock d' (h_id h) (ac_team a) (ac_user a) \<noteq> None"
    proof -
      have "unlock_row d a h \<in> set (unlocks d')" by (simp add: d' unlocked_def)
      then show ?thesis
        using own
        by (auto simp: get_hint_unlock_def find_None_iff same unlock_row_def
            intro!: bexI [of _ "unlock_row d a h"] exI [of _ "unlock_row d a h"])
    qed
    ultimately show ?thesis using acct by (auto simp: unlock_hint_def unlock_spend_def)
  qed
  moreover have "i64 (get_account_score d (ac_team a) (ac_user a) - h_cost h)
      = get_account_score d (ac_team a) (ac_user a) - h_cost h"
    using s cost(1) assms(4) by (intro i64_id) auto
  ultimately show ?thesis
    using s hh score others cost(1) by auto
qed

definition after_unlock :: "Unlock \<times> db" where
  "after_unlock =
    (case unlock_hint ModeUsers 110 after_first 1 1 (player 7) of
       Inl _ \<Rightarrow> (\<lparr>ul_hint = 0, ul_content = [], ul_charged = 0, ul_score = 0\<rparr>, after_first)
     | Inr p \<Rightarrow> p)"

lemma unlock_charges_once_witness:
  "unlock_hint ModeUsers 200 (snd after_unlock) 1 1 (player 7) = Inl ErrAlreadyUnlocked"
proof -
  have "unlock_hint ModeUsers 110 after_first 1 1 (player 7) = Inr (fst after_unlock, snd after_unlock)"
    by code_simp
  moreover have "user_mode after_first = mode_string ModeUsers" by code_simp
  moreover have "get_account_score after_first (ac_team (player 7)) (ac_user (player 7)) = 125"
    by code_simp
  ultimately show ?thesis
    using unlock_charges_once [OF after_first_ok, of ModeUsers 110 1 1 "player 7" "fst after_unlock"
        "snd after_unlock" 200] by simp
qed

end
