(* ===== verification/Interleaving.thy ===== *)
theory Interleaving
  imports Sample_Event
begin

section \<open>Interleaved submissions\<close>

text \<open>
  \<open>Submit\<close> reads without a lock, compares, and only then writes, so submissions overlap: between
  the parts of one, other transactions commit. A \<open>world\<close> is the committed store and the submissions
  in flight. One that passed \<open>submit_open\<close> carries the challenge row it read; the next step takes
  the advisory lock of the challenge and account when the challenge has a cap, counts, and compares;
  the last one inserts and commits, which releases the lock. A transaction may be given up at any
  point, and any other transaction that keeps the invariant, the attempt log and the caps may
  commit in between: hint unlocks, issues, the moderation of accounts, the editing of challenges.
\<close>

record flight =
  fl_input :: SubmitInput
  fl_acct :: id
  fl_ch :: ChallengeRow
  fl_match :: "match_result option"

record world =
  store :: db
  inflight :: "flight list"

text \<open>Holding \<open>pg_advisory_xact_lock\<close> on the challenge and account.\<close>

definition holds_attempt_lock :: "id \<Rightarrow> id \<Rightarrow> flight \<Rightarrow> bool" where
  "holds_attempt_lock challenge acct f \<longleftrightarrow>
    0 < ch_max_attempts (fl_ch f) \<and> fl_match f \<noteq> None
    \<and> ch_id (fl_ch f) = challenge \<and> fl_acct f = acct"

definition caps :: "db \<Rightarrow> (id \<times> int) list" where
  "caps d = map (\<lambda>c. (ch_id c, ch_max_attempts c)) (challenges d)"

inductive step :: "Mode \<Rightarrow> regex \<Rightarrow> world \<Rightarrow> world \<Rightarrow> bool" for mode re where
  Open: "submit_open mode (store w) inp = Inr (acct, ch) \<Longrightarrow>
    step mode re w
      (w\<lparr>inflight := inflight w @ [\<lparr>fl_input = inp, fl_acct = acct, fl_ch = ch, fl_match = None\<rparr>]\<rparr>)"
| Check: "inflight w = fs @ f # gs \<Longrightarrow> fl_match f = None \<Longrightarrow>
    0 < ch_max_attempts (fl_ch f)
      \<longrightarrow> \<not> list_ex (holds_attempt_lock (ch_id (fl_ch f)) (fl_acct f)) (fs @ gs) \<Longrightarrow>
    submit_check re (store w) (fl_input f) (fl_ch f) = Inr m \<Longrightarrow>
    step mode re w (w\<lparr>inflight := fs @ f\<lparr>fl_match := Some m\<rparr> # gs\<rparr>)"
| Write: "inflight w = fs @ f # gs \<Longrightarrow> fl_match f = Some m \<Longrightarrow>
    submit_write now (store w) (fl_input f) (fl_ch f) m = Inr (r, d') \<Longrightarrow>
    step mode re w (w\<lparr>store := d', inflight := fs @ gs\<rparr>)"
| Abort: "inflight w = fs @ f # gs \<Longrightarrow> step mode re w (w\<lparr>inflight := fs @ gs\<rparr>)"
| Other: "store_ok d' \<Longrightarrow> submissions d' = submissions (store w) \<Longrightarrow>
    user_mode d' = user_mode (store w) \<Longrightarrow> caps d' = caps (store w) \<Longrightarrow>
    step mode re w (w\<lparr>store := d'\<rparr>)"

inductive_cases step_cases: "step mode re w w'"

definition steps :: "Mode \<Rightarrow> regex \<Rightarrow> world \<Rightarrow> world \<Rightarrow> bool" where
  "steps mode re = (step mode re)\<^sup>*\<^sup>*"

text \<open>The wrong answers of one account on one challenge, by the column the mode selects.\<close>

definition row_account :: "db \<Rightarrow> SubmissionRow \<Rightarrow> id option" where
  "row_account d s = (if user_mode d = ''teams'' then sb_team s else Some (sb_user s))"

definition wrong_answers :: "db \<Rightarrow> id \<Rightarrow> id \<Rightarrow> nat" where
  "wrong_answers d challenge acct =
    length (filter (\<lambda>s. sb_challenge s = challenge \<and> sb_type s = ''incorrect''
                      \<and> row_account d s = Some acct) (submissions d))"

text \<open>A flight that has been told its answer is wrong but has not written it yet.\<close>

definition wrong_pending :: "id \<Rightarrow> id \<Rightarrow> flight \<Rightarrow> bool" where
  "wrong_pending challenge acct f \<longleftrightarrow>
    ch_id (fl_ch f) = challenge \<and> fl_acct f = acct
    \<and> (case fl_match f of None \<Rightarrow> False | Some m \<Rightarrow> \<not> m_correct m)"

definition flight_ok :: "Mode \<Rightarrow> id \<Rightarrow> int \<Rightarrow> flight \<Rightarrow> bool" where
  "flight_ok mode challenge cap f \<longleftrightarrow>
    actor_account mode (si_actor (fl_input f)) = Inr (fl_acct f)
    \<and> (ch_id (fl_ch f) = challenge \<longrightarrow> ch_max_attempts (fl_ch f) = cap)"

definition cap_inv :: "Mode \<Rightarrow> id \<Rightarrow> int \<Rightarrow> world \<Rightarrow> bool" where
  "cap_inv mode challenge cap w \<longleftrightarrow>
    store_ok (store w) \<and> user_mode (store w) = mode_string mode
    \<and> list_all (\<lambda>(i, n). i = challenge \<longrightarrow> n = cap) (caps (store w))
    \<and> list_all (flight_ok mode challenge cap) (inflight w)
    \<and> (\<forall>acct. int (wrong_answers (store w) challenge acct
              + length (filter (wrong_pending challenge acct) (inflight w))) \<le> cap)"

lemma actor_account_key:
  assumes "actor_account mode a = Inr acct" "user_mode d = mode_string mode"
  shows "scoped d (ac_user a) (ac_team a) u t \<longleftrightarrow> (if user_mode d = ''teams'' then t else Some u) = Some acct"
  using assms
  by (auto simp: actor_account_def resolve_def scoped_def mode_string_def mode_names_def eq_id_iff
      split: Mode.splits option.splits if_splits)

lemma count_is_wrong_answers:
  assumes "actor_account mode a = Inr acct" "user_mode d = mode_string mode"
  shows "count_incorrect_submissions d challenge (ac_team a) (ac_user a)
    = int (wrong_answers d challenge acct)"
  using actor_account_key [OF assms]
  by (simp add: count_incorrect_submissions_def wrong_answers_def row_account_def)

lemma wrong_answers_logged:
  assumes "actor_account mode (si_actor inp) = Inr acct'" "user_mode d = mode_string mode"
  shows "wrong_answers (logged d (log_row now d inp i typ att)) challenge acct
    = wrong_answers d challenge acct
      + (if i = challenge \<and> typ = ''incorrect'' \<and> acct' = acct then 1 else 0)"
proof -
  have "row_account d (log_row now d inp i typ att) = Some acct'"
    using assms
    by (auto simp: row_account_def log_row_def actor_account_def resolve_def mode_string_def
        mode_names_def split: Mode.splits option.splits if_splits)
  moreover have "row_account (logged d row) = row_account d" for row
    by (rule ext) (simp add: row_account_def frame)
  ultimately show ?thesis by (simp add: wrong_answers_def frame) (simp add: log_row_def)
qed

lemma wrong_answers_cong:
  "submissions d' = submissions d \<Longrightarrow> user_mode d' = user_mode d
    \<Longrightarrow> wrong_answers d' challenge acct = wrong_answers d challenge acct"
  by (simp add: wrong_answers_def row_account_def)

lemma reprices_caps: "reprices (challenges d) (challenges d') \<Longrightarrow> caps d' = caps d"
proof -
  assume "reprices (challenges d) (challenges d')"
  then have "map (\<lambda>c. (ch_id c, ch_max_attempts c)) (map unpriced (challenges d))
      = map (\<lambda>c. (ch_id c, ch_max_attempts c)) (map unpriced (challenges d'))"
    by (simp only: reprices_def)
  then show ?thesis by (simp add: caps_def o_def)
qed

text \<open>What a write adds to the log: one row, wrong exactly when the comparison said so.\<close>

lemma submit_write_log:
  assumes "submit_write now d inp ch m = Inr (r, d')"
  shows "\<exists>i att. submissions d' = submissions (logged d (log_row now d inp i
      (if m_correct m then ''correct'' else ''incorrect'') att))
    \<and> user_mode d' = user_mode d \<and> (\<not> m_correct m \<longrightarrow> i = ch_id ch)"
proof (cases "m_correct m")
  case False
  then show ?thesis
    using assms by (auto simp: submit_write_def submit_incorrect_Inr frame)
next
  case True
  then obtain locked where w: "let d1 = logged d (log_row now d inp (ch_id locked) ''correct'' (m_attributed m)) in
         if list_ex (solve_conflict (Some (next_submission d)) (ch_id locked)
              (ac_user (si_actor inp)) (ac_team (si_actor inp))) (solves d)
         then r = bare_result StatusAlreadySolved \<and> d' = d1
         else after_solve now (stamped d1 (stamp now d inp locked)) (si_actor inp) locked
                (stamp now d inp locked) = Inr (r, d')"
    using assms by (auto simp: submit_write_def submit_correct_Inr)
  have "submissions d' = submissions d1 \<and> user_mode d' = user_mode d1"
    if "after_solve now (stamped d1 s) a locked s = Inr (r, d')" for d1 s a
    by (rule after_solve_effect [OF that]) (simp add: frame)
  then show ?thesis
    using w True
    by (intro exI [of _ "ch_id locked"] exI [of _ "m_attributed m"])
      (auto simp: Let_def frame split: if_splits)
qed

lemma step_cap_inv:
  assumes "step mode re w w'" "cap_inv mode challenge cap w" "0 < cap"
  shows "cap_inv mode challenge cap w'"
  using assms(1)
proof cases
  case (Open inp acct ch)
  have "get_challenge (store w) (si_challenge inp) = Some ch" "actor_account mode (si_actor inp) = Inr acct"
    using Open(2) by (simp_all add: submit_open_Inr)
  moreover then have "ch \<in> set (challenges (store w))" using get_challenge_Some by blast
  ultimately show ?thesis
    using assms(2) Open(1)
    by (auto simp: cap_inv_def flight_ok_def wrong_pending_def caps_def list_all_iff)
next
  case (Check fs f gs m)
  let ?f = "f\<lparr>fl_match := Some m\<rparr>"
  have inv: "store_ok (store w)" "user_mode (store w) = mode_string mode"
    "flight_ok mode challenge cap f"
    "\<And>acct. int (wrong_answers (store w) challenge acct
        + length (filter (wrong_pending challenge acct) (fs @ f # gs))) \<le> cap"
    using assms(2) Check(2) by (simp_all add: cap_inv_def)
  have "int (wrong_answers (store w) challenge acct
      + length (filter (wrong_pending challenge acct) (fs @ ?f # gs))) \<le> cap" for acct
  proof (cases "wrong_pending challenge acct ?f")
    case False
    then show ?thesis using inv(4) [of acct] Check(3) by (auto simp: wrong_pending_def)
  next
    case True
    then have key: "ch_id (fl_ch f) = challenge" "fl_acct f = acct"
      by (simp_all add: wrong_pending_def)
    then have cap: "ch_max_attempts (fl_ch f) = cap" using inv(3) by (simp add: flight_ok_def)
    have "attempts_gate (store w) (si_actor (fl_input f)) (fl_ch f) = Inr ()"
      using Check(5) by (simp add: submit_check_Inr)
    then have less: "int (wrong_answers (store w) challenge acct) < cap"
      using count_is_wrong_answers [of mode "si_actor (fl_input f)" acct "store w" challenge]
        inv(2,3) key cap assms(3)
      by (simp add: attempts_gate_def flight_ok_def split: if_splits)
    have "\<forall>g\<in>set (fs @ gs). flight_ok mode challenge cap g"
      using assms(2) Check(2) by (simp add: cap_inv_def list_all_iff)
    moreover have "\<not> list_ex (holds_attempt_lock challenge acct) (fs @ gs)"
      using Check(4) cap assms(3) key by simp
    ultimately have "filter (wrong_pending challenge acct) (fs @ gs) = []"
      using assms(3)
      by (force simp: filter_empty_conv list_ex_iff holds_attempt_lock_def wrong_pending_def
          flight_ok_def split: option.splits)
    then have "length (filter (wrong_pending challenge acct) (fs @ ?f # gs)) = 1"
      using True by simp
    then show ?thesis using less by simp
  qed
  moreover have "list_all (flight_ok mode challenge cap) (fs @ ?f # gs)"
    using assms(2) Check(2) by (simp add: cap_inv_def flight_ok_def)
  ultimately show ?thesis using assms(2) Check(1) by (simp add: cap_inv_def)
next
  case (Write fs f gs m now r d')
  have f: "actor_account mode (si_actor (fl_input f)) = Inr (fl_acct f)"
    and um: "user_mode (store w) = mode_string mode"
    using assms(2) Write(2) by (simp_all add: cap_inv_def flight_ok_def)
  obtain i att where log: "submissions d' = submissions (logged (store w) (log_row now (store w)
      (fl_input f) i (if m_correct m then ''correct'' else ''incorrect'') att))"
    "user_mode d' = user_mode (store w)" "\<not> m_correct m \<longrightarrow> i = ch_id (fl_ch f)"
    using submit_write_log [OF Write(4)] by blast
  have "wrong_answers d' challenge acct = wrong_answers (store w) challenge acct
      + (if i = challenge \<and> \<not> m_correct m \<and> fl_acct f = acct then 1 else 0)" for acct
    using wrong_answers_cong [OF log(1)] wrong_answers_logged [OF f um] log(2)
    by (simp add: frame)
  then have "int (wrong_answers d' challenge acct
      + length (filter (wrong_pending challenge acct) (fs @ gs))) \<le> cap" for acct
    using assms(2) Write(2,3) log(3)
    by (auto simp: cap_inv_def wrong_pending_def dest!: spec [of _ acct])
  moreover have "store_ok d'" using submit_write_ok [OF _ Write(4)] assms(2) by (simp add: cap_inv_def)
  moreover have "caps d' = caps (store w)"
    using submit_write_extends [OF Write(4)] by (simp add: extends_def reprices_caps)
  ultimately show ?thesis
    using assms(2) Write(1,2) log(2) by (simp add: cap_inv_def)
next
  case (Abort fs f gs)
  have "int (wrong_answers (store w) challenge acct
      + length (filter (wrong_pending challenge acct) (fs @ gs))) \<le> cap" for acct
  proof -
    have "int (wrong_answers (store w) challenge acct
        + length (filter (wrong_pending challenge acct) (fs @ f # gs))) \<le> cap"
      using assms(2) Abort(2) by (simp add: cap_inv_def)
    moreover have "length (filter (wrong_pending challenge acct) (fs @ gs))
        \<le> length (filter (wrong_pending challenge acct) (fs @ f # gs))" by simp
    ultimately show ?thesis by linarith
  qed
  moreover have "list_all (flight_ok mode challenge cap) (fs @ gs)"
    using assms(2) Abort(2) by (simp add: cap_inv_def)
  ultimately show ?thesis using assms(2) Abort(1) by (simp add: cap_inv_def)
next
  case (Other d')
  from wrong_answers_cong [OF Other(3,4)] Other show ?thesis
    using assms(2) by (simp add: cap_inv_def)
qed

text \<open>
  C2: The attempt cap holds under every interleaving. Starting with no submission in flight and no
  account over the cap of a challenge, however submissions overlap each other and other
  transactions, no account ever has more wrong answers to it in the log than the cap allows, and
  the store invariant (one solve per account, one first blood) holds in every state on the way.
\<close>
theorem attempts_capped_under_interleaving:
  assumes "steps mode re w w'" "inflight w = []" "store_ok (store w)"
    "user_mode (store w) = mode_string mode" "0 < cap"
    "list_all (\<lambda>(i, n). i = challenge \<longrightarrow> n = cap) (caps (store w))"
    "\<forall>acct. int (wrong_answers (store w) challenge acct) \<le> cap"
  shows "int (wrong_answers (store w') challenge acct) \<le> cap \<and> store_ok (store w')"
proof -
  have "cap_inv mode challenge cap w" using assms(2-7) by (simp add: cap_inv_def)
  with assms(1) have "cap_inv mode challenge cap w'"
    unfolding steps_def
    by (induction rule: rtranclp_induct) (auto intro: step_cap_inv [OF _ _ assms(5)])
  then have "int (wrong_answers (store w') challenge acct
      + length (filter (wrong_pending challenge acct) (inflight w'))) \<le> cap" "store_ok (store w')"
    by (simp_all add: cap_inv_def)
  then show ?thesis by simp
qed

text \<open>Two overlapping guesses of one player on the sample's first challenge.\<close>

definition sample_world :: world where
  "sample_world = \<lparr>store = sample_db, inflight = []\<rparr>"

lemma attempts_capped_under_interleaving_witness:
  "\<exists>w. steps ModeUsers no_regex sample_world w \<and> length (inflight w) = 2
    \<and> int (wrong_answers (store w) 1 7) \<le> 3"
proof -
  let ?f = "\<lparr>fl_input = attempt 1 7 ''nope'', fl_acct = 7, fl_ch = sample_challenge 1, fl_match = None\<rparr>"
  have o: "submit_open ModeUsers sample_db (attempt 1 7 ''nope'') = Inr (7, sample_challenge 1)"
    by code_simp
  have "step ModeUsers no_regex sample_world (sample_world\<lparr>inflight := [?f]\<rparr>)"
    using step.Open [of ModeUsers sample_world "attempt 1 7 ''nope''" 7 "sample_challenge 1" no_regex] o
    by (simp add: sample_world_def)
  moreover have "step ModeUsers no_regex (sample_world\<lparr>inflight := [?f]\<rparr>) (sample_world\<lparr>inflight := [?f, ?f]\<rparr>)"
    using step.Open [of ModeUsers "sample_world\<lparr>inflight := [?f]\<rparr>" "attempt 1 7 ''nope''" 7
        "sample_challenge 1" no_regex] o
    by (simp add: sample_world_def)
  ultimately have s: "steps ModeUsers no_regex sample_world (sample_world\<lparr>inflight := [?f, ?f]\<rparr>)"
    unfolding steps_def by (meson rtranclp.rtrancl_into_rtrancl rtranclp.rtrancl_refl)
  have "int (wrong_answers (store (sample_world\<lparr>inflight := [?f, ?f]\<rparr>)) 1 7) \<le> 3"
  proof (rule attempts_capped_under_interleaving [OF s, THEN conjunct1])
    show "list_all (\<lambda>(i, n). i = 1 \<longrightarrow> n = 3) (caps (store sample_world))"
      by (simp add: sample_world_def caps_def sample_store_defs)
    show "user_mode (store sample_world) = mode_string ModeUsers" by code_simp
    show "\<forall>acct. int (wrong_answers (store sample_world) 1 acct) \<le> 3"
      by (simp add: sample_world_def wrong_answers_def sample_db_def)
  qed (simp_all add: sample_world_def sample_store_ok)
  then show ?thesis using s by (intro exI [of _ "sample_world\<lparr>inflight := [?f, ?f]\<rparr>"]) simp
qed

end
