(* ===== verification/Credentials.thy ===== *)
theory Credentials
  imports Flags
begin

section \<open>Passwords and secrets (internal/accounts/password.go, credentials.go)\<close>

text \<open>
  The stored form of a password, its verification in either format, and the secrets a caller
  presents. The key derivation functions of \<open>golang.org/x/crypto\<close>, the number of processors and
  the database's \<open>lower\<close> are the fields of \<open>env\<close>, an argument of everything that uses them; the
  bytes an operation draws from \<open>crypto/rand\<close> are an argument of it, \<open>None\<close> where the read fails.
\<close>

record env =
  argon2_key :: "string \<Rightarrow> string \<Rightarrow> int \<Rightarrow> int \<Rightarrow> int \<Rightarrow> nat \<Rightarrow> string"
  argon2_version :: int
  bcrypt_ok :: "string \<Rightarrow> string \<Rightarrow> bool"
  num_cpu :: nat
  lower_text :: "string \<Rightarrow> string"

type_synonym random = "string option"

subsection \<open>The encodings: base64.RawStdEncoding and hex\<close>

definition b64_alphabet :: string where
  "b64_alphabet = ''ABCDEFGHIJKLMNOPQRSTUVWXYZabcdefghijklmnopqrstuvwxyz0123456789+/''"

fun sextets :: "nat list \<Rightarrow> nat list" where
  "sextets [] = []"
| "sextets [a] = [a div 4, (a mod 4) * 16]"
| "sextets [a, b] = [a div 4, (a mod 4) * 16 + b div 16, (b mod 16) * 4]"
| "sextets (a # b # c # bs) =
    a div 4 # ((a mod 4) * 16 + b div 16) # ((b mod 16) * 4 + c div 64) # c mod 64 # sextets bs"

text \<open>A group of one sextet is corrupt; the unused low bits of a short group are ignored.\<close>

fun octets :: "nat list \<Rightarrow> nat list option" where
  "octets [] = Some []"
| "octets [p] = None"
| "octets [p, q] = Some [p * 4 + q div 16]"
| "octets [p, q, r] = Some [p * 4 + q div 16, (q mod 16) * 16 + r div 4]"
| "octets (p # q # r # s # xs) =
    map_option (\<lambda>bs. (p * 4 + q div 16) # ((q mod 16) * 16 + r div 4) # ((r mod 4) * 64 + s) # bs)
      (octets xs)"

fun sextet_values :: "string \<Rightarrow> nat list option" where
  "sextet_values [] = Some []"
| "sextet_values (c # cs) =
    (case map_of (zip b64_alphabet [0..<64]) c of
       None \<Rightarrow> None
     | Some v \<Rightarrow> map_option ((#) v) (sextet_values cs))"

definition b64_encode :: "string \<Rightarrow> string" where
  "b64_encode s = map (\<lambda>n. b64_alphabet ! n) (sextets (map byte s))"

definition b64_decode :: "string \<Rightarrow> string option" where
  "b64_decode s =
    (case sextet_values (filter (\<lambda>c. c \<noteq> CHR 0x0A \<and> c \<noteq> CHR 0x0D) s) of
       None \<Rightarrow> None
     | Some vs \<Rightarrow> map_option (map char_of) (octets vs))"

definition hex_digit :: "nat \<Rightarrow> char" where
  "hex_digit n = ''0123456789abcdef'' ! n"

definition hex_encode :: "string \<Rightarrow> string" where
  "hex_encode s = concat (map (\<lambda>c. [hex_digit (byte c div 16), hex_digit (byte c mod 16)]) s)"

subsection \<open>Scanning numbers: fmt.Sscanf with \<open>%d\<close>\<close>

text \<open>
  The verb skips blanks but not a line feed, accepts a sign where the target is signed, needs a
  digit, and fails where the number does not fit the target. What follows the last verb is not
  looked at.
\<close>

definition scan_blanks :: "string \<Rightarrow> string option" where
  "scan_blanks s =
    (let r = trim_left s in
     if List.member (take (length s - length r) s) CHR 0x0A then None else Some r)"

definition nat_of_digits :: "string \<Rightarrow> nat" where
  "nat_of_digits ds = foldl (\<lambda>n c. 10 * n + (byte c - 48)) 0 ds"

definition scan_uint :: "nat \<Rightarrow> string \<Rightarrow> (int \<times> string) option" where
  "scan_uint bits s =
    (case scan_blanks s of
       None \<Rightarrow> None
     | Some r \<Rightarrow>
         let ds = takeWhile is_digit r; n = nat_of_digits ds in
         if ds = [] \<or> 2 ^ bits \<le> n then None else Some (int n, dropWhile is_digit r))"

definition scan_sign :: "string \<Rightarrow> int \<times> string" where
  "scan_sign s =
    (case s of
       c # cs \<Rightarrow> if c = CHR ''-'' then (-1, cs) else if c = CHR ''+'' then (1, cs) else (1, s)
     | [] \<Rightarrow> (1, s))"

definition scan_int :: "string \<Rightarrow> (int \<times> string) option" where
  "scan_int s =
    (case scan_blanks s of
       None \<Rightarrow> None
     | Some r0 \<Rightarrow>
         let (sg, r) = scan_sign r0;
             ds = takeWhile is_digit r;
             v = sg * int (nat_of_digits ds)
         in if ds = [] \<or> \<not> in_i64 v then None else Some (v, dropWhile is_digit r))"

definition scan_literal :: "string \<Rightarrow> string \<Rightarrow> string option" where
  "scan_literal lit s = (if prefix lit s then Some (drop (length lit) s) else None)"

subsection \<open>Argon2id strings\<close>

definition argon_time :: int where "argon_time = 3"
definition argon_memory :: int where "argon_memory = 65536"
definition argon_key_len :: nat where "argon_key_len = 32"
definition argon_salt_len :: nat where "argon_salt_len = 16"

definition argon_threads :: "env \<Rightarrow> int" where
  "argon_threads env = (if num_cpu env < 4 then int (num_cpu env) else 4)"

datatype hash_error =
  EmptyPassword | RandomFailed | NotArgon2id | BadVersion | UnsupportedVersion int
| BadParams | BadSalt | BadKey | EmptySaltOrKey

record argonParams =
  ap_memory :: int
  ap_time :: int
  ap_threads :: int

definition phc_string :: "env \<Rightarrow> string \<Rightarrow> string \<Rightarrow> string" where
  "phc_string env salt key =
    ''$argon2id$v='' @ decimal (argon2_version env) @ ''$m='' @ decimal argon_memory @ '',t=''
    @ decimal argon_time @ '',p='' @ decimal (argon_threads env) @ ''$'' @ b64_encode salt @ ''$''
    @ b64_encode key"

definition hash_password :: "env \<Rightarrow> random \<Rightarrow> string \<Rightarrow> (hash_error, string) result" where
  "hash_password env rnd password =
    (if password = '''' then Inl EmptyPassword
     else
       (case rnd of
          None \<Rightarrow> Inl RandomFailed
        | Some salt \<Rightarrow>
            Inr (phc_string env salt
              (argon2_key env password salt argon_time argon_memory (argon_threads env) argon_key_len))))"

definition locked_hash :: "env \<Rightarrow> random \<Rightarrow> random \<Rightarrow> (hash_error, string) result" where
  "locked_hash env secret salt =
    (case secret of
       None \<Rightarrow> Inl RandomFailed
     | Some s \<Rightarrow> hash_password env salt (b64_encode s))"

definition scan_params :: "string \<Rightarrow> argonParams option" where
  "scan_params s =
    Option.bind (scan_literal ''m='' s) (\<lambda>s0.
    Option.bind (scan_uint 32 s0) (\<lambda>(m, s1).
    Option.bind (scan_literal '',t='' s1) (\<lambda>s2.
    Option.bind (scan_uint 32 s2) (\<lambda>(t, s3).
    Option.bind (scan_literal '',p='' s3) (\<lambda>s4.
    Option.bind (scan_uint 8 s4) (\<lambda>(p, _).
      Some \<lparr>ap_memory = m, ap_time = t, ap_threads = p\<rparr>))))))"

definition parse_phc ::
  "env \<Rightarrow> string \<Rightarrow> (hash_error, argonParams \<times> string \<times> string) result" where
  "parse_phc env s =
    (case split_on CHR ''$'' s of
       [_, alg, ver, ps, salt, key] \<Rightarrow>
         if alg \<noteq> ''argon2id'' then Inl NotArgon2id
         else
           (case Option.bind (scan_literal ''v='' ver) scan_int of
              None \<Rightarrow> Inl BadVersion
            | Some (v, _) \<Rightarrow>
                if v \<noteq> argon2_version env then Inl (UnsupportedVersion v)
                else
                  (case scan_params ps of
                     None \<Rightarrow> Inl BadParams
                   | Some p \<Rightarrow>
                       (case b64_decode salt of
                          None \<Rightarrow> Inl BadSalt
                        | Some sa \<Rightarrow>
                            (case b64_decode key of
                               None \<Rightarrow> Inl BadKey
                             | Some k \<Rightarrow>
                                 if length sa = 0 \<or> length k = 0 then Inl EmptySaltOrKey
                                 else Inr (p, sa, k)))))
     | _ \<Rightarrow> Inl NotArgon2id)"

definition verify_argon2id :: "env \<Rightarrow> string \<Rightarrow> string \<Rightarrow> bool" where
  "verify_argon2id env stored password =
    (case parse_phc env stored of
       Inl _ \<Rightarrow> False
     | Inr (p, salt, want) \<Rightarrow>
         constant_time_compare
           (argon2_key env password salt (ap_time p) (ap_memory p) (ap_threads p) (length want))
           want = 1)"

definition argon_params_stale :: "env \<Rightarrow> string \<Rightarrow> bool" where
  "argon_params_stale env stored =
    (case parse_phc env stored of
       Inl _ \<Rightarrow> False
     | Inr (p, _) \<Rightarrow>
         ap_memory p \<noteq> argon_memory \<or> ap_time p \<noteq> argon_time \<or> ap_threads p \<noteq> argon_threads env)"

text \<open>The answer and whether the stored hash should be replaced.\<close>

definition verify :: "env \<Rightarrow> string \<Rightarrow> string \<Rightarrow> bool \<times> bool" where
  "verify env stored password =
    (if prefix ''$argon2id$'' stored then
       (let ok = verify_argon2id env stored password in (ok, ok \<and> argon_params_stale env stored))
     else if prefix ''$2a$'' stored \<or> prefix ''$2b$'' stored \<or> prefix ''$2y$'' stored then
       (bcrypt_ok env stored password, bcrypt_ok env stored password)
     else (False, False))"

subsection \<open>Presented secrets\<close>

definition token_prefix :: string where "token_prefix = ''flagfish_''"
definition session_cookie :: string where "session_cookie = ''flagfish_session''"

definition digest_of :: "string \<Rightarrow> string" where
  "digest_of secret = sha256 secret"

definition new_secret :: "random \<Rightarrow> (hash_error, string \<times> string) result" where
  "new_secret rnd =
    (case rnd of
       None \<Rightarrow> Inl RandomFailed
     | Some b \<Rightarrow> Inr (hex_encode b, sha256 (hex_encode b)))"

definition new_api_token :: "random \<Rightarrow> (hash_error, string \<times> string) result" where
  "new_api_token rnd =
    (case rnd of
       None \<Rightarrow> Inl RandomFailed
     | Some b \<Rightarrow> let token = token_prefix @ hex_encode b in Inr (token, digest_of token))"

text \<open>\<open>strings.Cut\<close> at the first blank; the scheme is compared without regard to case.\<close>

definition bearer_token :: "string \<Rightarrow> string option" where
  "bearer_token header =
    (if \<not> List.member header CHR '' '' then None
     else
       let scheme = takeWhile (\<lambda>c. c \<noteq> CHR '' '') header;
           tok = trim_space (drop (length scheme + 1) header)
       in if map fold_byte scheme \<noteq> map fold_byte ''Bearer'' then None
          else if tok = '''' \<or> \<not> prefix token_prefix tok then None
          else Some tok)"

text \<open>A nil byte slice and an empty one are the same to every use of the fingerprint.\<close>

definition pw_fingerprint :: "string option \<Rightarrow> string" where
  "pw_fingerprint h = (case h of None \<Rightarrow> '''' | Some s \<Rightarrow> sha256 s)"

definition check_csrf :: "string \<Rightarrow> string \<Rightarrow> bool" where
  "check_csrf presented expected =
    (if presented = '''' \<or> expected = '''' then False
     else constant_time_compare presented expected = 1)"

subsection \<open>Encoding and decoding are inverse\<close>

text \<open>Quotients and remainders of one full group.\<close>

lemma div_below: "b < 256 \<Longrightarrow> b div 16 < (16::nat)" "c < 256 \<Longrightarrow> c div 64 < (4::nat)"
  "a < 256 \<Longrightarrow> a div 4 < (64::nat)"
  by (simp_all add: less_mult_imp_div_less)

lemma pack_div: "x < k \<Longrightarrow> (y * k + x) div k = (y::nat)" and pack_mod: "x < k \<Longrightarrow> (y * k + x) mod k = (x::nat)"
  by simp_all

lemma octets_sextets: "list_all (\<lambda>b. b < 256) bs \<Longrightarrow> octets (sextets bs) = Some bs"
proof (induction bs rule: sextets.induct)
  case (4 a b c bs)
  have "(a mod 4 * 16 + b div 16) div 16 = a mod 4" "(a mod 4 * 16 + b div 16) mod 16 = b div 16"
    "(b mod 16 * 4 + c div 64) div 4 = b mod 16" "(b mod 16 * 4 + c div 64) mod 4 = c div 64"
    using 4(2) by (simp_all only: list.pred_inject pack_div pack_mod div_below)
  then show ?case using 4 by simp
next
  case (3 a b)
  have "(a mod 4 * 16 + b div 16) div 16 = a mod 4" "(a mod 4 * 16 + b div 16) mod 16 = b div 16"
    using 3 by (simp_all only: list.pred_inject pack_div pack_mod div_below)
  then show ?case by simp
qed simp_all

lemma sextets_range: "list_all (\<lambda>b. b < 256) bs \<Longrightarrow> list_all (\<lambda>v. v < 64) (sextets bs)"
proof (induction bs rule: sextets.induct)
  case (4 a b c bs)
  have "a mod 4 < 4" "b mod 16 < 16" "c mod 64 < 64" by simp_all
  moreover have "a div 4 < 64" "b div 16 < 16" "c div 64 < 4" using 4(2) by (simp_all add: div_below)
  ultimately have "a mod 4 * 16 + b div 16 < 64" "b mod 16 * 4 + c div 64 < 64" by linarith+
  then show ?case using 4 \<open>a div 4 < 64\<close> by simp
next
  case (3 a b)
  have "a mod 4 < 4" "b mod 16 < 16" by simp_all
  moreover have "b div 16 < 16" using 3 by (simp add: div_below)
  ultimately have "a mod 4 * 16 + b div 16 < 64" "b mod 16 * 4 < 64" by linarith+
  then show ?case using 3 by (simp add: div_below)
next
  case (2 a)
  have "a mod 4 < 4" by simp
  then have "a mod 4 * 16 < 64" by linarith
  then show ?case using 2 by (simp add: div_below)
qed simp

lemma alphabet_length [simp]: "length b64_alphabet = 64"
  by (simp add: b64_alphabet_def)

lemma alphabet_distinct: "distinct b64_alphabet"
  by (simp add: b64_alphabet_def)

lemma alphabet_plain:
  "list_all (\<lambda>c. c \<noteq> CHR ''$'' \<and> c \<noteq> CHR 0x0A \<and> c \<noteq> CHR 0x0D) b64_alphabet"
  by (simp add: b64_alphabet_def)

lemma alphabet_index: "v < 64 \<Longrightarrow> map_of (zip b64_alphabet [0..<64]) (b64_alphabet ! v) = Some v"
  using map_of_zip_nth [OF _ alphabet_distinct, of "[0..<64]" v] by simp

lemma sextet_values_map:
  "list_all (\<lambda>v. v < 64) vs \<Longrightarrow> sextet_values (map ((!) b64_alphabet) vs) = Some vs"
  by (induction vs) (simp_all add: alphabet_index)

lemma bytes_range: "list_all (\<lambda>b. b < 256) (map byte s)"
  by (simp add: list_all_iff byte_lt)

lemma char_of_byte [simp]: "char_of (byte c) = c"
  by (simp add: byte_def)

lemma b64_encode_plain:
  assumes "c \<in> set (b64_encode s)"
  shows "c \<noteq> CHR ''$'' \<and> c \<noteq> CHR 0x0A \<and> c \<noteq> CHR 0x0D"
proof -
  obtain v where "v \<in> set (sextets (map byte s))" "c = b64_alphabet ! v"
    using assms by (auto simp: b64_encode_def)
  moreover have "v < 64"
    using sextets_range [OF bytes_range [of s]] calculation by (simp add: list_all_iff)
  ultimately have "c \<in> set b64_alphabet" by simp
  then show ?thesis using alphabet_plain unfolding list_all_iff by blast
qed

lemma b64_roundtrip [simp]: "b64_decode (b64_encode s) = Some s"
proof -
  have "filter (\<lambda>c. c \<noteq> CHR 0x0A \<and> c \<noteq> CHR 0x0D) (b64_encode s) = b64_encode s"
    using b64_encode_plain [of _ s] by (auto intro!: filter_True)
  then have "b64_decode (b64_encode s) = map_option (map char_of) (octets (sextets (map byte s)))"
    using sextet_values_map [OF sextets_range [OF bytes_range [of s]]]
    by (simp add: b64_decode_def b64_encode_def)
  then show ?thesis by (simp add: octets_sextets [OF bytes_range] o_def)
qed

lemma digit_char: "d < 10 \<Longrightarrow> is_digit (char_of (48 + d :: nat)) \<and> byte (char_of (48 + d :: nat)) - 48 = d"
  by (simp add: is_digit_def byte_in_def byte_def)

lemma nat_of_digits_snoc: "nat_of_digits (ds @ [c]) = 10 * nat_of_digits ds + (byte c - 48)"
  by (simp add: nat_of_digits_def)

lemma digits_of_facts: "nat_of_digits (digits_of n) = n \<and> list_all is_digit (digits_of n) \<and> digits_of n \<noteq> []"
proof (induction n rule: digits_of.induct)
  case (1 n)
  show ?case
  proof (cases "n < 10")
    case True
    then have "digits_of n = [] @ [char_of (48 + n)]" by (subst digits_of.simps) simp
    then show ?thesis using digit_char [OF True] by (simp add: nat_of_digits_snoc) (simp add: nat_of_digits_def)
  next
    case False
    then have "digits_of n = digits_of (n div 10) @ [char_of (48 + n mod 10)]"
      by (subst digits_of.simps) simp
    moreover have "10 * (n div 10) + n mod 10 = n" by presburger
    ultimately show ?thesis
      using 1 [OF False] digit_char [of "n mod 10"] by (simp add: nat_of_digits_snoc)
  qed
qed

lemma digits_take:
  assumes "rest = [] \<or> \<not> is_digit (hd rest)"
  shows "takeWhile is_digit (digits_of n @ rest) = digits_of n"
    "dropWhile is_digit (digits_of n @ rest) = rest"
  using assms digits_of_facts [of n]
  by (cases rest; simp add: list_all_iff takeWhile_append2 dropWhile_append2)+

lemma no_space_digit: "list_all (\<lambda>e. e \<noteq> [] \<and> \<not> is_digit (hd e)) spaces"
  by (simp add: spaces_def is_digit_def byte_in_def byte_def)

lemma scan_blanks_digit: "s \<noteq> [] \<Longrightarrow> is_digit (hd s) \<Longrightarrow> scan_blanks s = Some s"
proof -
  assume s: "s \<noteq> []" "is_digit (hd s)"
  then have "\<not> starts_with_any spaces s"
    using no_space_digit by (fastforce simp: starts_with_any_def list_all_iff prefix_def)
  then show ?thesis by (simp add: scan_blanks_def trim_left_def strip_front_stop)
qed

lemma scan_blanks_digits: "scan_blanks (digits_of n @ rest) = Some (digits_of n @ rest)"
  using digits_of_facts [of n] by (intro scan_blanks_digit) (cases "digits_of n"; simp)+

lemma scan_uint_decimal:
  assumes "0 \<le> n" "n < 2 ^ bits" "rest = [] \<or> \<not> is_digit (hd rest)"
  shows "scan_uint bits (decimal n @ rest) = Some (n, rest)"
proof -
  have "nat n < 2 ^ bits" using assms(1,2) by (simp add: nat_less_iff)
  then show ?thesis
    using assms(1) digits_take [OF assms(3), of "nat n"] digits_of_facts [of "nat n"]
    by (simp add: scan_uint_def decimal_def scan_blanks_digits Let_def)
qed

lemma scan_int_decimal:
  assumes "0 \<le> n" "in_i64 n" "rest = [] \<or> \<not> is_digit (hd rest)"
  shows "scan_int (decimal n @ rest) = Some (n, rest)"
proof -
  obtain c cs where ds: "digits_of (nat n) = c # cs" "is_digit c"
    using digits_of_facts [of "nat n"] by (cases "digits_of (nat n)") auto
  have "c \<noteq> CHR ''-''" "c \<noteq> CHR ''+''"
    using ds(2) by (auto simp: is_digit_def byte_in_def byte_def)
  then have "scan_sign (digits_of (nat n) @ rest) = (1, digits_of (nat n) @ rest)"
    by (simp add: scan_sign_def ds)
  then show ?thesis
    using assms(1,2) digits_take [OF assms(3), of "nat n"] digits_of_facts [of "nat n"]
    by (simp add: scan_int_def decimal_def scan_blanks_digits Let_def)
qed

lemma scan_literal_append [simp]: "scan_literal lit (lit @ s) = Some s"
  by (simp add: scan_literal_def)

lemma split_on_append: "sep \<notin> set p \<Longrightarrow> split_on sep (p @ sep # q) = p # split_on sep q"
  by (induction p) auto

lemma split_on_plain: "sep \<notin> set p \<Longrightarrow> split_on sep p = [p]"
  by (induction p) auto

lemma decimal_plain: "0 \<le> n \<Longrightarrow> CHR ''$'' \<notin> set (decimal n)"
  using digits_of_facts [of "nat n"]
  by (auto simp: decimal_def list_all_iff is_digit_def byte_in_def byte_def)

subsection \<open>What is minted verifies\<close>

text \<open>The environments the code runs in: the documented shape of the library's results.\<close>

definition env_ok :: "env \<Rightarrow> bool" where
  "env_ok env \<longleftrightarrow> 0 \<le> argon2_version env \<and> in_i64 (argon2_version env) \<and> 0 < num_cpu env
    \<and> (\<forall>pw salt t m p n. length (argon2_key env pw salt t m p n) = n)"

lemma argon_threads_range: "0 < num_cpu env \<Longrightarrow> 0 < argon_threads env \<and> argon_threads env \<le> 4"
  by (auto simp: argon_threads_def)

lemma scan_params_minted:
  assumes "0 < num_cpu env"
  shows "scan_params (''m='' @ decimal argon_memory @ '',t='' @ decimal argon_time @ '',p=''
      @ decimal (argon_threads env))
    = Some \<lparr>ap_memory = argon_memory, ap_time = argon_time, ap_threads = argon_threads env\<rparr>"
proof -
  have comma: "\<not> is_digit CHR '',''" by (simp add: is_digit_def byte_in_def byte_def)
  have m: "scan_uint 32 (decimal argon_memory @ '',t='' @ r) = Some (argon_memory, '',t='' @ r)" for r
    by (rule scan_uint_decimal) (simp_all add: argon_memory_def comma)
  have t: "scan_uint 32 (decimal argon_time @ '',p='' @ r) = Some (argon_time, '',p='' @ r)" for r
    by (rule scan_uint_decimal) (simp_all add: argon_time_def comma)
  have p: "scan_uint 8 (decimal (argon_threads env)) = Some (argon_threads env, [])"
    using scan_uint_decimal [of "argon_threads env" 8 "[]"] argon_threads_range [OF assms] by simp
  show ?thesis
    unfolding scan_params_def
    by (simp only: scan_literal_append Option.bind.simps m t p split_conv)
qed

lemma parse_phc_minted:
  assumes "env_ok env" "salt \<noteq> []" "key \<noteq> []"
  shows "parse_phc env (phc_string env salt key)
    = Inr (\<lparr>ap_memory = argon_memory, ap_time = argon_time, ap_threads = argon_threads env\<rparr>, salt, key)"
proof -
  let ?ver = "''v='' @ decimal (argon2_version env)"
  let ?ps = "''m='' @ decimal argon_memory @ '',t='' @ decimal argon_time @ '',p=''
    @ decimal (argon_threads env)"
  have cpu: "0 < num_cpu env" and v: "0 \<le> argon2_version env" "in_i64 (argon2_version env)"
    using assms(1) by (auto simp: env_ok_def)
  have plain0: "CHR ''$'' \<notin> set []" "CHR ''$'' \<notin> set ''argon2id''" by simp_all
  have plain: "CHR ''$'' \<notin> set ?ver" "CHR ''$'' \<notin> set ?ps"
    "CHR ''$'' \<notin> set (b64_encode salt)" "CHR ''$'' \<notin> set (b64_encode key)"
    using decimal_plain v argon_threads_range [OF cpu] b64_encode_plain
    by (auto simp: argon_memory_def argon_time_def)
  have "phc_string env salt key
      = [] @ CHR ''$'' # ''argon2id'' @ CHR ''$'' # ?ver @ CHR ''$'' # ?ps
        @ CHR ''$'' # b64_encode salt @ CHR ''$'' # b64_encode key"
    by (simp add: phc_string_def)
  moreover have "split_on CHR ''$'' \<dots> = [[], ''argon2id'', ?ver, ?ps, b64_encode salt, b64_encode key]"
    by (simp only: split_on_append [OF plain0(1)] split_on_append [OF plain0(2)]
        split_on_append [OF plain(1)] split_on_append [OF plain(2)] split_on_append [OF plain(3)]
        split_on_plain [OF plain(4)])
  ultimately have parts: "split_on CHR ''$'' (phc_string env salt key)
      = [[], ''argon2id'', ?ver, ?ps, b64_encode salt, b64_encode key]"
    by simp
  have "scan_int (decimal (argon2_version env)) = Some (argon2_version env, [])"
    using scan_int_decimal [of "argon2_version env" "[]"] v by simp
  then have ver: "Option.bind (scan_literal ''v='' ?ver) scan_int = Some (argon2_version env, [])"
    by (simp only: scan_literal_append Option.bind.simps)
  show ?thesis
    unfolding parse_phc_def parts list.case ver scan_params_minted [OF cpu] option.case split_conv
    using assms(2,3) by simp
qed

text \<open>
  C35: A minted hash is its password's own. Whatever salt is drawn, the string \<open>Hash\<close> stores parses
  back to the parameters, salt and key it was minted from; \<open>Verify\<close> accepts exactly the passwords
  that derive the same key, the right one among them,
  and never asks for a rehash of what was just minted.
\<close>
theorem minted_hash_verifies:
  assumes "env_ok env" "length salt = argon_salt_len" "hash_password env (Some salt) pw = Inr h"
  shows "verify env h guess =
      (argon2_key env guess salt argon_time argon_memory (argon_threads env) argon_key_len
        = argon2_key env pw salt argon_time argon_memory (argon_threads env) argon_key_len, False)
    \<and> fst (verify env h pw)"
proof -
  let ?key = "\<lambda>p. argon2_key env p salt argon_time argon_memory (argon_threads env) argon_key_len"
  have h: "h = phc_string env salt (?key pw)" using assms(3) by (simp add: hash_password_def split: if_splits)
  have len: "length (?key pw) = argon_key_len" using assms(1) by (simp add: env_ok_def)
  then have ne: "?key pw \<noteq> []" "salt \<noteq> []" using assms(2) by (auto simp: argon_key_len_def argon_salt_len_def)
  have parse: "parse_phc env h
      = Inr (\<lparr>ap_memory = argon_memory, ap_time = argon_time, ap_threads = argon_threads env\<rparr>, salt, ?key pw)"
    using parse_phc_minted [OF assms(1) ne(2,1)] by (simp add: h)
  have "prefix ''$argon2id$'' h" by (simp add: h phc_string_def)
  then have v: "verify env h guess = (?key guess = ?key pw, False)" for guess
    by (simp add: verify_def verify_argon2id_def argon_params_stale_def parse len constant_time_compare_eq
        Let_def)
  show ?thesis by (simp add: v)
qed

text \<open>An environment whose key derivation concatenates and truncates.\<close>

definition sample_env :: env where
  "sample_env =
    \<lparr>argon2_key = (\<lambda>pw salt t m p n. take n (pw @ salt @ replicate n CHR ''.'')), argon2_version = 19,
     bcrypt_ok = (\<lambda>h pw. h = ''$2b$'' @ pw), num_cpu = 8, lower_text = map fold_byte\<rparr>"

lemma sample_env_ok: "env_ok sample_env"
  by (auto simp: env_ok_def sample_env_def min_def)

lemma minted_hash_verifies_witness:
  "\<exists>h. hash_password sample_env (Some (replicate 16 CHR ''s'')) ''pw'' = Inr h
    \<and> verify sample_env h ''pw'' = (True, False) \<and> verify sample_env h ''px'' = (False, False)"
proof -
  obtain h where h: "hash_password sample_env (Some (replicate 16 CHR ''s'')) ''pw'' = Inr h"
    by (simp add: hash_password_def)
  have len: "length (replicate 16 CHR ''s'') = argon_salt_len" by (simp add: argon_salt_len_def)
  show ?thesis
    using h minted_hash_verifies [OF sample_env_ok len h, of "''pw''"]
      minted_hash_verifies [OF sample_env_ok len h, of "''px''"]
    by (simp add: sample_env_def argon_key_len_def)
qed

end
