(* ===== verification/Directory.thy ===== *)
theory Directory
  imports Credentials Input_Rules Store Decide
begin

section \<open>The directory: accounts, teams and credentials (internal/db)\<close>

text \<open>
  The tables the accounts service and the organizers' account operations work on, and the queries
  of \<open>auth.sql\<close>, \<open>email_tokens.sql\<close>, \<open>fields.sql\<close> and \<open>teams.sql\<close> on them, with the unique indexes,
  the foreign keys and the caps trigger they run into. The game tables are the field \<open>ledger\<close>, a
  store of the theory \<open>Store\<close>. A violated constraint is an error that names it, as \<open>pgconn.PgError\<close>
  does; creation times and the audit log are left out.
\<close>

subsection \<open>Rows\<close>

record UserRow =
  us_id :: id
  us_name :: string
  us_email :: string
  us_pending :: "string option"
  us_password :: "string option"
  us_role :: string
  us_verified :: bool
  us_banned :: bool
  us_hidden :: bool
  us_must_change :: bool
  us_team :: "id option"
  us_bracket :: "id option"
  us_website :: "string option"
  us_affiliation :: "string option"
  us_country :: "string option"
  us_language :: "string option"

record TeamRow =
  tm_id :: id
  tm_name :: string
  tm_email :: "string option"
  tm_password :: string
  tm_website :: "string option"
  tm_affiliation :: "string option"
  tm_country :: "string option"
  tm_bracket :: "id option"
  tm_captain :: "id option"
  tm_hidden :: bool
  tm_banned :: bool

record SessionRow =
  se_hash :: string
  se_user :: id
  se_fingerprint :: string
  se_csrf :: string
  se_expires :: time

record TokenRow =
  tk_id :: id
  tk_hash :: string
  tk_user :: id
  tk_description :: "string option"
  tk_created :: time
  tk_expires :: time

record EmailTokenRow =
  et_hash :: string
  et_purpose :: string
  et_user :: id
  et_expires :: time
  et_consumed :: "time option"

record FieldRow =
  fd_id :: id
  fd_name :: string
  fd_applies_to :: string
  fd_type :: string
  fd_description :: "string option"
  fd_required :: bool
  fd_public :: bool
  fd_editable :: bool
  fd_position :: int

record EntryRow =
  fe_field :: id
  fe_user :: "id option"
  fe_team :: "id option"
  fe_value :: raw

record BracketRow =
  bk_id :: id
  bk_name :: string
  bk_description :: "string option"
  bk_applies_to :: string

record Mail =
  ma_to :: string
  ma_subject :: string
  ma_body :: string

record directory =
  instance_mode :: "string option"
  setup_complete :: bool
  num_users_cap :: "int option"
  num_teams_cap :: "int option"
  team_size_cap :: "int option"
  people :: "UserRow list"
  rosters :: "TeamRow list"
  sessions :: "SessionRow list"
  tokens :: "TokenRow list"
  email_tokens :: "EmailTokenRow list"
  form_fields :: "FieldRow list"
  entries :: "EntryRow list"
  divisions :: "BracketRow list"
  outbox :: "Mail list"
  next_user :: id
  next_team :: id
  next_token :: id
  next_bracket :: id
  ledger :: db

subsection \<open>Lookups and updates by key\<close>

definition user_by_id :: "directory \<Rightarrow> id \<Rightarrow> UserRow option" where
  "user_by_id d i = find (\<lambda>u. us_id u = i) (people d)"

definition team_by_id :: "directory \<Rightarrow> id \<Rightarrow> TeamRow option" where
  "team_by_id d i = find (\<lambda>t. tm_id t = i) (rosters d)"

definition members_of :: "directory \<Rightarrow> id \<Rightarrow> UserRow list" where
  "members_of d t = filter (\<lambda>u. us_team u = Some t) (people d)"

definition map_users :: "(UserRow \<Rightarrow> bool) \<Rightarrow> (UserRow \<Rightarrow> UserRow) \<Rightarrow> directory \<Rightarrow> directory" where
  "map_users p f d = d\<lparr>people := map (\<lambda>u. if p u then f u else u) (people d)\<rparr>"

definition map_teams :: "(TeamRow \<Rightarrow> bool) \<Rightarrow> (TeamRow \<Rightarrow> TeamRow) \<Rightarrow> directory \<Rightarrow> directory" where
  "map_teams p f d = d\<lparr>rosters := map (\<lambda>t. if p t then f t else t) (rosters d)\<rparr>"

definition update_user :: "id \<Rightarrow> (UserRow \<Rightarrow> UserRow) \<Rightarrow> directory \<Rightarrow> directory" where
  "update_user i = map_users (\<lambda>u. us_id u = i)"

definition update_team :: "id \<Rightarrow> (TeamRow \<Rightarrow> TeamRow) \<Rightarrow> directory \<Rightarrow> directory" where
  "update_team i = map_teams (\<lambda>t. tm_id t = i)"

subsection \<open>Credentials: auth.sql\<close>

definition get_user_by_email :: "env \<Rightarrow> directory \<Rightarrow> string \<Rightarrow> UserRow option" where
  "get_user_by_email env d email =
    find (\<lambda>u. lower_text env (us_email u) = lower_text env email) (people d)"

text \<open>
  \<open>enforce_account_caps\<close>: a cap is in force when it is set and positive. How many users exist is
  asked on INSERT only, how many are on the team whenever the written row has one.
\<close>

definition cap_reached :: "int option \<Rightarrow> nat \<Rightarrow> bool" where
  "cap_reached cap n = (case cap of None \<Rightarrow> False | Some c \<Rightarrow> 0 < c \<and> c \<le> int n)"

definition users_full :: "directory \<Rightarrow> bool" where
  "users_full d =
    cap_reached (num_users_cap d) (length (filter (\<lambda>u. \<not> us_banned u \<and> \<not> us_hidden u) (people d)))"

definition teams_full :: "directory \<Rightarrow> bool" where
  "teams_full d =
    cap_reached (num_teams_cap d) (length (filter (\<lambda>t. \<not> tm_banned t \<and> \<not> tm_hidden t) (rosters d)))"

definition team_full :: "directory \<Rightarrow> id \<Rightarrow> bool" where
  "team_full d t = cap_reached (team_size_cap d) (length (members_of d t))"

definition new_user_row :: "id \<Rightarrow> string \<Rightarrow> string \<Rightarrow> string option \<Rightarrow> string \<Rightarrow> bool \<Rightarrow> UserRow" where
  "new_user_row i name email password role vfd =
    \<lparr>us_id = i, us_name = name, us_email = email, us_pending = None, us_password = password,
     us_role = role, us_verified = vfd, us_banned = False, us_hidden = False,
     us_must_change = False, us_team = None, us_bracket = None, us_website = None, us_affiliation = None,
     us_country = None, us_language = None\<rparr>"

definition insert_user ::
  "env \<Rightarrow> directory \<Rightarrow> string \<Rightarrow> string \<Rightarrow> string option \<Rightarrow> string \<Rightarrow> bool
    \<Rightarrow> (pg_error, id \<times> directory) result" where
  "insert_user env d name email password role vfd =
    (if get_user_by_email env d email \<noteq> None then Inl (PgUnique ''users_email_uniq'')
     else
       Inr (next_user d,
         d\<lparr>people := people d @ [new_user_row (next_user d) name email password role vfd],
           next_user := next_user d + 1\<rparr>))"

definition create_user ::
  "env \<Rightarrow> directory \<Rightarrow> string \<Rightarrow> string \<Rightarrow> string option \<Rightarrow> bool
    \<Rightarrow> (pg_error, id \<times> directory) result" where
  "create_user env d name email password vfd =
    (if users_full d then Inl (PgCheck ''users_caps'')
     else insert_user env d name email password ''user'' vfd)"

text \<open>The bootstrap runs with the trigger disabled.\<close>

definition create_admin_row ::
  "env \<Rightarrow> directory \<Rightarrow> string \<Rightarrow> string \<Rightarrow> string option \<Rightarrow> (pg_error, id \<times> directory) result" where
  "create_admin_row env d name email password = insert_user env d name email password ''admin'' True"

definition promote_to_admin_row :: "env \<Rightarrow> directory \<Rightarrow> string \<Rightarrow> int \<times> directory" where
  "promote_to_admin_row env d email =
    (let p = (\<lambda>u. lower_text env (us_email u) = lower_text env email) in
     (int (length (filter p (people d))),
      map_users p (\<lambda>u. u\<lparr>us_role := ''admin'', us_verified := True\<rparr>) d))"

definition update_password_hash :: "id \<Rightarrow> string \<Rightarrow> directory \<Rightarrow> directory" where
  "update_password_hash i h = update_user i (\<lambda>u. u\<lparr>us_password := Some h\<rparr>)"

definition update_password_and_clear_forced_change :: "id \<Rightarrow> string \<Rightarrow> directory \<Rightarrow> directory" where
  "update_password_and_clear_forced_change i h =
    update_user i (\<lambda>u. u\<lparr>us_password := Some h, us_must_change := False\<rparr>)"

definition create_session ::
  "directory \<Rightarrow> string \<Rightarrow> id \<Rightarrow> string \<Rightarrow> string \<Rightarrow> time \<Rightarrow> (pg_error, directory) result" where
  "create_session d hash user fingerprint csrf expires =
    (if list_ex (\<lambda>s. se_hash s = hash) (sessions d) then Inl (PgUnique ''sessions_pkey'')
     else if user_by_id d user = None then Inl (PgForeign ''sessions_user_id_fkey'')
     else Inr (d\<lparr>sessions := sessions d @
       [\<lparr>se_hash = hash, se_user = user, se_fingerprint = fingerprint, se_csrf = csrf,
         se_expires = expires\<rparr>]\<rparr>))"

text \<open>A live session with the password hash of its user.\<close>

definition get_session :: "directory \<Rightarrow> time \<Rightarrow> string \<Rightarrow> (SessionRow \<times> string option) option" where
  "get_session d now hash =
    (case find (\<lambda>s. se_hash s = hash \<and> now < se_expires s) (sessions d) of
       None \<Rightarrow> None
     | Some s \<Rightarrow> map_option (\<lambda>u. (s, us_password u)) (user_by_id d (se_user s)))"

definition delete_sessions :: "(SessionRow \<Rightarrow> bool) \<Rightarrow> directory \<Rightarrow> directory" where
  "delete_sessions p d = d\<lparr>sessions := filter (\<lambda>s. \<not> p s) (sessions d)\<rparr>"

definition delete_session :: "string \<Rightarrow> directory \<Rightarrow> directory" where
  "delete_session hash = delete_sessions (\<lambda>s. se_hash s = hash)"

definition delete_user_sessions :: "id \<Rightarrow> directory \<Rightarrow> directory" where
  "delete_user_sessions i = delete_sessions (\<lambda>s. se_user s = i)"

definition delete_team_sessions :: "id \<Rightarrow> directory \<Rightarrow> directory" where
  "delete_team_sessions t d =
    delete_sessions (\<lambda>s. List.member (map us_id (members_of d t)) (se_user s)) d"

definition create_api_token ::
  "directory \<Rightarrow> time \<Rightarrow> id \<Rightarrow> string \<Rightarrow> string option \<Rightarrow> time \<Rightarrow> (pg_error, TokenRow \<times> directory) result" where
  "create_api_token d now user hash description expires =
    (if list_ex (\<lambda>t. tk_hash t = hash) (tokens d) then Inl (PgUnique ''api_tokens_token_hash_key'')
     else if user_by_id d user = None then Inl (PgForeign ''api_tokens_user_id_fkey'')
     else
       let t = \<lparr>tk_id = next_token d, tk_hash = hash, tk_user = user, tk_description = description,
                tk_created = now, tk_expires = expires\<rparr>
       in Inr (t, d\<lparr>tokens := tokens d @ [t], next_token := next_token d + 1\<rparr>))"

definition get_api_token :: "directory \<Rightarrow> time \<Rightarrow> string \<Rightarrow> TokenRow option" where
  "get_api_token d now hash = find (\<lambda>t. tk_hash t = hash \<and> now < tk_expires t) (tokens d)"

text \<open>\<open>ORDER BY created_at DESC\<close>.\<close>

definition list_api_tokens :: "directory \<Rightarrow> id \<Rightarrow> TokenRow list" where
  "list_api_tokens d user = sort_key (\<lambda>t. - tk_created t) (filter (\<lambda>t. tk_user t = user) (tokens d))"

definition delete_tokens :: "(TokenRow \<Rightarrow> bool) \<Rightarrow> directory \<Rightarrow> int \<times> directory" where
  "delete_tokens p d =
    (int (length (filter p (tokens d))), d\<lparr>tokens := filter (\<lambda>t. \<not> p t) (tokens d)\<rparr>)"

definition delete_api_token :: "id \<Rightarrow> id \<Rightarrow> directory \<Rightarrow> int \<times> directory" where
  "delete_api_token i user = delete_tokens (\<lambda>t. tk_id t = i \<and> tk_user t = user)"

definition delete_user_api_tokens :: "id \<Rightarrow> directory \<Rightarrow> int \<times> directory" where
  "delete_user_api_tokens user = delete_tokens (\<lambda>t. tk_user t = user)"

definition set_pending_email ::
  "env \<Rightarrow> id \<Rightarrow> string \<Rightarrow> directory \<Rightarrow> (pg_error, directory) result" where
  "set_pending_email env i email d =
    (if user_by_id d i \<noteq> None
        \<and> list_ex (\<lambda>u. us_id u \<noteq> i
            \<and> map_option (lower_text env) (us_pending u) = Some (lower_text env email)) (people d)
     then Inl (PgUnique ''users_pending_email_uniq'')
     else Inr (update_user i (\<lambda>u. u\<lparr>us_pending := Some email\<rparr>) d))"

text \<open>\<open>None\<close> where no row has a pending address to promote.\<close>

definition confirm_email_change_row ::
  "env \<Rightarrow> id \<Rightarrow> directory \<Rightarrow> (pg_error, directory option) result" where
  "confirm_email_change_row env i d =
    (case Option.bind (user_by_id d i) us_pending of
       None \<Rightarrow> Inr None
     | Some email \<Rightarrow>
         if list_ex (\<lambda>u. us_id u \<noteq> i \<and> lower_text env (us_email u) = lower_text env email) (people d)
         then Inl (PgUnique ''users_email_uniq'')
         else Inr (Some (update_user i
                (\<lambda>u. u\<lparr>us_email := email, us_pending := None, us_verified := True\<rparr>) d)))"

text \<open>The self-serve writes: an absent argument keeps the value, the flag nulls it.\<close>

definition update_own_profile ::
  "id \<Rightarrow> (bool \<times> string option) \<Rightarrow> (bool \<times> string option) \<Rightarrow> (bool \<times> string option)
    \<Rightarrow> (bool \<times> string option) \<Rightarrow> directory \<Rightarrow> directory" where
  "update_own_profile i website affiliation country language =
    update_user i (\<lambda>u. u\<lparr>us_website := patched (fst website) (snd website) (us_website u),
      us_affiliation := patched (fst affiliation) (snd affiliation) (us_affiliation u),
      us_country := patched (fst country) (snd country) (us_country u),
      us_language := patched (fst language) (snd language) (us_language u)\<rparr>)"

definition update_user_name :: "id \<Rightarrow> string \<Rightarrow> directory \<Rightarrow> directory" where
  "update_user_name i name = update_user i (\<lambda>u. u\<lparr>us_name := name\<rparr>)"

subsection \<open>Email tokens: email_tokens.sql\<close>

definition create_email_token ::
  "directory \<Rightarrow> string \<Rightarrow> string \<Rightarrow> id \<Rightarrow> time \<Rightarrow> (pg_error, directory) result" where
  "create_email_token d hash purpose user expires =
    (if \<not> List.member [''verify'', ''reset'', ''email_change''] purpose
     then Inl (PgCheck ''email_tokens_purpose_check'')
     else if list_ex (\<lambda>t. et_hash t = hash) (email_tokens d)
     then Inl (PgUnique ''email_tokens_token_hash_key'')
     else if user_by_id d user = None then Inl (PgForeign ''email_tokens_user_id_fkey'')
     else Inr (d\<lparr>email_tokens := email_tokens d @
       [\<lparr>et_hash = hash, et_purpose = purpose, et_user = user, et_expires = expires,
         et_consumed = None\<rparr>]\<rparr>))"

definition spendable :: "time \<Rightarrow> string \<Rightarrow> string \<Rightarrow> EmailTokenRow \<Rightarrow> bool" where
  "spendable now hash purpose t \<longleftrightarrow>
    et_hash t = hash \<and> et_purpose t = purpose \<and> et_consumed t = None \<and> now < et_expires t"

definition consume_email_token ::
  "directory \<Rightarrow> time \<Rightarrow> string \<Rightarrow> string \<Rightarrow> (id \<times> directory) option" where
  "consume_email_token d now hash purpose =
    (case find (spendable now hash purpose) (email_tokens d) of
       None \<Rightarrow> None
     | Some t \<Rightarrow>
         Some (et_user t,
           d\<lparr>email_tokens := map (\<lambda>t. if spendable now hash purpose t then t\<lparr>et_consumed := Some now\<rparr> else t)
               (email_tokens d)\<rparr>))"

definition mark_user_verified :: "id \<Rightarrow> directory \<Rightarrow> directory" where
  "mark_user_verified i = update_user i (\<lambda>u. u\<lparr>us_verified := True\<rparr>)"

subsection \<open>Custom fields: fields.sql\<close>

definition list_user_field_defs :: "directory \<Rightarrow> FieldRow list" where
  "list_user_field_defs d =
    sort_key fd_position (sort_key fd_id (filter (\<lambda>f. fd_applies_to f = applies_user) (form_fields d)))"

definition user_entry :: "directory \<Rightarrow> id \<Rightarrow> id \<Rightarrow> raw" where
  "user_entry d field user =
    (case find (\<lambda>e. fe_field e = field \<and> fe_user e = Some user) (entries d) of
       None \<Rightarrow> RawEmpty | Some e \<Rightarrow> fe_value e)"

definition list_user_fields_with_answers :: "directory \<Rightarrow> id \<Rightarrow> (FieldRow \<times> raw) list" where
  "list_user_fields_with_answers d user =
    map (\<lambda>f. (f, user_entry d (fd_id f) user)) (list_user_field_defs d)"

definition upsert_user_field_entry :: "id \<Rightarrow> id \<Rightarrow> raw \<Rightarrow> directory \<Rightarrow> directory" where
  "upsert_user_field_entry field user value d =
    (if list_ex (\<lambda>e. fe_field e = field \<and> fe_user e = Some user) (entries d)
     then d\<lparr>entries := map (\<lambda>e. if fe_field e = field \<and> fe_user e = Some user
                                then e\<lparr>fe_value := value\<rparr> else e) (entries d)\<rparr>
     else d\<lparr>entries := entries d @
            [\<lparr>fe_field = field, fe_user = Some user, fe_team = None, fe_value = value\<rparr>]\<rparr>)"

definition delete_user_field_entry :: "id \<Rightarrow> id \<Rightarrow> directory \<Rightarrow> directory" where
  "delete_user_field_entry field user d =
    d\<lparr>entries := filter (\<lambda>e. \<not> (fe_field e = field \<and> fe_user e = Some user)) (entries d)\<rparr>"

text \<open>An entry counts as an answer unless it is NULL, \<open>null\<close> or the empty string.\<close>

definition list_public_user_field_answers :: "directory \<Rightarrow> id \<Rightarrow> (FieldRow \<times> raw) list" where
  "list_public_user_field_answers d user =
    filter (\<lambda>(f, v). fd_public f \<and> is_answered v) (list_user_fields_with_answers d user)"

subsection \<open>The caller: LoadPrincipal\<close>

definition owes_answer :: "directory \<Rightarrow> string \<Rightarrow> (EntryRow \<Rightarrow> bool) \<Rightarrow> bool" where
  "owes_answer d applies mine \<longleftrightarrow>
    list_ex (\<lambda>f. fd_applies_to f = applies \<and> fd_required f
      \<and> \<not> list_ex (\<lambda>e. fe_field e = fd_id f \<and> mine e \<and> is_answered (fe_value e)) (entries d))
      (form_fields d)"

definition load_principal :: "directory \<Rightarrow> id \<Rightarrow> (UserRow \<times> Principal) option" where
  "load_principal d i =
    map_option (\<lambda>u. (u,
      \<lparr>authed = True, is_admin = (us_role u = ''admin''), verified = us_verified u,
       banned = us_banned u,
       team_banned = (case Option.bind (us_team u) (team_by_id d) of None \<Rightarrow> False | Some t \<Rightarrow> tm_banned t),
       p_teamless = (instance_mode d = Some ''teams'' \<and> us_team u = None),
       profile_complete = (\<not> owes_answer d applies_user (\<lambda>e. fe_user e = Some (us_id u))),
       team_profile_complete =
         (us_team u = None \<or> \<not> owes_answer d applies_team (\<lambda>e. fe_team e = us_team u)),
       force_password_change = us_must_change u, user_id = us_id u, account_id = 0\<rparr>))
      (user_by_id d i)"

subsection \<open>Rosters: teams.sql\<close>

definition create_team_row ::
  "directory \<Rightarrow> string \<Rightarrow> string \<Rightarrow> id option \<Rightarrow> (pg_error, id \<times> directory) result" where
  "create_team_row d name password captain =
    (if teams_full d then Inl (PgCheck ''teams_caps'')
     else if list_ex (\<lambda>t. tm_name t = name) (rosters d) then Inl (PgUnique ''teams_name_uniq'')
     else if (case captain of None \<Rightarrow> False | Some c \<Rightarrow> user_by_id d c = None)
     then Inl (PgForeign ''teams_captain_fk'')
     else
       Inr (next_team d,
         d\<lparr>rosters := rosters d @
             [\<lparr>tm_id = next_team d, tm_name = name, tm_email = None, tm_password = password,
               tm_website = None, tm_affiliation = None, tm_country = None, tm_bracket = None, tm_captain = captain,
               tm_hidden = False, tm_banned = False\<rparr>],
           next_team := next_team d + 1\<rparr>))"

text \<open>The number of rows written, the caps trigger firing only where there is one.\<close>

definition enroll_user :: "directory \<Rightarrow> id \<Rightarrow> id \<Rightarrow> (pg_error, int \<times> directory) result" where
  "enroll_user d team user =
    (case find (\<lambda>u. us_id u = user \<and> us_team u = None) (people d) of
       None \<Rightarrow> Inr (0, d)
     | Some _ \<Rightarrow>
         if team_full d team then Inl (PgCheck ''users_caps'')
         else if team_by_id d team = None then Inl (PgForeign ''users_team_id_fkey'')
         else Inr (1, update_user user (\<lambda>u. u\<lparr>us_team := Some team\<rparr>) d))"

definition adopt_captainless_team :: "id \<Rightarrow> id \<Rightarrow> directory \<Rightarrow> directory" where
  "adopt_captainless_team user team d =
    map_teams (\<lambda>t. tm_id t = team \<and> tm_captain t = None \<and> length (members_of d team) = 1)
      (\<lambda>t. t\<lparr>tm_captain := Some user\<rparr>) d"

definition has_solves :: "directory \<Rightarrow> id \<Rightarrow> bool" where
  "has_solves d team \<longleftrightarrow> list_ex (\<lambda>s. sv_team s = Some team) (solves (ledger d))"

text \<open>Any row of the four tables whose key to the team restricts its deletion.\<close>

definition has_history :: "directory \<Rightarrow> id \<Rightarrow> bool" where
  "has_history d team \<longleftrightarrow>
    list_ex (\<lambda>s. sb_team s = Some team) (submissions (ledger d)) \<or> has_solves d team
    \<or> list_ex (\<lambda>a. aw_team a = Some team) (awards (ledger d))
    \<or> list_ex (\<lambda>u. hu_team u = Some team) (unlocks (ledger d))"

definition rows_where :: "directory \<Rightarrow> (UserRow \<Rightarrow> bool) \<Rightarrow> int" where
  "rows_where d p = int (length (filter p (people d)))"

definition leave_team_row :: "id \<Rightarrow> id option \<Rightarrow> directory \<Rightarrow> int \<times> directory" where
  "leave_team_row user team d =
    (let p = (\<lambda>u. us_id u = user \<and> eq_id (us_team u) team
                  \<and> (case us_team u of None \<Rightarrow> True | Some t \<Rightarrow> \<not> has_solves d t))
     in (rows_where d p, map_users p (\<lambda>u. u\<lparr>us_team := None\<rparr>) d))"

text \<open>The least remaining id, or an empty seat.\<close>

definition least_member :: "directory \<Rightarrow> id \<Rightarrow> id option" where
  "least_member d team = (case map us_id (members_of d team) of [] \<Rightarrow> None | i # is \<Rightarrow> Some (foldl min i is))"

definition reassign_captain_after_leave :: "id \<Rightarrow> id \<Rightarrow> directory \<Rightarrow> directory" where
  "reassign_captain_after_leave team user d =
    map_teams (\<lambda>t. tm_id t = team \<and> tm_captain t = Some user)
      (\<lambda>t. t\<lparr>tm_captain := least_member d team\<rparr>) d"

definition kick_member_row :: "id \<Rightarrow> id \<Rightarrow> directory \<Rightarrow> int \<times> directory" where
  "kick_member_row member captain d =
    (let p = (\<lambda>m. us_id m = member \<and> us_id m \<noteq> captain
                  \<and> (case us_team m of
                       None \<Rightarrow> False
                     | Some t \<Rightarrow> list_ex (\<lambda>r. tm_id r = t \<and> tm_captain r = Some captain) (rosters d)
                                \<and> \<not> has_solves d t))
     in (rows_where d p, map_users p (\<lambda>u. u\<lparr>us_team := None\<rparr>) d))"

definition transfer_captaincy_row :: "id \<Rightarrow> id \<Rightarrow> directory \<Rightarrow> int \<times> directory" where
  "transfer_captaincy_row new captain d =
    (let p = (\<lambda>t. tm_captain t = Some captain
                  \<and> list_ex (\<lambda>m. us_id m = new \<and> us_team m = Some (tm_id t)) (people d))
     in (int (length (filter p (rosters d))), map_teams p (\<lambda>t. t\<lparr>tm_captain := Some new\<rparr>) d))"

text \<open>The deletion, with ON DELETE SET NULL on the members and the restricting keys.\<close>

definition disband_team_row :: "id \<Rightarrow> directory \<Rightarrow> (pg_error, int \<times> directory) result" where
  "disband_team_row captain d =
    (case Option.bind (user_by_id d captain) us_team of
       None \<Rightarrow> Inr (0, d)
     | Some t \<Rightarrow>
         if \<not> list_ex (\<lambda>r. tm_id r = t \<and> tm_captain r = Some captain) (rosters d) then Inr (0, d)
         else if has_history d t then Inl (PgForeign ''team_history'')
         else
           Inr (1, (map_users (\<lambda>u. us_team u = Some t) (\<lambda>u. u\<lparr>us_team := None\<rparr>) d)
                     \<lparr>rosters := filter (\<lambda>r. tm_id r \<noteq> t) (rosters d)\<rparr>))"

definition set_join_secret_by_captain :: "string \<Rightarrow> id \<Rightarrow> directory \<Rightarrow> int \<times> directory" where
  "set_join_secret_by_captain hash captain d =
    (let p = (\<lambda>t. tm_captain t = Some captain)
     in (int (length (filter p (rosters d))), map_teams p (\<lambda>t. t\<lparr>tm_password := hash\<rparr>) d))"

definition update_team_password_hash :: "id \<Rightarrow> string \<Rightarrow> directory \<Rightarrow> directory" where
  "update_team_password_hash i h = update_team i (\<lambda>t. t\<lparr>tm_password := h\<rparr>)"

text \<open>The captain and whether the team has scored.\<close>

definition team_captain_scored :: "directory \<Rightarrow> id \<Rightarrow> (id option \<times> bool) option" where
  "team_captain_scored d team = map_option (\<lambda>t. (tm_captain t, has_solves d team)) (team_by_id d team)"

end
