(* ===== verification/Identity.thy ===== *)
theory Identity
  imports Directory Language_Tag
begin

section \<open>Accounts and credentials (internal/accounts)\<close>

text \<open>
  The operations of the accounts service on the directory: registration, login and sessions, API
  tokens, the email flows, the profile and its custom fields, the bootstrap of an instance, and the
  one function that resolves a request to a principal. An operation returns its result and the
  directory after it; what runs in one transaction leaves the directory alone where it fails
  (\<open>atomically\<close>). \<open>now\<close> is the clock, of the process and of the database alike, and the random
  bytes an operation draws are its argument \<open>draws\<close>.
\<close>

record draws =
  dr_salt :: random
  dr_sid :: random
  dr_csrf :: random
  dr_token :: random

datatype accounts_error =
    ErrBadCredentials
  | ErrUnauthorized
  | ErrEmailTaken
  | ErrCapReached
  | ErrTokenNotFound
  | ErrAlreadyVerified
  | ErrTokenInvalid
  | ErrEmailUnchanged
  | ErrInvalidLanguage
  | ErrFieldAnswer id string string
  | ErrNoSuchUser
  | ErrModeConflict
  | ErrBadMode account_error
  | ErrHash hash_error
  | ErrNoRows
  | ErrDatabase pg_error

type_synonym 'a outcome = "(accounts_error, 'a) result \<times> directory"

definition atomically :: "directory \<Rightarrow> (accounts_error, 'a \<times> directory) result \<Rightarrow> 'a outcome" where
  "atomically d r = (case r of Inl e \<Rightarrow> (Inl e, d) | Inr (a, d') \<Rightarrow> (Inr a, d'))"

definition lift_hash :: "(hash_error, 'a) result \<Rightarrow> (accounts_error, 'a) result" where
  "lift_hash r = (case r of Inl e \<Rightarrow> Inl (ErrHash e) | Inr a \<Rightarrow> Inr a)"

definition lift_pg :: "(pg_error, 'a) result \<Rightarrow> (accounts_error, 'a) result" where
  "lift_pg r = (case r of Inl e \<Rightarrow> Inl (ErrDatabase e) | Inr a \<Rightarrow> Inr a)"

subsection \<open>Sessions: login.go\<close>

definition hour :: int where "hour = 3600000000000"
definition session_ttl :: int where "session_ttl = 7 * 24 * hour"
definition token_ttl :: int where "token_ttl = 30 * 24 * hour"

record Session =
  sn_id :: string
  sn_csrf :: string
  sn_expires :: time
  sn_user :: id

definition mint_session ::
  "directory \<Rightarrow> time \<Rightarrow> draws \<Rightarrow> id \<Rightarrow> string \<Rightarrow> (accounts_error, Session \<times> directory) result" where
  "mint_session d now r user hash =
    bind_result (lift_hash (new_secret (dr_sid r))) (\<lambda>(sid, id_hash).
    bind_result (lift_hash (new_secret (dr_csrf r))) (\<lambda>(csrf, _).
    bind_result
      (lift_pg (create_session d id_hash user (pw_fingerprint (Some hash)) csrf (now + session_ttl)))
      (\<lambda>d'. Inr (\<lparr>sn_id = sid, sn_csrf = csrf, sn_expires = now + session_ttl, sn_user = user\<rparr>, d'))))"

text \<open>A failed upgrade of an old hash is logged and the login goes on with the old one.\<close>

definition login :: "env \<Rightarrow> directory \<Rightarrow> time \<Rightarrow> draws \<Rightarrow> string \<Rightarrow> string \<Rightarrow> Session outcome" where
  "login env d now r email password =
    (case get_user_by_email env d email of
       None \<Rightarrow> (Inl ErrBadCredentials, d)
     | Some u \<Rightarrow>
         (case us_password u of
            None \<Rightarrow> (Inl ErrBadCredentials, d)
          | Some stored \<Rightarrow>
              let (ok, rehash) = verify env stored password in
              if \<not> ok then (Inl ErrBadCredentials, d)
              else if us_banned u then (Inl ErrBadCredentials, d)
              else
                let (hash, d1) =
                  (if rehash then
                     (case hash_password env (dr_salt r) password of
                        Inl _ \<Rightarrow> (stored, d)
                      | Inr upgraded \<Rightarrow> (upgraded, update_password_hash (us_id u) upgraded d))
                   else (stored, d))
                in atomically d1 (mint_session d1 now r (us_id u) hash)))"

definition logout :: "directory \<Rightarrow> string \<Rightarrow> directory" where
  "logout d sid = delete_session (digest_of sid) d"

definition change_password ::
  "env \<Rightarrow> directory \<Rightarrow> time \<Rightarrow> draws \<Rightarrow> id \<Rightarrow> string \<Rightarrow> string \<Rightarrow> (Session \<times> int) outcome" where
  "change_password env d now r user current new =
    (case user_by_id d user of
       None \<Rightarrow> (Inl ErrNoRows, d)
     | Some row \<Rightarrow>
         (case us_password row of
            None \<Rightarrow> (Inl ErrBadCredentials, d)
          | Some stored \<Rightarrow>
              if \<not> fst (verify env stored current) then (Inl ErrBadCredentials, d)
              else
                atomically d
                  (bind_result (lift_hash (hash_password env (dr_salt r) new)) (\<lambda>hash.
                   let d1 = update_password_and_clear_forced_change user hash d;
                       (revoked, d2) = delete_user_api_tokens user d1
                   in bind_result (mint_session d2 now r user hash)
                        (\<lambda>(s, d3). Inr ((s, revoked), d3))))))"

subsection \<open>Custom fields: profile_fields.go\<close>

definition answer_fault :: "field_error \<Rightarrow> string" where
  "answer_fault e =
    (case e of
       ErrTypeMismatch \<Rightarrow> ''answer does not match the field type''
     | ErrTextTooLong \<Rightarrow> ''answer is too long''
     | _ \<Rightarrow> ''answer is invalid'')"

fun write_answers ::
  "FieldRow list \<Rightarrow> id \<Rightarrow> (id \<times> raw) list \<Rightarrow> id list \<Rightarrow> directory
    \<Rightarrow> (accounts_error, id list \<times> directory) result" where
  "write_answers defs user [] answered d = Inr (answered, d)"
| "write_answers defs user ((i, v) # answers) answered d =
    (case find (\<lambda>f. fd_id f = i) defs of
       None \<Rightarrow> Inl (ErrFieldAnswer i '''' ''no such registration field'')
     | Some f \<Rightarrow>
         (case normalize_answer (fd_type f) v of
            Inl e \<Rightarrow> Inl (ErrFieldAnswer (fd_id f) (fd_name f) (answer_fault e))
          | Inr (value, present) \<Rightarrow>
              if \<not> present then write_answers defs user answers answered d
              else write_answers defs user answers (fd_id f # answered)
                     (upsert_user_field_entry (fd_id f) user value d)))"

definition write_registration_answers ::
  "directory \<Rightarrow> id \<Rightarrow> (id \<times> raw) list \<Rightarrow> (accounts_error, directory) result" where
  "write_registration_answers d user answers =
    (let defs = list_user_field_defs d in
     bind_result (write_answers defs user answers [] d) (\<lambda>(answered, d').
       case find (\<lambda>f. fd_required f \<and> \<not> List.member answered (fd_id f)) defs of
         None \<Rightarrow> Inr d'
       | Some f \<Rightarrow> Inl (ErrFieldAnswer (fd_id f) (fd_name f) ''this field is required'')))"

definition registration_fields :: "directory \<Rightarrow> FieldRow list" where
  "registration_fields d = list_user_field_defs d"

definition user_fields :: "directory \<Rightarrow> id \<Rightarrow> (FieldRow \<times> raw) list" where
  "user_fields d user = list_user_fields_with_answers d user"

definition public_fields :: "directory \<Rightarrow> id \<Rightarrow> (FieldRow \<times> raw) list" where
  "public_fields d user = list_public_user_field_answers d user"

text \<open>\<open>rows\<close> is what the editor read when it started: later answers do not change it.\<close>

fun answer_loop ::
  "(FieldRow \<times> raw) list \<Rightarrow> id \<Rightarrow> (id \<times> raw) list \<Rightarrow> directory \<Rightarrow> (accounts_error, directory) result" where
  "answer_loop rows user [] d = Inr d"
| "answer_loop rows user ((i, v) # answers) d =
    (case find (\<lambda>(f, _). fd_id f = i) rows of
       None \<Rightarrow> Inl (ErrFieldAnswer i '''' ''no such field'')
     | Some (f, old) \<Rightarrow>
         if \<not> fd_editable f \<and> (\<not> fd_required f \<or> is_answered old)
         then Inl (ErrFieldAnswer (fd_id f) (fd_name f) ''this field cannot be edited'')
         else
           (case normalize_answer (fd_type f) v of
              Inl e \<Rightarrow> Inl (ErrFieldAnswer (fd_id f) (fd_name f) (answer_fault e))
            | Inr (value, present) \<Rightarrow>
                if present
                then answer_loop rows user answers (upsert_user_field_entry (fd_id f) user value d)
                else if fd_required f
                then Inl (ErrFieldAnswer (fd_id f) (fd_name f)
                       ''this field is required and cannot be cleared'')
                else answer_loop rows user answers (delete_user_field_entry (fd_id f) user d)))"

definition answer_user_fields :: "directory \<Rightarrow> id \<Rightarrow> (id \<times> raw) list \<Rightarrow> (FieldRow \<times> raw) list outcome" where
  "answer_user_fields d user answers =
    atomically d (bind_result (answer_loop (list_user_fields_with_answers d user) user answers d)
      (\<lambda>d'. Inr (user_fields d' user, d')))"

subsection \<open>The email flows: emailflows.go\<close>

definition verify_token_ttl :: int where "verify_token_ttl = 24 * hour"
definition reset_token_ttl :: int where "reset_token_ttl = hour"

abbreviation nl :: string where
  "nl \<equiv> [CHR 0x0A]"

definition mail_subject :: "string \<Rightarrow> string \<Rightarrow> string" where
  "mail_subject ctf what = (if ctf = '''' then what else ctf @ '': '' @ what)"

definition verification_mail :: "string \<Rightarrow> string \<Rightarrow> string \<times> string" where
  "verification_mail ctf token =
    (mail_subject ctf ''Verify your email address'',
     ''Enter this code to verify your email address:'' @ nl @ nl @ token @ nl @ nl
     @ ''The code expires in 24 hours. If you did not register, ignore this message.'' @ nl)"

definition email_change_mail :: "string \<Rightarrow> string \<Rightarrow> string \<Rightarrow> string \<times> string" where
  "email_change_mail ctf new_email token =
    (mail_subject ctf ''Confirm your new email address'',
     ''Enter this code to confirm '' @ new_email @ '' as the email address for your account:'' @ nl
     @ nl @ token @ nl @ nl
     @ ''The code expires in 24 hours. Until you confirm, your current address is unchanged. ''
     @ ''If you did not request this, ignore this message.'' @ nl)"

definition reset_mail :: "string \<Rightarrow> string \<Rightarrow> string \<times> string" where
  "reset_mail ctf token =
    (mail_subject ctf ''Password reset'',
     ''Enter this code to reset your password:'' @ nl @ nl @ token @ nl @ nl
     @ ''The code expires in 1 hour and works once. If you did not ask for a reset, ''
     @ ''ignore this message '' @ [CHR 0xE2, CHR 0x80, CHR 0x94] @ '' your password is unchanged.'' @ nl)"

definition enqueue_token_email ::
  "directory \<Rightarrow> time \<Rightarrow> random \<Rightarrow> id \<Rightarrow> string \<Rightarrow> string \<Rightarrow> int \<Rightarrow> (string \<Rightarrow> string \<times> string)
    \<Rightarrow> (accounts_error, directory) result" where
  "enqueue_token_email d now rnd user email purpose ttl compose =
    bind_result (lift_hash (new_secret rnd)) (\<lambda>(token, digest).
    bind_result (lift_pg (create_email_token d digest purpose user (now + ttl))) (\<lambda>d1.
      let (subject, body) = compose token
      in Inr (d1\<lparr>outbox := outbox d1 @ [\<lparr>ma_to = email, ma_subject = subject, ma_body = body\<rparr>]\<rparr>)))"

definition enqueue_verification ::
  "directory \<Rightarrow> time \<Rightarrow> random \<Rightarrow> id \<Rightarrow> string \<Rightarrow> string \<Rightarrow> (accounts_error, directory) result" where
  "enqueue_verification d now rnd user email ctf =
    enqueue_token_email d now rnd user email ''verify'' verify_token_ttl (verification_mail ctf)"

definition resend_verification :: "directory \<Rightarrow> time \<Rightarrow> draws \<Rightarrow> id \<Rightarrow> string \<Rightarrow> unit outcome" where
  "resend_verification d now r user ctf =
    (case user_by_id d user of
       None \<Rightarrow> (Inl ErrNoRows, d)
     | Some u \<Rightarrow>
         if us_verified u then (Inl ErrAlreadyVerified, d)
         else atomically d
           (bind_result (enqueue_verification d now (dr_token r) (us_id u) (us_email u) ctf)
             (\<lambda>d'. Inr ((), d'))))"

definition confirm_email :: "directory \<Rightarrow> time \<Rightarrow> string \<Rightarrow> unit outcome" where
  "confirm_email d now token =
    (case consume_email_token d now (digest_of token) ''verify'' of
       None \<Rightarrow> (Inl ErrTokenInvalid, d)
     | Some (user, d1) \<Rightarrow> (Inr (), mark_user_verified user d1))"

record Profile =
  pf_id :: id
  pf_name :: string
  pf_email :: string
  pf_pending :: "string option"
  pf_role :: string
  pf_verified :: bool
  pf_banned :: bool
  pf_team :: "id option"
  pf_website :: "string option"
  pf_affiliation :: "string option"
  pf_country :: "string option"
  pf_language :: "string option"

definition profile_of :: "UserRow \<Rightarrow> Profile" where
  "profile_of u =
    \<lparr>pf_id = us_id u, pf_name = us_name u, pf_email = us_email u, pf_pending = us_pending u,
     pf_role = us_role u, pf_verified = us_verified u, pf_banned = us_banned u, pf_team = us_team u,
     pf_website = us_website u, pf_affiliation = us_affiliation u, pf_country = us_country u,
     pf_language = us_language u\<rparr>"

definition profile :: "directory \<Rightarrow> id \<Rightarrow> (accounts_error, Profile) result" where
  "profile d user = (case user_by_id d user of None \<Rightarrow> Inl ErrNoRows | Some u \<Rightarrow> Inr (profile_of u))"

definition change_email ::
  "env \<Rightarrow> directory \<Rightarrow> time \<Rightarrow> draws \<Rightarrow> id \<Rightarrow> string \<Rightarrow> string \<Rightarrow> Profile outcome" where
  "change_email env d now r user new_email ctf =
    (case get_user_by_email env d new_email of
       Some existing \<Rightarrow> (Inl (if us_id existing = user then ErrEmailUnchanged else ErrEmailTaken), d)
     | None \<Rightarrow>
         (case set_pending_email env user new_email d of
            Inl e \<Rightarrow> (Inl (if e = PgUnique ''users_pending_email_uniq'' then ErrEmailTaken else ErrDatabase e), d)
          | Inr d1 \<Rightarrow>
              (case enqueue_token_email d1 now (dr_token r) user new_email ''email_change'' verify_token_ttl
                      (email_change_mail ctf new_email) of
                 Inl e \<Rightarrow> (Inl e, d)
               | Inr d2 \<Rightarrow> (profile d2 user, d2))))"

definition confirm_email_change :: "env \<Rightarrow> directory \<Rightarrow> time \<Rightarrow> string \<Rightarrow> unit outcome" where
  "confirm_email_change env d now token =
    (case consume_email_token d now (digest_of token) ''email_change'' of
       None \<Rightarrow> (Inl ErrTokenInvalid, d)
     | Some (user, d1) \<Rightarrow>
         (case confirm_email_change_row env user d1 of
            Inl e \<Rightarrow> (Inl (if e = PgUnique ''users_email_uniq'' then ErrEmailTaken else ErrDatabase e), d)
          | Inr None \<Rightarrow> (Inl ErrTokenInvalid, d)
          | Inr (Some d2) \<Rightarrow> (Inr (), d2)))"

definition request_password_reset :: "env \<Rightarrow> directory \<Rightarrow> time \<Rightarrow> draws \<Rightarrow> string \<Rightarrow> string \<Rightarrow> unit outcome" where
  "request_password_reset env d now r email ctf =
    (case get_user_by_email env d email of
       None \<Rightarrow> (Inr (), d)
     | Some u \<Rightarrow>
         if us_password u = None then (Inr (), d)
         else atomically d
           (bind_result
             (enqueue_token_email d now (dr_token r) (us_id u) (us_email u) ''reset'' reset_token_ttl
               (reset_mail ctf))
             (\<lambda>d'. Inr ((), d'))))"

definition reset_password :: "env \<Rightarrow> directory \<Rightarrow> time \<Rightarrow> draws \<Rightarrow> string \<Rightarrow> string \<Rightarrow> int outcome" where
  "reset_password env d now r token password =
    (case hash_password env (dr_salt r) password of
       Inl e \<Rightarrow> (Inl (ErrHash e), d)
     | Inr hash \<Rightarrow>
         (case consume_email_token d now (digest_of token) ''reset'' of
            None \<Rightarrow> (Inl ErrTokenInvalid, d)
          | Some (user, d1) \<Rightarrow>
              let (revoked, d2) =
                delete_user_api_tokens user (update_password_and_clear_forced_change user hash d1)
              in (Inr revoked, d2)))"

subsection \<open>Registration: register.go\<close>

text \<open>
  The account, its answers and the verification mail commit together; the session is minted after
  the commit, so a registration whose session could not be minted leaves the account behind.
\<close>

definition register_user ::
  "env \<Rightarrow> directory \<Rightarrow> time \<Rightarrow> draws \<Rightarrow> string \<Rightarrow> string \<Rightarrow> string \<Rightarrow> bool \<Rightarrow> string \<Rightarrow> (id \<times> raw) list
    \<Rightarrow> (accounts_error, (id \<times> string) \<times> directory) result" where
  "register_user env d now r name email password vfd ctf answers =
    bind_result (lift_hash (hash_password env (dr_salt r) password)) (\<lambda>hash.
    bind_result
      (case create_user env d name email (Some hash) vfd of
         Inl e \<Rightarrow>
           Inl (if e = PgUnique ''users_email_uniq'' then ErrEmailTaken
                else if e = PgCheck ''users_caps'' then ErrCapReached else ErrDatabase e)
       | Inr x \<Rightarrow> Inr x) (\<lambda>(i, d1).
    bind_result (write_registration_answers d1 i answers) (\<lambda>d2.
    bind_result (if vfd then Inr d2 else enqueue_verification d2 now (dr_token r) i email ctf)
      (\<lambda>d3. Inr ((i, hash), d3)))))"

definition register ::
  "env \<Rightarrow> directory \<Rightarrow> time \<Rightarrow> draws \<Rightarrow> string \<Rightarrow> string \<Rightarrow> string \<Rightarrow> bool \<Rightarrow> string \<Rightarrow> (id \<times> raw) list
    \<Rightarrow> Session outcome" where
  "register env d now r name email password vfd ctf answers =
    (case register_user env d now r name email password vfd ctf answers of
       Inl e \<Rightarrow> (Inl e, d)
     | Inr ((i, hash), d1) \<Rightarrow> atomically d1 (mint_session d1 now r i hash))"

subsection \<open>API tokens: tokens.go\<close>

record Token =
  to_id :: id
  to_plaintext :: string
  to_description :: "string option"
  to_expires :: time

record TokenInfo =
  ti_id :: id
  ti_description :: "string option"
  ti_created :: time
  ti_expires :: time

definition create_token ::
  "directory \<Rightarrow> time \<Rightarrow> draws \<Rightarrow> id \<Rightarrow> string option \<Rightarrow> int \<Rightarrow> Token outcome" where
  "create_token d now r user description ttl =
    (let expires = now + (if ttl \<le> 0 then token_ttl else ttl) in
     atomically d
       (bind_result (lift_hash (new_api_token (dr_token r))) (\<lambda>(plaintext, hash).
        bind_result (lift_pg (create_api_token d now user hash description expires)) (\<lambda>(row, d').
          Inr (\<lparr>to_id = tk_id row, to_plaintext = plaintext, to_description = tk_description row,
                to_expires = expires\<rparr>, d')))))"

definition list_tokens :: "directory \<Rightarrow> id \<Rightarrow> TokenInfo list" where
  "list_tokens d user =
    map (\<lambda>t. \<lparr>ti_id = tk_id t, ti_description = tk_description t, ti_created = tk_created t,
             ti_expires = tk_expires t\<rparr>) (list_api_tokens d user)"

definition delete_token :: "directory \<Rightarrow> id \<Rightarrow> id \<Rightarrow> unit outcome" where
  "delete_token d user i =
    (let (n, d') = delete_api_token i user d in
     if n = 0 then (Inl ErrTokenNotFound, d') else (Inr (), d'))"

subsection \<open>The profile: profile.go\<close>

definition change_name :: "directory \<Rightarrow> id \<Rightarrow> string \<Rightarrow> Profile outcome" where
  "change_name d user name = (let d' = update_user_name user name d in (profile d' user, d'))"

record ProfilePatch =
  pp_website :: "bool \<times> string option"
  pp_affiliation :: "bool \<times> string option"
  pp_country :: "bool \<times> string option"
  pp_language :: "bool \<times> string option"

definition update_profile :: "directory \<Rightarrow> id \<Rightarrow> ProfilePatch \<Rightarrow> Profile outcome" where
  "update_profile d user p =
    (if (case snd (pp_language p) of None \<Rightarrow> False | Some l \<Rightarrow> \<not> well_formed_language_tag l)
     then (Inl ErrInvalidLanguage, d)
     else
       let d' = update_own_profile user (pp_website p) (pp_affiliation p) (pp_country p) (pp_language p) d
       in (profile d' user, d'))"

subsection \<open>The bootstrap: admin.go\<close>

record InstanceSpec =
  in_mode :: Mode
  in_explicit :: bool

record Bootstrapped =
  bs_user :: id
  bs_mode :: Mode
  bs_already_admin :: bool

definition ensure_instance :: "string \<Rightarrow> directory \<Rightarrow> string \<times> directory" where
  "ensure_instance mode d =
    (case instance_mode d of
       Some m \<Rightarrow> (m, d)
     | None \<Rightarrow> (mode, d\<lparr>instance_mode := Some mode\<rparr>))"

definition mark_setup_complete :: "directory \<Rightarrow> directory" where
  "mark_setup_complete d = d\<lparr>setup_complete := True\<rparr>"

definition go_live :: "InstanceSpec \<Rightarrow> directory \<Rightarrow> (accounts_error, Mode \<times> directory) result" where
  "go_live spec d =
    (let (raw_mode, d1) = ensure_instance (mode_string (in_mode spec)) d in
     case parse_mode raw_mode of
       Inl e \<Rightarrow> Inl (ErrBadMode e)
     | Inr mode \<Rightarrow>
         if in_explicit spec \<and> mode \<noteq> in_mode spec then Inl ErrModeConflict
         else Inr (mode, mark_setup_complete d1))"

definition create_admin ::
  "env \<Rightarrow> directory \<Rightarrow> draws \<Rightarrow> string \<Rightarrow> string \<Rightarrow> string \<Rightarrow> InstanceSpec \<Rightarrow> Bootstrapped outcome" where
  "create_admin env d r name email password spec =
    atomically d
      (bind_result (lift_hash (hash_password env (dr_salt r) password)) (\<lambda>hash.
       bind_result
         (case create_admin_row env d name email (Some hash) of
            Inl e \<Rightarrow> Inl (if e = PgUnique ''users_email_uniq'' then ErrEmailTaken else ErrDatabase e)
          | Inr x \<Rightarrow> Inr x) (\<lambda>(i, d1).
       bind_result (go_live spec d1) (\<lambda>(mode, d2).
         Inr (\<lparr>bs_user = i, bs_mode = mode, bs_already_admin = False\<rparr>, d2)))))"

definition promote_to_admin ::
  "env \<Rightarrow> directory \<Rightarrow> string \<Rightarrow> InstanceSpec \<Rightarrow> Bootstrapped outcome" where
  "promote_to_admin env d email spec =
    (case get_user_by_email env d email of
       None \<Rightarrow> (Inl ErrNoSuchUser, d)
     | Some u \<Rightarrow>
         let already = us_role u = ''admin'' \<and> us_verified u;
             (rows, d1) = (if already then (1, d) else promote_to_admin_row env d email)
         in if rows = 0 then (Inl ErrNoSuchUser, d)
            else atomically d (bind_result (go_live spec d1) (\<lambda>(mode, d2).
              Inr (\<lparr>bs_user = us_id u, bs_mode = mode, bs_already_admin = already\<rparr>, d2))))"

subsection \<open>Resolving a request: authenticator.go, auth.go\<close>

datatype Method = MethodAnonymous | MethodCookie | MethodToken

record Auth =
  au_principal :: Principal
  au_method :: Method
  au_csrf :: string

definition anonymous_auth :: Auth where
  "anonymous_auth = \<lparr>au_principal = anonymous, au_method = MethodAnonymous, au_csrf = ''''\<rparr>"

definition principal_of :: "Mode \<Rightarrow> directory \<Rightarrow> id \<Rightarrow> (accounts_error, Principal) result" where
  "principal_of mode d user =
    (case load_principal d user of
       None \<Rightarrow> Inl ErrUnauthorized
     | Some (row, pr) \<Rightarrow>
         Inr (pr\<lparr>account_id :=
           (case resolve mode \<lparr>mem_user_id = us_id row, mem_team_id = us_team row\<rparr> of
              Inl _ \<Rightarrow> 0 | Inr i \<Rightarrow> i)\<rparr>))"

definition authenticate_token :: "Mode \<Rightarrow> directory \<Rightarrow> time \<Rightarrow> string \<Rightarrow> (accounts_error, Auth) result" where
  "authenticate_token mode d now token =
    (case get_api_token d now (digest_of token) of
       None \<Rightarrow> Inl ErrUnauthorized
     | Some t \<Rightarrow> bind_result (principal_of mode d (tk_user t)) (\<lambda>pr.
         Inr \<lparr>au_principal = pr, au_method = MethodToken, au_csrf = ''''\<rparr>))"

definition authenticate_session :: "Mode \<Rightarrow> directory \<Rightarrow> time \<Rightarrow> string \<Rightarrow> (accounts_error, Auth) result" where
  "authenticate_session mode d now sid =
    (case get_session d now (digest_of sid) of
       None \<Rightarrow> Inl ErrUnauthorized
     | Some (s, hash) \<Rightarrow>
         if constant_time_compare (pw_fingerprint hash) (se_fingerprint s) \<noteq> 1 then Inl ErrUnauthorized
         else bind_result (principal_of mode d (se_user s)) (\<lambda>pr.
           Inr \<lparr>au_principal = pr, au_method = MethodCookie, au_csrf = se_csrf s\<rparr>))"

text \<open>The request is its \<open>Authorization\<close> header, empty where absent, and its session cookie.\<close>

definition authenticate ::
  "Mode \<Rightarrow> directory \<Rightarrow> time \<Rightarrow> string \<Rightarrow> string option \<Rightarrow> (accounts_error, Auth) result" where
  "authenticate mode d now header cookie =
    (case bearer_token header of
       Some tok \<Rightarrow> authenticate_token mode d now tok
     | None \<Rightarrow>
         (case cookie of
            None \<Rightarrow> Inr anonymous_auth
          | Some sid \<Rightarrow>
              if sid = '''' then Inr anonymous_auth
              else
                (case authenticate_session mode d now sid of
                   Inl e \<Rightarrow> if e = ErrUnauthorized then Inr anonymous_auth else Inl e
                 | Inr a \<Rightarrow> Inr a)))"

end
