(* ===== verification/Teams.thy ===== *)
theory Teams
  imports Identity
begin

section \<open>Team enrollment (internal/accounts/teams.go)\<close>

text \<open>
  What players do to rosters: create, join, leave, kick, hand over the seat, disband, and the join
  secret. Each is one transaction. \<open>JoinTeam\<close> reads the team and verifies the secret before it opens
  its transaction, so it is two functions here, \<open>join_open\<close> and \<open>join_enroll\<close>, and \<open>join_team\<close> runs
  them on one directory. The read that answers a successful write (\<open>OwnTeam\<close>) is \<open>own_team\<close>.
\<close>

datatype teams_error =
    ErrTeamNameTaken
  | ErrTeamCapReached
  | ErrTeamFull
  | ErrAlreadyOnTeam
  | ErrTeamJoinDenied
  | ErrTeamNotFound
  | ErrNotOnTeam
  | ErrTeamHasScored
  | ErrNotCaptain
  | ErrTeamEmailTaken
  | ErrJoinSecretTooShort
  | ErrTargetNotMember
  | ErrCannotKickSelf
  | ErrTeamHasHistory
  | ErrTeamRows
  | ErrTeamHash hash_error
  | ErrTeamDatabase pg_error

definition min_join_secret_len :: nat where "min_join_secret_len = 8"

definition hash_join_secret :: "env \<Rightarrow> random \<Rightarrow> string \<Rightarrow> (teams_error, string) result" where
  "hash_join_secret env rnd secret =
    (if length secret < min_join_secret_len then Inl ErrJoinSecretTooShort
     else (case hash_password env rnd secret of Inl e \<Rightarrow> Inl (ErrTeamHash e) | Inr h \<Rightarrow> Inr h))"

subsection \<open>Reading teams\<close>

definition before_cutoff :: "time option \<Rightarrow> time \<Rightarrow> bool" where
  "before_cutoff cutoff t = (case cutoff of None \<Rightarrow> True | Some c \<Rightarrow> t < c)"

definition team_score :: "directory \<Rightarrow> time option \<Rightarrow> id \<Rightarrow> int" where
  "team_score d cutoff t =
    sum_list (map sv_value (filter (\<lambda>s. sv_team s = Some t \<and> before_cutoff cutoff (sv_date s))
      (solves (ledger d))))
    + sum_list (map aw_value (filter (\<lambda>a. aw_team a = Some t \<and> before_cutoff cutoff (aw_date a))
      (awards (ledger d))))"

record TeamMember =
  mb_user :: id
  mb_name :: string
  mb_captain :: bool
  mb_solves :: int
  mb_points :: int

definition member_limit :: nat where "member_limit = 1000"

definition list_team_members :: "directory \<Rightarrow> time option \<Rightarrow> id \<Rightarrow> bool \<Rightarrow> TeamMember list" where
  "list_team_members d cutoff team include_masked =
    (case team_by_id d team of
       None \<Rightarrow> []
     | Some t \<Rightarrow>
         take member_limit
           (map (\<lambda>u.
              let ss = filter (\<lambda>s. sv_team s = Some team \<and> sv_user s = us_id u
                                 \<and> before_cutoff cutoff (sv_date s)) (solves (ledger d))
              in \<lparr>mb_user = us_id u, mb_name = us_name u, mb_captain = (tm_captain t = Some (us_id u)),
                  mb_solves = int (length ss), mb_points = sum_list (map sv_value ss)\<rparr>)
             (sort_key us_id
               (filter (\<lambda>u. include_masked \<or> \<not> us_hidden u \<and> \<not> us_banned u) (members_of d team)))))"

record Team =
  te_id :: id
  te_name :: string
  te_email :: "string option"
  te_website :: "string option"
  te_affiliation :: "string option"
  te_country :: "string option"
  te_score :: int
  te_is_captain :: bool
  te_members :: "TeamMember list"

text \<open>The public page, without the list of solved challenges.\<close>

definition get_team_public_profile :: "directory \<Rightarrow> id \<Rightarrow> time option \<Rightarrow> (TeamRow \<times> int) option" where
  "get_team_public_profile d team cutoff =
    map_option (\<lambda>t. (t, team_score d cutoff team))
      (find (\<lambda>t. tm_id t = team \<and> \<not> tm_hidden t \<and> \<not> tm_banned t) (rosters d))"

definition get_own_team :: "directory \<Rightarrow> id \<Rightarrow> (TeamRow \<times> int) option" where
  "get_own_team d user =
    map_option (\<lambda>t. (t, team_score d None (tm_id t)))
      (Option.bind (Option.bind (user_by_id d user) us_team) (team_by_id d))"

definition team_profile :: "directory \<Rightarrow> id \<Rightarrow> time option \<Rightarrow> (teams_error, Team) result" where
  "team_profile d team cutoff =
    (case get_team_public_profile d team cutoff of
       None \<Rightarrow> Inl ErrTeamNotFound
     | Some (t, score) \<Rightarrow>
         Inr \<lparr>te_id = tm_id t, te_name = tm_name t, te_email = None, te_website = tm_website t,
              te_affiliation = tm_affiliation t, te_country = tm_country t,
              te_score = score, te_is_captain = False,
              te_members = list_team_members d cutoff team False\<rparr>)"

definition own_team :: "directory \<Rightarrow> id \<Rightarrow> (teams_error, Team) result" where
  "own_team d user =
    (case get_own_team d user of
       None \<Rightarrow> Inl ErrNotOnTeam
     | Some (t, score) \<Rightarrow>
         Inr \<lparr>te_id = tm_id t, te_name = tm_name t, te_email = tm_email t, te_website = tm_website t,
              te_affiliation = tm_affiliation t, te_country = tm_country t,
              te_score = score, te_is_captain = (tm_captain t = Some user),
              te_members = list_team_members d None (tm_id t) True\<rparr>)"

subsection \<open>Enrolling\<close>

definition enroll :: "directory \<Rightarrow> id \<Rightarrow> id \<Rightarrow> (teams_error, directory) result" where
  "enroll d team user =
    (case enroll_user d team user of
       Inl (PgCheck _) \<Rightarrow> Inl ErrTeamFull
     | Inl e \<Rightarrow> Inl (ErrTeamDatabase e)
     | Inr (rows, d') \<Rightarrow> if rows = 0 then Inl ErrAlreadyOnTeam else Inr d')"

definition create_team ::
  "env \<Rightarrow> directory \<Rightarrow> draws \<Rightarrow> id \<Rightarrow> string \<Rightarrow> string \<Rightarrow> (teams_error, directory) result" where
  "create_team env d r user name password =
    bind_result (hash_join_secret env (dr_salt r) password) (\<lambda>hash.
      case create_team_row d name hash (Some user) of
        Inl (PgUnique _) \<Rightarrow> Inl ErrTeamNameTaken
      | Inl (PgCheck _) \<Rightarrow> Inl ErrTeamCapReached
      | Inl e \<Rightarrow> Inl (ErrTeamDatabase e)
      | Inr (team, d1) \<Rightarrow> enroll d1 team user)"

text \<open>The team to join and whether its secret is to be replaced by one of today's format.\<close>

definition get_team_for_join :: "directory \<Rightarrow> string \<Rightarrow> TeamRow option" where
  "get_team_for_join d name = find (\<lambda>t. tm_name t = name) (rosters d)"

definition join_open ::
  "env \<Rightarrow> directory \<Rightarrow> string \<Rightarrow> string \<Rightarrow> (teams_error, TeamRow \<times> bool) result" where
  "join_open env d name password =
    (case get_team_for_join d name of
       None \<Rightarrow> Inl ErrTeamJoinDenied
     | Some t \<Rightarrow>
         if tm_banned t then Inl ErrTeamJoinDenied
         else
           (let (ok, rehash) = verify env (tm_password t) password in
            if \<not> ok then Inl ErrTeamJoinDenied else Inr (t, rehash)))"

definition rehash_team_password :: "env \<Rightarrow> random \<Rightarrow> id \<Rightarrow> string \<Rightarrow> directory \<Rightarrow> directory" where
  "rehash_team_password env rnd team password d =
    (case hash_password env rnd password of
       Inl _ \<Rightarrow> d | Inr h \<Rightarrow> update_team_password_hash team h d)"

definition join_enroll :: "directory \<Rightarrow> id \<Rightarrow> id \<Rightarrow> (teams_error, directory) result" where
  "join_enroll d team user =
    bind_result (enroll d team user) (\<lambda>d1. Inr (adopt_captainless_team user team d1))"

text \<open>The rehash is a write of its own, kept even where the enrollment then fails.\<close>

definition join_team ::
  "env \<Rightarrow> directory \<Rightarrow> draws \<Rightarrow> id \<Rightarrow> string \<Rightarrow> string \<Rightarrow> (teams_error, unit) result \<times> directory" where
  "join_team env d r user name password =
    (case join_open env d name password of
       Inl e \<Rightarrow> (Inl e, d)
     | Inr (t, rehash) \<Rightarrow>
         let d1 = (if rehash then rehash_team_password env (dr_salt r) (tm_id t) password d else d)
         in case join_enroll d1 (tm_id t) user of
              Inl e \<Rightarrow> (Inl e, d1)
            | Inr d2 \<Rightarrow> (Inr (), d2))"

subsection \<open>Leaving and the captain's acts\<close>

definition leave_team :: "directory \<Rightarrow> id \<Rightarrow> (teams_error, directory) result" where
  "leave_team d user =
    (case user_by_id d user of
       None \<Rightarrow> Inl ErrTeamRows
     | Some u \<Rightarrow>
         (case us_team u of
            None \<Rightarrow> Inl ErrNotOnTeam
          | Some t \<Rightarrow>
              let (rows, d1) = leave_team_row user (us_team u) d in
              if rows = 0 then Inl ErrTeamHasScored
              else Inr (reassign_captain_after_leave t user d1)))"

text \<open>Which rule refused a captain's act: read only to shape the error.\<close>

definition captain_refusal :: "directory \<Rightarrow> id \<Rightarrow> teams_error" where
  "captain_refusal d user =
    (case user_by_id d user of
       None \<Rightarrow> ErrTeamRows
     | Some u \<Rightarrow> if us_team u = None then ErrNotOnTeam else ErrNotCaptain)"

definition roster_refusal :: "directory \<Rightarrow> id \<Rightarrow> id \<Rightarrow> bool \<Rightarrow> teams_error" where
  "roster_refusal d captain target scored_blocks =
    (case user_by_id d captain of
       None \<Rightarrow> ErrTeamRows
     | Some caller \<Rightarrow>
         (case us_team caller of
            None \<Rightarrow> ErrNotOnTeam
          | Some t \<Rightarrow>
              (case team_captain_scored d t of
                 None \<Rightarrow> ErrTeamRows
               | Some (seat, scored) \<Rightarrow>
                   if seat \<noteq> Some captain then ErrNotCaptain
                   else
                     (case user_by_id d target of
                        None \<Rightarrow> ErrTargetNotMember
                      | Some m \<Rightarrow>
                          if us_team m \<noteq> Some t then ErrTargetNotMember
                          else if scored_blocks \<and> scored then ErrTeamHasScored
                          else ErrTargetNotMember))))"

definition set_join_secret ::
  "env \<Rightarrow> directory \<Rightarrow> draws \<Rightarrow> id \<Rightarrow> string \<Rightarrow> (teams_error, directory) result" where
  "set_join_secret env d r actor secret =
    bind_result (hash_join_secret env (dr_salt r) secret) (\<lambda>hash.
      let (rows, d') = set_join_secret_by_captain hash actor d in
      if rows = 0 then Inl (captain_refusal d actor) else Inr d')"

definition kick_member :: "directory \<Rightarrow> id \<Rightarrow> id \<Rightarrow> (teams_error, directory) result" where
  "kick_member d actor member =
    (let (rows, d') = kick_member_row member actor d in
     if rows = 0 then
       Inl (if member = actor then ErrCannotKickSelf else roster_refusal d actor member True)
     else Inr d')"

definition transfer_captaincy :: "directory \<Rightarrow> id \<Rightarrow> id \<Rightarrow> (teams_error, directory) result" where
  "transfer_captaincy d actor new =
    (let (rows, d') = transfer_captaincy_row new actor d in
     if rows = 0 then Inl (roster_refusal d actor new False) else Inr d')"

definition disband_team :: "directory \<Rightarrow> id \<Rightarrow> (teams_error, directory) result" where
  "disband_team d actor =
    (case disband_team_row actor d of
       Inl (PgForeign _) \<Rightarrow> Inl ErrTeamHasHistory
     | Inl e \<Rightarrow> Inl (ErrTeamDatabase e)
     | Inr (rows, d') \<Rightarrow> if rows = 0 then Inl (captain_refusal d actor) else Inr d')"

record TeamPatch =
  tp_email :: "bool \<times> string option"
  tp_website :: "bool \<times> string option"
  tp_affiliation :: "bool \<times> string option"
  tp_country :: "bool \<times> string option"

definition patch_team :: "TeamPatch \<Rightarrow> TeamRow \<Rightarrow> TeamRow" where
  "patch_team p t =
    t\<lparr>tm_email := patched (fst (tp_email p)) (snd (tp_email p)) (tm_email t),
      tm_website := patched (fst (tp_website p)) (snd (tp_website p)) (tm_website t),
      tm_affiliation := patched (fst (tp_affiliation p)) (snd (tp_affiliation p)) (tm_affiliation t),
      tm_country := patched (fst (tp_country p)) (snd (tp_country p)) (tm_country t)\<rparr>"

definition update_team_by_captain ::
  "env \<Rightarrow> directory \<Rightarrow> id \<Rightarrow> TeamPatch \<Rightarrow> (pg_error, int \<times> directory) result" where
  "update_team_by_captain env d user p =
    (case Option.bind (user_by_id d user) us_team of
       None \<Rightarrow> Inr (0, d)
     | Some i \<Rightarrow>
         (case find (\<lambda>t. tm_id t = i \<and> tm_captain t = Some user) (rosters d) of
            None \<Rightarrow> Inr (0, d)
          | Some t \<Rightarrow>
              let email = tm_email (patch_team p t) in
              if email \<noteq> None
                 \<and> list_ex (\<lambda>r. tm_id r \<noteq> i
                     \<and> map_option (lower_text env) (tm_email r) = map_option (lower_text env) email)
                     (rosters d)
              then Inl (PgUnique ''teams_email_uniq'')
              else Inr (1, map_teams (\<lambda>t. tm_id t = i \<and> tm_captain t = Some user) (patch_team p) d)))"

definition update_own_team ::
  "env \<Rightarrow> directory \<Rightarrow> id \<Rightarrow> TeamPatch \<Rightarrow> (teams_error, directory) result" where
  "update_own_team env d user p =
    (case update_team_by_captain env d user p of
       Inl e \<Rightarrow> Inl (if e = PgUnique ''teams_email_uniq'' then ErrTeamEmailTaken else ErrTeamDatabase e)
     | Inr (rows, d') \<Rightarrow> if rows = 0 then Inl (captain_refusal d user) else Inr d')"

end
