(* ===== verification/Moderation.thy ===== *)
theory Moderation
  imports Teams
begin

section \<open>The organizers' account operations (internal/adminops)\<close>

text \<open>
  Roles, bans, verification and rosters as an organizer edits them (\<open>users.go\<close>, \<open>teams.go\<close>,
  \<open>team_roster.go\<close>). Each operation is one transaction: an error leaves the directory alone. The
  ones that can cost the instance its last usable administrator take one advisory lock for their
  count and their write together, so they run one after the other, as they do here.
\<close>

datatype admin_error =
    AdminUserNotFound
  | AdminTeamNotFound
  | AdminLastAdmin
  | AdminSelfBan
  | AdminSelfTeamBan
  | AdminTeamNameTaken
  | AdminTeamEmailTaken
  | AdminTeamCapReached
  | AdminUserNotOnTeam
  | AdminTeamFull
  | AdminSameTeam
  | AdminNotTeamsMode
  | AdminNoRow
  | AdminDatabase pg_error

subsection \<open>Counting who is left\<close>

text \<open>An administrator who can log in: not banned, and not walled out by a banned team.\<close>

definition usable_admin :: "directory \<Rightarrow> UserRow \<Rightarrow> bool" where
  "usable_admin d u \<longleftrightarrow> us_role u = ''admin'' \<and> \<not> us_banned u
    \<and> (case Option.bind (us_team u) (team_by_id d) of None \<Rightarrow> True | Some t \<Rightarrow> \<not> tm_banned t)"

definition admin_count_other_admins :: "directory \<Rightarrow> id \<Rightarrow> int" where
  "admin_count_other_admins d i = rows_where d (\<lambda>u. usable_admin d u \<and> us_id u \<noteq> i)"

definition admin_count_admins_outside_team :: "directory \<Rightarrow> id \<Rightarrow> int" where
  "admin_count_admins_outside_team d t = rows_where d (\<lambda>u. usable_admin d u \<and> us_team u \<noteq> Some t)"

subsection \<open>Row updates: admin.sql, admin_verification.sql\<close>

text \<open>An \<open>UPDATE ... WHERE id RETURNING\<close> gives no row where the id is unknown.\<close>

definition returning_user :: "directory \<Rightarrow> id \<Rightarrow> (UserRow \<Rightarrow> UserRow) \<Rightarrow> directory option" where
  "returning_user d i f = (if user_by_id d i = None then None else Some (update_user i f d))"

definition returning_team :: "directory \<Rightarrow> id \<Rightarrow> (TeamRow \<Rightarrow> TeamRow) \<Rightarrow> directory option" where
  "returning_team d i f = (if team_by_id d i = None then None else Some (update_team i f d))"

definition found :: "admin_error \<Rightarrow> 'a option \<Rightarrow> (admin_error, 'a) result" where
  "found e r = (case r of None \<Rightarrow> Inl e | Some x \<Rightarrow> Inr x)"

record UserPatch =
  up_name :: "string option"
  up_website :: "bool \<times> string option"
  up_affiliation :: "bool \<times> string option"
  up_country :: "bool \<times> string option"

definition admin_update_user_row :: "directory \<Rightarrow> id \<Rightarrow> UserPatch \<Rightarrow> directory option" where
  "admin_update_user_row d i p =
    returning_user d i (\<lambda>u. u\<lparr>us_name := (case up_name p of Some n \<Rightarrow> n | None \<Rightarrow> us_name u),
      us_website := patched (fst (up_website p)) (snd (up_website p)) (us_website u),
      us_affiliation := patched (fst (up_affiliation p)) (snd (up_affiliation p)) (us_affiliation u),
      us_country := patched (fst (up_country p)) (snd (up_country p)) (us_country u)\<rparr>)"

definition admin_set_user_hidden :: "directory \<Rightarrow> id \<Rightarrow> bool \<Rightarrow> directory option" where
  "admin_set_user_hidden d i h = returning_user d i (\<lambda>u. u\<lparr>us_hidden := h\<rparr>)"

definition admin_force_password_change :: "directory \<Rightarrow> id \<Rightarrow> directory option" where
  "admin_force_password_change d i = returning_user d i (\<lambda>u. u\<lparr>us_must_change := True\<rparr>)"

definition admin_set_user_banned :: "directory \<Rightarrow> id \<Rightarrow> bool \<Rightarrow> directory option" where
  "admin_set_user_banned d i b = returning_user d i (\<lambda>u. u\<lparr>us_banned := b\<rparr>)"

definition admin_set_user_role :: "directory \<Rightarrow> id \<Rightarrow> string \<Rightarrow> (pg_error, directory option) result" where
  "admin_set_user_role d i role =
    (if user_by_id d i \<noteq> None \<and> \<not> List.member [''user'', ''admin''] role
     then Inl (PgCheck ''users_role_check'')
     else Inr (returning_user d i (\<lambda>u. u\<lparr>us_role := role\<rparr>)))"

definition admin_set_user_verified :: "directory \<Rightarrow> id \<Rightarrow> bool \<Rightarrow> directory option" where
  "admin_set_user_verified d i v = returning_user d i (\<lambda>u. u\<lparr>us_verified := v\<rparr>)"

definition admin_verify_all_users :: "directory \<Rightarrow> int \<times> directory" where
  "admin_verify_all_users d =
    (rows_where d (\<lambda>u. \<not> us_verified u),
     map_users (\<lambda>u. \<not> us_verified u) (\<lambda>u. u\<lparr>us_verified := True\<rparr>) d)"

definition team_email_taken :: "env \<Rightarrow> directory \<Rightarrow> (TeamRow \<Rightarrow> bool) \<Rightarrow> string option \<Rightarrow> bool" where
  "team_email_taken env d p email \<longleftrightarrow> email \<noteq> None
    \<and> list_ex (\<lambda>t. p t \<and> map_option (lower_text env) (tm_email t) = map_option (lower_text env) email)
        (rosters d)"

record NewTeam =
  nt_name :: string
  nt_password :: string
  nt_email :: "string option"
  nt_website :: "string option"
  nt_affiliation :: "string option"
  nt_country :: "string option"

definition admin_create_team_row :: "env \<Rightarrow> directory \<Rightarrow> NewTeam \<Rightarrow> (pg_error, id \<times> directory) result" where
  "admin_create_team_row env d n =
    (if teams_full d then Inl (PgCheck ''teams_caps'')
     else if team_email_taken env d (\<lambda>_. True) (nt_email n) then Inl (PgUnique ''teams_email_uniq'')
     else if list_ex (\<lambda>t. tm_name t = nt_name n) (rosters d) then Inl (PgUnique ''teams_name_uniq'')
     else
       Inr (next_team d,
         d\<lparr>rosters := rosters d @
             [\<lparr>tm_id = next_team d, tm_name = nt_name n, tm_email = nt_email n,
               tm_password = nt_password n, tm_website = nt_website n,
               tm_affiliation = nt_affiliation n, tm_country = nt_country n, tm_bracket = None,
               tm_captain = None,
               tm_hidden = False, tm_banned = False\<rparr>],
           next_team := next_team d + 1\<rparr>))"

definition admin_update_team_row ::
  "env \<Rightarrow> directory \<Rightarrow> id \<Rightarrow> string option \<Rightarrow> TeamPatch \<Rightarrow> (pg_error, directory option) result" where
  "admin_update_team_row env d i name p =
    (case team_by_id d i of
       None \<Rightarrow> Inr None
     | Some t \<Rightarrow>
         if team_email_taken env d (\<lambda>r. tm_id r \<noteq> i) (tm_email (patch_team p t))
         then Inl (PgUnique ''teams_email_uniq'')
         else if (case name of None \<Rightarrow> False
                  | Some n \<Rightarrow> list_ex (\<lambda>r. tm_id r \<noteq> i \<and> tm_name r = n) (rosters d))
         then Inl (PgUnique ''teams_name_uniq'')
         else Inr (returning_team d i (\<lambda>t. (patch_team p t)
                \<lparr>tm_name := (case name of Some n \<Rightarrow> n | None \<Rightarrow> tm_name t)\<rparr>)))"

definition admin_set_team_join_secret :: "directory \<Rightarrow> id \<Rightarrow> string \<Rightarrow> directory option" where
  "admin_set_team_join_secret d i hash = returning_team d i (\<lambda>t. t\<lparr>tm_password := hash\<rparr>)"

definition admin_set_team_banned :: "directory \<Rightarrow> id \<Rightarrow> bool \<Rightarrow> directory option" where
  "admin_set_team_banned d i b = returning_team d i (\<lambda>t. t\<lparr>tm_banned := b\<rparr>)"

definition admin_set_team_hidden :: "directory \<Rightarrow> id \<Rightarrow> bool \<Rightarrow> directory option" where
  "admin_set_team_hidden d i h = returning_team d i (\<lambda>t. t\<lparr>tm_hidden := h\<rparr>)"

definition admin_team_exists :: "directory \<Rightarrow> id \<Rightarrow> bool" where
  "admin_team_exists d i \<longleftrightarrow> team_by_id d i \<noteq> None"

definition admin_team_is_banned :: "directory \<Rightarrow> id \<Rightarrow> bool option" where
  "admin_team_is_banned d i = map_option tm_banned (team_by_id d i)"

subsection \<open>Users: users.go\<close>

definition admin_update_user :: "directory \<Rightarrow> id \<Rightarrow> UserPatch \<Rightarrow> (admin_error, directory) result" where
  "admin_update_user d i p = found AdminUserNotFound (admin_update_user_row d i p)"

definition set_user_hidden :: "directory \<Rightarrow> id \<Rightarrow> bool \<Rightarrow> (admin_error, directory) result" where
  "set_user_hidden d i h = found AdminUserNotFound (admin_set_user_hidden d i h)"

definition force_password_change :: "directory \<Rightarrow> id \<Rightarrow> (admin_error, int \<times> directory) result" where
  "force_password_change d i =
    bind_result (found AdminUserNotFound (admin_force_password_change d i)) (\<lambda>d1.
      Inr (delete_user_api_tokens i (delete_user_sessions i d1)))"

definition set_banned :: "directory \<Rightarrow> id \<Rightarrow> id \<Rightarrow> bool \<Rightarrow> (admin_error, directory) result" where
  "set_banned d actor i b =
    (if b \<and> actor = i then Inl AdminSelfBan
     else
       bind_result
         (if b then
            (case user_by_id d i of
               None \<Rightarrow> Inl AdminUserNotFound
             | Some target \<Rightarrow>
                 if us_role target = ''admin'' \<and> \<not> us_banned target
                    \<and> admin_count_other_admins d i = 0
                 then Inl AdminLastAdmin else Inr ())
          else Inr ())
         (\<lambda>_. bind_result (found AdminUserNotFound (admin_set_user_banned d i b)) (\<lambda>d1.
            Inr (if b then delete_user_sessions i d1 else d1))))"

definition set_role :: "directory \<Rightarrow> id \<Rightarrow> string \<Rightarrow> (admin_error, directory) result" where
  "set_role d i role =
    (if role \<noteq> ''admin'' \<and> admin_count_other_admins d i = 0 then Inl AdminLastAdmin
     else
       (case admin_set_user_role d i role of
          Inl e \<Rightarrow> Inl (AdminDatabase e)
        | Inr r \<Rightarrow> found AdminUserNotFound r))"

definition set_verified :: "directory \<Rightarrow> id \<Rightarrow> bool \<Rightarrow> (admin_error, directory) result" where
  "set_verified d i v = found AdminUserNotFound (admin_set_user_verified d i v)"

definition verify_all :: "directory \<Rightarrow> int \<times> directory" where
  "verify_all d = admin_verify_all_users d"

subsection \<open>Teams: teams.go\<close>

definition team_constraint :: "pg_error \<Rightarrow> admin_error" where
  "team_constraint e =
    (case e of
       PgUnique c \<Rightarrow> if c = ''teams_email_uniq'' then AdminTeamEmailTaken else AdminTeamNameTaken
     | PgCheck _ \<Rightarrow> AdminTeamCapReached
     | PgForeign _ \<Rightarrow> AdminDatabase e)"

definition admin_create_team :: "env \<Rightarrow> directory \<Rightarrow> NewTeam \<Rightarrow> (admin_error, id \<times> directory) result" where
  "admin_create_team env d n =
    (case admin_create_team_row env d n of Inl e \<Rightarrow> Inl (team_constraint e) | Inr x \<Rightarrow> Inr x)"

definition admin_update_team ::
  "env \<Rightarrow> directory \<Rightarrow> id \<Rightarrow> string option \<Rightarrow> TeamPatch \<Rightarrow> (admin_error, directory) result" where
  "admin_update_team env d i name p =
    (case admin_update_team_row env d i name p of
       Inl e \<Rightarrow> Inl (team_constraint e)
     | Inr r \<Rightarrow> found AdminTeamNotFound r)"

definition set_team_join_secret :: "directory \<Rightarrow> id \<Rightarrow> string \<Rightarrow> (admin_error, directory) result" where
  "set_team_join_secret d i hash = found AdminTeamNotFound (admin_set_team_join_secret d i hash)"

definition set_team_banned :: "directory \<Rightarrow> id \<Rightarrow> id \<Rightarrow> bool \<Rightarrow> (admin_error, directory) result" where
  "set_team_banned d actor i b =
    bind_result
      (if b then
         (case user_by_id d actor of
            None \<Rightarrow> Inl AdminNoRow
          | Some u \<Rightarrow>
              if us_team u = Some i then Inl AdminSelfTeamBan
              else if admin_count_admins_outside_team d i = 0 then Inl AdminLastAdmin else Inr ())
       else Inr ())
      (\<lambda>_. bind_result (found AdminTeamNotFound (admin_set_team_banned d i b)) (\<lambda>d1.
         Inr (if b then delete_team_sessions i d1 else d1)))"

definition set_team_hidden :: "directory \<Rightarrow> id \<Rightarrow> bool \<Rightarrow> (admin_error, directory) result" where
  "set_team_hidden d i h = found AdminTeamNotFound (admin_set_team_hidden d i h)"

subsection \<open>Rosters: team_roster.go\<close>

definition zero_row_reason :: "directory \<Rightarrow> id \<Rightarrow> id \<Rightarrow> admin_error" where
  "zero_row_reason d team user =
    (if \<not> admin_team_exists d team then AdminTeamNotFound
     else if user_by_id d user = None then AdminUserNotFound else AdminUserNotOnTeam)"

definition admin_detach_member :: "id \<Rightarrow> id \<Rightarrow> directory \<Rightarrow> int \<times> directory" where
  "admin_detach_member user team d =
    (let p = (\<lambda>u. us_id u = user \<and> us_team u = Some team)
     in (rows_where d p, map_users p (\<lambda>u. u\<lparr>us_team := None\<rparr>) d))"

definition detach_member :: "directory \<Rightarrow> id \<Rightarrow> id \<Rightarrow> (admin_error, directory) result" where
  "detach_member d team user =
    (let (n, d1) = admin_detach_member user team d in
     if n = 0 then Inl (zero_row_reason d team user)
     else Inr (reassign_captain_after_leave team user d1))"

record RosterMember =
  rm_user :: id
  rm_name :: string
  rm_email :: string
  rm_captain :: bool
  rm_banned :: bool
  rm_hidden :: bool

definition admin_list_team_members :: "directory \<Rightarrow> id \<Rightarrow> RosterMember list" where
  "admin_list_team_members d team =
    (case team_by_id d team of
       None \<Rightarrow> []
     | Some t \<Rightarrow>
         map (\<lambda>u. \<lparr>rm_user = us_id u, rm_name = us_name u, rm_email = us_email u,
                   rm_captain = (tm_captain t = Some (us_id u)), rm_banned = us_banned u,
                   rm_hidden = us_hidden u\<rparr>)
           (sort_key us_id (members_of d team)))"

definition list_roster :: "Mode \<Rightarrow> directory \<Rightarrow> id \<Rightarrow> (admin_error, RosterMember list) result" where
  "list_roster mode d team =
    (if mode \<noteq> ModeTeams then Inl AdminNotTeamsMode
     else if \<not> admin_team_exists d team then Inl AdminTeamNotFound
     else Inr (admin_list_team_members d team))"

definition remove_team_member :: "Mode \<Rightarrow> directory \<Rightarrow> id \<Rightarrow> id \<Rightarrow> (admin_error, directory) result" where
  "remove_team_member mode d team user =
    (if mode \<noteq> ModeTeams then Inl AdminNotTeamsMode else detach_member d team user)"

definition guard_admin_onto_banned_team :: "directory \<Rightarrow> id \<Rightarrow> id \<Rightarrow> (admin_error, unit) result" where
  "guard_admin_onto_banned_team d user to_team =
    (case user_by_id d user of
       None \<Rightarrow> Inl AdminUserNotFound
     | Some target \<Rightarrow>
         if us_role target \<noteq> ''admin'' \<or> us_banned target then Inr ()
         else
           (case admin_team_is_banned d to_team of
              None \<Rightarrow> Inl AdminTeamNotFound
            | Some dest_banned \<Rightarrow>
                if \<not> dest_banned then Inr ()
                else if admin_count_other_admins d user = 0 then Inl AdminLastAdmin else Inr ()))"

definition move_constraint :: "pg_error \<Rightarrow> admin_error" where
  "move_constraint e =
    (case e of
       PgForeign _ \<Rightarrow> AdminTeamNotFound
     | PgCheck c \<Rightarrow> if c = ''users_caps'' then AdminTeamFull else AdminDatabase e
     | PgUnique _ \<Rightarrow> AdminDatabase e)"

definition move_team_member ::
  "Mode \<Rightarrow> directory \<Rightarrow> id \<Rightarrow> id \<Rightarrow> id \<Rightarrow> (admin_error, directory) result" where
  "move_team_member mode d from_team user to_team =
    (if mode \<noteq> ModeTeams then Inl AdminNotTeamsMode
     else if from_team = to_team then Inl AdminSameTeam
     else
       bind_result (guard_admin_onto_banned_team d user to_team) (\<lambda>_.
       bind_result (detach_member d from_team user) (\<lambda>d1.
         case enroll_user d1 to_team user of
           Inl e \<Rightarrow> Inl (move_constraint e)
         | Inr (n, d2) \<Rightarrow>
             if n = 0 then Inl AdminNoRow else Inr (adopt_captainless_team user to_team d2))))"

end
