(* ===== verification/Rosters.thy ===== *)
theory Rosters
  imports Moderation
begin

section \<open>Requests on the directory and the shape of its rosters\<close>

text \<open>
  Every operation of the accounts service and of the organizers that writes to the directory, as one
  datatype of requests with one function that runs them, and the invariant of rosters that all of
  them keep: keys are unique, a member's team exists, and a team has a captain exactly when it has
  a member, the captain being one of them. The locale \<open>stepwise\<close> states what a state that requests
  act on owes an invariant; it is interpreted once per invariant.
\<close>

subsection \<open>Invariants of a stepwise state\<close>

locale stepwise =
  fixes step :: "'c \<Rightarrow> 'd \<Rightarrow> 'd"
    and ok :: "'d \<Rightarrow> bool"
  assumes step_ok: "ok d \<Longrightarrow> ok (step c d)"
begin

lemma steps_ok: "ok d \<Longrightarrow> ok (foldl (\<lambda>d c. step c d) d cs)"
  by (induction cs arbitrary: d) (simp_all add: step_ok)

end

subsection \<open>Requests\<close>

datatype account_request =
    ReqRegister time draws string string string bool string "(id \<times> raw) list"
  | ReqLogin time draws string string
  | ReqLogout string
  | ReqChangePassword time draws id string string
  | ReqAnswerFields id "(id \<times> raw) list"
  | ReqResendVerification time draws id string
  | ReqConfirmEmail time string
  | ReqChangeEmail time draws id string string
  | ReqConfirmEmailChange time string
  | ReqRequestReset time draws string string
  | ReqResetPassword time draws string string
  | ReqCreateToken time draws id "string option" int
  | ReqDeleteToken id id
  | ReqChangeName id string
  | ReqUpdateProfile id ProfilePatch
  | ReqCreateAdmin draws string string string InstanceSpec
  | ReqPromote string InstanceSpec

datatype team_request =
    ReqCreateTeam draws id string string
  | ReqJoinTeam draws id string string
  | ReqLeaveTeam id
  | ReqKick id id
  | ReqTransfer id id
  | ReqDisband id
  | ReqSetJoinSecret draws id string
  | ReqUpdateOwnTeam id TeamPatch

datatype organizer_request =
    ReqAdminUpdateUser id UserPatch
  | ReqSetUserHidden id bool
  | ReqForcePasswordChange id
  | ReqSetBanned id id bool
  | ReqSetRole id string
  | ReqSetVerified id bool
  | ReqVerifyAll
  | ReqAdminCreateTeam NewTeam
  | ReqAdminUpdateTeam id "string option" TeamPatch
  | ReqAdminSetJoinSecret id string
  | ReqSetTeamBanned id id bool
  | ReqSetTeamHidden id bool
  | ReqRemoveMember id id
  | ReqMoveMember id id id

datatype request =
  AccountRequest account_request | TeamRequest team_request | OrganizerRequest organizer_request

text \<open>The directory after a transaction: where it was, if it failed.\<close>

definition after :: "directory \<Rightarrow> ('e, directory) result \<Rightarrow> directory" where
  "after d r = (case r of Inl _ \<Rightarrow> d | Inr d' \<Rightarrow> d')"

definition after2 :: "directory \<Rightarrow> ('e, 'a \<times> directory) result \<Rightarrow> directory" where
  "after2 d r = (case r of Inl _ \<Rightarrow> d | Inr (_, d') \<Rightarrow> d')"

primrec run_account ::
  "env \<Rightarrow> account_request \<Rightarrow> directory \<Rightarrow> directory"
where
  "run_account env (ReqRegister now r n e p v c as) d = snd (register env d now r n e p v c as)"
| "run_account env (ReqLogin now r e p) d = snd (login env d now r e p)"
| "run_account env (ReqLogout sid) d = logout d sid"
| "run_account env (ReqChangePassword now r u c n) d = snd (change_password env d now r u c n)"
| "run_account env (ReqAnswerFields u as) d = snd (answer_user_fields d u as)"
| "run_account env (ReqResendVerification now r u c) d = snd (resend_verification d now r u c)"
| "run_account env (ReqConfirmEmail now t) d = snd (confirm_email d now t)"
| "run_account env (ReqChangeEmail now r u e c) d = snd (change_email env d now r u e c)"
| "run_account env (ReqConfirmEmailChange now t) d = snd (confirm_email_change env d now t)"
| "run_account env (ReqRequestReset now r e c) d = snd (request_password_reset env d now r e c)"
| "run_account env (ReqResetPassword now r t p) d = snd (reset_password env d now r t p)"
| "run_account env (ReqCreateToken now r u ds ttl) d = snd (create_token d now r u ds ttl)"
| "run_account env (ReqDeleteToken u i) d = snd (delete_token d u i)"
| "run_account env (ReqChangeName u n) d = snd (change_name d u n)"
| "run_account env (ReqUpdateProfile u p) d = snd (update_profile d u p)"
| "run_account env (ReqCreateAdmin r n e p s) d = snd (create_admin env d r n e p s)"
| "run_account env (ReqPromote e s) d = snd (promote_to_admin env d e s)"

primrec run_team ::
  "env \<Rightarrow> team_request \<Rightarrow> directory \<Rightarrow> directory"
where
  "run_team env (ReqCreateTeam r u n p) d = after d (create_team env d r u n p)"
| "run_team env (ReqJoinTeam r u n p) d = snd (join_team env d r u n p)"
| "run_team env (ReqLeaveTeam u) d = after d (leave_team d u)"
| "run_team env (ReqKick a m) d = after d (kick_member d a m)"
| "run_team env (ReqTransfer a n) d = after d (transfer_captaincy d a n)"
| "run_team env (ReqDisband a) d = after d (disband_team d a)"
| "run_team env (ReqSetJoinSecret r a s) d = after d (set_join_secret env d r a s)"
| "run_team env (ReqUpdateOwnTeam u p) d = after d (update_own_team env d u p)"

primrec run_organizer ::
  "env \<Rightarrow> Mode \<Rightarrow> organizer_request \<Rightarrow> directory \<Rightarrow> directory"
where
  "run_organizer env mode (ReqAdminUpdateUser u p) d = after d (admin_update_user d u p)"
| "run_organizer env mode (ReqSetUserHidden u h) d = after d (set_user_hidden d u h)"
| "run_organizer env mode (ReqForcePasswordChange u) d = after2 d (force_password_change d u)"
| "run_organizer env mode (ReqSetBanned a u b) d = after d (set_banned d a u b)"
| "run_organizer env mode (ReqSetRole u r) d = after d (set_role d u r)"
| "run_organizer env mode (ReqSetVerified u v) d = after d (set_verified d u v)"
| "run_organizer env mode ReqVerifyAll d = snd (verify_all d)"
| "run_organizer env mode (ReqAdminCreateTeam n) d = after2 d (admin_create_team env d n)"
| "run_organizer env mode (ReqAdminUpdateTeam t n p) d = after d (admin_update_team env d t n p)"
| "run_organizer env mode (ReqAdminSetJoinSecret t h) d = after d (set_team_join_secret d t h)"
| "run_organizer env mode (ReqSetTeamBanned a t b) d = after d (set_team_banned d a t b)"
| "run_organizer env mode (ReqSetTeamHidden t h) d = after d (set_team_hidden d t h)"
| "run_organizer env mode (ReqRemoveMember t u) d = after d (remove_team_member mode d t u)"
| "run_organizer env mode (ReqMoveMember f u t) d = after d (move_team_member mode d f u t)"

definition run_request :: "env \<Rightarrow> Mode \<Rightarrow> request \<Rightarrow> directory \<Rightarrow> directory" where
  "run_request env mode req d =
    (case req of
       AccountRequest r \<Rightarrow> run_account env r d
     | TeamRequest r \<Rightarrow> run_team env r d
     | OrganizerRequest r \<Rightarrow> run_organizer env mode r d)"

subsection \<open>The part of the directory that rosters and roles live in\<close>

definition people_view :: "directory \<Rightarrow> (id \<times> id option \<times> string \<times> bool) list" where
  "people_view d = map (\<lambda>u. (us_id u, us_team u, us_role u, us_banned u)) (people d)"

definition rosters_view :: "directory \<Rightarrow> (id \<times> id option \<times> bool) list" where
  "rosters_view d = map (\<lambda>t. (tm_id t, tm_captain t, tm_banned t)) (rosters d)"

text \<open>What a request that has nothing to do with rosters, roles and bans leaves alone.\<close>

definition same_rosters :: "directory \<Rightarrow> directory \<Rightarrow> bool" where
  "same_rosters d d' \<longleftrightarrow>
    people_view d' = people_view d \<and> rosters_view d' = rosters_view d \<and> next_user d' = next_user d
    \<and> next_team d' = next_team d \<and> team_size_cap d' = team_size_cap d \<and> ledger d' = ledger d"

lemma same_rosters_refl [simp]: "same_rosters d d"
  by (simp add: same_rosters_def)

lemma same_rosters_trans: "same_rosters d d' \<Longrightarrow> same_rosters d' d'' \<Longrightarrow> same_rosters d d''"
  by (simp add: same_rosters_def)

lemma same_fields [frame]:
  "same_rosters d (d'\<lparr>sessions := s\<rparr>) = same_rosters d d'"
  "same_rosters d (d'\<lparr>tokens := ts\<rparr>) = same_rosters d d'"
  "same_rosters d (d'\<lparr>next_token := n\<rparr>) = same_rosters d d'"
  "same_rosters d (d'\<lparr>email_tokens := es\<rparr>) = same_rosters d d'"
  "same_rosters d (d'\<lparr>entries := en\<rparr>) = same_rosters d d'"
  "same_rosters d (d'\<lparr>outbox := ms\<rparr>) = same_rosters d d'"
  "same_rosters d (d'\<lparr>instance_mode := im\<rparr>) = same_rosters d d'"
  "same_rosters d (d'\<lparr>setup_complete := sc\<rparr>) = same_rosters d d'"
  by (simp_all add: same_rosters_def people_view_def rosters_view_def)

lemma same_map_users [frame]:
  assumes "\<And>u. us_id (f u) = us_id u \<and> us_team (f u) = us_team u \<and> us_role (f u) = us_role u
    \<and> us_banned (f u) = us_banned u"
  shows "same_rosters d (map_users p f d') = same_rosters d d'"
proof -
  have "people_view (map_users p f d') = people_view d'"
    by (simp add: people_view_def map_users_def assms)
  then show ?thesis by (simp add: same_rosters_def rosters_view_def map_users_def)
qed

lemma same_map_teams [frame]:
  assumes "\<And>t. tm_id (f t) = tm_id t \<and> tm_captain (f t) = tm_captain t \<and> tm_banned (f t) = tm_banned t"
  shows "same_rosters d (map_teams p f d') = same_rosters d d'"
proof -
  have "rosters_view (map_teams p f d') = rosters_view d'"
    by (simp add: rosters_view_def map_teams_def assms)
  then show ?thesis by (simp add: same_rosters_def people_view_def map_teams_def)
qed

lemmas row_updates =
  update_user_def update_team_def delete_sessions_def delete_session_def delete_user_sessions_def
  delete_tokens_def delete_user_api_tokens_def delete_api_token_def

subsection \<open>Requests that leave rosters and roles alone\<close>

lemma result_splits [frame]:
  "same_rosters d (snd (atomically d1 r)) \<longleftrightarrow>
    (case r of Inl _ \<Rightarrow> same_rosters d d1 | Inr (_, d') \<Rightarrow> same_rosters d d')"
  "same_rosters d (after d1 r1) \<longleftrightarrow>
    (case r1 of Inl _ \<Rightarrow> same_rosters d d1 | Inr d' \<Rightarrow> same_rosters d d')"
  "same_rosters d (after2 d1 r2) \<longleftrightarrow>
    (case r2 of Inl _ \<Rightarrow> same_rosters d d1 | Inr (_, d') \<Rightarrow> same_rosters d d')"
  by (auto simp: atomically_def after_def after2_def split: sum.splits)

lemma mint_session_same:
  "mint_session d1 now r u h = Inr (s, d2) \<Longrightarrow> same_rosters d d2 = same_rosters d d1"
  by (auto simp: mint_session_def bind_result_Inr_iff lift_pg_def create_session_def frame
      split: sum.splits if_splits)

lemma enqueue_token_email_same:
  "enqueue_token_email d1 now r u e p ttl c = Inr d2 \<Longrightarrow> same_rosters d d2 = same_rosters d d1"
  by (auto simp: enqueue_token_email_def bind_result_Inr_iff lift_pg_def create_email_token_def frame
      split: sum.splits if_splits prod.splits)

lemma consume_email_token_same:
  "consume_email_token d1 now h p = Some (u, d2) \<Longrightarrow> same_rosters d d2 = same_rosters d d1"
  by (auto simp: consume_email_token_def frame split: option.splits)

lemma renamed_error: "(case x of Inl y \<Rightarrow> Inl (g y) | Inr z \<Rightarrow> Inr z) = Inr w \<longleftrightarrow> x = Inr w"
  by (simp split: sum.splits)

lemma entry_same [frame]:
  "same_rosters d (upsert_user_field_entry f u v d') = same_rosters d d'"
  "same_rosters d (delete_user_field_entry f u d') = same_rosters d d'"
  by (simp_all add: upsert_user_field_entry_def delete_user_field_entry_def frame)

lemma answer_loop_same:
  "answer_loop rows u as d1 = Inr d2 \<Longrightarrow> same_rosters d d2 = same_rosters d d1"
  by (induction rows u as d1 rule: answer_loop.induct)
    (simp_all add: frame split: option.splits if_splits sum.splits prod.splits)

lemma write_answers_same:
  "write_answers defs u as ans d1 = Inr (xs, d2) \<Longrightarrow> same_rosters d d2 = same_rosters d d1"
  by (induction defs u as ans d1 rule: write_answers.induct)
    (simp_all add: frame split: option.splits if_splits sum.splits prod.splits)

fun quiet :: "account_request \<Rightarrow> bool" where
  "quiet (ReqRegister _ _ _ _ _ _ _ _) = False"
| "quiet (ReqCreateAdmin _ _ _ _ _) = False"
| "quiet (ReqPromote _ _) = False"
| "quiet _ = True"

lemma login_same: "same_rosters d (snd (login env d now r e p))"
  by (auto simp: login_def frame row_updates update_password_hash_def mint_session_same Let_def
      split: option.splits prod.splits sum.splits)

lemma change_password_same: "same_rosters d (snd (change_password env d now r u c n))"
  by (auto simp: change_password_def frame row_updates update_password_and_clear_forced_change_def
      mint_session_same bind_result_Inr_iff Let_def split: option.splits prod.splits sum.splits)

lemma answer_user_fields_same: "same_rosters d (snd (answer_user_fields d u as))"
  by (auto simp: answer_user_fields_def frame bind_result_Inr_iff answer_loop_same
      split: sum.splits prod.splits)

lemma resend_same: "same_rosters d (snd (resend_verification d now r u c))"
  by (auto simp: resend_verification_def enqueue_verification_def frame bind_result_Inr_iff
      enqueue_token_email_same split: option.splits sum.splits prod.splits)

lemma confirm_email_same: "same_rosters d (snd (confirm_email d now t))"
  by (auto simp: confirm_email_def mark_user_verified_def frame row_updates consume_email_token_same
      split: option.splits)

lemma change_email_same: "same_rosters d (snd (change_email env d now r u e c))"
  by (auto simp: change_email_def set_pending_email_def frame row_updates enqueue_token_email_same
      split: option.splits sum.splits if_splits)

lemma confirm_email_change_same: "same_rosters d (snd (confirm_email_change env d now t))"
  by (auto simp: confirm_email_change_def confirm_email_change_row_def frame row_updates
      consume_email_token_same split: option.splits sum.splits if_splits)

lemma request_password_reset_same: "same_rosters d (snd (request_password_reset env d now r e c))"
  by (auto simp: request_password_reset_def frame bind_result_Inr_iff enqueue_token_email_same
      split: option.splits sum.splits prod.splits)

lemma reset_password_same: "same_rosters d (snd (reset_password env d now r t p))"
  by (auto simp: reset_password_def frame row_updates update_password_and_clear_forced_change_def
      consume_email_token_same Let_def split: option.splits sum.splits)

lemma create_token_same: "same_rosters d (snd (create_token d now r u ds ttl))"
  by (auto simp: create_token_def frame bind_result_Inr_iff lift_pg_def create_api_token_def Let_def
      split: sum.splits prod.splits if_splits)

lemma update_profile_same: "same_rosters d (snd (update_profile d u p))"
  by (auto simp: update_profile_def update_own_profile_def frame row_updates Let_def)

lemma quiet_same:
  assumes "quiet r"
  shows "same_rosters d (run_account env r d)"
  using assms
  by (cases r)
    (simp_all add: login_same change_password_same answer_user_fields_same resend_same
      confirm_email_same change_email_same confirm_email_change_same request_password_reset_same
      reset_password_same create_token_same update_profile_same logout_def delete_token_def
      change_name_def update_user_name_def frame row_updates Let_def)

text \<open>The same for what captains and organizers write outside the columns of rosters and roles.\<close>

lemma patch_team_keeps [simp]:
  "tm_id (patch_team p t) = tm_id t" "tm_captain (patch_team p t) = tm_captain t"
  "tm_banned (patch_team p t) = tm_banned t"
  by (simp_all add: patch_team_def)

lemma set_join_secret_same: "same_rosters d (after d (set_join_secret env d r a s))"
  by (auto simp: set_join_secret_def set_join_secret_by_captain_def frame bind_result_Inr_iff Let_def
      split: sum.splits if_splits)

lemma update_own_team_same: "same_rosters d (after d (update_own_team env d u p))"
  by (auto simp: update_own_team_def update_team_by_captain_def frame Let_def
      split: sum.splits if_splits option.splits prod.splits)

lemma rehash_same [frame]: "same_rosters d (rehash_team_password env r t p d') = same_rosters d d'"
  by (simp add: rehash_team_password_def update_team_password_hash_def frame row_updates
      split: sum.splits)

lemma returning_same:
  "(\<And>u. us_id (f u) = us_id u \<and> us_team (f u) = us_team u \<and> us_role (f u) = us_role u
      \<and> us_banned (f u) = us_banned u) \<Longrightarrow> returning_user d i f = Some d' \<Longrightarrow> same_rosters d d'"
  "(\<And>t. tm_id (g t) = tm_id t \<and> tm_captain (g t) = tm_captain t \<and> tm_banned (g t) = tm_banned t)
    \<Longrightarrow> returning_team d i g = Some d' \<Longrightarrow> same_rosters d d'"
  by (auto simp: returning_user_def returning_team_def frame row_updates split: if_splits)

lemma found_Inr [simp]: "found e r = Inr x \<longleftrightarrow> r = Some x"
  by (simp add: found_def split: option.splits)

lemma user_columns_same:
  "same_rosters d (after d (admin_update_user d i up))"
  "same_rosters d (after d (set_user_hidden d i h))"
  "same_rosters d (after d (set_verified d i h))"
  "same_rosters d (snd (verify_all d))"
  by (auto simp: admin_update_user_def admin_update_user_row_def set_user_hidden_def
      admin_set_user_hidden_def set_verified_def admin_set_user_verified_def verify_all_def
      admin_verify_all_users_def frame elim: returning_same(1) [rotated] split: sum.splits)

lemma force_password_change_same: "same_rosters d (after2 d (force_password_change d i))"
  by (auto simp: force_password_change_def admin_force_password_change_def frame bind_result_Inr_iff
      row_updates returning_user_def split: sum.splits prod.splits if_splits)

lemma team_columns_same:
  "same_rosters d (after d (admin_update_team env d i n p))"
  "same_rosters d (after d (set_team_join_secret d i s))"
  "same_rosters d (after d (set_team_hidden d i h))"
  by (auto simp: admin_update_team_def admin_update_team_row_def set_team_join_secret_def
      admin_set_team_join_secret_def set_team_hidden_def admin_set_team_hidden_def frame
      elim: returning_same(2) [rotated] split: sum.splits option.splits if_splits)

end
