(* ===== verification/Roster_Invariants.thy ===== *)
theory Roster_Invariants
  imports Rosters
begin

section \<open>Seats are filled and an administrator remains\<close>

text \<open>
  Two invariants of the directory that every request keeps: teams have a captain exactly when they
  have members (\<open>roster_ok\<close>), and some administrator can still use the instance
  (\<open>has_usable_admin\<close>). The lemmas follow the writes the requests are made of: a member detached, a
  member enrolled, a seat handed over, a team created or disbanded, a column rewritten.
\<close>

subsection \<open>The invariants\<close>

definition on_team :: "directory \<Rightarrow> id \<Rightarrow> id \<Rightarrow> bool" where
  "on_team d i t \<longleftrightarrow> list_ex (\<lambda>u. us_id u = i \<and> us_team u = Some t) (people d)"

definition seat_ok :: "directory \<Rightarrow> TeamRow \<Rightarrow> bool" where
  "seat_ok d r \<longleftrightarrow>
    (case tm_captain r of
       None \<Rightarrow> members_of d (tm_id r) = []
     | Some c \<Rightarrow> on_team d c (tm_id r))"

definition keys_ok :: "directory \<Rightarrow> bool" where
  "keys_ok d \<longleftrightarrow> distinct (map us_id (people d)) \<and> distinct (map tm_id (rosters d))
    \<and> list_all (\<lambda>u. us_id u < next_user d) (people d) \<and> list_all (\<lambda>r. tm_id r < next_team d) (rosters d)
    \<and> list_all (\<lambda>u. us_team u = None \<or> us_team u \<in> set (map (\<lambda>r. Some (tm_id r)) (rosters d))) (people d)"

definition roster_ok :: "directory \<Rightarrow> bool" where
  "roster_ok d \<longleftrightarrow> keys_ok d \<and> list_all (seat_ok d) (rosters d)"

definition has_usable_admin :: "directory \<Rightarrow> bool" where
  "has_usable_admin d \<longleftrightarrow> list_ex (usable_admin d) (people d)"

text \<open>No team above the cap in force.\<close>

definition sizes_ok :: "directory \<Rightarrow> bool" where
  "sizes_ok d \<longleftrightarrow>
    (case team_size_cap d of
       None \<Rightarrow> True
     | Some c \<Rightarrow> 0 < c \<longrightarrow> list_all (\<lambda>r. int (length (members_of d (tm_id r))) \<le> c) (rosters d))"

subsection \<open>Both depend on the views only\<close>

lemma find_map_view: "find q (map f xs) = map_option f (find (q \<circ> f) xs)"
  by (induction xs) auto

lemma members_view: "members_of d t = [] \<longleftrightarrow> (\<forall>x\<in>set (people_view d). fst (snd x) \<noteq> Some t)"
  by (auto simp: members_of_def people_view_def filter_empty_conv)

lemma on_team_view: "on_team d i t \<longleftrightarrow> (\<exists>x\<in>set (people_view d). fst x = i \<and> fst (snd x) = Some t)"
  by (auto simp: on_team_def people_view_def list_ex_iff)

lemma size_view: "length (members_of d t) = length (filter (\<lambda>x. fst (snd x) = Some t) (people_view d))"
  by (simp add: members_of_def people_view_def filter_map o_def)

lemma keys_view:
  "keys_ok d \<longleftrightarrow> distinct (map fst (people_view d)) \<and> distinct (map fst (rosters_view d))
    \<and> (\<forall>x\<in>set (people_view d). fst x < next_user d) \<and> (\<forall>x\<in>set (rosters_view d). fst x < next_team d)
    \<and> (\<forall>x\<in>set (people_view d). fst (snd x) = None \<or> fst (snd x) \<in> (\<lambda>y. Some (fst y)) ` set (rosters_view d))"
  by (simp add: keys_ok_def people_view_def rosters_view_def list_all_iff o_def image_image)

lemma seats_view:
  "list_all (seat_ok d) (rosters d) \<longleftrightarrow>
    (\<forall>y\<in>set (rosters_view d).
       case fst (snd y) of
         None \<Rightarrow> (\<forall>x\<in>set (people_view d). fst (snd x) \<noteq> Some (fst y))
       | Some c \<Rightarrow> (\<exists>x\<in>set (people_view d). fst x = c \<and> fst (snd x) = Some (fst y)))"
  by (auto simp: rosters_view_def list_all_iff seat_ok_def members_view on_team_view
      split: option.splits)

lemma team_banned_view:
  "map_option tm_banned (team_by_id d t)
    = map_option (\<lambda>x. snd (snd x)) (find (\<lambda>x. fst x = t) (rosters_view d))"
  by (simp add: team_by_id_def rosters_view_def find_map_view o_def option.map_comp)

lemma walled_by_map:
  "(case Option.bind x f of None \<Rightarrow> True | Some t \<Rightarrow> \<not> g t)
    = (Option.bind x (\<lambda>i. map_option g (f i)) \<noteq> Some True)"
  by (cases x) (auto split: option.splits)

lemma usable_admin_iff:
  "usable_admin d u \<longleftrightarrow> us_role u = ''admin'' \<and> \<not> us_banned u
    \<and> Option.bind (us_team u) (\<lambda>t. map_option tm_banned (team_by_id d t)) \<noteq> Some True"
  by (simp add: usable_admin_def walled_by_map)

lemma admin_view:
  "has_usable_admin d \<longleftrightarrow>
    (\<exists>x\<in>set (people_view d). fst (snd (snd x)) = ''admin'' \<and> \<not> snd (snd (snd x))
      \<and> Option.bind (fst (snd x))
          (\<lambda>t. map_option (\<lambda>x. snd (snd x)) (find (\<lambda>x. fst x = t) (rosters_view d))) \<noteq> Some True)"
  by (simp add: has_usable_admin_def people_view_def list_ex_iff usable_admin_iff team_banned_view)

lemma same_rosters_inv:
  assumes "same_rosters d d'"
  shows "roster_ok d' = roster_ok d" "has_usable_admin d' = has_usable_admin d"
proof -
  have eqs: "people_view d' = people_view d" "rosters_view d' = rosters_view d"
    "next_user d' = next_user d" "next_team d' = next_team d"
    using assms by (simp_all add: same_rosters_def)
  show "roster_ok d' = roster_ok d" unfolding roster_ok_def keys_view seats_view eqs ..
  show "has_usable_admin d' = has_usable_admin d" unfolding admin_view eqs ..
qed

lemma sizes_view:
  "sizes_ok d \<longleftrightarrow>
    (case team_size_cap d of
       None \<Rightarrow> True
     | Some c \<Rightarrow> 0 < c \<longrightarrow> (\<forall>y\<in>set (rosters_view d).
         int (length (filter (\<lambda>x. fst (snd x) = Some (fst y)) (people_view d))) \<le> c))"
  by (simp add: sizes_ok_def rosters_view_def list_all_iff size_view split: option.split)

lemma same_rosters_sizes: "same_rosters d d' \<Longrightarrow> sizes_ok d' = sizes_ok d"
  unfolding sizes_view same_rosters_def by (elim conjE) (simp only:)

subsection \<open>Writes to the rosters\<close>

abbreviation unseat :: "UserRow \<Rightarrow> UserRow" where
  "unseat u \<equiv> u\<lparr>us_team := None\<rparr>"

lemma people_simps [simp]:
  "people (map_users p f d) = map (\<lambda>u. if p u then f u else u) (people d)"
  "rosters (map_users p f d) = rosters d" "people (map_teams q g d) = people d"
  "rosters (map_teams q g d) = map (\<lambda>t. if q t then g t else t) (rosters d)"
  "next_user (map_users p f d) = next_user d" "next_team (map_users p f d) = next_team d"
  "next_user (map_teams q g d) = next_user d" "next_team (map_teams q g d) = next_team d"
  "team_size_cap (map_users p f d) = team_size_cap d" "team_size_cap (map_teams q g d) = team_size_cap d"
  by (simp_all add: map_users_def map_teams_def)

lemma map_if_key: "(\<And>x. k (f x) = k x) \<Longrightarrow> map (k \<circ> (\<lambda>x. if p x then f x else x)) xs = map k xs"
  by auto

lemma keys_unseat [inv]: "keys_ok d \<Longrightarrow> keys_ok (map_users p unseat d)"
  by (auto simp: keys_ok_def list_all_iff map_if_key)

lemma keys_ids:
  "keys_ok d \<longleftrightarrow> distinct (map us_id (people d)) \<and> distinct (map tm_id (rosters d))
    \<and> (\<forall>i\<in>set (map us_id (people d)). i < next_user d) \<and> (\<forall>i\<in>set (map tm_id (rosters d)). i < next_team d)
    \<and> (\<forall>t\<in>set (map us_team (people d)). t = None \<or> t \<in> Some ` set (map tm_id (rosters d)))"
  by (simp add: keys_ok_def list_all_iff image_image)

lemma keys_map_teams: "(\<And>t. tm_id (g t) = tm_id t) \<Longrightarrow> keys_ok (map_teams q g d) = keys_ok d"
  unfolding keys_ids people_simps map_map by (simp only: map_if_key)

lemma keys_map_users:
  "(\<And>u. us_id (f u) = us_id u \<and> us_team (f u) = us_team u) \<Longrightarrow> keys_ok (map_users p f d) = keys_ok d"
  unfolding keys_ids people_simps map_map by (simp only: map_if_key)

lemma seat_map_teams: "seat_ok (map_teams q g d) r = seat_ok d r"
  by (simp add: seat_ok_def members_of_def on_team_def split: option.splits)

text \<open>Taking members off a team leaves the seats alone that none of them holds.\<close>

lemma unseat_seat:
  assumes "seat_ok d r"
    and "\<And>u. u \<in> set (people d) \<Longrightarrow> p u \<Longrightarrow> us_team u = Some (tm_id r) \<Longrightarrow> tm_captain r \<noteq> Some (us_id u)"
  shows "seat_ok (map_users p unseat d) r"
proof (cases "tm_captain r")
  case None
  then have "\<forall>u\<in>set (people d). us_team u \<noteq> Some (tm_id r)"
    using assms(1) by (simp add: seat_ok_def members_of_def filter_empty_conv)
  then show ?thesis using None by (auto simp: seat_ok_def members_of_def filter_empty_conv)
next
  case (Some c)
  then obtain u where "u \<in> set (people d)" "us_id u = c" "us_team u = Some (tm_id r)"
    using assms(1) by (auto simp: seat_ok_def on_team_def list_ex_iff)
  moreover have "\<not> p u" using assms(2) [of u] Some calculation by blast
  ultimately show ?thesis using Some by (force simp: seat_ok_def on_team_def list_ex_iff)
qed

lemma least_member_on: "least_member d t = Some c \<Longrightarrow> on_team d c t"
proof -
  assume c: "least_member d t = Some c"
  have min: "foldl min i is \<in> set (i # is)" for i and "is" :: "id list"
    by (induction "is" arbitrary: i) (auto simp: min_def)
  obtain i "is" where "map us_id (members_of d t) = i # is" "c = foldl min i is"
    using c by (auto simp: least_member_def split: list.splits)
  then have "c \<in> us_id ` set (members_of d t)" by (metis min list.set_map)
  then show ?thesis by (auto simp: members_of_def on_team_def list_ex_iff)
qed

lemma least_member_none: "least_member d t = None \<longleftrightarrow> members_of d t = []"
  by (cases "members_of d t") (simp_all add: least_member_def)

lemma detach_ok [inv]:
  assumes ok: "roster_ok d"
    and p: "\<And>u. u \<in> set (people d) \<Longrightarrow> p u \<Longrightarrow> us_id u = i \<and> us_team u = Some t"
  shows "roster_ok (reassign_captain_after_leave t i (map_users p unseat d))"
    (is "roster_ok (reassign_captain_after_leave t i ?d)")
proof -
  have seats: "seat_ok ?d (if tm_id r = t \<and> tm_captain r = Some i
      then r\<lparr>tm_captain := least_member ?d t\<rparr> else r)"
    if "r \<in> set (rosters d)" for r
  proof (cases "tm_id r = t \<and> tm_captain r = Some i")
    case True
    then show ?thesis
      using least_member_on [of ?d t] least_member_none [of ?d t]
      by (cases "least_member ?d t") (simp_all add: seat_ok_def)
  next
    case False
    have "seat_ok d r" using ok that by (simp add: roster_ok_def list_all_iff)
    then show ?thesis
      unfolding if_not_P [OF False]
      by (rule unseat_seat) (use p False in auto)
  qed
  have "keys_ok ?d" using ok by (simp add: roster_ok_def keys_unseat)
  then show ?thesis
    unfolding roster_ok_def reassign_captain_after_leave_def list_all_iff
    using seats by (simp add: keys_map_teams seat_map_teams del: if_image_distrib)
qed

lemma unseat_ok:
  assumes "roster_ok d"
    and "\<And>u r. u \<in> set (people d) \<Longrightarrow> r \<in> set (rosters d) \<Longrightarrow> p u \<Longrightarrow> us_team u = Some (tm_id r)
      \<Longrightarrow> tm_captain r \<noteq> Some (us_id u)"
  shows "roster_ok (map_users p unseat d)"
  using assms keys_unseat [of d p] by (auto simp: roster_ok_def list_all_iff intro!: unseat_seat)

text \<open>A member enrolled: every seat is filled, or is the one an adoption is about to fill.\<close>

lemma find_user: "distinct (map us_id (people d)) \<Longrightarrow> u \<in> set (people d) \<Longrightarrow> us_id u = i \<Longrightarrow> user_by_id d i = Some u"
  unfolding user_by_id_def by (induction "people d") (auto simp: find_Some_iff intro!: find_distinct [where P = "\<lambda>_. True", simplified])

lemma enroll_userD:
  assumes "enroll_user d t i = Inr (n, d1)" "n \<noteq> 0"
  obtains u where "u \<in> set (people d)" "us_id u = i" "us_team u = None"
    "d1 = update_user i (\<lambda>u. u\<lparr>us_team := Some t\<rparr>) d" "\<not> team_full d t" "team_by_id d t \<noteq> None"
  using assms by (auto simp: enroll_user_def dest!: find_Some_in split: option.splits if_splits)

lemma enroll_seats:
  assumes keys: "keys_ok d" and e: "enroll_user d t i = Inr (n, d1)" "n \<noteq> 0"
    and r: "r \<in> set (rosters d)" "seat_ok d r \<or> tm_id r = t \<and> tm_captain r = Some i"
  shows "keys_ok d1" "rosters d1 = rosters d"
    "seat_ok d1 r \<or> tm_id r = t \<and> tm_captain r = None \<and> length (members_of d1 t) = 1"
    "on_team d1 i t"
proof -
  obtain u where u: "u \<in> set (people d)" "us_id u = i" "us_team u = None"
    and d1: "d1 = map_users (\<lambda>u. us_id u = i) (\<lambda>u. u\<lparr>us_team := Some t\<rparr>) d"
    and t: "team_by_id d t \<noteq> None"
    using enroll_userD [OF e] by (metis update_user_def)
  have dist: "distinct (map us_id (people d))" using keys by (simp add: keys_ok_def)
  have only: "v = u" if "v \<in> set (people d)" "us_id v = i" for v
    using distinct_map_eqD [OF dist that(1) u(1)] that(2) u(2) by simp
  have "\<exists>r\<in>set (rosters d). tm_id r = t"
    using t by (auto simp: team_by_id_def find_None_iff)
  then show "keys_ok d1"
    using keys unfolding d1 keys_ok_def list_all_iff by (auto simp: map_if_key)
  show "rosters d1 = rosters d" by (simp add: d1)
  show on: "on_team d1 i t"
    unfolding d1 on_team_def list_ex_iff people_simps set_map
    by (rule bexI [OF _ imageI [OF u(1)]]) (simp add: u)
  show "seat_ok d1 r \<or> tm_id r = t \<and> tm_captain r = None \<and> length (members_of d1 t) = 1"
  proof (cases "tm_captain r")
    case (Some c)
    have "on_team d1 c (tm_id r)" if "on_team d c (tm_id r)"
      using that only u(3) by (force simp: d1 on_team_def list_ex_iff)
    then show ?thesis using Some on r(2) by (auto simp: seat_ok_def)
  next
    case None
    then have empty: "members_of d (tm_id r) = []" using r(2) by (simp add: seat_ok_def)
    show ?thesis
    proof (cases "tm_id r = t")
      case False
      then have "members_of d1 (tm_id r) = []"
        using empty by (auto simp: d1 members_of_def filter_empty_conv)
      then show ?thesis using None by (simp add: seat_ok_def)
    next
      case True
      have "length (members_of d1 t) = length (filter (\<lambda>v. us_id v = i) (people d))"
      proof -
        have "filter (\<lambda>v. us_team (if us_id v = i then v\<lparr>us_team := Some t\<rparr> else v) = Some t) (people d)
            = filter (\<lambda>v. us_id v = i) (people d)"
          using empty True by (intro filter_cong) (auto simp: members_of_def filter_empty_conv)
        then show ?thesis by (simp add: d1 members_of_def filter_map o_def)
      qed
      moreover have "filter (\<lambda>v. us_id v = i) (people d) \<noteq> []"
        using u by (auto simp: filter_empty_conv)
      ultimately have "length (members_of d1 t) = 1"
        using distinct_map_count [OF dist, of i] by (cases "filter (\<lambda>v. us_id v = i) (people d)") auto
      then show ?thesis using None True by simp
    qed
  qed
qed

lemma enroll_adopt_ok [inv]:
  assumes "roster_ok d" "enroll_user d t i = Inr (n, d1)" "n \<noteq> 0"
  shows "roster_ok (adopt_captainless_team i t d1)"
proof -
  have keys: "keys_ok d" using assms(1) by (simp add: roster_ok_def)
  have seat: "seat_ok d r" if "r \<in> set (rosters d)" for r
    using assms(1) that by (simp add: roster_ok_def list_all_iff)
  obtain u where "team_by_id d t \<noteq> None" using enroll_userD [OF assms(2,3)] by metis
  then obtain r0 where r0: "r0 \<in> set (rosters d)" by (auto simp: team_by_id_def find_None_iff)
  note facts = enroll_seats [OF keys assms(2,3)]
  have "keys_ok d1" "rosters d1 = rosters d" "on_team d1 i t" using facts [OF r0] seat [OF r0] by blast+
  moreover have "seat_ok d1 (if tm_id r = t \<and> tm_captain r = None \<and> length (members_of d1 t) = 1
      then r\<lparr>tm_captain := Some i\<rparr> else r)" if "r \<in> set (rosters d)" for r
    using facts(3) [OF that] seat [OF that] \<open>on_team d1 i t\<close> by (auto simp: seat_ok_def)
  ultimately show ?thesis
    unfolding roster_ok_def adopt_captainless_team_def list_all_iff
    by (simp add: keys_map_teams seat_map_teams del: if_image_distrib)
qed

text \<open>A team founded: its row first, its captain enrolled on it next.\<close>

lemma new_team_keys:
  assumes "keys_ok d" "tm_id r = next_team d"
  shows "keys_ok (d\<lparr>rosters := rosters d @ [r], next_team := next_team d + 1\<rparr>)"
proof -
  have "list_all (\<lambda>r. tm_id r < next_team d) (rosters d)" using assms(1) by (simp add: keys_ok_def)
  then have "tm_id r \<notin> tm_id ` set (rosters d)" "\<forall>r\<in>set (rosters d). tm_id r < next_team d + 1"
    using assms(2) by (force simp: list_all_iff)+
  then show ?thesis using assms by (auto simp: keys_ok_def list_all_iff)
qed

lemma seat_other_fields [simp]:
  "seat_ok (d\<lparr>rosters := rs, next_team := n\<rparr>) r = seat_ok d r"
  "seat_ok (d\<lparr>rosters := rs\<rparr>) r = seat_ok d r"
  "members_of (d\<lparr>rosters := rs, next_team := n\<rparr>) t = members_of d t"
  by (simp_all add: seat_ok_def members_of_def on_team_def split: option.splits)

lemma fresh_team_empty:
  assumes "keys_ok d"
  shows "members_of d (next_team d) = []"
  using assms by (fastforce simp: keys_ok_def members_of_def filter_empty_conv list_all_iff)

lemma empty_team_ok [inv]:
  assumes "roster_ok d" "tm_id r = next_team d" "tm_captain r = None"
  shows "roster_ok (d\<lparr>rosters := rosters d @ [r], next_team := next_team d + 1\<rparr>)"
  using assms new_team_keys [of d r] fresh_team_empty [of d]
  by (auto simp: roster_ok_def list_all_iff) (simp add: seat_ok_def)

lemma founded_team_ok:
  assumes ok: "roster_ok d" and r: "tm_id r = next_team d" "tm_captain r = Some i"
    and e: "enroll_user (d\<lparr>rosters := rosters d @ [r], next_team := next_team d + 1\<rparr>) (next_team d) i
      = Inr (n, d1)" "n \<noteq> 0"
  shows "roster_ok d1"
proof -
  let ?d = "d\<lparr>rosters := rosters d @ [r], next_team := next_team d + 1\<rparr>"
  have keys: "keys_ok ?d" using ok r by (simp add: roster_ok_def new_team_keys)
  have seat: "seat_ok ?d s \<or> tm_id s = next_team d \<and> tm_captain s = Some i" if "s \<in> set (rosters ?d)" for s
    using ok r that by (auto simp: roster_ok_def list_all_iff)
  have new: "tm_captain s = Some i" if "s \<in> set (rosters ?d)" "tm_id s = next_team d" for s
    using keys that r by (auto simp: keys_ok_def image_iff)
  note facts = enroll_seats [OF keys e _ seat]
  have "keys_ok d1" "rosters d1 = rosters ?d" using facts [of r] by simp_all
  moreover have "seat_ok d1 s" if "s \<in> set (rosters ?d)" for s
    using facts(3) [OF that that] new [OF that] by auto
  ultimately show ?thesis by (simp add: roster_ok_def list_all_iff)
qed

text \<open>The seat handed over, a team disbanded, an account created, other columns written.\<close>

lemma transfer_ok [inv]:
  assumes "roster_ok d"
  shows "roster_ok (snd (transfer_captaincy_row new actor d))"
proof -
  have "seat_ok d (if tm_captain r = Some actor
        \<and> list_ex (\<lambda>m. us_id m = new \<and> us_team m = Some (tm_id r)) (people d)
      then r\<lparr>tm_captain := Some new\<rparr> else r)" if "r \<in> set (rosters d)" for r
    using assms that by (auto simp: roster_ok_def list_all_iff seat_ok_def on_team_def)
  then show ?thesis
    using assms unfolding roster_ok_def transfer_captaincy_row_def Let_def snd_conv list_all_iff
    by (simp add: keys_map_teams seat_map_teams del: if_image_distrib)
qed

lemma disband_ok [inv]:
  assumes "roster_ok d"
  shows "roster_ok ((map_users (\<lambda>u. us_team u = Some t) unseat d)\<lparr>rosters := filter (\<lambda>r. tm_id r \<noteq> t) (rosters d)\<rparr>)"
    (is "roster_ok (?d\<lparr>rosters := ?rs\<rparr>)")
proof -
  have "keys_ok d" "\<forall>r\<in>set (rosters d). seat_ok d r"
    using assms by (simp_all add: roster_ok_def list_all_iff)
  moreover have "seat_ok ?d r" if "seat_ok d r" "tm_id r \<noteq> t" for r
    by (rule unseat_seat [OF that(1)]) (use that(2) in simp)
  moreover have "keys_ok (?d\<lparr>rosters := ?rs\<rparr>)"
    using calculation(1) unfolding keys_ok_def list_all_iff
    by (auto simp: map_if_key distinct_map_filter)
  ultimately show ?thesis by (auto simp: roster_ok_def list_all_iff)
qed

lemma new_user_ok [inv]:
  assumes "roster_ok d" "us_id u = next_user d" "us_team u = None"
  shows "roster_ok (d\<lparr>people := people d @ [u], next_user := next_user d + 1\<rparr>)" (is "roster_ok ?d")
proof -
  have keys: "keys_ok d" and seats: "list_all (seat_ok d) (rosters d)"
    using assms(1) by (simp_all add: roster_ok_def)
  have "us_id u \<notin> us_id ` set (people d)" "\<forall>v\<in>set (people d). us_id v < next_user d + 1"
    using keys assms(2) by (force simp: keys_ok_def list_all_iff)+
  then have "keys_ok ?d" using keys assms by (auto simp: keys_ok_def list_all_iff)
  moreover have "seat_ok ?d r = seat_ok d r" for r
    using assms(3) by (auto simp: seat_ok_def members_of_def on_team_def split: option.splits)
  ultimately show ?thesis using seats by (simp add: roster_ok_def list_all_iff)
qed

lemma roster_map_users [inv]:
  assumes "\<And>u. us_id (f u) = us_id u \<and> us_team (f u) = us_team u"
  shows "roster_ok (map_users p f d) = roster_ok d"
proof -
  let ?pair = "\<lambda>u. (us_id u, us_team u)"
  have pairs: "seat_ok d r \<longleftrightarrow>
      (case tm_captain r of
         None \<Rightarrow> (\<forall>x\<in>set (map ?pair (people d)). snd x \<noteq> Some (tm_id r))
       | Some c \<Rightarrow> (c, Some (tm_id r)) \<in> set (map ?pair (people d)))" for d r
    by (auto simp: seat_ok_def members_of_def on_team_def filter_empty_conv list_ex_iff
        split: option.splits)
  have "map ?pair (people (map_users p f d)) = map ?pair (people d)" using assms by simp
  then have "seat_ok (map_users p f d) r = seat_ok d r" for r unfolding pairs by (simp only:)
  then show ?thesis using keys_map_users [OF assms] by (simp add: roster_ok_def list_all_iff)
qed

lemma roster_map_teams [inv]:
  assumes "\<And>t. tm_id (g t) = tm_id t \<and> tm_captain (g t) = tm_captain t"
  shows "roster_ok (map_teams q g d) = roster_ok d"
proof -
  have "seat_ok d (if q r then g r else r) = seat_ok d r" for r
    using assms [of r] by (cases "q r") (simp_all add: seat_ok_def split: option.split)
  then show ?thesis
    using keys_map_teams [of g q d] assms
    by (simp add: roster_ok_def list_all_iff seat_map_teams del: if_image_distrib)
qed


subsection \<open>Writes to roles and bans\<close>

lemma admin_intro: "u \<in> set (people d) \<Longrightarrow> usable_admin d u \<Longrightarrow> has_usable_admin d"
  by (auto simp: has_usable_admin_def list_ex_iff)

lemma admin_elim:
  assumes "has_usable_admin d"
  obtains u where "u \<in> set (people d)" "usable_admin d u"
  using assms by (auto simp: has_usable_admin_def list_ex_iff)

lemma banned_map_teams:
  assumes "\<And>t. tm_id (g t) = tm_id t \<and> tm_banned (g t) = tm_banned t"
  shows "map_option tm_banned (team_by_id (map_teams q g d) t) = map_option tm_banned (team_by_id d t)"
  using assms by (simp add: team_by_id_def find_map_view o_def option.map_comp if_distrib cong: if_cong)

lemma usable_map_teams:
  "(\<And>t. tm_id (g t) = tm_id t \<and> tm_banned (g t) = tm_banned t)
    \<Longrightarrow> usable_admin (map_teams q g d) u = usable_admin d u"
  by (simp add: usable_admin_iff banned_map_teams)

lemma admin_map_teams [inv]:
  "(\<And>t. tm_id (g t) = tm_id t \<and> tm_banned (g t) = tm_banned t)
    \<Longrightarrow> has_usable_admin (map_teams q g d) = has_usable_admin d"
  by (simp add: has_usable_admin_def list_ex_iff usable_map_teams)

lemma usable_map_users [simp]: "usable_admin (map_users p f d) u = usable_admin d u"
  by (simp add: usable_admin_iff team_by_id_def)

text \<open>Rewriting users keeps an administrator whom the rewrite leaves usable.\<close>

lemma admin_map_users:
  assumes "u \<in> set (people d)" "usable_admin d (if p u then f u else u)"
  shows "has_usable_admin (map_users p f d)"
proof (rule admin_intro)
  show "(if p u then f u else u) \<in> set (people (map_users p f d))"
    using assms(1) unfolding people_simps set_map by (rule imageI)
  show "usable_admin (map_users p f d) (if p u then f u else u)" using assms(2) by simp
qed

lemma admin_map_users_all [inv]:
  assumes "has_usable_admin d" "\<And>u. usable_admin d u \<Longrightarrow> usable_admin d (f u)"
  shows "has_usable_admin (map_users p f d)"
  using admin_elim [OF assms(1)] assms(2) admin_map_users by (metis (full_types))

lemma usable_unseat [simp]: "usable_admin d u \<Longrightarrow> usable_admin d (unseat u)"
  by (simp add: usable_admin_def)

text \<open>Another usable administrator than the one an operation is about.\<close>

lemma rows_where_0: "rows_where d q = 0 \<longleftrightarrow> (\<forall>u\<in>set (people d). \<not> q u)"
  by (simp add: rows_where_def filter_empty_conv)

lemma other_admin:
  assumes "admin_count_other_admins d i \<noteq> 0"
  obtains u where "u \<in> set (people d)" "usable_admin d u" "us_id u \<noteq> i"
  using assms by (auto simp: admin_count_other_admins_def rows_where_0)

lemma outside_admin:
  assumes "admin_count_admins_outside_team d t \<noteq> 0"
  obtains u where "u \<in> set (people d)" "usable_admin d u" "us_team u \<noteq> Some t"
  using assms by (auto simp: admin_count_admins_outside_team_def rows_where_0)

lemma admin_other_user:
  assumes "u \<in> set (people d)" "usable_admin d u" "us_id u \<noteq> i"
  shows "has_usable_admin (update_user i f d)"
  unfolding update_user_def by (rule admin_map_users [OF assms(1)]) (simp add: assms)

lemma admin_new_user [inv]:
  "has_usable_admin d \<Longrightarrow> has_usable_admin (d\<lparr>people := people d @ [u], next_user := n\<rparr>)"
  by (auto simp: has_usable_admin_def list_ex_iff usable_admin_iff team_by_id_def)

lemma admin_new_team [inv]:
  assumes "has_usable_admin d" "\<not> tm_banned r"
  shows "has_usable_admin (d\<lparr>rosters := rosters d @ [r], next_team := n\<rparr>)" (is "has_usable_admin ?d")
proof -
  obtain u where u: "u \<in> set (people d)" "usable_admin d u" using admin_elim [OF assms(1)] .
  have "usable_admin ?d u"
    using u(2) assms(2) by (cases "us_team u")
      (auto simp: usable_admin_iff team_by_id_def find_append split: option.splits if_splits)
  moreover have "u \<in> set (people ?d)" using u(1) by simp
  ultimately show ?thesis by (rule admin_intro [rotated])
qed

text \<open>Enrolling on a team that is not banned, or with another administrator left.\<close>

lemma admin_enroll [inv]:
  assumes "enroll_user d t i = Inr (n, d1)" "has_usable_admin d"
    "map_option tm_banned (team_by_id d t) \<noteq> Some True"
  shows "has_usable_admin d1"
proof (cases "n = 0")
  case True
  then show ?thesis using assms(1,2) by (auto simp: enroll_user_def split: option.splits if_splits)
next
  case False
  have "usable_admin d (u\<lparr>us_team := Some t\<rparr>)" if "usable_admin d u" for u
    using that assms(3) by (simp add: usable_admin_iff)
  then show ?thesis
    using enroll_userD [OF assms(1) False] admin_map_users_all [OF assms(2)]
    by (metis (no_types, lifting) update_user_def)
qed

lemma admin_enroll_other:
  assumes "enroll_user d t i = Inr (n, d1)" "n \<noteq> 0" "u \<in> set (people d)" "usable_admin d u" "us_id u \<noteq> i"
  shows "has_usable_admin d1"
  using enroll_userD [OF assms(1,2)] admin_other_user [OF assms(3-5)] by metis

lemma admin_disband [inv]:
  assumes "has_usable_admin d"
  shows "has_usable_admin ((map_users (\<lambda>u. us_team u = Some t) unseat d)
    \<lparr>rosters := filter (\<lambda>r. tm_id r \<noteq> t) (rosters d)\<rparr>)" (is "has_usable_admin ?d")
proof -
  obtain u where u: "u \<in> set (people d)" "usable_admin d u" using admin_elim [OF assms] .
  let ?u = "if us_team u = Some t then unseat u else u"
  have other: "find (\<lambda>r. tm_id r = s) (filter (\<lambda>r. tm_id r \<noteq> t) rs) = find (\<lambda>r. tm_id r = s) rs"
    if "s \<noteq> t" for s rs
    using that by (induction rs) auto
  have "usable_admin ?d ?u"
    using u(2) by (cases "us_team u") (auto simp: usable_admin_iff team_by_id_def other)
  moreover have "?u \<in> set (people ?d)"
    using imageI [OF u(1), of "\<lambda>u. if us_team u = Some t then unseat u else u"] by simp
  ultimately show ?thesis by (rule admin_intro [rotated])
qed

end
