(* ===== verification/Roster_Steps.thy ===== *)
theory Roster_Steps
  imports Roster_Invariants
begin

section \<open>The writes to seats, roles and bans\<close>

text \<open>
  The step relation \<open>roster_step\<close> lists the kinds of write to rosters and roles, each with as much
  of its guard as the invariants need, and forgets everything else. \<open>request_refines\<close> shows that each
  request is one step of it; the invariants are then proved once per kind of step. The full contract
  of the operations, with every guard, is \<open>roster_rule\<close> of \<open>Roster_Rules\<close>.
\<close>

definition with_user :: "directory \<Rightarrow> UserRow \<Rightarrow> directory" where
  "with_user d u = d\<lparr>people := people d @ [u], next_user := next_user d + 1\<rparr>"

definition with_team :: "directory \<Rightarrow> TeamRow \<Rightarrow> directory" where
  "with_team d r = d\<lparr>rosters := rosters d @ [r], next_team := next_team d + 1\<rparr>"

definition without_team :: "directory \<Rightarrow> id \<Rightarrow> directory" where
  "without_team d t =
    (map_users (\<lambda>u. us_team u = Some t) unseat d)\<lparr>rosters := filter (\<lambda>r. tm_id r \<noteq> t) (rosters d)\<rparr>"

inductive roster_step :: "directory \<Rightarrow> directory \<Rightarrow> bool" where
  Quiet: "same_rosters d d' \<Longrightarrow> roster_step d d'"
| New_user: "us_id u = next_user d \<Longrightarrow> us_team u = None \<Longrightarrow> same_rosters (with_user d u) d'
    \<Longrightarrow> roster_step d d'"
| Promote: "same_rosters (map_users q (\<lambda>u. u\<lparr>us_role := ''admin'', us_verified := True\<rparr>) d) d'
    \<Longrightarrow> roster_step d d'"
| Found: "tm_id r = next_team d \<Longrightarrow> tm_captain r = Some i \<Longrightarrow> \<not> tm_banned r
    \<Longrightarrow> enroll_user (with_team d r) (next_team d) i = Inr (n, d') \<Longrightarrow> n \<noteq> 0 \<Longrightarrow> roster_step d d'"
| Empty_team: "tm_id r = next_team d \<Longrightarrow> tm_captain r = None \<Longrightarrow> \<not> tm_banned r
    \<Longrightarrow> roster_step d (with_team d r)"
| Join: "same_rosters d d0 \<Longrightarrow> map_option tm_banned (team_by_id d0 t) = Some False
    \<Longrightarrow> enroll_user d0 t i = Inr (n, d1) \<Longrightarrow> n \<noteq> 0 \<Longrightarrow> roster_step d (adopt_captainless_team i t d1)"
| Detach: "(\<And>u. u \<in> set (people d) \<Longrightarrow> q u \<Longrightarrow> us_id u = i \<and> us_team u = Some t)
    \<Longrightarrow> roster_step d (reassign_captain_after_leave t i (map_users q unseat d))"
| Kick: "(\<And>u. u \<in> set (people d) \<Longrightarrow> q u \<Longrightarrow> us_id u \<noteq> captain
      \<and> (\<exists>r\<in>set (rosters d). us_team u = Some (tm_id r) \<and> tm_captain r = Some captain))
    \<Longrightarrow> roster_step d (map_users q unseat d)"
| Transfer: "roster_step d (snd (transfer_captaincy_row new captain d))"
| Disband: "roster_step d (without_team d t)"
| Ban_user: "(\<And>u. b \<Longrightarrow> u \<in> set (people d) \<Longrightarrow> us_id u = i \<Longrightarrow> usable_admin d u \<Longrightarrow> admin_count_other_admins d i \<noteq> 0)
    \<Longrightarrow> same_rosters (update_user i (\<lambda>u. u\<lparr>us_banned := b\<rparr>) d) d' \<Longrightarrow> roster_step d d'"
| Set_role: "role = ''admin'' \<or> admin_count_other_admins d i \<noteq> 0
    \<Longrightarrow> roster_step d (update_user i (\<lambda>u. u\<lparr>us_role := role\<rparr>) d)"
| Ban_team: "\<not> b \<or> admin_count_admins_outside_team d t \<noteq> 0
    \<Longrightarrow> same_rosters (update_team t (\<lambda>r. r\<lparr>tm_banned := b\<rparr>) d) d' \<Longrightarrow> roster_step d d'"
| Move: "(\<And>u. u \<in> set (people d) \<Longrightarrow> q u \<Longrightarrow> us_id u = i \<and> us_team u = Some s)
    \<Longrightarrow> enroll_user (reassign_captain_after_leave s i (map_users q unseat d)) t i = Inr (n, d1)
    \<Longrightarrow> n \<noteq> 0
    \<Longrightarrow> map_option tm_banned (team_by_id d t) \<noteq> Some True \<or> admin_count_other_admins d i \<noteq> 0
        \<or> (\<forall>u\<in>set (people d). us_id u = i \<longrightarrow> \<not> (us_role u = ''admin'' \<and> \<not> us_banned u))
    \<Longrightarrow> roster_step d (adopt_captainless_team i t d1)"

subsection \<open>Every request is a step\<close>

lemma go_live_same: "go_live s d1 = Inr (m, d2) \<Longrightarrow> same_rosters d d2 = same_rosters d d1"
  by (auto simp: go_live_def ensure_instance_def mark_setup_complete_def frame Let_def
      split: sum.splits if_splits option.splits)

lemma insert_userD:
  "insert_user env d n e p r v = Inr (i, d1)
    \<Longrightarrow> \<exists>u. us_id u = next_user d \<and> us_team u = None \<and> us_role u = r \<and> \<not> us_banned u \<and> i = next_user d
          \<and> d1 = with_user d u"
  by (rule exI [of _ "new_user_row (next_user d) n e p r v"])
    (auto simp: insert_user_def with_user_def new_user_row_def split: if_splits)

lemma register_user_shape:
  assumes "register_user env d now r n e p v c as = Inr ((i, h), d')"
  shows "\<exists>u. us_id u = next_user d \<and> us_team u = None \<and> us_role u = ''user'' \<and> \<not> us_banned u
    \<and> same_rosters (with_user d u) d'"
proof -
  obtain d1 d2 where "create_user env d n e (Some h) v = Inr (i, d1)"
    and ans: "write_registration_answers d1 i as = Inr d2"
    and mail: "(if v then Inr d2 else enqueue_verification d2 now (dr_token r) i e c) = Inr d'"
    using assms by (auto simp: register_user_def bind_result_Inr_iff renamed_error)
  note ins = this(1)
  obtain u where u: "us_id u = next_user d" "us_team u = None" "us_role u = ''user''" "\<not> us_banned u"
    "d1 = with_user d u"
    using ins insert_userD by (fastforce simp: create_user_def split: if_splits)
  have "same_rosters d1 d2"
    using ans by (auto simp: write_registration_answers_def bind_result_Inr_iff write_answers_same
        Let_def split: option.splits)
  moreover have "same_rosters d1 d' = same_rosters d1 d2"
    using mail by (auto simp: enqueue_verification_def enqueue_token_email_same split: if_splits)
  ultimately show ?thesis using u by auto
qed

lemma register_step: "roster_step d (snd (register env d now r n e p v c as))"
proof (cases "register_user env d now r n e p v c as")
  case (Inr x)
  then obtain i h d1 where x: "x = ((i, h), d1)" by (metis prod.exhaust)
  obtain u where u: "us_id u = next_user d" "us_team u = None" "same_rosters (with_user d u) d1"
    using register_user_shape Inr x by blast
  have "same_rosters (with_user d u) (snd (register env d now r n e p v c as))"
    using u(3) Inr x
    by (auto simp: register_def frame mint_session_same split: sum.splits)
  then show ?thesis by (rule New_user [OF u(1,2)])
qed (simp add: register_def Quiet)

lemma create_admin_step: "roster_step d (snd (create_admin env d r n e p s))"
proof (cases "snd (create_admin env d r n e p s) = d")
  case False
  then obtain i d1 m where ins: "create_admin_row env d n e
        (Some (case hash_password env (dr_salt r) p of Inr h \<Rightarrow> h)) = Inr (i, d1)"
    and live: "go_live s d1 = Inr (m, snd (create_admin env d r n e p s))"
    by (auto simp: create_admin_def atomically_def bind_result_Inr_iff lift_hash_def split: sum.splits)
  obtain u where "us_id u = next_user d" "us_team u = None" "d1 = with_user d u"
    using ins insert_userD by (fastforce simp: create_admin_row_def)
  then show ?thesis using go_live_same [OF live] New_user by (metis same_rosters_refl)
qed (simp add: Quiet)

lemma promote_step: "roster_step d (snd (promote_to_admin env d e s))"
proof -
  let ?f = "\<lambda>u. u\<lparr>us_role := ''admin'', us_verified := True\<rparr>"
  have "roster_step d d'"
    if "go_live s d1 = Inr (m, d')" "d1 = d \<or> (\<exists>q. d1 = map_users q ?f d)" for d1 d' m
    using that go_live_same [OF that(1)] by (metis Quiet Promote same_rosters_refl)
  then show ?thesis
    by (auto simp: promote_to_admin_def promote_to_admin_row_def atomically_def bind_result_Inr_iff
        Let_def Quiet split: option.splits sum.splits)
qed

lemma account_refines: "roster_step d (run_account env r d)"
proof (cases "quiet r")
  case True
  then show ?thesis by (rule Quiet [OF quiet_same])
next
  case False
  then show ?thesis by (cases r) (simp_all add: register_step create_admin_step promote_step)
qed

lemma enrollD:
  assumes "enroll d t i = Inr d1"
  obtains n where "enroll_user d t i = Inr (n, d1)" "n \<noteq> 0"
  using assms by (auto simp: enroll_def split: sum.splits pg_error.splits prod.splits if_splits)

lemma create_team_rowD:
  "create_team_row d n h (Some u) = Inr (t, d1)
    \<Longrightarrow> \<exists>r. tm_id r = next_team d \<and> tm_captain r = Some u \<and> \<not> tm_banned r \<and> t = next_team d
        \<and> d1 = with_team d r"
  by (force simp: create_team_row_def with_team_def split: if_splits)

lemma create_team_step: "roster_step d (after d (create_team env d r u n p))"
proof (cases "create_team env d r u n p")
  case (Inr d')
  then have "\<exists>h t d1. create_team_row d n h (Some u) = Inr (t, d1) \<and> enroll d1 t u = Inr d'"
    unfolding create_team_def bind_result_def
    by (auto split: sum.splits pg_error.splits prod.splits)
  then obtain h t d1 where row: "create_team_row d n h (Some u) = Inr (t, d1)"
    and e: "enroll d1 t u = Inr d'" by blast
  obtain k where "enroll_user d1 t u = Inr (k, d')" "k \<noteq> 0" using enrollD [OF e] .
  then show ?thesis using create_team_rowD [OF row] Inr Found by (auto simp: after_def)
qed (simp add: after_def Quiet)

text \<open>The seat a join takes is on a team that was not banned when the directory was read.\<close>

lemma same_rosters_banned:
  "same_rosters d d' \<Longrightarrow> map_option tm_banned (team_by_id d' t) = map_option tm_banned (team_by_id d t)"
  by (simp add: team_banned_view same_rosters_def)

lemma team_by_id_in: "keys_ok d \<Longrightarrow> t \<in> set (rosters d) \<Longrightarrow> team_by_id d (tm_id t) = Some t"
  using find_distinct [of tm_id "rosters d" t _ "\<lambda>_. True"] by (simp add: keys_ok_def team_by_id_def)

lemma join_team_step:
  assumes "keys_ok d"
  shows "roster_step d (snd (join_team env d r u n p))"
proof (cases "join_open env d n p")
  case (Inr x)
  obtain t rehash where x: "x = (t, rehash)" by (cases x)
  define d0 where "d0 = (if rehash then rehash_team_password env (dr_salt r) (tm_id t) p d else d)"
  have t: "t \<in> set (rosters d)" "\<not> tm_banned t"
    using Inr x by (auto simp: join_open_def get_team_for_join_def dest: find_Some_in
        split: option.splits if_splits prod.splits)
  have same: "same_rosters d d0" by (simp add: d0_def frame)
  show ?thesis
  proof (cases "join_enroll d0 (tm_id t) u")
    case (Inl e)
    then show ?thesis using Inr x same by (simp add: join_team_def d0_def [symmetric] Quiet)
  next
    case (Inr d2)
    then obtain d1 where e: "enroll d0 (tm_id t) u = Inr d1" "d2 = adopt_captainless_team u (tm_id t) d1"
      by (auto simp: join_enroll_def bind_result_Inr_iff)
    obtain k where "enroll_user d0 (tm_id t) u = Inr (k, d1)" "k \<noteq> 0" using enrollD [OF e(1)] .
    moreover have "map_option tm_banned (team_by_id d0 (tm_id t)) = Some False"
      using same_rosters_banned [OF same] team_by_id_in [OF assms t(1)] t(2) by simp
    moreover have "snd (join_team env d r u n p) = d2"
      using Inr \<open>join_open env d n p = Inr x\<close> x by (simp add: join_team_def d0_def [symmetric] Let_def)
    ultimately show ?thesis using Join [OF same] e(2) by simp
  qed
qed (simp add: join_team_def Quiet)

lemma leave_team_step: "roster_step d (after d (leave_team d u))"
  by (auto simp: leave_team_def leave_team_row_def after_def Let_def Quiet eq_id_def
      intro!: Detach split: option.splits sum.splits if_splits)

lemma kick_member_step: "roster_step d (after d (kick_member d a m))"
  by (auto simp: kick_member_def kick_member_row_def after_def Let_def Quiet list_ex_iff
      intro!: Kick split: option.splits sum.splits if_splits)

lemma transfer_step: "roster_step d (after d (transfer_captaincy d a n))"
  using Transfer [of d n a]
  by (auto simp: transfer_captaincy_def after_def Quiet split: prod.splits sum.splits if_splits)

lemma disband_step: "roster_step d (after d (disband_team d a))"
  using Disband [of d]
  by (auto simp: disband_team_def disband_team_row_def after_def without_team_def Quiet
      split: prod.splits sum.splits if_splits pg_error.splits option.splits)

lemma team_refines: "keys_ok d \<Longrightarrow> roster_step d (run_team env r d)"
  by (cases r)
    (simp_all add: create_team_step join_team_step leave_team_step kick_member_step transfer_step
      disband_step Quiet set_join_secret_same update_own_team_same)

lemma set_banned_step:
  assumes "keys_ok d"
  shows "roster_step d (after d (set_banned d a i b))"
proof (cases "set_banned d a i b")
  case (Inr d')
  have same: "same_rosters (update_user i (\<lambda>u. u\<lparr>us_banned := b\<rparr>) d) d'"
    using Inr by (auto simp: set_banned_def bind_result_Inr_iff admin_set_user_banned_def
        returning_user_def delete_user_sessions_def delete_sessions_def frame split: if_splits)
  have "admin_count_other_admins d i \<noteq> 0"
    if "b" "u \<in> set (people d)" "us_id u = i" "usable_admin d u" for u
  proof -
    have "user_by_id d i = Some u" using find_user assms that by (simp add: keys_ok_def)
    then show ?thesis using that Inr
      by (auto simp: set_banned_def bind_result_Inr_iff usable_admin_def split: if_splits)
  qed
  then show ?thesis using Ban_user [OF _ same] Inr by (simp add: after_def)
qed (simp add: after_def Quiet)

lemma set_role_step: "roster_step d (after d (set_role d i role))"
  by (auto simp: set_role_def admin_set_user_role_def returning_user_def found_def after_def Quiet
      intro!: Set_role split: sum.splits if_splits option.splits)

lemma set_team_banned_step: "roster_step d (after d (set_team_banned d a t b))"
proof (cases "set_team_banned d a t b")
  case (Inr d')
  have "same_rosters (update_team t (\<lambda>r. r\<lparr>tm_banned := b\<rparr>) d) d'"
    using Inr by (auto simp: set_team_banned_def bind_result_Inr_iff admin_set_team_banned_def
        returning_team_def delete_team_sessions_def delete_sessions_def frame split: if_splits)
  moreover have "\<not> b \<or> admin_count_admins_outside_team d t \<noteq> 0"
    using Inr by (auto simp: set_team_banned_def bind_result_Inr_iff split: option.splits if_splits)
  ultimately show ?thesis using Ban_team Inr by (simp add: after_def)
qed (simp add: after_def Quiet)

lemma admin_create_team_step: "roster_step d (after2 d (admin_create_team env d n))"
proof (cases "admin_create_team env d n")
  case (Inr x)
  have "\<exists>r. tm_id r = next_team d \<and> tm_captain r = None \<and> \<not> tm_banned r \<and> snd x = with_team d r"
    using Inr
    by (force simp: admin_create_team_def admin_create_team_row_def with_team_def split: if_splits)
  then show ?thesis using Empty_team Inr by (auto simp: after2_def split: prod.splits)
qed (simp add: after2_def Quiet)

lemma detach_memberD:
  assumes "detach_member d t i = Inr d'"
  shows "d' = reassign_captain_after_leave t i (map_users (\<lambda>u. us_id u = i \<and> us_team u = Some t) unseat d)"
  using assms by (auto simp: detach_member_def admin_detach_member_def Let_def split: if_splits)

lemma remove_member_step: "roster_step d (after d (remove_team_member mode d t i))"
  by (auto simp: remove_team_member_def after_def Quiet dest!: detach_memberD intro!: Detach
      split: sum.splits if_splits)

lemma move_guard:
  assumes keys: "keys_ok d" and g: "guard_admin_onto_banned_team d i t = Inr ()"
  shows "map_option tm_banned (team_by_id d t) \<noteq> Some True \<or> admin_count_other_admins d i \<noteq> 0
    \<or> (\<forall>u\<in>set (people d). us_id u = i \<longrightarrow> \<not> (us_role u = ''admin'' \<and> \<not> us_banned u))"
proof -
  obtain target where target: "user_by_id d i = Some target"
    using g by (auto simp: guard_admin_onto_banned_team_def split: option.splits)
  have "u = target" if "u \<in> set (people d)" "us_id u = i" for u
    using find_user [of d u i] keys that target by (simp add: keys_ok_def)
  then show ?thesis
    using g target
    by (auto simp: guard_admin_onto_banned_team_def admin_team_is_banned_def split: if_splits option.splits)
qed

lemma move_memberD:
  assumes "move_team_member mode d s i t = Inr d'"
  obtains d0 n d1 where "guard_admin_onto_banned_team d i t = Inr ()" "detach_member d s i = Inr d0"
    "enroll_user d0 t i = Inr (n, d1)" "n \<noteq> 0" "d' = adopt_captainless_team i t d1"
proof -
  obtain d0 where g: "guard_admin_onto_banned_team d i t = Inr ()" and d0: "detach_member d s i = Inr d0"
    and e: "(case enroll_user d0 t i of Inl e \<Rightarrow> Inl (move_constraint e)
      | Inr (n, d2) \<Rightarrow> if n = 0 then Inl AdminNoRow else Inr (adopt_captainless_team i t d2)) = Inr d'"
    using assms by (auto simp: move_team_member_def bind_result_Inr_iff split: if_splits)
  obtain n d1 where "enroll_user d0 t i = Inr (n, d1)" "n \<noteq> 0" "d' = adopt_captainless_team i t d1"
    using e by (auto split: sum.splits if_splits)
  then show ?thesis using that g d0 by blast
qed

lemma move_member_step:
  assumes "keys_ok d"
  shows "roster_step d (after d (move_team_member mode d s i t))"
proof (cases "move_team_member mode d s i t")
  case (Inr d')
  then obtain d0 n d1 where g: "guard_admin_onto_banned_team d i t = Inr ()"
    and d0: "detach_member d s i = Inr d0" and e: "enroll_user d0 t i = Inr (n, d1)" "n \<noteq> 0"
    and d': "d' = adopt_captainless_team i t d1"
    by (rule move_memberD)
  show ?thesis
    using Move [OF _ _ e(2) move_guard [OF assms g]] e(1) detach_memberD [OF d0] d' Inr
    by (auto simp: after_def)
qed (simp add: after_def Quiet)

lemma organizer_refines: "keys_ok d \<Longrightarrow> roster_step d (run_organizer env mode r d)"
  by (cases r)
    (simp_all add: set_banned_step set_role_step set_team_banned_step admin_create_team_step
      remove_member_step move_member_step Quiet user_columns_same force_password_change_same
      team_columns_same)

lemma request_refines: "keys_ok d \<Longrightarrow> roster_step d (run_request env mode req d)"
  by (simp add: run_request_def account_refines team_refines organizer_refines split: request.split)

subsection \<open>The invariants, step by step\<close>

lemma step_roster_ok [inv]:
  assumes "roster_step d d'" "roster_ok d"
  shows "roster_ok d'"
  using assms
proof cases
  case (New_user u)
  have "roster_ok (with_user d u)" using assms(2) New_user unfolding with_user_def by (intro new_user_ok)
  then show ?thesis using same_rosters_inv(1) [OF New_user(3)] by simp
next
  case (Found r i n)
  then show ?thesis using founded_team_ok [OF assms(2)] by (simp add: with_team_def)
next
  case (Empty_team r)
  then show ?thesis using empty_team_ok [OF assms(2)] by (simp add: with_team_def)
next
  case (Join d0 t i n d1)
  then show ?thesis using enroll_adopt_ok same_rosters_inv(1) [OF Join(2)] assms(2) by metis
next
  case (Detach q i t)
  then show ?thesis using detach_ok [OF assms(2)] by metis
next
  case (Kick q c)
  have dist: "distinct (map tm_id (rosters d))" using assms(2) by (simp add: roster_ok_def keys_ok_def)
  have "roster_ok (map_users q unseat d)"
    by (rule unseat_ok [OF assms(2)]) (use Kick(2) distinct_map_eqD [OF dist] in \<open>metis option.inject\<close>)
  then show ?thesis using Kick by simp
next
  case (Move q i s t n d1)
  have "roster_ok (reassign_captain_after_leave s i (map_users q unseat d))"
    by (rule detach_ok [OF assms(2)]) (use Move(2) in blast)
  then show ?thesis using enroll_adopt_ok Move by metis
qed (simp_all add: same_rosters_inv(1) inv without_team_def update_user_def update_team_def)

lemma admin_update_team:
  assumes "u \<in> set (people d)" "usable_admin d u" "us_team u \<noteq> Some t"
  shows "has_usable_admin (update_team t (\<lambda>r. r\<lparr>tm_banned := b\<rparr>) d)" (is "has_usable_admin ?d")
proof -
  have find: "find (\<lambda>r. tm_id r = s) (map (\<lambda>r. if tm_id r = t then r\<lparr>tm_banned := b\<rparr> else r) rs)
      = find (\<lambda>r. tm_id r = s) rs" if "s \<noteq> t" for s rs
    using that by (induction rs) auto
  then have "usable_admin ?d u"
    using assms(2,3)
    by (cases "us_team u") (auto simp: usable_admin_iff team_by_id_def update_team_def find)
  then show ?thesis using assms(1) by (intro admin_intro) (simp_all add: update_team_def)
qed

lemma admin_unban_team:
  assumes "has_usable_admin d"
  shows "has_usable_admin (update_team t (\<lambda>r. r\<lparr>tm_banned := False\<rparr>) d)" (is "has_usable_admin ?d")
proof -
  obtain u where u: "u \<in> set (people d)" "usable_admin d u" using admin_elim [OF assms] .
  have find: "find (\<lambda>r. tm_id r = s) (map (\<lambda>r. if tm_id r = t then r\<lparr>tm_banned := False\<rparr> else r) rs)
      = map_option (\<lambda>r. if tm_id r = t then r\<lparr>tm_banned := False\<rparr> else r) (find (\<lambda>r. tm_id r = s) rs)" for s rs
    by (induction rs) auto
  then have "usable_admin ?d u"
    using u(2) by (cases "us_team u") (auto simp: usable_admin_iff team_by_id_def update_team_def find)
  then show ?thesis using u(1) by (intro admin_intro) (simp_all add: update_team_def)
qed

lemma admin_detach:
  "has_usable_admin d \<Longrightarrow> has_usable_admin (reassign_captain_after_leave t i (map_users q unseat d))"
  by (simp add: reassign_captain_after_leave_def inv)

lemma admin_adopt [inv]: "has_usable_admin (adopt_captainless_team i t d) = has_usable_admin d"
  by (simp add: adopt_captainless_team_def inv)

lemma admin_moved_away:
  assumes u: "u \<in> set (people d)" "usable_admin d u" "us_id u \<noteq> i"
    and q: "\<And>u. u \<in> set (people d) \<Longrightarrow> q u \<Longrightarrow> us_id u = i \<and> us_team u = Some s"
    and e: "enroll_user (reassign_captain_after_leave s i (map_users q unseat d)) t i = Inr (n, d1)" "n \<noteq> 0"
  shows "has_usable_admin d1"
proof (rule admin_enroll_other [OF e])
  show "u \<in> set (people (reassign_captain_after_leave s i (map_users q unseat d)))"
    using u q by (auto simp: reassign_captain_after_leave_def)
  show "usable_admin (reassign_captain_after_leave s i (map_users q unseat d)) u"
    using u(2) by (simp add: reassign_captain_after_leave_def usable_map_teams)
qed (rule u(3))

lemma banned_after_detach:
  "map_option tm_banned (team_by_id (reassign_captain_after_leave s i (map_users q unseat d)) t)
    = map_option tm_banned (team_by_id d t)"
  by (simp add: reassign_captain_after_leave_def banned_map_teams) (simp add: team_by_id_def)

lemma fresh_team_unbanned:
  assumes "keys_ok d" "tm_id r = next_team d" "\<not> tm_banned r"
  shows "map_option tm_banned (team_by_id (with_team d r) (next_team d)) \<noteq> Some True"
proof -
  have "find (\<lambda>r. tm_id r = next_team d) (rosters d) = None"
    using assms(1) by (fastforce simp: keys_ok_def list_all_iff find_None_iff)
  then show ?thesis using assms(2,3) by (simp add: team_by_id_def with_team_def find_append)
qed

lemma step_admin [inv]:
  assumes step: "roster_step d d'" and ok: "roster_ok d" and adm: "has_usable_admin d"
  shows "has_usable_admin d'"
  using step
proof cases
  case (New_user u)
  then show ?thesis using adm same_rosters_inv(2) [OF New_user(3)] by (simp add: with_user_def inv)
next
  case (Promote q)
  have "has_usable_admin (map_users q (\<lambda>u. u\<lparr>us_role := ''admin'', us_verified := True\<rparr>) d)"
    by (rule admin_map_users_all [OF adm]) (simp add: usable_admin_iff)
  then show ?thesis using same_rosters_inv(2) [OF Promote] by simp
next
  case (Found r i n)
  have "has_usable_admin (with_team d r)" unfolding with_team_def by (rule admin_new_team [OF adm Found(3)])
  then show ?thesis
    by (rule admin_enroll [OF Found(4)]) (rule fresh_team_unbanned; use ok Found in \<open>simp add: roster_ok_def\<close>)
next
  case (Join d0 t i n d1)
  have "has_usable_admin d1"
    by (rule admin_enroll [OF Join(4)]) (use Join(3) adm same_rosters_inv(2) [OF Join(2)] in auto)
  then show ?thesis using Join by (simp add: inv)
next
  case (Ban_user b i)
  have "has_usable_admin (update_user i (\<lambda>u. u\<lparr>us_banned := b\<rparr>) d)"
  proof (cases b)
    case False
    then show ?thesis unfolding update_user_def
      by (intro admin_map_users_all [OF adm]) (simp add: usable_admin_iff)
  next
    case True
    obtain u where u: "u \<in> set (people d)" "usable_admin d u" using admin_elim [OF adm] .
    then obtain v where "v \<in> set (people d)" "usable_admin d v" "us_id v \<noteq> i"
      using Ban_user(1) [OF True] other_admin by metis
    then show ?thesis by (rule admin_other_user)
  qed
  then show ?thesis using same_rosters_inv(2) [OF Ban_user(2)] by simp
next
  case (Set_role role i)
  show ?thesis
  proof (cases "role = ''admin''")
    case True
    then show ?thesis unfolding Set_role(1) update_user_def
      by (intro admin_map_users_all [OF adm]) (simp add: usable_admin_iff)
  next
    case False
    then show ?thesis using Set_role admin_other_user other_admin by metis
  qed
next
  case (Ban_team b t)
  have "has_usable_admin (update_team t (\<lambda>r. r\<lparr>tm_banned := b\<rparr>) d)"
  proof (cases b)
    case False
    then show ?thesis using admin_unban_team [OF adm] by simp
  next
    case True
    then obtain u where "u \<in> set (people d)" "usable_admin d u" "us_team u \<noteq> Some t"
      using Ban_team(1) outside_admin by blast
    then show ?thesis by (rule admin_update_team)
  qed
  then show ?thesis using same_rosters_inv(2) [OF Ban_team(2)] by simp
next
  case (Move q i s t n d1)
  let ?d = "reassign_captain_after_leave s i (map_users q unseat d)"
  have "has_usable_admin d1"
  proof (cases "map_option tm_banned (team_by_id d t) = Some True")
    case False
    then show ?thesis
      using admin_enroll [OF Move(3) admin_detach [OF adm]] banned_after_detach by simp
  next
    case True
    obtain u where "u \<in> set (people d)" "usable_admin d u" "us_id u \<noteq> i"
      using Move(5) True adm other_admin admin_elim by (metis usable_admin_iff)
    then show ?thesis using admin_moved_away Move(2-4) by metis
  qed
  then show ?thesis using Move by (simp add: inv)
qed (use adm in \<open>simp_all add: same_rosters_inv(2) inv without_team_def with_team_def admin_detach
  transfer_captaincy_row_def Let_def\<close>)

text \<open>Nobody is enrolled past the size cap.\<close>

lemma sizes_all:
  assumes "keys_ok d"
  shows "sizes_ok d \<longleftrightarrow> (\<forall>c t. team_size_cap d = Some c \<and> 0 < c \<longrightarrow> int (length (members_of d t)) \<le> c)"
proof -
  have "members_of d t = []" if "t \<notin> tm_id ` set (rosters d)" for t
    using assms that by (fastforce simp: keys_ok_def members_of_def filter_empty_conv list_all_iff)
  then have "int (length (members_of d t)) \<le> c"
    if "0 < c" "\<forall>r\<in>set (rosters d). int (length (members_of d (tm_id r))) \<le> c" for c t
    using that by (cases "t \<in> tm_id ` set (rosters d)") auto
  then show ?thesis by (auto simp: sizes_ok_def list_all_iff split: option.splits)
qed

lemma sizes_le:
  assumes "sizes_ok d" "keys_ok d" "keys_ok d'" "team_size_cap d' = team_size_cap d"
    "\<And>t. length (members_of d' t) \<le> length (members_of d t)"
  shows "sizes_ok d'"
proof -
  have "int (length (members_of d' t)) \<le> c" if "team_size_cap d = Some c" "0 < c" for c t
  proof -
    have "int (length (members_of d t)) \<le> c" using assms(1,2) that sizes_all by blast
    then show ?thesis using assms(5) [of t] by linarith
  qed
  then show ?thesis using assms(3,4) by (simp add: sizes_all)
qed

lemma members_le [simp]:
  "length (members_of (map_users q unseat d) t) \<le> length (members_of d t)"
  "members_of (map_teams p g d) t = members_of d t"
  "us_team u = None \<Longrightarrow> members_of (with_user d u) t = members_of d t"
  "members_of (with_team d r) t = members_of d t"
  "length (members_of (without_team d s) t) \<le> length (members_of d t)"
proof -
  have unseated: "length (filter (\<lambda>u. us_team u = Some t) (map (\<lambda>u. if q u then unseat u else u) us))
      \<le> length (filter (\<lambda>u. us_team u = Some t) us)" for q us
    by (induction us) auto
  then show "length (members_of (map_users q unseat d) t) \<le> length (members_of d t)"
    "length (members_of (without_team d s) t) \<le> length (members_of d t)"
    by (simp_all add: members_of_def without_team_def)
qed (simp_all add: members_of_def with_user_def with_team_def)

lemma members_same_team:
  assumes "\<And>u. us_team (f u) = us_team u"
  shows "length (members_of (map_users q f d) t) = length (members_of d t)"
proof -
  have "(\<lambda>u. us_team (if q u then f u else u) = Some t) = (\<lambda>u. us_team u = Some t)"
    using assms by auto
  then show ?thesis by (simp add: members_of_def filter_map o_def)
qed

lemma enroll_sizes:
  assumes keys: "keys_ok d" "keys_ok d1" and ok: "sizes_ok d"
    and e: "enroll_user d t i = Inr (n, d1)" "n \<noteq> 0"
  shows "sizes_ok d1"
proof -
  have dist: "distinct (map us_id (people d))" using keys(1) by (simp add: keys_ok_def)
  have d1: "d1 = map_users (\<lambda>u. us_id u = i) (\<lambda>u. u\<lparr>us_team := Some t\<rparr>) d"
    and room: "\<not> team_full d t"
    using enroll_userD [OF e] by (metis update_user_def)+
  have count: "length (filter (\<lambda>u. us_id u = i \<and> t = s \<or> us_id u \<noteq> i \<and> us_team u = Some s) us)
      \<le> length (filter (\<lambda>u. us_team u = Some s) us)
        + (if s = t then length (filter (\<lambda>u. us_id u = i) us) else 0)" for s us
    by (induction us) auto
  have preds: "(\<lambda>u. us_team (if us_id u = i then u\<lparr>us_team := Some t\<rparr> else u) = Some s)
      = (\<lambda>u. us_id u = i \<and> t = s \<or> us_id u \<noteq> i \<and> us_team u = Some s)" for s
    by auto
  have eq: "length (members_of d1 s)
      = length (filter (\<lambda>u. us_id u = i \<and> t = s \<or> us_id u \<noteq> i \<and> us_team u = Some s) (people d))" for s
    by (simp only: d1 members_of_def people_simps filter_map length_map o_def preds)
  have le: "length (members_of d1 s) \<le> length (members_of d s) + (if s = t then 1 else 0)" for s
    using count [of s "people d"] distinct_map_count [OF dist, of i]
    by (cases "s = t") (simp_all add: eq, simp_all add: members_of_def)
  have "int (length (members_of d1 s)) \<le> c" if "team_size_cap d = Some c" "0 < c" for c s
  proof -
    have "int (length (members_of d s)) \<le> c" using ok keys(1) that sizes_all by blast
    moreover have "int (length (members_of d t)) < c"
      using room that by (simp add: team_full_def cap_reached_def)
    ultimately show ?thesis using le [of s] by (cases "s = t") simp_all
  qed
  then show ?thesis using keys(2) by (simp add: sizes_all d1)
qed

lemma size_caps [simp]:
  "team_size_cap (with_user d u) = team_size_cap d" "team_size_cap (with_team d r) = team_size_cap d"
  "team_size_cap (without_team d t) = team_size_cap d"
  "team_size_cap (adopt_captainless_team i t d) = team_size_cap d"
  "team_size_cap (reassign_captain_after_leave t i d) = team_size_cap d"
  by (simp_all add: with_user_def with_team_def without_team_def adopt_captainless_team_def
      reassign_captain_after_leave_def)

lemma same_members:
  assumes "same_rosters d d'"
  shows "length (members_of d' t) = length (members_of d t)" "team_size_cap d' = team_size_cap d"
  using assms by (simp_all add: same_rosters_def size_view)

lemma adopt_members: "members_of (adopt_captainless_team i t d) s = members_of d s"
  and reassign_members: "members_of (reassign_captain_after_leave t i d) s = members_of d s"
  by (simp_all add: adopt_captainless_team_def reassign_captain_after_leave_def)

lemma sizes_adopt: "keys_ok (adopt_captainless_team i t d) \<Longrightarrow> keys_ok d"
  by (simp add: adopt_captainless_team_def keys_map_teams)

lemma step_sizes [inv]:
  assumes step: "roster_step d d'" and ok: "roster_ok d" and sizes: "sizes_ok d"
  shows "sizes_ok d'"
proof -
  have keys: "keys_ok d" "keys_ok d'"
    using ok step_roster_ok [OF step ok] by (simp_all add: roster_ok_def)
  note le = sizes_le [OF sizes keys]
  show ?thesis
    using step
  proof cases
    case Quiet
    then show ?thesis using same_rosters_sizes sizes by blast
  next
    case (New_user u)
    then show ?thesis using same_members [OF New_user(3)] by (intro le) simp_all
  next
    case (Promote q)
    then show ?thesis using same_members [OF Promote] by (intro le) (simp_all add: members_same_team)
  next
    case (Found r i n)
    have "keys_ok (with_team d r)" using keys(1) Found(1) by (simp add: with_team_def new_team_keys)
    moreover from this have "sizes_ok (with_team d r)"
      by (intro sizes_le [OF sizes keys(1)]) simp_all
    ultimately show ?thesis using enroll_sizes [OF _ keys(2) _ Found(4,5)] by blast
  next
    case (Empty_team r)
    then show ?thesis by (intro le) simp_all
  next
    case (Join d0 t i n d1)
    have "roster_ok d0" "sizes_ok d0" using same_rosters_inv(1) same_rosters_sizes Join(2) ok sizes by blast+
    moreover have "keys_ok d1" using sizes_adopt keys(2) Join(1) by blast
    ultimately have "sizes_ok d1" using enroll_sizes [OF _ _ _ Join(4,5)] by (simp add: roster_ok_def)
    then show ?thesis using sizes_le [OF _ \<open>keys_ok d1\<close> keys(2)] Join(1) by (simp add: adopt_members)
  next
    case (Detach q i t)
    then show ?thesis by (intro le) (simp_all add: reassign_members)
  next
    case (Ban_user b i)
    then show ?thesis
      using same_members [OF Ban_user(2)] by (intro le) (simp_all add: members_same_team update_user_def)
  next
    case (Set_role role i)
    then show ?thesis by (intro le) (simp_all add: members_same_team update_user_def)
  next
    case (Ban_team b t)
    then show ?thesis using same_members [OF Ban_team(2)] by (intro le) (simp_all add: update_team_def)
  next
    case (Move q i s t n d1)
    let ?d = "reassign_captain_after_leave s i (map_users q unseat d)"
    have "roster_ok ?d" by (rule detach_ok [OF ok]) (use Move(2) in blast)
    then have "keys_ok ?d" by (simp add: roster_ok_def)
    moreover from this have "sizes_ok ?d"
      by (intro sizes_le [OF sizes keys(1)]) (simp_all add: reassign_members)
    moreover have "keys_ok d1" using sizes_adopt keys(2) Move(1) by blast
    ultimately have "sizes_ok d1" using enroll_sizes [OF _ _ _ Move(3,4)] by blast
    then show ?thesis using sizes_le [OF _ \<open>keys_ok d1\<close> keys(2)] Move(1) by (simp add: adopt_members)
  qed (intro le; simp add: transfer_captaincy_row_def Let_def)+
qed

end
