(* ===== verification/Sample_Directory.thy ===== *)
theory Sample_Directory
  imports Sample_Event Moderation
begin

section \<open>A small directory for the witnesses\<close>

text \<open>
  A teams-mode instance with one administrator (1), who is on no team, and three players: 2 leads
  team 1 with 3 on it, and 4 is on no team. Everybody's password is \<open>pw\<close> under a hash that came from
  an import. One session of player 2 was minted against that hash, one API token of hers is alive,
  and one reset code is out. The ledger holds a solve of team 1.
\<close>

definition sample_user :: "id \<Rightarrow> string \<Rightarrow> string \<Rightarrow> id option \<Rightarrow> UserRow" where
  "sample_user i email role team =
    (new_user_row i email email (Some ''$2b$pw'') role True)\<lparr>us_team := team\<rparr>"

definition sample_team :: "id \<Rightarrow> string \<Rightarrow> id option \<Rightarrow> TeamRow" where
  "sample_team i name captain =
    \<lparr>tm_id = i, tm_name = name, tm_email = None, tm_password = ''$2b$join us'', tm_website = None,
     tm_affiliation = None, tm_country = None, tm_bracket = None, tm_captain = captain, tm_hidden = False,
     tm_banned = False\<rparr>"

definition sample_code :: "string \<Rightarrow> string \<Rightarrow> EmailTokenRow" where
  "sample_code secret purpose =
    \<lparr>et_hash = digest_of secret, et_purpose = purpose, et_user = 2, et_expires = 100,
     et_consumed = None\<rparr>"

definition sample_solve :: SolveRow where
  "sample_solve =
    \<lparr>sv_id = 1, sv_submission = Some 1, sv_challenge = 1, sv_user = 3, sv_team = Some 1, sv_value = 100,
     sv_date = 0\<rparr>"

definition sample_directory :: directory where
  "sample_directory =
    \<lparr>instance_mode = Some ''teams'', setup_complete = True, num_users_cap = None,
     num_teams_cap = None, team_size_cap = Some 3,
     people = [sample_user 1 ''root'' ''admin'' None, sample_user 2 ''ann'' ''user'' (Some 1),
       sample_user 3 ''bob'' ''user'' (Some 1), sample_user 4 ''cyd'' ''user'' None],
     rosters = [sample_team 1 ''ravens'' (Some 2)],
     sessions = [\<lparr>se_hash = digest_of ''cookie'', se_user = 2,
       se_fingerprint = pw_fingerprint (Some ''$2b$pw''), se_csrf = ''csrf'', se_expires = 100\<rparr>],
     tokens = [\<lparr>tk_id = 1, tk_hash = digest_of ''flagfish_t'', tk_user = 2, tk_description = None,
       tk_created = 0, tk_expires = 100\<rparr>],
     email_tokens = [sample_code ''reset'' ''reset''],
     form_fields = [], entries = [], divisions = [], outbox = [], next_user = 5, next_team = 2, next_token = 2, next_bracket = 1,
     ledger = sample_db\<lparr>solves := [sample_solve]\<rparr>\<rparr>"

lemmas sample_directory_defs =
  sample_directory_def sample_user_def sample_team_def new_user_row_def

end
