(* ===== verification/Roster_Properties.thy ===== *)
theory Roster_Properties
  imports Roster_Steps Sample_Directory
begin

section \<open>What holds of every roster and of the last administrator\<close>

text \<open>
  The invariants over any history of requests, the roster of a team that has scored, and the one
  interleaving the administrators' lock leaves open. Each invariant is an interpretation of
  \<open>stepwise\<close> on the requests.
\<close>

lemma step_ledger: "roster_step d d' \<Longrightarrow> ledger d' = ledger d"
  by (induction rule: roster_step.induct)
    (auto simp: same_rosters_def with_user_def with_team_def without_team_def map_users_def map_teams_def
      adopt_captainless_team_def reassign_captain_after_leave_def transfer_captaincy_row_def
      update_user_def update_team_def Let_def elim!: enroll_userD)

interpretation rosters: stepwise "run_request env mode" roster_ok
  for env mode
proof
  fix d req
  assume "roster_ok d"
  moreover from this have "keys_ok d" by (simp add: roster_ok_def)
  ultimately show "roster_ok (run_request env mode req d)" using request_refines step_roster_ok by blast
qed

interpretation admins: stepwise "run_request env mode" "\<lambda>d. roster_ok d \<and> has_usable_admin d"
  for env mode
proof
  fix d req
  assume "roster_ok d \<and> has_usable_admin d"
  moreover from this have "keys_ok d" by (simp add: roster_ok_def)
  ultimately show "roster_ok (run_request env mode req d) \<and> has_usable_admin (run_request env mode req d)"
    using request_refines step_roster_ok step_admin by blast
qed

interpretation sizes: stepwise "run_request env mode" "\<lambda>d. roster_ok d \<and> sizes_ok d"
  for env mode
proof
  fix d req
  assume "roster_ok d \<and> sizes_ok d"
  moreover from this have "keys_ok d" by (simp add: roster_ok_def)
  ultimately show "roster_ok (run_request env mode req d) \<and> sizes_ok (run_request env mode req d)"
    using request_refines step_roster_ok step_sizes by blast
qed

lemma sample_roster_ok: "roster_ok sample_directory"
  by (simp add: roster_ok_def keys_ok_def seat_ok_def members_of_def on_team_def sample_directory_defs)

lemma sample_has_admin: "has_usable_admin sample_directory"
  by (simp add: has_usable_admin_def usable_admin_def sample_directory_defs)

lemma sample_sizes_ok: "sizes_ok sample_directory"
  by (simp add: sizes_ok_def members_of_def sample_directory_defs)

text \<open>
  C6: Whatever players and organizers do, in whatever order, a team has a captain exactly when it
  has a member, and the captain is one of its members: no request that enrolls, removes, moves or
  deletes leaves an empty seat on a team with members or a seat held by somebody outside it. Keys
  stay unique and every member's team exists.
\<close>
theorem seats_always_filled:
  assumes "roster_ok d" "d' = foldl (\<lambda>d req. run_request env mode req d) d reqs" "r \<in> set (rosters d')"
  shows "(tm_captain r = None \<longleftrightarrow> members_of d' (tm_id r) = [])
    \<and> (\<forall>c. tm_captain r = Some c \<longrightarrow> on_team d' c (tm_id r)) \<and> keys_ok d'"
proof -
  have "roster_ok d'" using rosters.steps_ok [OF assms(1)] assms(2) by simp
  moreover from this have "seat_ok d' r" using assms(3) by (simp add: roster_ok_def list_all_iff)
  ultimately show ?thesis
    by (cases "tm_captain r")
      (auto simp: seat_ok_def roster_ok_def members_of_def on_team_def filter_empty_conv list_ex_iff)
qed

lemma seats_always_filled_witness:
  "\<exists>d' r. d' = foldl (\<lambda>d req. run_request sample_env ModeTeams req d) sample_directory
      [OrganizerRequest (ReqRemoveMember 1 2)]
    \<and> r \<in> set (rosters d') \<and> tm_captain r = Some 3 \<and> on_team d' 3 1"
proof -
  let ?d = "foldl (\<lambda>d req. run_request sample_env ModeTeams req d) sample_directory
      [OrganizerRequest (ReqRemoveMember 1 2)]"
  have r: "sample_team 1 ''ravens'' (Some 3) \<in> set (rosters ?d)"
    by (simp add: run_request_def after_def remove_team_member_def detach_member_def admin_detach_member_def
        rows_where_def reassign_captain_after_leave_def least_member_def members_of_def
        map_users_def map_teams_def sample_directory_defs)
  have "on_team ?d 3 1"
    using seats_always_filled [OF sample_roster_ok refl r] by (simp add: sample_team_def)
  then show ?thesis using r by (auto simp: sample_team_def)
qed

text \<open>
  C5: While requests run one after the other, an instance with a usable administrator, one who is
  neither banned nor on a banned team, keeps one: no demotion, ban, team ban, move, join or any other
  request locks the last one out.
\<close>
theorem last_admin_never_lost:
  assumes "roster_ok d" "has_usable_admin d"
  shows "has_usable_admin (foldl (\<lambda>d req. run_request env mode req d) d reqs)"
  using admins.steps_ok [of d] assms by blast

lemma last_admin_never_lost_witness:
  "has_usable_admin (foldl (\<lambda>d req. run_request sample_env ModeTeams req d) sample_directory
    [OrganizerRequest (ReqSetRole 4 ''admin''), OrganizerRequest (ReqSetBanned 4 1 True),
     OrganizerRequest (ReqSetRole 4 ''user'')])"
  by (rule last_admin_never_lost [OF sample_roster_ok sample_has_admin])

text \<open>
  No team grows beyond the size cap in force, by whichever way its members come.
\<close>
theorem team_size_cap_held:
  assumes "roster_ok d" "sizes_ok d" "d' = foldl (\<lambda>d req. run_request env mode req d) d reqs"
    "team_size_cap d' = Some c" "0 < c"
  shows "int (length (members_of d' t)) \<le> c"
proof -
  have "roster_ok d' \<and> sizes_ok d'" using sizes.steps_ok [of d] assms(1-3) by simp
  then show ?thesis using sizes_all [of d'] assms(4,5) by (simp add: roster_ok_def)
qed

lemma team_size_cap_held_witness:
  "length (members_of (foldl (\<lambda>d req. run_request sample_env ModeTeams req d) sample_directory
    [TeamRequest (ReqLeaveTeam 3), TeamRequest (ReqTransfer 2 4)]) 1) \<le> 3"
  (is "length (members_of ?d 1) \<le> 3")
proof -
  have "team_size_cap ?d = Some 3"
    by (simp add: run_request_def after_def leave_team_def leave_team_row_def rows_where_def eq_id_def
        has_solves_def sample_solve_def user_by_id_def transfer_captaincy_def
        transfer_captaincy_row_def sample_directory_defs)
  then have "int (length (members_of ?d 1)) \<le> 3"
    by (intro team_size_cap_held [OF sample_roster_ok sample_sizes_ok refl]) simp_all
  then show ?thesis by simp
qed

subsection \<open>The join that is not under the lock\<close>

text \<open>
  C34: \<open>JoinTeam\<close> reads the team's ban and verifies its secret before it opens its transaction, and
  takes no part in the administrators' lock. The ban of the team can commit in between, counting the
  joining administrator as one who is outside it: the join then goes through, onto a banned team,
  and the instance is left without a usable administrator.
\<close>
theorem join_race_loses_last_admin:
  "\<exists>t d1 d2.
     join_open sample_env sample_directory ''ravens'' ''join us'' = Inr (t, True)
     \<and> set_team_banned (rehash_team_password sample_env salt (tm_id t) ''join us'' sample_directory)
         1 (tm_id t) True = Inr d1
     \<and> has_usable_admin d1
     \<and> join_enroll d1 (tm_id t) 1 = Inr d2
     \<and> \<not> has_usable_admin d2"
proof -
  let ?d0 = "rehash_team_password sample_env salt 1 ''join us'' sample_directory"
  have "\<exists>h. people ?d0 = people sample_directory \<and> team_size_cap ?d0 = Some 3
      \<and> rosters ?d0 = [(sample_team 1 ''ravens'' (Some 2))\<lparr>tm_password := h\<rparr>]"
    by (cases salt) (auto simp: rehash_team_password_def hash_password_def update_team_password_hash_def
        update_team_def map_teams_def sample_directory_def sample_team_def)
  then obtain h where d0: "people ?d0 = people sample_directory" "team_size_cap ?d0 = Some 3"
    "rosters ?d0 = [(sample_team 1 ''ravens'' (Some 2))\<lparr>tm_password := h\<rparr>]"
    by blast
  have "join_open sample_env sample_directory ''ravens'' ''join us'' = Inr (sample_team 1 ''ravens'' (Some 2), True)"
    by (simp add: join_open_def get_team_for_join_def verify_def sample_env_def sample_directory_defs)
  moreover have "\<exists>d1. set_team_banned d 1 1 True = Inr d1 \<and> people d1 = people sample_directory
      \<and> team_size_cap d1 = Some 3
      \<and> rosters d1 = [(sample_team 1 ''ravens'' (Some 2))\<lparr>tm_password := h, tm_banned := True\<rparr>]"
    if "people d = people sample_directory" "team_size_cap d = Some 3"
      "rosters d = [(sample_team 1 ''ravens'' (Some 2))\<lparr>tm_password := h\<rparr>]" for d
    by (simp add: set_team_banned_def user_by_id_def admin_count_admins_outside_team_def rows_where_def
        usable_admin_def admin_set_team_banned_def returning_team_def team_by_id_def found_def
        update_team_def map_teams_def delete_team_sessions_def delete_sessions_def
        sample_directory_defs that)
  moreover have "has_usable_admin d1 \<and> (\<exists>d2. join_enroll d1 1 1 = Inr d2 \<and> \<not> has_usable_admin d2)"
    if "people d1 = people sample_directory" "team_size_cap d1 = Some 3"
      "rosters d1 = [(sample_team 1 ''ravens'' (Some 2))\<lparr>tm_password := h, tm_banned := True\<rparr>]" for d1
    by (simp add: has_usable_admin_def usable_admin_def join_enroll_def enroll_def enroll_user_def
        team_full_def cap_reached_def members_of_def team_by_id_def adopt_captainless_team_def
        update_user_def map_users_def map_teams_def sample_directory_defs that)
  ultimately show ?thesis using d0 by (fastforce simp: sample_team_def)
qed

subsection \<open>The roster of a team that has scored\<close>

text \<open>
  What players can do to such a team: nobody is taken off it. Organizers can
  (\<open>RemoveTeamMember\<close>, \<open>MoveTeamMember\<close>).
\<close>

definition still_on :: "id \<Rightarrow> id \<Rightarrow> directory \<Rightarrow> bool" where
  "still_on t i d \<longleftrightarrow> roster_ok d \<and> has_solves d t \<and> on_team d i t"

lemma leave_unseat:
  assumes "leave_team d j = Inr d'" "has_solves d t"
  obtains q s where "d' = reassign_captain_after_leave s j (map_users q unseat d)"
    "\<forall>u. q u \<longrightarrow> us_team u \<noteq> Some t"
proof -
  obtain u s where "user_by_id d j = Some u" "us_team u = Some s"
    using assms(1) by (auto simp: leave_team_def split: option.splits)
  then have d': "d' = reassign_captain_after_leave s j (map_users (\<lambda>u. us_id u = j \<and> eq_id (us_team u) (Some s)
      \<and> (case us_team u of None \<Rightarrow> True | Some t \<Rightarrow> \<not> has_solves d t)) unseat d)"
    using assms(1) by (simp add: leave_team_def leave_team_row_def Let_def split: if_splits)
  show ?thesis by (rule that [OF d']) (use assms(2) in auto)
qed

lemma kick_unseat:
  assumes "kick_member d a m = Inr d'" "has_solves d t"
  obtains q where "d' = map_users q unseat d" "\<forall>u. q u \<longrightarrow> us_team u \<noteq> Some t"
proof -
  have d': "d' = map_users (\<lambda>u. us_id u = m \<and> us_id u \<noteq> a \<and> (case us_team u of None \<Rightarrow> False
      | Some t \<Rightarrow> list_ex (\<lambda>r. tm_id r = t \<and> tm_captain r = Some a) (rosters d) \<and> \<not> has_solves d t)) unseat d"
    using assms(1) by (simp add: kick_member_def kick_member_row_def Let_def split: if_splits)
  show ?thesis by (rule that [OF d']) (use assms(2) in auto)
qed

lemma on_team_unseat:
  assumes "on_team d i t" "\<forall>u. q u \<longrightarrow> us_team u \<noteq> Some t"
  shows "on_team (map_users q unseat d) i t"
  using assms by (force simp: on_team_def list_ex_iff)

lemma on_team_map_teams [simp]: "on_team (map_teams q g d) i t = on_team d i t"
  by (simp add: on_team_def)

lemma on_team_same: "same_rosters d d' \<Longrightarrow> on_team d' i t = on_team d i t"
  by (simp add: on_team_view same_rosters_def)

lemma on_team_enroll:
  assumes "keys_ok d" "enroll_user d s j = Inr (n, d')" "n \<noteq> 0" "on_team d i t"
  shows "on_team d' i t"
proof -
  obtain u where u: "u \<in> set (people d)" "us_id u = j" "us_team u = None"
    and d': "d' = update_user j (\<lambda>u. u\<lparr>us_team := Some s\<rparr>) d"
    using enroll_userD [OF assms(2,3)] by metis
  obtain v where v: "v \<in> set (people d)" "us_id v = i" "us_team v = Some t"
    using assms(4) by (auto simp: on_team_def list_ex_iff)
  have "distinct (map us_id (people d))" using assms(1) by (simp add: keys_ok_def)
  then have "us_id v \<noteq> j" using distinct_map_eqD [OF _ u(1) v(1)] u(2,3) v(3) by (metis option.distinct(1))
  then show ?thesis using v by (force simp: d' update_user_def on_team_def list_ex_iff)
qed

lemma team_request_keeps:
  assumes ok: "still_on t i d"
  shows "on_team (run_team env req d) i t"
proof (cases req)
  case (ReqCreateTeam r u n p)
  show ?thesis
  proof (cases "create_team env d r u n p")
    case (Inr d')
    then have "\<exists>h s d1. create_team_row d n h (Some u) = Inr (s, d1) \<and> enroll d1 s u = Inr d'"
      unfolding create_team_def bind_result_def by (auto split: sum.splits pg_error.splits prod.splits)
    then obtain h s d1 where row: "create_team_row d n h (Some u) = Inr (s, d1)"
      and e: "enroll d1 s u = Inr d'" by blast
    obtain r where "tm_id r = next_team d" "d1 = with_team d r" using create_team_rowD [OF row] by blast
    then have "keys_ok d1" "on_team d1 i t"
      using ok by (simp_all add: still_on_def roster_ok_def with_team_def new_team_keys on_team_def)
    moreover obtain k where "enroll_user d1 s u = Inr (k, d')" "k \<noteq> 0" using enrollD [OF e] .
    ultimately show ?thesis using on_team_enroll Inr ReqCreateTeam by (simp add: after_def)
  qed (use ok ReqCreateTeam in \<open>simp add: after_def still_on_def\<close>)
next
  case (ReqJoinTeam r u n p)
  show ?thesis
  proof (cases "join_open env d n p")
    case (Inr x)
    obtain s rehash where x: "x = (s, rehash)" by (cases x)
    define d0 where "d0 = (if rehash then rehash_team_password env (dr_salt r) (tm_id s) p d else d)"
    have same: "same_rosters d d0" by (simp add: d0_def frame)
    then have d0: "keys_ok d0" "on_team d0 i t"
      using ok same_rosters_inv(1) on_team_same by (auto simp: still_on_def roster_ok_def)
    show ?thesis
    proof (cases "join_enroll d0 (tm_id s) u")
      case (Inl e)
      then show ?thesis using Inr x d0 ReqJoinTeam by (simp add: join_team_def d0_def [symmetric])
    next
      case (Inr d2)
      then obtain d1 where e: "enroll d0 (tm_id s) u = Inr d1" "d2 = adopt_captainless_team u (tm_id s) d1"
        by (auto simp: join_enroll_def bind_result_Inr_iff)
      obtain k where "enroll_user d0 (tm_id s) u = Inr (k, d1)" "k \<noteq> 0" using enrollD [OF e(1)] .
      then have "on_team d2 i t" using on_team_enroll d0 e(2) by (simp add: adopt_captainless_team_def)
      then show ?thesis using Inr \<open>join_open env d n p = Inr x\<close> x ReqJoinTeam
        by (simp add: join_team_def d0_def [symmetric] Let_def)
    qed
  qed (use ok ReqJoinTeam in \<open>simp add: join_team_def still_on_def\<close>)
next
  case (ReqLeaveTeam u)
  then show ?thesis using ok
    by (cases "leave_team d u")
      (auto simp: after_def still_on_def reassign_captain_after_leave_def elim!: leave_unseat
        intro!: on_team_unseat)
next
  case (ReqKick a m)
  then show ?thesis using ok
    by (cases "kick_member d a m")
      (auto simp: after_def still_on_def elim!: kick_unseat intro!: on_team_unseat)
next
  case (ReqTransfer a n)
  then show ?thesis using ok
    by (auto simp: transfer_captaincy_def transfer_captaincy_row_def after_def still_on_def Let_def
        split: sum.splits if_splits)
next
  case (ReqDisband a)
  then show ?thesis using ok
    by (force simp: disband_team_def disband_team_row_def after_def still_on_def has_history_def
        on_team_def list_ex_iff split: prod.splits sum.splits if_splits pg_error.splits option.splits)
qed (use ok in \<open>simp_all add: still_on_def on_team_same [OF set_join_secret_same]
  on_team_same [OF update_own_team_same]\<close>)

interpretation scored: stepwise "run_team env" "still_on t i"
  for env t i
proof
  fix d req
  assume ok: "still_on t i d"
  then have step: "roster_step d (run_team env req d)"
    by (intro team_refines) (simp add: still_on_def roster_ok_def)
  then show "still_on t i (run_team env req d)"
    using step_roster_ok [OF step] step_ledger [OF step] team_request_keeps [OF ok] ok
    by (simp add: still_on_def has_solves_def)
qed

text \<open>
  Once a team has solved something, players cannot reshuffle it: whatever its members and
  captain do, leave, kick, hand over, disband or anything else, everybody who was on it stays on it,
  and it keeps existing.
\<close>
theorem scored_roster_frozen:
  assumes "roster_ok d" "has_solves d t" "on_team d i t"
  shows "on_team (foldl (\<lambda>d req. run_team env req d) d reqs) i t"
  using scored.steps_ok [of t i d env reqs] assms by (simp add: still_on_def)

lemma scored_roster_frozen_witness:
  "on_team (foldl (\<lambda>d req. run_team sample_env req d) sample_directory
    [ReqLeaveTeam 3, ReqKick 2 3, ReqDisband 2, ReqTransfer 2 3, ReqKick 3 2]) 3 1"
  by (rule scored_roster_frozen [OF sample_roster_ok])
    (simp_all add: has_solves_def on_team_def sample_solve_def sample_directory_defs)

end
