(* ===== verification/Mail_Codes.thy ===== *)
theory Mail_Codes
  imports Roster_Properties
begin

section \<open>Codes sent by mail are spent once\<close>

text \<open>
  What the requests do to the codes of the email flows: most leave them alone, some mint one under
  a hash that is not taken, some spend one. \<open>code_step\<close> is that specification; single use over any
  later history follows from it.
\<close>

inductive code_step :: "EmailTokenRow list \<Rightarrow> EmailTokenRow list \<Rightarrow> bool" where
  Kept: "code_step es es"
| Minted: "\<not> list_ex (\<lambda>t. et_hash t = et_hash e) es \<Longrightarrow> code_step es (es @ [e])"
| Spent: "code_step es (map (\<lambda>t. if spendable now h p t then t\<lparr>et_consumed := Some now\<rparr> else t) es)"

lemma codes_simps [simp]:
  "email_tokens (map_users q f d) = email_tokens d" "email_tokens (map_teams r g d) = email_tokens d"
  "email_tokens (upsert_user_field_entry fd u v d) = email_tokens d"
  "email_tokens (delete_user_field_entry fd u d) = email_tokens d"
  by (simp_all add: map_users_def map_teams_def upsert_user_field_entry_def delete_user_field_entry_def)

lemma mint_session_codes: "mint_session d now r u h = Inr (s, d') \<Longrightarrow> email_tokens d' = email_tokens d"
  by (auto simp: mint_session_def bind_result_Inr_iff lift_pg_def create_session_def
      split: sum.splits if_splits)

lemma answer_loop_codes: "answer_loop rows u as d = Inr d' \<Longrightarrow> email_tokens d' = email_tokens d"
  by (induction rows u as d rule: answer_loop.induct)
    (simp_all split: option.splits if_splits sum.splits prod.splits)

lemma write_answers_codes: "write_answers defs u as ans d = Inr (xs, d') \<Longrightarrow> email_tokens d' = email_tokens d"
  by (induction defs u as ans d rule: write_answers.induct)
    (simp_all split: option.splits if_splits sum.splits prod.splits)

lemma go_live_codes: "go_live s d = Inr (m, d') \<Longrightarrow> email_tokens d' = email_tokens d"
  by (auto simp: go_live_def ensure_instance_def mark_setup_complete_def Let_def
      split: sum.splits if_splits option.splits)

lemma enqueue_codes:
  "enqueue_token_email d now r u e p ttl c = Inr d' \<Longrightarrow> code_step (email_tokens d) (email_tokens d')"
  by (auto simp: enqueue_token_email_def bind_result_Inr_iff lift_pg_def create_email_token_def
      intro!: Minted split: sum.splits if_splits prod.splits)

lemma consume_codes:
  "consume_email_token d now h p = Some (u, d') \<Longrightarrow> code_step (email_tokens d) (email_tokens d')"
  by (auto simp: consume_email_token_def intro: Spent split: option.splits)

lemma atomically_codes:
  "code_step (email_tokens d) (email_tokens (snd (atomically d1 r))) \<longleftrightarrow>
    (case r of Inl _ \<Rightarrow> code_step (email_tokens d) (email_tokens d1)
     | Inr (_, d') \<Rightarrow> code_step (email_tokens d) (email_tokens d'))"
  by (auto simp: atomically_def split: sum.splits)

lemma register_codes: "code_step (email_tokens d) (email_tokens (snd (register env d now r n e p v c as)))"
proof (cases "register_user env d now r n e p v c as")
  case (Inr x)
  then obtain i h d3 where x: "x = ((i, h), d3)" by (metis prod.exhaust)
  obtain d1 d2 where ins: "create_user env d n e (Some h) v = Inr (i, d1)"
    and ans: "write_registration_answers d1 i as = Inr d2"
    and mail: "(if v then Inr d2 else enqueue_verification d2 now (dr_token r) i e c) = Inr d3"
    using Inr x by (auto simp: register_user_def bind_result_Inr_iff renamed_error)
  have "email_tokens d1 = email_tokens d"
    using ins by (auto simp: create_user_def insert_user_def split: if_splits)
  moreover have "email_tokens d2 = email_tokens d1"
    using ans by (auto simp: write_registration_answers_def bind_result_Inr_iff write_answers_codes
        Let_def split: option.splits)
  moreover have "code_step (email_tokens d2) (email_tokens d3)"
    using mail by (auto simp: enqueue_verification_def enqueue_codes Kept split: if_splits)
  ultimately show ?thesis
    using Inr x by (auto simp: register_def atomically_codes mint_session_codes split: sum.splits)
qed (simp add: register_def Kept)

lemma login_codes: "code_step (email_tokens d) (email_tokens (snd (login env d now r e p)))"
  by (auto simp: login_def atomically_codes Kept row_updates update_password_hash_def
      mint_session_codes Let_def split: option.splits prod.splits sum.splits)

lemma change_password_codes:
  "code_step (email_tokens d) (email_tokens (snd (change_password env d now r u c n)))"
  by (auto simp: change_password_def atomically_codes Kept row_updates mint_session_codes
      update_password_and_clear_forced_change_def bind_result_Inr_iff Let_def
      split: option.splits prod.splits sum.splits)

lemma answer_codes: "code_step (email_tokens d) (email_tokens (snd (answer_user_fields d u as)))"
  by (auto simp: answer_user_fields_def atomically_codes bind_result_Inr_iff answer_loop_codes Kept
      split: sum.splits prod.splits)

lemma resend_codes: "code_step (email_tokens d) (email_tokens (snd (resend_verification d now r u c)))"
  by (auto simp: resend_verification_def enqueue_verification_def atomically_codes bind_result_Inr_iff
      enqueue_codes Kept split: option.splits sum.splits prod.splits)

lemma confirm_email_codes: "code_step (email_tokens d) (email_tokens (snd (confirm_email d now t)))"
  by (auto simp: confirm_email_def mark_user_verified_def row_updates consume_codes Kept
      split: option.splits)

lemma change_email_codes: "code_step (email_tokens d) (email_tokens (snd (change_email env d now r u e c)))"
proof (cases "\<exists>d1 d2. set_pending_email env u e d = Inr d1
    \<and> enqueue_token_email d1 now (dr_token r) u e ''email_change'' verify_token_ttl (email_change_mail c e)
      = Inr d2")
  case True
  then obtain d1 d2 where s: "set_pending_email env u e d = Inr d1"
    "enqueue_token_email d1 now (dr_token r) u e ''email_change'' verify_token_ttl (email_change_mail c e)
      = Inr d2"
    by blast
  have "email_tokens d1 = email_tokens d"
    using s(1) by (auto simp: set_pending_email_def row_updates split: if_splits)
  then show ?thesis using enqueue_codes [OF s(2)] s by (simp add: change_email_def Kept split: option.splits)
next
  case False
  then show ?thesis by (auto simp: change_email_def Kept split: option.splits sum.splits)
qed

lemma confirm_change_codes:
  "code_step (email_tokens d) (email_tokens (snd (confirm_email_change env d now t)))"
proof (cases "consume_email_token d now (digest_of t) ''email_change''")
  case (Some x)
  have "email_tokens d2 = email_tokens d1" if "confirm_email_change_row env u d1 = Inr (Some d2)" for u d1 d2
    using that by (auto simp: confirm_email_change_row_def row_updates split: option.splits if_splits)
  moreover obtain u d1 where x: "x = (u, d1)" by (cases x)
  moreover have "code_step (email_tokens d) (email_tokens d1)" using consume_codes Some x by blast
  ultimately show ?thesis using Some
    by (auto simp: confirm_email_change_def Kept split: option.splits sum.splits)
qed (simp add: confirm_email_change_def Kept)

lemma request_reset_codes:
  "code_step (email_tokens d) (email_tokens (snd (request_password_reset env d now r e c)))"
  by (auto simp: request_password_reset_def atomically_codes bind_result_Inr_iff enqueue_codes Kept
      split: option.splits sum.splits prod.splits)

lemma reset_codes: "code_step (email_tokens d) (email_tokens (snd (reset_password env d now r t p)))"
  by (auto simp: reset_password_def row_updates update_password_and_clear_forced_change_def
      consume_codes Kept Let_def split: option.splits sum.splits)

lemma create_token_codes: "code_step (email_tokens d) (email_tokens (snd (create_token d now r u ds ttl)))"
  by (auto simp: create_token_def atomically_codes bind_result_Inr_iff lift_pg_def create_api_token_def
      Let_def Kept split: sum.splits prod.splits if_splits)

lemma admin_codes:
  "code_step (email_tokens d) (email_tokens (snd (create_admin env d r n e p s)))"
  "code_step (email_tokens d) (email_tokens (snd (promote_to_admin env d e s)))"
proof -
  have row: "create_admin_row env d n e h = Inr (i, d1) \<Longrightarrow> email_tokens d1 = email_tokens d" for h i d1
    by (auto simp: create_admin_row_def insert_user_def split: if_splits)
  show "code_step (email_tokens d) (email_tokens (snd (create_admin env d r n e p s)))"
    unfolding create_admin_def atomically_codes
    by (auto simp: bind_result_Inr_iff Kept renamed_error dest!: go_live_codes row
        split: sum.splits prod.splits)
  show "code_step (email_tokens d) (email_tokens (snd (promote_to_admin env d e s)))"
    by (auto simp: promote_to_admin_def promote_to_admin_row_def atomically_codes bind_result_Inr_iff Kept
        Let_def dest!: go_live_codes split: option.splits sum.splits prod.splits)
qed

lemma account_codes: "code_step (email_tokens d) (email_tokens (run_account env r d))"
  by (cases r)
    (simp_all add: register_codes login_codes change_password_codes answer_codes resend_codes
      confirm_email_codes change_email_codes confirm_change_codes request_reset_codes reset_codes
      create_token_codes admin_codes logout_def delete_token_def change_name_def update_user_name_def
      update_profile_def update_own_profile_def row_updates Let_def Kept)

subsection \<open>Players' and organizers' requests on teams leave the codes alone\<close>

lemma enroll_codes: "enroll_user d t i = Inr (n, d') \<Longrightarrow> email_tokens d' = email_tokens d"
  by (auto simp: enroll_user_def update_user_def split: option.splits if_splits)

lemma enrolled_codes: "enroll d t i = Inr d' \<Longrightarrow> email_tokens d' = email_tokens d"
  by (auto elim!: enrollD dest: enroll_codes)

lemma detach_codes: "detach_member d t i = Inr d' \<Longrightarrow> email_tokens d' = email_tokens d"
  by (auto dest!: detach_memberD simp: reassign_captain_after_leave_def)

lemma after_codes:
  "email_tokens (after d r) = (case r of Inl _ \<Rightarrow> email_tokens d | Inr d' \<Rightarrow> email_tokens d')"
  "email_tokens (after2 d r2) = (case r2 of Inl _ \<Rightarrow> email_tokens d | Inr (_, d') \<Rightarrow> email_tokens d')"
  by (auto simp: after_def after2_def split: sum.splits)

lemma create_team_codes: "email_tokens (after d (create_team env d r u n p)) = email_tokens d"
proof (cases "create_team env d r u n p")
  case (Inr d')
  then have "\<exists>h s d1. create_team_row d n h (Some u) = Inr (s, d1) \<and> enroll d1 s u = Inr d'"
    unfolding create_team_def bind_result_def by (auto split: sum.splits pg_error.splits prod.splits)
  then show ?thesis
    using Inr by (auto simp: after_codes with_team_def dest!: create_team_rowD enrolled_codes)
qed (simp add: after_codes)

lemma join_team_codes: "email_tokens (snd (join_team env d r u n p)) = email_tokens d"
  by (auto simp: join_team_def join_enroll_def bind_result_Inr_iff rehash_team_password_def row_updates
      update_team_password_hash_def adopt_captainless_team_def Let_def
      dest!: enrolled_codes split: sum.splits prod.splits)

lemma team_codes: "email_tokens (run_team env r d) = email_tokens d"
proof (cases r)
  case (ReqLeaveTeam u)
  then show ?thesis
    by (auto simp: after_codes leave_team_def leave_team_row_def reassign_captain_after_leave_def Let_def
        split: sum.splits option.splits if_splits)
next
  case (ReqKick a m)
  then show ?thesis
    by (auto simp: after_codes kick_member_def kick_member_row_def Let_def split: sum.splits if_splits)
next
  case (ReqTransfer a n)
  then show ?thesis
    by (auto simp: after_codes transfer_captaincy_def transfer_captaincy_row_def Let_def
        split: sum.splits if_splits)
next
  case (ReqDisband a)
  then show ?thesis
    by (auto simp: after_codes disband_team_def disband_team_row_def
        split: prod.splits sum.splits if_splits pg_error.splits option.splits)
next
  case (ReqSetJoinSecret x a s)
  then show ?thesis
    by (auto simp: after_codes set_join_secret_def set_join_secret_by_captain_def bind_result_Inr_iff Let_def
        split: sum.splits if_splits)
next
  case (ReqUpdateOwnTeam u p)
  then show ?thesis
    by (auto simp: after_codes update_own_team_def update_team_by_captain_def Let_def
        split: sum.splits if_splits option.splits prod.splits)
qed (simp_all add: create_team_codes join_team_codes)

lemma returning_codes:
  "returning_user d i f = Some d' \<Longrightarrow> email_tokens d' = email_tokens d"
  "returning_team d i g = Some d' \<Longrightarrow> email_tokens d' = email_tokens d"
  by (auto simp: returning_user_def returning_team_def row_updates split: if_splits)

lemmas organizer_rows =
  admin_update_user_row_def admin_set_user_hidden_def admin_force_password_change_def
  admin_set_user_banned_def admin_set_user_role_def admin_set_user_verified_def
  admin_verify_all_users_def admin_create_team_row_def admin_update_team_row_def
  admin_set_team_join_secret_def admin_set_team_banned_def admin_set_team_hidden_def

lemmas organizer_operations =
  admin_update_user_def set_user_hidden_def force_password_change_def set_banned_def set_role_def
  set_verified_def verify_all_def admin_create_team_def admin_update_team_def
  set_team_join_secret_def set_team_banned_def set_team_hidden_def

lemma move_codes: "email_tokens (after d (move_team_member mode d s i t)) = email_tokens d"
  by (cases "move_team_member mode d s i t")
    (auto simp: after_codes adopt_captainless_team_def elim!: move_memberD dest!: detach_codes enroll_codes)

lemma organizer_codes: "email_tokens (run_organizer env mode r d) = email_tokens d"
proof (cases r)
  case (ReqMoveMember f u t)
  then show ?thesis by (simp add: move_codes)
next
  case (ReqRemoveMember t u)
  then show ?thesis
    by (auto simp: after_codes remove_team_member_def dest: detach_codes split: sum.splits if_splits)
qed (auto simp: after_codes organizer_operations organizer_rows bind_result_Inr_iff row_updates
    delete_team_sessions_def dest: returning_codes split: sum.splits prod.splits if_splits option.splits)

lemma request_codes: "code_step (email_tokens d) (email_tokens (run_request env mode req d))"
  by (simp add: run_request_def account_codes team_codes organizer_codes Kept split: request.split)

subsection \<open>Single use\<close>

definition spent :: "string \<Rightarrow> EmailTokenRow list \<Rightarrow> bool" where
  "spent h es \<longleftrightarrow> List.member (map et_hash es) h
    \<and> list_all (\<lambda>t. et_hash t = h \<longrightarrow> et_consumed t \<noteq> None) es"

lemma spent_step [inv]: "code_step es es' \<Longrightarrow> spent h es \<Longrightarrow> spent h es'"
proof (induction rule: code_step.induct)
  case (Spent es now h' p)
  have "map et_hash (map (\<lambda>t. if spendable now h' p t then t\<lparr>et_consumed := Some now\<rparr> else t) es)
      = map et_hash es"
    by simp
  then show ?case using Spent by (auto simp: spent_def list_all_iff simp del: map_map)
qed (auto simp: spent_def list_ex_iff list_all_iff)

lemma spent_refused: "spent h (email_tokens d) \<Longrightarrow> consume_email_token d now h p = None"
proof -
  assume "spent h (email_tokens d)"
  then have "find (spendable now h p) (email_tokens d) = None"
    by (auto simp: find_None_iff spent_def spendable_def list_all_iff)
  then show ?thesis by (simp add: consume_email_token_def)
qed

lemma consume_spends:
  assumes "distinct (map et_hash (email_tokens d))" "consume_email_token d now h p = Some (u, d')"
  shows "spent h (email_tokens d')"
proof -
  obtain t where t: "t \<in> set (email_tokens d)" "spendable now h p t"
    and d': "email_tokens d' = map (\<lambda>t. if spendable now h p t then t\<lparr>et_consumed := Some now\<rparr> else t)
      (email_tokens d)"
    using assms(2) by (auto simp: consume_email_token_def dest!: find_Some_in split: option.splits)
  have "s = t" if "s \<in> set (email_tokens d)" "et_hash s = h" for s
    using distinct_map_eqD [OF assms(1) that(1) t(1)] that(2) t(2) by (simp add: spendable_def)
  moreover have "map et_hash (email_tokens d') = map et_hash (email_tokens d)" by (simp add: d')
  ultimately show ?thesis using t by (force simp: spent_def d' list_all_iff spendable_def)
qed

interpretation codes: stepwise "run_request env mode" "\<lambda>d. spent h (email_tokens d)"
  for env mode h
  by unfold_locales (rule spent_step [OF request_codes])

text \<open>The three operations a code is for, where one succeeded: it committed the spending.\<close>

lemma confirm_email_spends:
  "distinct (map et_hash (email_tokens d)) \<Longrightarrow> confirm_email d now code = (Inr (), d0)
    \<Longrightarrow> spent (digest_of code) (email_tokens d0)"
  by (auto simp: confirm_email_def mark_user_verified_def row_updates dest: consume_spends
      split: option.splits prod.splits)

lemma confirm_change_spends:
  "distinct (map et_hash (email_tokens d)) \<Longrightarrow> confirm_email_change env d now code = (Inr (), d0)
    \<Longrightarrow> spent (digest_of code) (email_tokens d0)"
  by (auto simp: confirm_email_change_def confirm_email_change_row_def row_updates dest: consume_spends
      split: option.splits prod.splits sum.splits if_splits)

lemma reset_spends:
  "distinct (map et_hash (email_tokens d)) \<Longrightarrow> reset_password env d now r code password = (Inr n, d0)
    \<Longrightarrow> spent (digest_of code) (email_tokens d0)"
  by (auto simp: reset_password_def row_updates update_password_and_clear_forced_change_def Let_def
      dest: consume_spends split: option.splits prod.splits sum.splits)

text \<open>
  C33: A code sent by mail works once. Once an operation succeeded with it, be it the confirmation of
  an address, the confirmation of a changed address or the reset of a password, then at whatever
  later time, whoever presents it again, for whichever of the three and after whatever other
  requests, the operation fails and changes nothing. In particular a reset link cannot be replayed.
\<close>
theorem mail_code_single_use:
  assumes "distinct (map et_hash (email_tokens d))"
    "confirm_email d now code = (Inr (), d0)
     \<or> confirm_email_change env d now code = (Inr (), d0)
     \<or> reset_password env d now r code password = (Inr revoked, d0)"
    "d' = foldl (\<lambda>d req. run_request env mode req d) d0 reqs"
  shows "confirm_email d' later code = (Inl ErrTokenInvalid, d')
    \<and> confirm_email_change env d' later code = (Inl ErrTokenInvalid, d')
    \<and> (\<exists>e. reset_password env d' later r' code password' = (Inl e, d'))
    \<and> consume_email_token d' later (digest_of code) other = None"
proof -
  have "spent (digest_of code) (email_tokens d0)"
    using assms(2) confirm_email_spends confirm_change_spends reset_spends assms(1) by blast
  from codes.steps_ok [OF this] have "spent (digest_of code) (email_tokens d')"
    using assms(3) by simp
  then have "consume_email_token d' now' (digest_of code) p = None" for now' p by (rule spent_refused)
  then show ?thesis
    by (simp add: confirm_email_def confirm_email_change_def reset_password_def split: sum.split)
qed

definition reset_draws :: draws where
  "reset_draws = \<lparr>dr_salt = Some ''salt'', dr_sid = None, dr_csrf = None, dr_token = None\<rparr>"

lemma mail_code_single_use_witness:
  "\<exists>d0 n. reset_password sample_env sample_directory 0 reset_draws ''reset'' ''new'' = (Inr n, d0)
    \<and> (\<forall>r. \<exists>e. reset_password sample_env d0 1 r ''reset'' ''newer'' = (Inl e, d0))"
proof -
  have es: "email_tokens sample_directory = [sample_code ''reset'' ''reset'']"
    by (simp add: sample_directory_def)
  have d: "distinct (map et_hash (email_tokens sample_directory))"
    by (simp add: es)
  obtain h where h: "hash_password sample_env (dr_salt reset_draws) ''new'' = Inr h"
    by (simp add: hash_password_def reset_draws_def)
  obtain d1 where d1: "consume_email_token sample_directory 0 (digest_of ''reset'') ''reset'' = Some (2, d1)"
    by (simp add: consume_email_token_def es sample_code_def spendable_def)
  obtain n d0 where "delete_user_api_tokens 2 (update_password_and_clear_forced_change 2 h d1) = (n, d0)"
    by fastforce
  then have reset: "reset_password sample_env sample_directory 0 reset_draws ''reset'' ''new'' = (Inr n, d0)"
    by (simp add: reset_password_def h d1)
  have "d0 = foldl (\<lambda>d req. run_request sample_env ModeTeams req d) d0 []" by simp
  from mail_code_single_use [OF d disjI2 [OF disjI2 [OF reset]] this] show ?thesis
    using reset by blast
qed

end
