(* ===== verification/Identity_Properties.thy ===== *)
theory Identity_Properties
  imports Mail_Codes
begin

section \<open>What logging in, registering and changing a password guarantee\<close>

text \<open>
  Properties of single operations of the accounts service that need the operation and the resolution
  of the next request together: the session an operation mints is the one that authenticates, and
  what it revokes no longer does.
\<close>

subsection \<open>Sessions\<close>

lemma bearer_empty [simp]: "bearer_token '''' = None"
  by (simp add: bearer_token_def)

lemma compare_equal [simp]: "constant_time_compare x x = Suc 0"
  by (simp add: constant_time_compare_eq)

lemma mint_sessionD:
  assumes "mint_session d now r u h = Inr (s, d')"
  shows "user_by_id d u \<noteq> None" "sn_user s = u" "sn_expires s = now + session_ttl"
    "\<not> list_ex (\<lambda>x. se_hash x = digest_of (sn_id s)) (sessions d)"
    "d' = d\<lparr>sessions := sessions d @ [\<lparr>se_hash = digest_of (sn_id s), se_user = u,
      se_fingerprint = pw_fingerprint (Some h), se_csrf = sn_csrf s, se_expires = sn_expires s\<rparr>]\<rparr>"
  using assms
  by (auto simp: mint_session_def bind_result_Inr_iff lift_pg_def lift_hash_def new_secret_def digest_of_def
      create_session_def split: sum.splits if_splits option.splits)

lemma mint_session_total:
  assumes "dr_sid r = Some b" "dr_csrf r = Some c" "user_by_id d u \<noteq> None"
    "\<not> list_ex (\<lambda>x. se_hash x = digest_of (hex_encode b)) (sessions d)"
  shows "\<exists>s d'. mint_session d now r u h = Inr (s, d') \<and> sn_id s = hex_encode b"
  using assms
  by (simp add: mint_session_def lift_pg_def lift_hash_def new_secret_def digest_of_def create_session_def)

lemma principal_of_user:
  assumes "user_by_id d i = Some u"
  obtains pr where "principal_of mode d i = Inr pr" "authed pr" "banned pr = us_banned u"
    "user_id pr = us_id u" "is_admin pr = (us_role u = ''admin'')"
    "team_banned pr = (case Option.bind (us_team u) (team_by_id d) of None \<Rightarrow> False | Some t \<Rightarrow> tm_banned t)"
    "profile_complete pr = (\<not> owes_answer d applies_user (\<lambda>e. fe_user e = Some (us_id u)))"
  using assms by (auto simp: principal_of_def load_principal_def)

text \<open>A session just minted against the hash the user's row holds is the caller.\<close>

lemma minted_session_authenticates:
  assumes mint: "mint_session d now r u h = Inr (s, d')"
    and row: "user_by_id d u = Some row" "us_password row = Some h"
    and t: "t < sn_expires s"
  shows "\<exists>pr. authenticate_session mode d' t (sn_id s)
      = Inr \<lparr>au_principal = pr, au_method = MethodCookie, au_csrf = sn_csrf s\<rparr>
    \<and> user_id pr = us_id row \<and> authed pr \<and> banned pr = us_banned row"
proof -
  note m = mint_sessionD [OF mint]
  have "find (\<lambda>x. se_hash x = digest_of (sn_id s) \<and> t < se_expires x) (sessions d) = None"
    using m(4) by (auto simp: find_None_iff list_ex_iff)
  moreover have user: "user_by_id d' u = Some row" using row(1) by (simp add: m(5) user_by_id_def)
  ultimately have got: "get_session d' t (digest_of (sn_id s)) = Some (\<lparr>se_hash = digest_of (sn_id s),
      se_user = u, se_fingerprint = pw_fingerprint (Some h), se_csrf = sn_csrf s, se_expires = sn_expires s\<rparr>,
      Some h)"
    using row(2) t by (simp add: get_session_def m(5) find_append user_by_id_def)
  obtain pr where "principal_of mode d' u = Inr pr" "authed pr" "banned pr = us_banned row"
    "user_id pr = us_id row"
    using principal_of_user [OF user] by metis
  then show ?thesis
    using got by (simp add: authenticate_session_def)
qed

lemma update_user_lookup:
  assumes "\<And>u. us_id (f u) = us_id u"
  shows "user_by_id (update_user i f d) i = map_option f (user_by_id d i)"
proof -
  have "find (\<lambda>u. us_id u = i) (map (\<lambda>u. if us_id u = i then f u else u) us)
      = map_option f (find (\<lambda>u. us_id u = i) us)" for us
    by (induction us) (simp_all add: assms)
  then show ?thesis by (simp add: user_by_id_def update_user_def)
qed

text \<open>
  C30: A login is one of two things. With an address of the directory, a password its stored hash
  verifies, in either format, and an account that is not banned, a session is minted, and presenting
  its cookie before it expires is being that account, also when the login replaced an old hash. In
  every other case, unknown address, no password, wrong password or ban, the answer is one and the
  same refusal and nothing has changed.
\<close>
theorem login_exact:
  assumes ids: "distinct (map us_id (people d))"
    and draws: "dr_sid r = Some b" "b \<noteq> []" "dr_csrf r = Some c"
    and unused: "\<not> list_ex (\<lambda>x. se_hash x = digest_of (hex_encode b)) (sessions d)"
    and t: "t < now + session_ttl"
  shows "(\<exists>u h. get_user_by_email env d email = Some u \<and> us_password u = Some h
        \<and> fst (verify env h pw) \<and> \<not> us_banned u
        \<and> (\<exists>s d' pr. login env d now r email pw = (Inr s, d') \<and> sn_user s = us_id u
            \<and> authenticate mode d' t '''' (Some (sn_id s))
              = Inr \<lparr>au_principal = pr, au_method = MethodCookie, au_csrf = sn_csrf s\<rparr>
            \<and> user_id pr = us_id u \<and> \<not> banned pr))
    \<or> \<not> (\<exists>u h. get_user_by_email env d email = Some u \<and> us_password u = Some h
          \<and> fst (verify env h pw) \<and> \<not> us_banned u)
        \<and> login env d now r email pw = (Inl ErrBadCredentials, d)"
proof (cases "\<exists>u h. get_user_by_email env d email = Some u \<and> us_password u = Some h
    \<and> fst (verify env h pw) \<and> \<not> us_banned u")
  case False
  have "login env d now r email pw = (Inl ErrBadCredentials, d)"
  proof (cases "Option.bind (get_user_by_email env d email) us_password")
    case (Some h)
    then obtain u where u: "get_user_by_email env d email = Some u" "us_password u = Some h"
      by (auto simp: bind_eq_Some_conv)
    then have "\<not> fst (verify env h pw) \<or> us_banned u" using False by blast
    then show ?thesis using u by (cases "verify env h pw") (auto simp: login_def)
  qed (auto simp: login_def bind_eq_None_conv split: option.splits)
  then show ?thesis using False by blast
next
  case True
  then obtain u h where u: "get_user_by_email env d email = Some u" "us_password u = Some h"
    "fst (verify env h pw)" "\<not> us_banned u"
    by blast
  have row: "user_by_id d (us_id u) = Some u"
    using u(1) by (intro find_user [OF ids]) (auto simp: get_user_by_email_def dest: find_Some_in)
  obtain h' d1 where d1: "(h', d1) = (if snd (verify env h pw) then
      (case hash_password env (dr_salt r) pw of
         Inl _ \<Rightarrow> (h, d) | Inr up \<Rightarrow> (up, update_password_hash (us_id u) up d)) else (h, d))"
    by (metis prod.exhaust)
  have login: "login env d now r email pw = atomically d1 (mint_session d1 now r (us_id u) h')"
    using u d1 [symmetric] by (cases "verify env h pw") (simp add: login_def Let_def split: prod.splits)
  have row1: "user_by_id d1 (us_id u) = Some (u\<lparr>us_password := Some h'\<rparr>)"
    using d1 row u(2) by (auto simp: update_password_hash_def update_user_lookup split: if_splits sum.splits)
  have "sessions d1 = sessions d"
    using d1 by (auto simp: update_password_hash_def update_user_def map_users_def split: if_splits sum.splits)
  then obtain s d' where s: "mint_session d1 now r (us_id u) h' = Inr (s, d')" "sn_id s = hex_encode b"
    using mint_session_total [OF draws(1,3), of d1 "us_id u" now h'] row1 unused by auto
  have "t < sn_expires s" using mint_sessionD(3) [OF s(1)] t by simp
  from minted_session_authenticates [OF s(1) row1 _ this, of mode]
  obtain pr where pr: "authenticate_session mode d' t (sn_id s)
      = Inr \<lparr>au_principal = pr, au_method = MethodCookie, au_csrf = sn_csrf s\<rparr>"
    "user_id pr = us_id u" "\<not> banned pr"
    using u(4) by auto
  have "sn_id s \<noteq> ''''" using draws(2) s(2) by (cases b) (simp_all add: hex_encode_def)
  then have "authenticate mode d' t '''' (Some (sn_id s))
      = Inr \<lparr>au_principal = pr, au_method = MethodCookie, au_csrf = sn_csrf s\<rparr>"
    using pr(1) by (simp add: authenticate_def)
  moreover have "login env d now r email pw = (Inr s, d')" "sn_user s = us_id u"
    using login s mint_sessionD(2) [OF s(1)] by (simp_all add: atomically_def)
  ultimately show ?thesis using u pr by blast
qed

lemma sample_people:
  "people sample_directory = [sample_user 1 ''root'' ''admin'' None, sample_user 2 ''ann'' ''user'' (Some 1),
     sample_user 3 ''bob'' ''user'' (Some 1), sample_user 4 ''cyd'' ''user'' None]"
  by (simp add: sample_directory_def)

lemma sample_ids: "distinct (map us_id (people sample_directory))"
  by (simp add: sample_people sample_user_def new_user_row_def)

definition sample_draws :: draws where
  "sample_draws = \<lparr>dr_salt = None, dr_sid = Some ''sid'', dr_csrf = Some ''tok'', dr_token = Some ''mail''\<rparr>"

lemma login_exact_witness:
  "fst (login sample_env (sample_directory\<lparr>sessions := []\<rparr>) 0 sample_draws ''ANN'' ''wrong'')
    = Inl ErrBadCredentials"
proof -
  have ids: "distinct (map us_id (people (sample_directory\<lparr>sessions := []\<rparr>)))" using sample_ids by simp
  have "\<not> fst (verify sample_env ''$2b$pw'' ''wrong'')" by (simp add: verify_def sample_env_def)
  moreover have "get_user_by_email sample_env (sample_directory\<lparr>sessions := []\<rparr>) ''ANN''
      = Some (sample_user 2 ''ann'' ''user'' (Some 1))"
    by (simp add: get_user_by_email_def sample_people sample_user_def new_user_row_def) code_simp
  ultimately show ?thesis
    using login_exact [OF ids, of sample_draws "''sid''" "''tok''" 0 0 sample_env "''ANN''" "''wrong''"]
    by (auto simp: sample_draws_def session_ttl_def hour_def sample_user_def new_user_row_def)
qed

subsection \<open>Changing and resetting a password\<close>

text \<open>What authenticates has a live credential of the account.\<close>

lemma session_user:
  assumes "authenticate_session mode d t sid = Inr a"
  obtains x where "x \<in> set (sessions d)" "se_hash x = digest_of sid" "user_id (au_principal a) = se_user x"
    "\<exists>u. user_by_id d (se_user x) = Some u \<and> se_fingerprint x = pw_fingerprint (us_password u)"
proof -
  obtain x h where g: "get_session d t (digest_of sid) = Some (x, h)"
    and f: "se_fingerprint x = pw_fingerprint h" and p: "principal_of mode d (se_user x) = Inr (au_principal a)"
    using assms by (auto simp: authenticate_session_def bind_result_Inr_iff constant_time_compare_eq
        split: option.splits if_splits)
  have x: "x \<in> set (sessions d)" "se_hash x = digest_of sid"
    using g by (auto simp: get_session_def dest: find_Some_in split: option.splits)
  obtain u where u: "user_by_id d (se_user x) = Some u" "h = us_password u"
    using g by (auto simp: get_session_def split: option.splits)
  have "us_id u = se_user x" using u(1) by (auto simp: user_by_id_def dest: find_Some_in)
  then have "user_id (au_principal a) = se_user x" using principal_of_user [OF u(1)] p by (metis sum.inject(2))
  then show ?thesis using that x u f by blast
qed

lemma token_user:
  assumes "authenticate_token mode d t tok = Inr a"
  obtains x where "x \<in> set (tokens d)" "user_id (au_principal a) = tk_user x"
proof -
  obtain x where x: "get_api_token d t (digest_of tok) = Some x"
    and p: "principal_of mode d (tk_user x) = Inr (au_principal a)"
    using assms by (auto simp: authenticate_token_def bind_result_Inr_iff split: option.splits)
  obtain u where u: "user_by_id d (tk_user x) = Some u"
    using p by (auto simp: principal_of_def load_principal_def split: option.splits)
  have "us_id u = tk_user x" using u by (auto simp: user_by_id_def dest: find_Some_in)
  then have "user_id (au_principal a) = tk_user x" using principal_of_user [OF u] p by (metis sum.inject(2))
  moreover have "x \<in> set (tokens d)" using x by (auto simp: get_api_token_def dest: find_Some_in)
  ultimately show ?thesis using that by blast
qed

lemma password_written:
  assumes "change_password env d now r user cur new = (Inr (s, n), d')
    \<or> reset_password env d now r code new = (Inr n, d')
       \<and> (\<exists>d0. consume_email_token d now (digest_of code) ''reset'' = Some (user, d0))"
  shows "\<exists>h. hash_password env (dr_salt r) new = Inr h
    \<and> (\<forall>u. user_by_id d' user = Some u \<longrightarrow> us_password u = Some h)
    \<and> (\<forall>x\<in>set (tokens d'). tk_user x \<noteq> user)"
  using assms
proof
  assume "change_password env d now r user cur new = (Inr (s, n), d')"
  then obtain row h d1 d2 where h: "hash_password env (dr_salt r) new = Inr h"
    and d1: "d1 = update_password_and_clear_forced_change user h d"
    and d2: "d2 = snd (delete_user_api_tokens user d1)"
    and mint: "mint_session d2 now r user h = Inr (s, d')"
    by (auto simp: change_password_def atomically_def bind_result_Inr_iff lift_hash_def Let_def
        split: option.splits if_splits sum.splits prod.splits)
  have "user_by_id d' user = map_option (\<lambda>u. u\<lparr>us_password := Some h, us_must_change := False\<rparr>) (user_by_id d user)"
    using update_user_lookup [of "\<lambda>u. u\<lparr>us_password := Some h, us_must_change := False\<rparr>" user d]
    by (simp add: mint_sessionD(5) [OF mint] d1 d2 update_password_and_clear_forced_change_def
        delete_user_api_tokens_def delete_tokens_def user_by_id_def)
  moreover have "tokens d' = filter (\<lambda>t. tk_user t \<noteq> user) (tokens d1)"
    using mint_sessionD(5) [OF mint] by (simp add: d2 delete_user_api_tokens_def delete_tokens_def)
  ultimately show ?thesis using h by auto
next
  assume a: "reset_password env d now r code new = (Inr n, d')
       \<and> (\<exists>d0. consume_email_token d now (digest_of code) ''reset'' = Some (user, d0))"
  then obtain h d0 where h: "hash_password env (dr_salt r) new = Inr h"
    and d': "d' = snd (delete_user_api_tokens user (update_password_and_clear_forced_change user h d0))"
    by (auto simp: reset_password_def Let_def split: sum.splits prod.splits) (metis snd_conv)
  have "user_by_id d' user = map_option (\<lambda>u. u\<lparr>us_password := Some h, us_must_change := False\<rparr>) (user_by_id d0 user)"
    using update_user_lookup [of "\<lambda>u. u\<lparr>us_password := Some h, us_must_change := False\<rparr>" user d0]
    by (simp add: d' update_password_and_clear_forced_change_def delete_user_api_tokens_def
        delete_tokens_def user_by_id_def)
  then show ?thesis using h by (auto simp: d' delete_user_api_tokens_def delete_tokens_def)
qed

text \<open>
  C32: After a password change, or a reset by mail, the new hash is in place and what was handed out
  before no longer works: no API token authenticates as the account, and a cookie that does is that
  of a session carrying the fingerprint of the new hash. A session minted against any other hash is
  nobody's.
\<close>
theorem password_change_revokes:
  assumes "change_password env d now r user cur new = (Inr (s, n), d')
    \<or> reset_password env d now r code new = (Inr n, d')
       \<and> (\<exists>d0. consume_email_token d now (digest_of code) ''reset'' = Some (user, d0))"
    and "authenticate_session mode d' t sid = Inr a \<or> authenticate_token mode d' t sid = Inr a"
    and "user_id (au_principal a) = user"
  shows "\<exists>h x. hash_password env (dr_salt r) new = Inr h
    \<and> user_by_id d' user \<noteq> None \<and> Option.bind (user_by_id d' user) us_password = Some h
    \<and> x \<in> set (sessions d') \<and> se_hash x = digest_of sid \<and> se_fingerprint x = pw_fingerprint (Some h)
    \<and> authenticate_session mode d' t sid = Inr a"
proof -
  obtain h where h: "hash_password env (dr_salt r) new = Inr h"
    and pw: "\<And>u. user_by_id d' user = Some u \<Longrightarrow> us_password u = Some h"
    and tok: "\<forall>x\<in>set (tokens d'). tk_user x \<noteq> user"
    using password_written [OF assms(1)] by blast
  have ses: "authenticate_session mode d' t sid = Inr a"
    using assms(2,3) tok token_user by metis
  obtain x where "x \<in> set (sessions d')" "se_hash x = digest_of sid" "se_user x = user"
    "\<exists>u. user_by_id d' user = Some u \<and> se_fingerprint x = pw_fingerprint (us_password u)"
    using session_user [OF ses] assms(3) by metis
  then show ?thesis using h pw ses by auto
qed

lemma password_change_revokes_witness:
  "\<exists>d'. reset_password sample_env sample_directory 0 (sample_draws\<lparr>dr_salt := Some ''salt''\<rparr>) ''reset'' ''new''
      = (Inr 1, d')
    \<and> (\<forall>a. authenticate_token ModeTeams d' 1 ''flagfish_t'' = Inr a \<longrightarrow> user_id (au_principal a) \<noteq> 2)"
proof -
  let ?r = "sample_draws\<lparr>dr_salt := Some ''salt''\<rparr>"
  have code: "\<exists>d0. consume_email_token sample_directory 0 (digest_of ''reset'') ''reset'' = Some (2, d0)
      \<and> tokens d0 = tokens sample_directory"
    by (simp add: consume_email_token_def sample_directory_def sample_code_def spendable_def)
  then obtain d' where d': "reset_password sample_env sample_directory 0 ?r ''reset'' ''new'' = (Inr 1, d')"
    by (auto simp: reset_password_def hash_password_def update_password_and_clear_forced_change_def
        update_user_def map_users_def delete_user_api_tokens_def delete_tokens_def sample_directory_def)
  have "user_id (au_principal a) \<noteq> 2" if a: "authenticate_token ModeTeams d' 1 ''flagfish_t'' = Inr a" for a
  proof
    assume u: "user_id (au_principal a) = 2"
    have "authenticate_session ModeTeams d' 1 ''flagfish_t'' = Inr a"
      using password_change_revokes [OF _ disjI2 [OF a] u, of sample_env sample_directory 0 ?r _ _ _ 1
          "''reset''"] d' code
      by blast
    then show False using a by (auto simp: authenticate_session_def authenticate_token_def
        bind_result_Inr_iff split: option.splits if_splits)
  qed
  then show ?thesis using d' by blast
qed

subsection \<open>Bans reach every request\<close>

lemma principal_known:
  assumes "authenticate mode d t header cookie = Inr a" "au_method a \<noteq> MethodAnonymous"
  shows "\<exists>i v. principal_of mode d i = Inr (au_principal a) \<and> user_by_id d i = Some v"
proof -
  have "\<exists>i. principal_of mode d i = Inr (au_principal a)"
    using assms
    by (fastforce simp: authenticate_def authenticate_token_def authenticate_session_def
        anonymous_auth_def bind_result_Inr_iff split: option.splits if_splits sum.splits)
  then obtain i where i: "principal_of mode d i = Inr (au_principal a)" by blast
  have "user_by_id d i \<noteq> None"
  proof
    assume "user_by_id d i = None"
    then show False using i by (simp add: principal_of_def load_principal_def)
  qed
  then show ?thesis using i by blast
qed

text \<open>
  C31: A ban holds whatever credential is presented: when a request, by cookie or by token, resolves
  to an account of the directory that is banned, or whose team is, the gate refuses it every class
  but the theme assets, however the event stands and whatever else the account may be; the answer, on
  a route that exists in the setup state, is the one that names the ban.
\<close>
theorem banned_account_refused:
  assumes "authenticate mode d t header cookie = Inr a" "au_method a \<noteq> MethodAnonymous"
    "user_by_id d (user_id (au_principal a)) = Some u"
    "us_banned u \<or> Option.bind (Option.bind (us_team u) (team_by_id d)) (\<lambda>r. Some (tm_banned r)) = Some True"
    "P p = au_principal a" "req_class (R p) \<noteq> ClassThemeAsset"
  shows "\<not> allow (decide p)
    \<and> (req_class (R p) \<noteq> ClassUnknown \<and> (setup_done (E p) \<longleftrightarrow> req_class (R p) \<noteq> ClassSetup)
        \<longrightarrow> decide p = refuse (if us_banned u then ReasonBanned else ReasonTeamBanned))"
proof -
  obtain i v where i: "principal_of mode d i = Inr (au_principal a)" "user_by_id d i = Some v"
    using assms(1,2) principal_known by metis
  have id: "us_id v = i" using i(2) by (auto simp: user_by_id_def dest: find_Some_in)
  obtain pr where pr: "principal_of mode d i = Inr pr" "authed pr" "banned pr = us_banned v"
    "user_id pr = us_id v"
    "team_banned pr = (case Option.bind (us_team v) (team_by_id d) of None \<Rightarrow> False | Some t \<Rightarrow> tm_banned t)"
    using principal_of_user [OF i(2)] by metis
  have "v = u" using assms(3) i pr(1,4) id by simp
  then have p: "authed (P p)" "banned (P p) = us_banned u" "us_banned u \<or> team_banned (P p)"
    using assms(4,5) i(1) pr by (cases "us_team u"; auto split: option.splits)+
  then have "\<not> allow (decide p)"
    using assms(6) by (auto simp: decide_permitted permitted_def caller_acceptable_def Let_def)
  moreover have "req_class (R p) \<noteq> ClassUnknown \<and> (setup_done (E p) \<longleftrightarrow> req_class (R p) \<noteq> ClassSetup)
      \<longrightarrow> decide p = refuse (if us_banned u then ReasonBanned else ReasonTeamBanned)"
    using p assms(6) by (auto simp: decide_def decide_gates_def gate_unknown_def gate_setup_def
        gate_ban_def ban_exempt_only_assets)
  ultimately show ?thesis by blast
qed

lemma banned_account_refused_witness:
  "\<exists>a d. d = sample_directory\<lparr>people := [sample_user 2 ''ann'' ''admin'' (Some 1)],
        rosters := [(sample_team 1 ''ravens'' (Some 2))\<lparr>tm_banned := True\<rparr>]\<rparr>
    \<and> authenticate ModeTeams d 1 ''bearer flagfish_t'' None = Inr a
    \<and> reason (decide ((sample_policy ClassHintUnlock)\<lparr>P := au_principal a\<rparr>)) = ReasonTeamBanned"
proof -
  define d where "d = sample_directory\<lparr>people := [sample_user 2 ''ann'' ''admin'' (Some 1)],
        rosters := [(sample_team 1 ''ravens'' (Some 2))\<lparr>tm_banned := True\<rparr>]\<rparr>"
  have u: "user_by_id d 2 = Some (sample_user 2 ''ann'' ''admin'' (Some 1))"
    by (simp add: d_def user_by_id_def sample_user_def new_user_row_def)
  obtain pr where pr: "principal_of ModeTeams d 2 = Inr pr" "user_id pr = 2"
    using principal_of_user [OF u, of ModeTeams] by (auto simp: sample_user_def new_user_row_def)
  have "get_api_token d 1 (digest_of ''flagfish_t'') \<noteq> None"
    "\<And>x. get_api_token d 1 (digest_of ''flagfish_t'') = Some x \<Longrightarrow> tk_user x = 2"
    by (auto simp: get_api_token_def d_def sample_directory_def)
  moreover have "bearer_token ''bearer flagfish_t'' = Some ''flagfish_t''" by code_simp
  ultimately have a: "authenticate ModeTeams d 1 ''bearer flagfish_t'' None
      = Inr \<lparr>au_principal = pr, au_method = MethodToken, au_csrf = ''''\<rparr>" (is "_ = Inr ?a")
    using pr(1) by (auto simp: authenticate_def authenticate_token_def)
  let ?p = "(sample_policy ClassHintUnlock)\<lparr>P := au_principal ?a\<rparr>"
  have "user_by_id d (user_id (au_principal ?a)) = Some (sample_user 2 ''ann'' ''admin'' (Some 1))"
    using u pr(2) by simp
  moreover have "us_team (sample_user 2 ''ann'' ''admin'' (Some 1)) = Some 1"
    "\<not> us_banned (sample_user 2 ''ann'' ''admin'' (Some 1))"
    "map_option tm_banned (team_by_id d 1) = Some True"
    by (simp_all add: sample_user_def new_user_row_def team_by_id_def d_def sample_team_def)
  ultimately have "decide ?p = refuse ReasonTeamBanned"
    using banned_account_refused [OF a, of "sample_user 2 ''ann'' ''admin'' (Some 1)" ?p]
    by (auto simp: sample_policy_def sample_request_def sample_event_def)
  then have "reason (decide ?p) = ReasonTeamBanned" by simp
  then show ?thesis using a d_def by blast
qed

subsection \<open>A registration is complete\<close>

definition has_answer :: "directory \<Rightarrow> id \<Rightarrow> id \<Rightarrow> bool" where
  "has_answer d f u \<longleftrightarrow>
    list_ex (\<lambda>e. fe_field e = f \<and> fe_user e = Some u \<and> is_answered (fe_value e)) (entries d)"

lemma upsert_answers:
  assumes "is_answered v"
  shows "has_answer (upsert_user_field_entry f u v d) f u"
    "has_answer d g u \<Longrightarrow> has_answer (upsert_user_field_entry f u v d) g u"
  using assms
  by (auto simp: has_answer_def upsert_user_field_entry_def list_ex_iff simp del: if_image_distrib)
    metis

lemma upsert_frame [simp]:
  "people (upsert_user_field_entry f u v d) = people d"
  "form_fields (upsert_user_field_entry f u v d) = form_fields d"
  by (simp_all add: upsert_user_field_entry_def)

lemma present_answered: "normalize_answer t r = Inr (v, True) \<Longrightarrow> is_answered v"
  using normalize_answer_shape [of t r v True] by (auto simp: is_answered_def)

lemma write_answers_all:
  assumes "write_answers defs u as ans d = Inr (xs, d')" "\<forall>f\<in>set ans. has_answer d f u"
  shows "(\<forall>f\<in>set xs. has_answer d' f u) \<and> people d' = people d \<and> form_fields d' = form_fields d"
  using assms
proof (induction defs u as ans d rule: write_answers.induct)
  case (2 defs user i v answers answered d)
  from "2.prems"(1) obtain f val present where f: "find (\<lambda>f. fd_id f = i) defs = Some f"
    and n: "normalize_answer (fd_type f) v = Inr (val, present)"
    by (auto split: option.splits sum.splits)
  show ?case
  proof (cases present)
    case False
    then show ?thesis using "2.IH"(1) [OF f n] "2.prems" f n by simp
  next
    case True
    then have "is_answered val" using present_answered n by simp
    then have "\<forall>g\<in>set (fd_id f # answered). has_answer (upsert_user_field_entry (fd_id f) user val d) g user"
      using "2.prems"(2) upsert_answers by auto
    then show ?thesis using "2.IH"(2) [OF f n] "2.prems"(1) f n True by simp
  qed
qed simp

lemma registered_owes_nothing:
  assumes "write_registration_answers d u as = Inr d'"
  shows "\<not> owes_answer d' applies_user (\<lambda>e. fe_user e = Some u)" "people d' = people d"
proof -
  obtain xs where w: "write_answers (list_user_field_defs d) u as [] d = Inr (xs, d')"
    and r: "find (\<lambda>f. fd_required f \<and> \<not> List.member xs (fd_id f)) (list_user_field_defs d) = None"
    using assms by (auto simp: write_registration_answers_def bind_result_Inr_iff Let_def split: option.splits)
  have all: "(\<forall>f\<in>set xs. has_answer d' f u) \<and> people d' = people d \<and> form_fields d' = form_fields d"
    by (rule write_answers_all [OF w]) simp
  have "has_answer d' (fd_id f) u" if "f \<in> set (form_fields d')" "fd_applies_to f = applies_user" "fd_required f" for f
    using r all that by (auto simp: find_None_iff list_user_field_defs_def)
  then show "\<not> owes_answer d' applies_user (\<lambda>e. fe_user e = Some u)"
    by (auto simp: owes_answer_def has_answer_def list_ex_iff)
  show "people d' = people d" using all by blast
qed

lemma enqueue_people:
  "enqueue_token_email d now r u e p ttl c = Inr d' \<Longrightarrow> people d' = people d \<and> entries d' = entries d
    \<and> form_fields d' = form_fields d \<and> (\<exists>m\<in>set (outbox d'). ma_to m = e)"
  by (auto simp: enqueue_token_email_def bind_result_Inr_iff lift_pg_def create_email_token_def
      split: sum.splits if_splits prod.splits)

text \<open>
  Who registers can play: when a registration succeeds, the new account answers every field the
  form requires, so the gate never holds it back for an incomplete profile; it is an ordinary,
  unbanned account on no team under the address given, verified exactly when the caller said so, the
  address was free whatever its case, and, where it has to be confirmed, the mail with the code is
  queued to it.
\<close>
theorem registration_complete:
  assumes keys: "keys_ok d" and reg: "register env d now r name email pw v ctf answers = (Inr s, d')"
  shows "\<exists>row pr. load_principal d' (sn_user s) = Some (row, pr)
    \<and> profile_complete pr \<and> \<not> is_admin pr \<and> \<not> banned pr \<and> verified pr = v \<and> us_team row = None
    \<and> us_email row = email \<and> get_user_by_email env d email = None
    \<and> (\<not> v \<longrightarrow> (\<exists>m\<in>set (outbox d'). ma_to m = email))"
proof -
  obtain i h d3 where reg3: "register_user env d now r name email pw v ctf answers = Inr ((i, h), d3)"
    and mint: "mint_session d3 now r i h = Inr (s, d')"
    using reg by (auto simp: register_def atomically_def split: sum.splits prod.splits)
  obtain d1 d2 where ins: "create_user env d name email (Some h) v = Inr (i, d1)"
    and ans: "write_registration_answers d1 i answers = Inr d2"
    and mail: "(if v then Inr d2 else enqueue_verification d2 now (dr_token r) i email ctf) = Inr d3"
    using reg3 by (auto simp: register_user_def bind_result_Inr_iff renamed_error)
  define row where "row = new_user_row (next_user d) name email (Some h) ''user'' v"
  have free: "get_user_by_email env d email = None" and i: "i = next_user d" "people d1 = people d @ [row]"
    using ins by (auto simp: create_user_def insert_user_def row_def split: if_splits)
  have owes: "\<not> owes_answer d2 applies_user (\<lambda>e. fe_user e = Some i)" and p2: "people d2 = people d1"
    using registered_owes_nothing [OF ans] by blast+
  have d3: "people d3 = people d2 \<and> entries d3 = entries d2 \<and> form_fields d3 = form_fields d2
      \<and> (\<not> v \<longrightarrow> (\<exists>m\<in>set (outbox d3). ma_to m = email))"
    using mail enqueue_people by (auto simp: enqueue_verification_def split: if_splits)
  have d': "people d' = people d @ [row]" "entries d' = entries d2" "form_fields d' = form_fields d2"
    "outbox d' = outbox d3" "sn_user s = i"
    using mint_sessionD(2,5) [OF mint] d3 p2 i by simp_all
  have "find (\<lambda>u. us_id u = i) (people d) = None"
    using keys i by (fastforce simp: keys_ok_def list_all_iff find_None_iff)
  then have "user_by_id d' i = Some row"
    using i(1) by (simp add: user_by_id_def d' find_append row_def new_user_row_def)
  moreover have "\<not> owes_answer d' applies_user (\<lambda>e. fe_user e = Some i)"
    using owes by (simp add: owes_answer_def d')
  ultimately show ?thesis
    using d3 d' free i by (auto simp: load_principal_def row_def new_user_row_def)
qed

lemma registration_complete_witness:
  "\<exists>s d'. register sample_env (sample_directory\<lparr>sessions := []\<rparr>) 0
      (sample_draws\<lparr>dr_salt := Some ''salt''\<rparr>) ''dan'' ''dan@ctf'' ''pw'' True ''CTF'' [] = (Inr s, d')
    \<and> (\<exists>row pr. load_principal d' (sn_user s) = Some (row, pr) \<and> profile_complete pr)"
proof -
  let ?d = "sample_directory\<lparr>sessions := []\<rparr>"
  let ?r = "sample_draws\<lparr>dr_salt := Some ''salt''\<rparr>"
  have keys: "keys_ok ?d"
    using sample_roster_ok by (simp add: roster_ok_def keys_ok_def)
  have free: "get_user_by_email sample_env ?d ''dan@ctf'' = None"
    by (auto simp: get_user_by_email_def find_None_iff sample_people sample_user_def new_user_row_def
        sample_env_def dest: map_eq_imp_length_eq)
  obtain h where h: "hash_password sample_env (Some ''salt'') ''pw'' = Inr h"
    by (simp add: hash_password_def)
  have "\<exists>d1. register_user sample_env ?d 0 ?r ''dan'' ''dan@ctf'' ''pw'' True ''CTF'' [] = Inr ((5, h), d1)
      \<and> people d1 = people ?d @ [new_user_row 5 ''dan'' ''dan@ctf'' (Some h) ''user'' True] \<and> sessions d1 = []"
    by (simp add: register_user_def h lift_hash_def create_user_def insert_user_def free users_full_def
        cap_reached_def write_registration_answers_def list_user_field_defs_def)
      (simp add: sample_directory_def)
  then obtain d1 where d1: "register_user sample_env ?d 0 ?r ''dan'' ''dan@ctf'' ''pw'' True ''CTF'' [] = Inr ((5, h), d1)"
    "people d1 = people ?d @ [new_user_row 5 ''dan'' ''dan@ctf'' (Some h) ''user'' True]" "sessions d1 = []"
    by blast
  have "user_by_id d1 5 \<noteq> None" by (simp add: user_by_id_def d1 find_append new_user_row_def split: option.split)
  then obtain s d' where "mint_session d1 0 ?r 5 h = Inr (s, d')"
    using mint_session_total [of ?r "''sid''" "''tok''" d1 5 0 h] d1(3) by (auto simp: sample_draws_def)
  then have reg: "register sample_env ?d 0 ?r ''dan'' ''dan@ctf'' ''pw'' True ''CTF'' [] = (Inr s, d')"
    by (simp add: register_def d1 atomically_def)
  from registration_complete [OF keys reg] show ?thesis using reg by blast
qed

end
