(* ===== verification/Authoring_Store.thy ===== *)
theory Authoring_Store
  imports Submit Input_Rules
begin

section \<open>The challenges as their authors write them (db/admin.sql.gen.go)\<close>

text \<open>
  The tables of \<open>00002_challenges.sql\<close> with every column an author edits, and one definition per
  query of \<open>admin.sql\<close>, \<open>admin_read.sql\<close> and \<open>catalog.sql\<close> that challenge administration calls. The
  constraints of the tables are part of the queries: a write they refuse is a \<open>pg_error\<close> with the
  name of the constraint. Time stamps of a row (\<open>created_at\<close>, \<open>updated_at\<close>) are left out. \<open>game\<close> is
  the store a player's transaction runs on.
\<close>

subsection \<open>Rows\<close>

record Challenge =
  cg_id :: id
  cg_name :: string
  cg_category :: string
  cg_description :: string
  cg_attribution :: "string option"
  cg_connection_info :: "string option"
  cg_type :: string
  cg_state :: string
  cg_value :: int
  cg_function :: string
  cg_initial :: "int option"
  cg_minimum :: "int option"
  cg_decay :: "int option"
  cg_max_attempts :: int
  cg_logic :: string
  cg_position :: int
  cg_next_id :: "id option"
  cg_requirements :: raw
  cg_flag_mode :: string
  cg_first_blood :: string
  cg_first_blood_bonus :: "int option"

record AuthoredHint = HintRow +
  h_position :: int

record Tag =
  tg_id :: id
  tg_challenge :: id
  tg_value :: string

record ChallengeAnnotation =
  an_id :: id
  an_of :: id
  an_key :: string
  an_value :: string

record FileRow =
  fi_id :: id
  fi_challenge :: "id option"
  fi_name :: string
  fi_size :: int

record studio =
  sheets :: "Challenge list"
  flag_rows :: "FlagRow list"
  hint_rows :: "AuthoredHint list"
  tag_rows :: "Tag list"
  annotations :: "ChallengeAnnotation list"
  files :: "FileRow list"
  pool :: "InstanceRow list"
  play :: db
  next_challenge :: id
  next_flag :: id
  next_hint :: id
  next_tag :: id
  next_annotation :: id
  next_instance :: id

subsection \<open>The store the players see\<close>

text \<open>
  A curve parameter that is NULL reads as 0 here; the CHECK below makes it matter on static
  challenges only, whose curve nobody reads.
\<close>

definition game_row :: "Challenge \<Rightarrow> ChallengeRow" where
  "game_row c =
    \<lparr>ch_id = cg_id c, ch_name = cg_name c, ch_state = cg_state c, ch_value = cg_value c,
     ch_function = cg_function c, ch_initial = coalesce (cg_initial c) 0,
     ch_minimum = coalesce (cg_minimum c) 0, ch_decay = coalesce (cg_decay c) 0,
     ch_max_attempts = cg_max_attempts c, ch_logic = cg_logic c, ch_next_id = cg_next_id c,
     ch_requirements = cg_requirements c, ch_flag_mode = cg_flag_mode c,
     ch_first_blood = cg_first_blood c, ch_first_blood_bonus = cg_first_blood_bonus c\<rparr>"

definition game :: "studio \<Rightarrow> db" where
  "game s =
    (play s)\<lparr>db.challenges := map game_row (sheets s), db.flags := flag_rows s,
      db.hints := map HintRow.truncate (hint_rows s), db.instances := pool s\<rparr>"

subsection \<open>The constraints of a challenge row\<close>

text \<open>
  The CHECK constraints, in the order of their names, which is the order they are tried in. A
  comparison with NULL passes a CHECK.
\<close>

definition dynamic_params :: "Challenge \<Rightarrow> bool" where
  "dynamic_params c \<longleftrightarrow> cg_function c = ''static''
    \<or> (case (cg_initial c, cg_minimum c, cg_decay c) of
         (Some i, Some m, Some d) \<Rightarrow> 0 < d \<and> 0 \<le> m \<and> m \<le> i
       | _ \<Rightarrow> False)"

definition challenge_checks :: "(string \<times> (Challenge \<Rightarrow> bool)) list" where
  "challenge_checks =
    [(''challenges_dynamic_params'', dynamic_params),
     (''challenges_fb_bonus'',
        \<lambda>c. (cg_first_blood c = ''bonus'') = (cg_first_blood_bonus c \<noteq> None)),
     (''challenges_fb_bonus_positive'',
        \<lambda>c. case cg_first_blood_bonus c of None \<Rightarrow> True | Some b \<Rightarrow> 0 < b),
     (''challenges_first_blood_check'',
        \<lambda>c. List.member [''none'', ''announce'', ''bonus''] (cg_first_blood c)),
     (''challenges_flag_mode_check'', \<lambda>c. List.member [''static'', ''unique''] (cg_flag_mode c)),
     (''challenges_function_check'',
        \<lambda>c. List.member [''static'', ''linear'', ''logarithmic''] (cg_function c)),
     (''challenges_logic_check'', \<lambda>c. List.member [''any'', ''all''] (cg_logic c)),
     (''challenges_max_attempts_check'', \<lambda>c. 0 \<le> cg_max_attempts c),
     (''challenges_next_not_self'', \<lambda>c. cg_next_id c \<noteq> Some (cg_id c)),
     (''challenges_state_check'', \<lambda>c. List.member [''visible'', ''hidden''] (cg_state c)),
     (''challenges_type_check'', \<lambda>c. List.member [''standard'', ''dynamic''] (cg_type c))]"

definition broken_check :: "Challenge \<Rightarrow> string option" where
  "broken_check c = map_option fst (find (\<lambda>(k, ok). \<not> ok c) challenge_checks)"

subsection \<open>Challenges\<close>

definition sheet :: "studio \<Rightarrow> id \<Rightarrow> Challenge option" where
  "sheet s i = find (\<lambda>c. cg_id c = i) (sheets s)"

definition admin_get_challenge :: "studio \<Rightarrow> id \<Rightarrow> Challenge option" where
  "admin_get_challenge s i = sheet s i"

text \<open>An \<open>UPDATE ... WHERE id RETURNING\<close>: the row is checked as it will be, then its foreign key.\<close>

definition update_sheet ::
  "studio \<Rightarrow> id \<Rightarrow> (Challenge \<Rightarrow> Challenge) \<Rightarrow> (pg_error, (Challenge \<times> studio) option) result" where
  "update_sheet s i f =
    (case sheet s i of
       None \<Rightarrow> Inr None
     | Some c \<Rightarrow>
         (case broken_check (f c) of
            Some k \<Rightarrow> Inl (PgCheck k)
          | None \<Rightarrow>
              if (case cg_next_id (f c) of None \<Rightarrow> False | Some n \<Rightarrow> sheet s n = None)
              then Inl (PgForeign ''challenges_next_id_fkey'')
              else Inr (Some (f c,
                s\<lparr>sheets := map (\<lambda>r. if cg_id r = i then f r else r) (sheets s)\<rparr>))))"

record NewChallenge =
  nc_name :: string
  nc_category :: string
  nc_description :: string
  nc_attribution :: "string option"
  nc_connection_info :: "string option"
  nc_state :: string
  nc_value :: int
  nc_function :: string
  nc_initial :: "int option"
  nc_minimum :: "int option"
  nc_decay :: "int option"
  nc_max_attempts :: int
  nc_logic :: string
  nc_position :: int
  nc_first_blood :: string
  nc_first_blood_bonus :: "int option"

definition created_row :: "studio \<Rightarrow> string \<Rightarrow> NewChallenge \<Rightarrow> Challenge" where
  "created_row s typ n =
    \<lparr>cg_id = next_challenge s, cg_name = nc_name n, cg_category = nc_category n,
     cg_description = nc_description n, cg_attribution = nc_attribution n,
     cg_connection_info = nc_connection_info n, cg_type = typ, cg_state = nc_state n,
     cg_value = nc_value n, cg_function = nc_function n, cg_initial = nc_initial n,
     cg_minimum = nc_minimum n, cg_decay = nc_decay n, cg_max_attempts = nc_max_attempts n,
     cg_logic = nc_logic n, cg_position = nc_position n, cg_next_id = None,
     cg_requirements = RawDoc (JObject []), cg_flag_mode = ''static'',
     cg_first_blood = nc_first_blood n, cg_first_blood_bonus = nc_first_blood_bonus n\<rparr>"

definition admin_create_challenge ::
  "studio \<Rightarrow> string \<Rightarrow> NewChallenge \<Rightarrow> (pg_error, Challenge \<times> studio) result" where
  "admin_create_challenge s typ n =
    (case broken_check (created_row s typ n) of
       Some k \<Rightarrow> Inl (PgCheck k)
     | None \<Rightarrow> Inr (created_row s typ n,
         s\<lparr>sheets := sheets s @ [created_row s typ n], next_challenge := next_challenge s + 1\<rparr>))"

record ChallengePatch =
  pc_name :: "string option"
  pc_category :: "string option"
  pc_description :: "string option"
  pc_attribution :: "string option"
  pc_connection_info :: "string option"
  pc_value :: "int option"
  pc_function :: "string option"
  pc_initial :: "int option"
  pc_minimum :: "int option"
  pc_decay :: "int option"
  pc_max_attempts :: "int option"
  pc_logic :: "string option"
  pc_position :: "int option"
  pc_first_blood :: "string option"
  pc_first_blood_bonus :: "int option"
  pc_next_id :: "id option"
  clear_attribution :: bool
  clear_connection_info :: bool
  clear_initial :: bool
  clear_minimum :: bool
  clear_decay :: bool
  clear_first_blood_bonus :: bool
  clear_next_id :: bool

definition patch_challenge :: "string option \<Rightarrow> ChallengePatch \<Rightarrow> Challenge \<Rightarrow> Challenge" where
  "patch_challenge typ p c =
    c\<lparr>cg_name := coalesce (pc_name p) (cg_name c),
      cg_category := coalesce (pc_category p) (cg_category c),
      cg_description := coalesce (pc_description p) (cg_description c),
      cg_attribution := patched (clear_attribution p) (pc_attribution p) (cg_attribution c),
      cg_connection_info :=
        patched (clear_connection_info p) (pc_connection_info p) (cg_connection_info c),
      cg_type := coalesce typ (cg_type c),
      cg_value := coalesce (pc_value p) (cg_value c),
      cg_function := coalesce (pc_function p) (cg_function c),
      cg_initial := patched (clear_initial p) (pc_initial p) (cg_initial c),
      cg_minimum := patched (clear_minimum p) (pc_minimum p) (cg_minimum c),
      cg_decay := patched (clear_decay p) (pc_decay p) (cg_decay c),
      cg_max_attempts := coalesce (pc_max_attempts p) (cg_max_attempts c),
      cg_logic := coalesce (pc_logic p) (cg_logic c),
      cg_position := coalesce (pc_position p) (cg_position c),
      cg_first_blood := coalesce (pc_first_blood p) (cg_first_blood c),
      cg_first_blood_bonus :=
        patched (clear_first_blood_bonus p) (pc_first_blood_bonus p) (cg_first_blood_bonus c),
      cg_next_id := patched (clear_next_id p) (pc_next_id p) (cg_next_id c)\<rparr>"

definition admin_update_challenge ::
  "studio \<Rightarrow> id \<Rightarrow> string option \<Rightarrow> ChallengePatch
    \<Rightarrow> (pg_error, (Challenge \<times> studio) option) result" where
  "admin_update_challenge s i typ p = update_sheet s i (patch_challenge typ p)"

definition admin_set_challenge_flag_mode ::
  "studio \<Rightarrow> id \<Rightarrow> string \<Rightarrow> (pg_error, (Challenge \<times> studio) option) result" where
  "admin_set_challenge_flag_mode s i m = update_sheet s i (\<lambda>c. c\<lparr>cg_flag_mode := m\<rparr>)"

definition admin_set_challenge_requirements ::
  "studio \<Rightarrow> id \<Rightarrow> raw \<Rightarrow> (pg_error, (Challenge \<times> studio) option) result" where
  "admin_set_challenge_requirements s i r = update_sheet s i (\<lambda>c. c\<lparr>cg_requirements := r\<rparr>)"

definition admin_set_challenge_state ::
  "studio \<Rightarrow> id \<Rightarrow> string \<Rightarrow> (pg_error, (Challenge \<times> studio) option) result" where
  "admin_set_challenge_state s i st = update_sheet s i (\<lambda>c. c\<lparr>cg_state := st\<rparr>)"

definition admin_count_challenge_solves :: "studio \<Rightarrow> id \<Rightarrow> int" where
  "admin_count_challenge_solves s i =
    int (length (filter (\<lambda>v. sv_challenge v = i) (solves (play s))))"

definition admin_filter_challenge_ids :: "studio \<Rightarrow> id list \<Rightarrow> id list" where
  "admin_filter_challenge_ids s ids =
    map cg_id (filter (\<lambda>c. List.member ids (cg_id c)) (sheets s))"

definition admin_list_challenge_requirements :: "studio \<Rightarrow> (id \<times> raw) list" where
  "admin_list_challenge_requirements s = map (\<lambda>c. (cg_id c, cg_requirements c)) (sheets s)"

text \<open>\<open>UPDATE ... FROM unnest(ids, positions)\<close>: the number of rows matched.\<close>

definition admin_reorder_challenges :: "studio \<Rightarrow> (id \<times> int) list \<Rightarrow> int \<times> studio" where
  "admin_reorder_challenges s orders =
    (int (length (filter (\<lambda>c. map_of orders (cg_id c) \<noteq> None) (sheets s))),
     s\<lparr>sheets := map (\<lambda>c. case map_of orders (cg_id c) of
         None \<Rightarrow> c | Some n \<Rightarrow> c\<lparr>cg_position := n\<rparr>) (sheets s)\<rparr>)"

text \<open>
  A delete cascades to files, tags, flags, hints, instances and annotations and nulls the
  references to it, but every row of the ledger that points at the challenge, at one of its hints
  or at one of its instances restricts it. The first constraint to fire is the one reported;
  PostgreSQL fires them in the order they were created.
\<close>

definition delete_blockers :: "studio \<Rightarrow> id \<Rightarrow> (string \<times> bool) list" where
  "delete_blockers s i =
    [(''hint_unlocks_hint_id_fkey'',
        list_ex (\<lambda>h. h_challenge h = i \<and> list_ex (\<lambda>u. hu_hint u = h_id h) (unlocks (play s)))
          (hint_rows s)),
     (''flag_issues_instance_id_fkey'',
        list_ex (\<lambda>n. in_challenge n = i \<and> list_ex (\<lambda>f. is_instance f = in_id n) (issues (play s)))
          (pool s)),
     (''solves_challenge_id_fkey'', list_ex (\<lambda>v. sv_challenge v = i) (solves (play s))),
     (''submissions_challenge_id_fkey'', list_ex (\<lambda>v. sb_challenge v = i) (submissions (play s))),
     (''awards_challenge_id_fkey'', list_ex (\<lambda>a. aw_challenge a = Some i) (awards (play s))),
     (''flag_issues_challenge_id_fkey'', list_ex (\<lambda>f. is_challenge f = i) (issues (play s)))]"

definition challenge_files :: "studio \<Rightarrow> id \<Rightarrow> id list" where
  "challenge_files s i = map fi_id (filter (\<lambda>f. fi_challenge f = Some i) (files s))"

definition drop_challenge :: "studio \<Rightarrow> id \<Rightarrow> studio" where
  "drop_challenge s i =
    s\<lparr>sheets := map (\<lambda>c. if cg_next_id c = Some i then c\<lparr>cg_next_id := None\<rparr> else c)
         (filter (\<lambda>c. cg_id c \<noteq> i) (sheets s)),
      flag_rows := filter (\<lambda>f. fl_challenge f \<noteq> i) (flag_rows s),
      hint_rows := filter (\<lambda>h. h_challenge h \<noteq> i) (hint_rows s),
      tag_rows := filter (\<lambda>t. tg_challenge t \<noteq> i) (tag_rows s),
      annotations := filter (\<lambda>a. an_of a \<noteq> i) (annotations s),
      files := filter (\<lambda>f. fi_challenge f \<noteq> Some i) (files s),
      pool := map (\<lambda>n. if (case in_artifact n of None \<Rightarrow> False
                           | Some a \<Rightarrow> List.member (challenge_files s i) a)
                       then n\<lparr>in_artifact := None\<rparr> else n)
         (filter (\<lambda>n. in_challenge n \<noteq> i) (pool s))\<rparr>"

definition admin_delete_challenge :: "studio \<Rightarrow> id \<Rightarrow> (pg_error, int \<times> studio) result" where
  "admin_delete_challenge s i =
    (if sheet s i = None then Inr (0, s)
     else case find snd (delete_blockers s i) of
            Some (k, _) \<Rightarrow> Inl (PgForeign k)
          | None \<Rightarrow> Inr (1, drop_challenge s i))"

subsection \<open>Flags\<close>

definition admin_list_challenge_flags :: "studio \<Rightarrow> id \<Rightarrow> FlagRow list" where
  "admin_list_challenge_flags s i = sort_key fl_id (filter (\<lambda>f. fl_challenge f = i) (flag_rows s))"

definition admin_get_flag :: "studio \<Rightarrow> id \<Rightarrow> id \<Rightarrow> FlagRow option" where
  "admin_get_flag s flag i = find (\<lambda>f. fl_id f = flag \<and> fl_challenge f = i) (flag_rows s)"

definition admin_challenge_flag_stats :: "studio \<Rightarrow> id \<Rightarrow> int \<times> int" where
  "admin_challenge_flag_stats s i =
    (int (length (filter (\<lambda>f. fl_challenge f = i) (flag_rows s))),
     int (length (filter (\<lambda>f. fl_challenge f = i \<and> fl_type f = ''regex'') (flag_rows s))))"

definition flag_type_check :: "string \<Rightarrow> bool" where
  "flag_type_check t \<longleftrightarrow> List.member [''static'', ''regex''] t"

definition admin_insert_flag ::
  "studio \<Rightarrow> id \<Rightarrow> string \<Rightarrow> string \<Rightarrow> bool \<Rightarrow> (pg_error, FlagRow \<times> studio) result" where
  "admin_insert_flag s i typ content ci =
    (if \<not> flag_type_check typ then Inl (PgCheck ''flags_type_check'')
     else if sheet s i = None then Inl (PgForeign ''flags_challenge_id_fkey'')
     else
       let f = \<lparr>fl_id = next_flag s, fl_challenge = i, fl_type = typ, fl_content = content,
                fl_case_insensitive = ci\<rparr>
       in Inr (f, s\<lparr>flag_rows := flag_rows s @ [f], next_flag := next_flag s + 1\<rparr>))"

record FlagPatch =
  pf_type :: "string option"
  pf_content :: "string option"
  pf_case_insensitive :: "bool option"

definition patch_flag :: "FlagPatch \<Rightarrow> FlagRow \<Rightarrow> FlagRow" where
  "patch_flag p f =
    f\<lparr>fl_type := coalesce (pf_type p) (fl_type f),
      fl_content := coalesce (pf_content p) (fl_content f),
      fl_case_insensitive := coalesce (pf_case_insensitive p) (fl_case_insensitive f)\<rparr>"

definition admin_update_flag ::
  "studio \<Rightarrow> id \<Rightarrow> id \<Rightarrow> FlagPatch \<Rightarrow> (pg_error, (FlagRow \<times> studio) option) result" where
  "admin_update_flag s flag i p =
    (case admin_get_flag s flag i of
       None \<Rightarrow> Inr None
     | Some f \<Rightarrow>
         if \<not> flag_type_check (fl_type (patch_flag p f)) then Inl (PgCheck ''flags_type_check'')
         else Inr (Some (patch_flag p f,
           s\<lparr>flag_rows := map (\<lambda>r. if fl_id r = flag \<and> fl_challenge r = i then patch_flag p r else r)
              (flag_rows s)\<rparr>)))"

definition admin_delete_flag :: "studio \<Rightarrow> id \<Rightarrow> id \<Rightarrow> int \<times> studio" where
  "admin_delete_flag s flag i =
    (int (length (filter (\<lambda>f. fl_id f = flag \<and> fl_challenge f = i) (flag_rows s))),
     s\<lparr>flag_rows := filter (\<lambda>f. \<not> (fl_id f = flag \<and> fl_challenge f = i)) (flag_rows s)\<rparr>)"

subsection \<open>Hints\<close>

text \<open>\<open>ORDER BY position, id\<close>.\<close>

definition admin_list_challenge_hints :: "studio \<Rightarrow> id \<Rightarrow> AuthoredHint list" where
  "admin_list_challenge_hints s i =
    sort_key h_position (sort_key h_id (filter (\<lambda>h. h_challenge h = i) (hint_rows s)))"

definition admin_filter_hint_ids :: "studio \<Rightarrow> id list \<Rightarrow> id \<Rightarrow> id list" where
  "admin_filter_hint_ids s ids i =
    map h_id (filter (\<lambda>h. List.member ids (h_id h) \<and> h_challenge h = i) (hint_rows s))"

definition admin_insert_hint ::
  "studio \<Rightarrow> id \<Rightarrow> string option \<Rightarrow> string \<Rightarrow> int \<Rightarrow> int \<Rightarrow> raw
    \<Rightarrow> (pg_error, AuthoredHint \<times> studio) result" where
  "admin_insert_hint s i title content cost pos reqs =
    (if cost < 0 then Inl (PgCheck ''hints_cost_check'')
     else if sheet s i = None then Inl (PgForeign ''hints_challenge_id_fkey'')
     else
       let h = \<lparr>h_id = next_hint s, h_challenge = i, h_title = title, h_content = content,
                h_cost = cost, h_requirements = reqs, h_position = pos\<rparr>
       in Inr (h, s\<lparr>hint_rows := hint_rows s @ [h], next_hint := next_hint s + 1\<rparr>))"

text \<open>The patch of a hint; \<open>ph_requirements\<close> is the encoded prerequisite set, when there is one.\<close>

record HintPatch =
  ph_title :: "string option"
  ph_content :: "string option"
  ph_cost :: "int option"
  ph_position :: "int option"
  ph_prerequisites :: "id list option"

definition patch_hint :: "HintPatch \<Rightarrow> raw option \<Rightarrow> AuthoredHint \<Rightarrow> AuthoredHint" where
  "patch_hint p reqs h =
    h\<lparr>h_title := (case ph_title p of Some t \<Rightarrow> Some t | None \<Rightarrow> h_title h),
      h_content := coalesce (ph_content p) (h_content h),
      h_cost := coalesce (ph_cost p) (h_cost h),
      h_requirements := coalesce reqs (h_requirements h),
      h_position := coalesce (ph_position p) (h_position h)\<rparr>"

definition admin_update_hint ::
  "studio \<Rightarrow> id \<Rightarrow> id \<Rightarrow> HintPatch \<Rightarrow> raw option
    \<Rightarrow> (pg_error, (AuthoredHint \<times> studio) option) result" where
  "admin_update_hint s hint i p reqs =
    (case find (\<lambda>h. h_id h = hint \<and> h_challenge h = i) (hint_rows s) of
       None \<Rightarrow> Inr None
     | Some h \<Rightarrow>
         if h_cost (patch_hint p reqs h) < 0 then Inl (PgCheck ''hints_cost_check'')
         else Inr (Some (patch_hint p reqs h,
           s\<lparr>hint_rows :=
              map (\<lambda>r. if h_id r = hint \<and> h_challenge r = i then patch_hint p reqs r else r)
                (hint_rows s)\<rparr>)))"

definition admin_delete_hint :: "studio \<Rightarrow> id \<Rightarrow> id \<Rightarrow> (pg_error, int \<times> studio) result" where
  "admin_delete_hint s hint i =
    (let hit = filter (\<lambda>h. h_id h = hint \<and> h_challenge h = i) (hint_rows s) in
     if list_ex (\<lambda>h. list_ex (\<lambda>u. hu_hint u = h_id h) (unlocks (play s))) hit
     then Inl (PgForeign ''hint_unlocks_hint_id_fkey'')
     else Inr (int (length hit),
       s\<lparr>hint_rows := filter (\<lambda>h. \<not> (h_id h = hint \<and> h_challenge h = i)) (hint_rows s)\<rparr>))"

subsection \<open>Pools of instances\<close>

definition newest_generation :: "studio \<Rightarrow> id \<Rightarrow> int" where
  "newest_generation s i =
    foldr max (map in_generation (filter (\<lambda>n. in_challenge n = i) (pool s))) 0"

definition admin_next_pool_generation :: "studio \<Rightarrow> id \<Rightarrow> int" where
  "admin_next_pool_generation s i = newest_generation s i + 1"

definition admin_newest_pool_hashes :: "studio \<Rightarrow> id \<Rightarrow> string list" where
  "admin_newest_pool_hashes s i =
    map in_hash (filter (\<lambda>n. in_challenge n = i \<and> in_generation n = newest_generation s i) (pool s))"

definition admin_filter_challenge_file_ids :: "studio \<Rightarrow> id list \<Rightarrow> id \<Rightarrow> id list" where
  "admin_filter_challenge_file_ids s ids i =
    map fi_id (filter (\<lambda>f. List.member ids (fi_id f) \<and> fi_challenge f = Some i) (files s))"

text \<open>
  One row per element of the three arrays, with fresh ids; 0 stands for no artifact. A digest of
  another width than 32 bytes, a digest twice in one generation, an artifact that is no file: each
  refuses the whole statement.
\<close>

definition instance_rows ::
  "id \<Rightarrow> id \<Rightarrow> int \<Rightarrow> (string \<times> id \<times> raw) list \<Rightarrow> InstanceRow list" where
  "instance_rows next i gen rows =
    map (\<lambda>(k, hash, artifact, vars).
        \<lparr>in_id = next + int k, in_challenge = i, in_hash = hash,
         in_artifact = (if artifact = 0 then None else Some artifact), in_vars = vars,
         in_generation = gen\<rparr>)
      (zip [0..<length rows] rows)"

definition admin_insert_instances ::
  "studio \<Rightarrow> id \<Rightarrow> int \<Rightarrow> (string \<times> id \<times> raw) list \<Rightarrow> (pg_error, int \<times> studio) result" where
  "admin_insert_instances s i gen rows =
    (let new = instance_rows (next_instance s) i gen rows;
         keys = map (\<lambda>n. (in_challenge n, in_hash n, in_generation n)) in
     if list_ex (\<lambda>n. length (in_hash n) \<noteq> 32) new
     then Inl (PgCheck ''challenge_instances_value_hash_len'')
     else if \<not> distinct (keys (filter (\<lambda>n. in_challenge n = i \<and> in_generation n = gen) (pool s) @ new))
     then Inl (PgUnique ''challenge_instances_challenge_id_value_hash_generation_key'')
     else if list_ex (\<lambda>n. case in_artifact n of None \<Rightarrow> False
                 | Some a \<Rightarrow> \<not> list_ex (\<lambda>f. fi_id f = a) (files s)) new
     then Inl (PgForeign ''challenge_instances_artifact_id_fkey'')
     else Inr (int (length new),
       s\<lparr>pool := pool s @ new, next_instance := next_instance s + int (length new)\<rparr>))"

text \<open>One page of a pool, newest generation first, each row with the account it was issued to.\<close>

definition admin_list_instances ::
  "studio \<Rightarrow> id \<Rightarrow> int \<Rightarrow> int \<Rightarrow> (InstanceRow \<times> id option \<times> int) list" where
  "admin_list_instances s i lim off =
    (let rows = sort_key (\<lambda>n. - in_generation n)
           (sort_key in_id (filter (\<lambda>n. in_challenge n = i) (pool s)))
     in map (\<lambda>n. (n, issued_to (play s) (in_id n), int (length rows)))
          (take (nat lim) (drop (nat off) rows)))"

record PoolStat =
  ps_challenge :: id
  ps_name :: string
  ps_total :: int
  ps_issued :: int

definition pool_stats_rows :: "studio \<Rightarrow> PoolStat list" where
  "pool_stats_rows s =
    (let of_pool = (\<lambda>c. filter (\<lambda>n. in_challenge n = cg_id c) (pool s)) in
     map (\<lambda>c. \<lparr>ps_challenge = cg_id c, ps_name = cg_name c, ps_total = int (length (of_pool c)),
          ps_issued = int (length (filter (\<lambda>n. issued (play s) (in_id n)) (of_pool c)))\<rparr>)
       (sort_key cg_id
         (filter (\<lambda>c. cg_flag_mode c = ''unique'' \<and> of_pool c \<noteq> []) (sheets s))))"

subsection \<open>Tags\<close>

definition tagged :: "id \<Rightarrow> string \<Rightarrow> Tag \<Rightarrow> bool" where
  "tagged i v t \<longleftrightarrow> tg_challenge t = i \<and> tg_value t = v"

definition admin_add_tag :: "studio \<Rightarrow> id \<Rightarrow> string \<Rightarrow> (pg_error, Tag \<times> studio) result" where
  "admin_add_tag s i v =
    (if list_ex (tagged i v) (tag_rows s) then Inl (PgUnique ''tags_challenge_id_value_key'')
     else if sheet s i = None then Inl (PgForeign ''tags_challenge_id_fkey'')
     else
       let t = \<lparr>tg_id = next_tag s, tg_challenge = i, tg_value = v\<rparr>
       in Inr (t, s\<lparr>tag_rows := tag_rows s @ [t], next_tag := next_tag s + 1\<rparr>))"

definition admin_remove_tag :: "studio \<Rightarrow> id \<Rightarrow> string \<Rightarrow> int \<times> studio" where
  "admin_remove_tag s i v =
    (int (length (filter (tagged i v) (tag_rows s))),
     s\<lparr>tag_rows := filter (\<lambda>t. \<not> tagged i v t) (tag_rows s)\<rparr>)"

text \<open>\<open>collate\<close> is the place of a text in the order of the database's collation.\<close>

definition list_challenge_tags :: "(string \<Rightarrow> int) \<Rightarrow> studio \<Rightarrow> id \<Rightarrow> string list" where
  "list_challenge_tags collate s i =
    sort_key collate (map tg_value (filter (\<lambda>t. tg_challenge t = i) (tag_rows s)))"

definition admin_count_tag_uses :: "studio \<Rightarrow> string \<Rightarrow> int" where
  "admin_count_tag_uses s v = int (length (filter (\<lambda>t. tg_value t = v) (tag_rows s)))"

definition admin_list_tags :: "(string \<Rightarrow> int) \<Rightarrow> studio \<Rightarrow> (string \<times> int) list" where
  "admin_list_tags collate s =
    map (\<lambda>v. (v, admin_count_tag_uses s v)) (sort_key collate (remdups (map tg_value (tag_rows s))))"

definition collides :: "studio \<Rightarrow> string \<Rightarrow> string \<Rightarrow> Tag \<Rightarrow> bool" where
  "collides s from to t \<longleftrightarrow> tg_value t = from \<and> list_ex (tagged (tg_challenge t) to) (tag_rows s)"

definition admin_merge_tag_collisions :: "studio \<Rightarrow> string \<Rightarrow> string \<Rightarrow> int \<times> studio" where
  "admin_merge_tag_collisions s from to =
    (int (length (filter (collides s from to) (tag_rows s))),
     s\<lparr>tag_rows := filter (\<lambda>t. \<not> collides s from to t) (tag_rows s)\<rparr>)"

definition admin_rename_tag :: "studio \<Rightarrow> string \<Rightarrow> string \<Rightarrow> (pg_error, int \<times> studio) result" where
  "admin_rename_tag s from to =
    (let renamed = map (\<lambda>t. if tg_value t = from then t\<lparr>tg_value := to\<rparr> else t) (tag_rows s) in
     if \<not> distinct (map (\<lambda>t. (tg_challenge t, tg_value t)) renamed)
     then Inl (PgUnique ''tags_challenge_id_value_key'')
     else Inr (admin_count_tag_uses s from, s\<lparr>tag_rows := renamed\<rparr>))"

definition admin_delete_tag :: "studio \<Rightarrow> string \<Rightarrow> int \<times> studio" where
  "admin_delete_tag s v =
    (admin_count_tag_uses s v, s\<lparr>tag_rows := filter (\<lambda>t. tg_value t \<noteq> v) (tag_rows s)\<rparr>)"

subsection \<open>Annotations\<close>

text \<open>
  The CHECK constraints of \<open>00023_challenge_annotations.sql\<close>: the two regular expressions and the
  length in characters, again in the order of the names.
\<close>

definition annotation_key_check :: "string \<Rightarrow> bool" where
  "annotation_key_check k =
    (case k of [] \<Rightarrow> False
     | c # cs \<Rightarrow> is_lower c \<and> length cs \<le> 63
         \<and> list_all (\<lambda>b. is_lower b \<or> is_digit b \<or> b = CHR ''_'') cs)"

definition annotation_broken_check :: "string \<Rightarrow> string \<Rightarrow> string option" where
  "annotation_broken_check k v =
    (if k = ''country'' \<and> \<not> (length v = 2 \<and> list_all is_upper v)
     then Some ''challenge_annotations_country_alpha2''
     else if \<not> annotation_key_check k then Some ''challenge_annotations_key_check''
     else if rune_count v < 1 \<or> 256 < rune_count v then Some ''challenge_annotations_value_check''
     else None)"

definition annotated :: "id \<Rightarrow> string \<Rightarrow> ChallengeAnnotation \<Rightarrow> bool" where
  "annotated i k a \<longleftrightarrow> an_of a = i \<and> an_key a = k"

text \<open>\<open>ON CONFLICT (challenge_id, key) DO UPDATE\<close>: a key already there takes the new value.\<close>

definition admin_set_annotation ::
  "studio \<Rightarrow> id \<Rightarrow> string \<Rightarrow> string \<Rightarrow> (pg_error, (string \<times> string) \<times> studio) result" where
  "admin_set_annotation s i k v =
    (case annotation_broken_check k v of
       Some c \<Rightarrow> Inl (PgCheck c)
     | None \<Rightarrow>
         if list_ex (annotated i k) (annotations s)
         then Inr ((k, v), s\<lparr>annotations :=
           map (\<lambda>a. if annotated i k a then a\<lparr>an_value := v\<rparr> else a) (annotations s)\<rparr>)
         else if sheet s i = None then Inl (PgForeign ''challenge_annotations_challenge_id_fkey'')
         else Inr ((k, v), s\<lparr>annotations := annotations s @
             [\<lparr>an_id = next_annotation s, an_of = i, an_key = k, an_value = v\<rparr>],
           next_annotation := next_annotation s + 1\<rparr>))"

definition admin_remove_annotation :: "studio \<Rightarrow> id \<Rightarrow> string \<Rightarrow> int \<times> studio" where
  "admin_remove_annotation s i k =
    (int (length (filter (annotated i k) (annotations s))),
     s\<lparr>annotations := filter (\<lambda>a. \<not> annotated i k a) (annotations s)\<rparr>)"

definition admin_list_challenge_annotations ::
  "(string \<Rightarrow> int) \<Rightarrow> studio \<Rightarrow> id \<Rightarrow> (string \<times> string) list" where
  "admin_list_challenge_annotations collate s i =
    map (\<lambda>a. (an_key a, an_value a))
      (sort_key (\<lambda>a. collate (an_key a)) (filter (\<lambda>a. an_of a = i) (annotations s)))"

subsection \<open>The operator's board\<close>

record BoardRow =
  br_id :: id
  br_name :: string
  br_category :: string
  br_value :: int
  br_function :: string
  br_state :: string
  br_solves :: int
  br_flags :: int
  br_hints :: int

definition admin_list_challenges :: "(string \<Rightarrow> int) \<Rightarrow> studio \<Rightarrow> BoardRow list" where
  "admin_list_challenges collate s =
    map (\<lambda>c. \<lparr>br_id = cg_id c, br_name = cg_name c, br_category = cg_category c,
        br_value = cg_value c, br_function = cg_function c, br_state = cg_state c,
        br_solves = admin_count_challenge_solves s (cg_id c),
        br_flags = int (length (filter (\<lambda>f. fl_challenge f = cg_id c) (flag_rows s))),
        br_hints = int (length (filter (\<lambda>h. h_challenge h = cg_id c) (hint_rows s)))\<rparr>)
      (sort_key (\<lambda>c. collate (cg_category c))
        (sort_key cg_position (sort_key cg_id (sheets s))))"

definition list_challenge_files :: "studio \<Rightarrow> id \<Rightarrow> FileRow list" where
  "list_challenge_files s i = sort_key fi_id (filter (\<lambda>f. fi_challenge f = Some i) (files s))"

end
