(* ===== verification/Authoring.thy ===== *)
theory Authoring
  imports Authoring_Store
begin

section \<open>Challenge administration (internal/adminops)\<close>

text \<open>
  Challenges, flags, hints (\<open>challenges.go\<close>), prerequisites (\<open>requirements.go\<close>), pools of unique
  flags (\<open>instances.go\<close>), tags (\<open>tags.go\<close>) and annotations (\<open>annotations.go\<close>). Each operation is one
  transaction on the tables of \<open>Authoring_Store\<close>: an error leaves them alone. A refusal of the
  operator's input carries its reason as a constructor instead of the sentence the code formats.
\<close>

datatype invalid =
    LogicAllOnUnique
  | BadFlagMode string
  | ModeWithSolves
  | ModeWithRegex
  | ModeWithLogicAll
  | ModeWithoutFlags
  | ReorderNothing
  | ReorderTwice id
  | RegexOnUnique
  | RegexDoesNotCompile
  | BadDynamicParams
  | BadBonusPairing
  | BonusNotPositive
  | NextIsSelf
  | NextMissing "id option"
  | OwnPrerequisite id
  | UnknownPrerequisites "id list"
  | ForeignHintPrerequisites "id list"
  | EmptyPool
  | RepeatedHash nat
  | BadVars nat
  | ForeignArtifact
  | SameTag
  | EmptyTag
  | BadAnnotation annotation_error

datatype author_error =
    Invalid invalid
  | AuthorChallengeNotFound
  | AuthorFlagNotFound
  | AuthorHintNotFound
  | AuthorHintUnlocked
  | AuthorHasSolves
  | AuthorHasHistory string
  | AuthorInUse string
  | AuthorTagNotFound
  | AuthorTagInUse int
  | AuthorTagAttached
  | AuthorAnnotationNotFound
  | AuthorRequirements id prereq_error
  | AuthorNoRow
  | AuthorDatabase pg_error

definition on_error :: "('e \<Rightarrow> 'f) \<Rightarrow> ('e, 'a) result \<Rightarrow> ('f, 'a) result" where
  "on_error f r = (case r of Inl e \<Rightarrow> Inl (f e) | Inr x \<Rightarrow> Inr x)"

lemma on_error_Inr [simp]: "on_error f r = Inr x \<longleftrightarrow> r = Inr x"
  by (cases r) (simp_all add: on_error_def)

lemma on_error_Inl: "on_error f r = Inl e \<longleftrightarrow> (\<exists>d. r = Inl d \<and> e = f d)"
  by (cases r) (auto simp: on_error_def)

definition one_row :: "author_error \<Rightarrow> 'a option \<Rightarrow> (author_error, 'a) result" where
  "one_row e r = (case r of None \<Rightarrow> Inl e | Some x \<Rightarrow> Inr x)"

lemma one_row_Inr [simp]: "one_row e r = Inr x \<longleftrightarrow> r = Some x"
  by (cases r) (simp_all add: one_row_def)

subsection \<open>What the constraints say in the operator's language\<close>

definition check_violation :: "pg_error \<Rightarrow> author_error" where
  "check_violation e =
    (if e = PgCheck ''challenges_dynamic_params'' then Invalid BadDynamicParams
     else if e = PgCheck ''challenges_fb_bonus'' then Invalid BadBonusPairing
     else if e = PgCheck ''challenges_fb_bonus_positive'' then Invalid BonusNotPositive
     else if e = PgCheck ''challenges_next_not_self'' then Invalid NextIsSelf
     else AuthorDatabase e)"

definition challenge_write_violation :: "pg_error \<Rightarrow> id option \<Rightarrow> author_error" where
  "challenge_write_violation e next_id =
    (if e = PgForeign ''challenges_next_id_fkey'' then Invalid (NextMissing next_id)
     else check_violation e)"

subsection \<open>Challenges (challenges.go)\<close>

definition challenge_type :: "string \<Rightarrow> string" where
  "challenge_type function = (if function = ''static'' then ''standard'' else ''dynamic'')"

definition create_challenge ::
  "studio \<Rightarrow> NewChallenge \<Rightarrow> (author_error, Challenge \<times> studio) result" where
  "create_challenge s n =
    on_error check_violation (admin_create_challenge s (challenge_type (nc_function n)) n)"

definition update_challenge ::
  "studio \<Rightarrow> id \<Rightarrow> ChallengePatch \<Rightarrow> (author_error, Challenge \<times> studio) result" where
  "update_challenge s i p =
    (let typ = map_option challenge_type (pc_function p) in
     bind_result
       (if pc_logic p = Some ''all'' then
          bind_result (one_row AuthorChallengeNotFound (admin_get_challenge s i)) (\<lambda>ch.
            if cg_flag_mode ch = ''unique'' then Inl (Invalid LogicAllOnUnique) else Inr ())
        else Inr ())
       (\<lambda>_. bind_result
          (on_error (\<lambda>e. challenge_write_violation e (pc_next_id p))
             (admin_update_challenge s i typ p))
          (one_row AuthorChallengeNotFound)))"

definition set_challenge_flag_mode ::
  "studio \<Rightarrow> id \<Rightarrow> string \<Rightarrow> (author_error, Challenge \<times> studio) result" where
  "set_challenge_flag_mode s i mode =
    (if \<not> is_ok (parse_flag_mode mode) then Inl (Invalid (BadFlagMode mode))
     else
       bind_result (one_row AuthorChallengeNotFound (admin_get_challenge s i)) (\<lambda>ch.
         if cg_flag_mode ch = mode then Inr (ch, s)
         else if 0 < admin_count_challenge_solves s i then Inl (Invalid ModeWithSolves)
         else
           let (all_flags, patterns) = admin_challenge_flag_stats s i in
           if mode = ''unique'' \<and> 0 < patterns then Inl (Invalid ModeWithRegex)
           else if mode = ''unique'' \<and> cg_logic ch = ''all'' then Inl (Invalid ModeWithLogicAll)
           else if mode = ''static'' \<and> all_flags = 0 then Inl (Invalid ModeWithoutFlags)
           else
             bind_result (on_error AuthorDatabase (admin_set_challenge_flag_mode s i mode))
               (one_row AuthorNoRow)))"

definition set_challenge_state ::
  "studio \<Rightarrow> id \<Rightarrow> string \<Rightarrow> (author_error, Challenge \<times> studio) result" where
  "set_challenge_state s i st =
    bind_result (on_error AuthorDatabase (admin_set_challenge_state s i st))
      (one_row AuthorChallengeNotFound)"

definition delete_challenge :: "studio \<Rightarrow> id \<Rightarrow> (author_error, studio) result" where
  "delete_challenge s i =
    (case admin_delete_challenge s i of
       Inl (PgForeign k) \<Rightarrow>
         if k = ''solves_challenge_id_fkey'' then Inl AuthorHasSolves
         else if List.member [''submissions_challenge_id_fkey'', ''awards_challenge_id_fkey'',
                ''hint_unlocks_hint_id_fkey''] k then Inl (AuthorHasHistory k)
         else Inl (AuthorInUse k)
     | Inl e \<Rightarrow> Inl (AuthorDatabase e)
     | Inr (n, s') \<Rightarrow> if n = 0 then Inl AuthorChallengeNotFound else Inr s')"

definition list_challenges :: "(string \<Rightarrow> int) \<Rightarrow> studio \<Rightarrow> BoardRow list" where
  "list_challenges collate s = admin_list_challenges collate s"

text \<open>The first id that occurs a second time, by the loop over the seen-set.\<close>

fun first_repeat :: "id list \<Rightarrow> id list \<Rightarrow> id option" where
  "first_repeat seen [] = None"
| "first_repeat seen (i # ids) =
    (if List.member seen i then Some i else first_repeat (i # seen) ids)"

definition reorder_challenges :: "studio \<Rightarrow> (id \<times> int) list \<Rightarrow> (author_error, studio) result" where
  "reorder_challenges s orders =
    (if length orders = 0 then Inl (Invalid ReorderNothing)
     else case first_repeat [] (map fst orders) of
       Some i \<Rightarrow> Inl (Invalid (ReorderTwice i))
     | None \<Rightarrow>
         (case admin_reorder_challenges s orders of
            (n, s') \<Rightarrow> if n \<noteq> int (length orders) then Inl AuthorChallengeNotFound else Inr s'))"

definition list_annotations :: "(string \<Rightarrow> int) \<Rightarrow> studio \<Rightarrow> id \<Rightarrow> (string \<times> string) list" where
  "list_annotations collate s i = admin_list_challenge_annotations collate s i"

record ChallengeDetail =
  cd_challenge :: Challenge
  cd_flags :: "FlagRow list"
  cd_hints :: "AuthoredHint list"
  cd_tags :: "string list"
  cd_annotations :: "(string \<times> string) list"
  cd_files :: "FileRow list"

definition challenge_detail ::
  "(string \<Rightarrow> int) \<Rightarrow> studio \<Rightarrow> id \<Rightarrow> (author_error, ChallengeDetail) result" where
  "challenge_detail collate s i =
    bind_result (one_row AuthorChallengeNotFound (admin_get_challenge s i)) (\<lambda>ch.
      Inr \<lparr>cd_challenge = ch, cd_flags = admin_list_challenge_flags s i,
           cd_hints = admin_list_challenge_hints s i, cd_tags = list_challenge_tags collate s i,
           cd_annotations = list_annotations collate s i,
           cd_files = list_challenge_files s i\<rparr>)"

subsection \<open>Flags (challenges.go)\<close>

definition validate_new_flag ::
  "regex \<Rightarrow> string \<Rightarrow> string \<Rightarrow> string \<Rightarrow> (author_error, unit) result" where
  "validate_new_flag re mode typ content =
    (if typ \<noteq> ''regex'' then Inr ()
     else if mode = ''unique'' then Inl (Invalid RegexOnUnique)
     else if re content = None then Inl (Invalid RegexDoesNotCompile)
     else Inr ())"

definition add_flag ::
  "regex \<Rightarrow> studio \<Rightarrow> id \<Rightarrow> string \<Rightarrow> string \<Rightarrow> bool \<Rightarrow> (author_error, FlagRow \<times> studio) result" where
  "add_flag re s i typ content ci =
    bind_result (one_row AuthorChallengeNotFound (admin_get_challenge s i)) (\<lambda>ch.
    bind_result (validate_new_flag re (cg_flag_mode ch) typ content) (\<lambda>_.
      on_error AuthorDatabase (admin_insert_flag s i typ content ci)))"

definition update_flag ::
  "regex \<Rightarrow> studio \<Rightarrow> id \<Rightarrow> id \<Rightarrow> FlagPatch \<Rightarrow> (author_error, FlagRow \<times> studio) result" where
  "update_flag re s i flag p =
    bind_result (one_row AuthorChallengeNotFound (admin_get_challenge s i)) (\<lambda>ch.
    bind_result (one_row AuthorFlagNotFound (admin_get_flag s flag i)) (\<lambda>cur.
    bind_result (validate_new_flag re (cg_flag_mode ch) (coalesce (pf_type p) (fl_type cur))
        (coalesce (pf_content p) (fl_content cur))) (\<lambda>_.
    bind_result (on_error AuthorDatabase (admin_update_flag s flag i p))
      (one_row AuthorNoRow))))"

definition delete_flag :: "studio \<Rightarrow> id \<Rightarrow> id \<Rightarrow> (author_error, studio) result" where
  "delete_flag s i flag =
    (case admin_delete_flag s flag i of
       (n, s') \<Rightarrow> if n = 0 then Inl AuthorFlagNotFound else Inr s')"

subsection \<open>Sets of ids (requirements.go)\<close>

fun dedupe_ids_loop :: "id list \<Rightarrow> id list \<Rightarrow> id list \<Rightarrow> id list" where
  "dedupe_ids_loop seen out [] = out"
| "dedupe_ids_loop seen out (i # ids) =
    (if List.member seen i then dedupe_ids_loop seen out ids
     else dedupe_ids_loop (i # seen) (out @ [i]) ids)"

definition dedupe_ids :: "id list \<Rightarrow> id list" where
  "dedupe_ids ids = dedupe_ids_loop [] [] ids"

definition missing_ids :: "id list \<Rightarrow> id list \<Rightarrow> id list" where
  "missing_ids want have_ids = filter (\<lambda>i. \<not> List.member have_ids i) want"

fun join_ids :: "id list \<Rightarrow> string \<Rightarrow> string" where
  "join_ids [] sep = ''''"
| "join_ids [i] sep = decimal i"
| "join_ids (i # j # ids) sep = decimal i @ sep @ join_ids (j # ids) sep"

subsection \<open>Hints (challenges.go, requirements.go)\<close>

definition hint_requirements :: "id list \<Rightarrow> raw" where
  "hint_requirements ids = RawDoc (encode \<lparr>prerequisites = ids, visibility = Hidden\<rparr>)"

definition validate_hint_prereqs ::
  "studio \<Rightarrow> id \<Rightarrow> id \<Rightarrow> id list \<Rightarrow> (author_error, unit) result" where
  "validate_hint_prereqs s i hint ids =
    (if length ids = 0 then Inr ()
     else if List.member ids hint then Inl (Invalid (OwnPrerequisite hint))
     else
       let missing = missing_ids ids (admin_filter_hint_ids s ids i) in
       if 0 < length missing then Inl (Invalid (ForeignHintPrerequisites missing)) else Inr ())"

record NewHint =
  nh_title :: "string option"
  nh_content :: string
  nh_cost :: int
  nh_position :: int
  nh_prerequisites :: "id list"

text \<open>The prerequisites are checked after the write; their refusal rolls it back.\<close>

definition add_hint :: "studio \<Rightarrow> id \<Rightarrow> NewHint \<Rightarrow> (author_error, AuthoredHint \<times> studio) result" where
  "add_hint s i n =
    (let ids = dedupe_ids (nh_prerequisites n) in
     case admin_insert_hint s i (nh_title n) (nh_content n) (nh_cost n) (nh_position n)
            (hint_requirements ids) of
       Inl (PgForeign k) \<Rightarrow> Inl AuthorChallengeNotFound
     | Inl e \<Rightarrow> Inl (AuthorDatabase e)
     | Inr (h, s') \<Rightarrow> bind_result (validate_hint_prereqs s' i (h_id h) ids) (\<lambda>_. Inr (h, s')))"

definition update_hint ::
  "studio \<Rightarrow> id \<Rightarrow> id \<Rightarrow> HintPatch \<Rightarrow> (author_error, AuthoredHint \<times> studio) result" where
  "update_hint s i hint p =
    (let ids = map_option dedupe_ids (ph_prerequisites p) in
     bind_result
       (bind_result
          (on_error AuthorDatabase (admin_update_hint s hint i p (map_option hint_requirements ids)))
          (one_row AuthorHintNotFound))
       (\<lambda>(h, s'). case ids of
          None \<Rightarrow> Inr (h, s')
        | Some ids' \<Rightarrow> bind_result (validate_hint_prereqs s' i hint ids') (\<lambda>_. Inr (h, s'))))"

definition delete_hint :: "studio \<Rightarrow> id \<Rightarrow> id \<Rightarrow> (author_error, studio) result" where
  "delete_hint s i hint =
    (case admin_delete_hint s hint i of
       Inl e \<Rightarrow> if e = PgForeign ''hint_unlocks_hint_id_fkey'' then Inl AuthorHintUnlocked
                else Inl (AuthorDatabase e)
     | Inr (n, s') \<Rightarrow> if n = 0 then Inl AuthorHintNotFound else Inr s')"

subsection \<open>Prerequisites of a challenge (requirements.go)\<close>

text \<open>The whole graph, read back from the documents; one that does not parse is an error.\<close>

fun requirement_edges :: "(id \<times> raw) list \<Rightarrow> (author_error, graph) result" where
  "requirement_edges [] = Inr []"
| "requirement_edges ((i, r) # rows) =
    bind_result (on_error (AuthorRequirements i) (parse r)) (\<lambda>reqs.
    bind_result (requirement_edges rows) (\<lambda>g. Inr ((i, prerequisites reqs) # g)))"

definition arrow :: string where
  "arrow = '' '' @ [CHR 0xE2, CHR 0x86, CHR 0x92] @ '' ''"

definition cycle_warnings :: "studio \<Rightarrow> id \<Rightarrow> (author_error, string list) result" where
  "cycle_warnings s i =
    bind_result (requirement_edges (admin_list_challenge_requirements s)) (\<lambda>g.
      Inr (case find_cycle g i of
             None \<Rightarrow> []
           | Some cycle \<Rightarrow>
               [''prerequisite cycle '' @ join_ids cycle arrow
                @ '': none of these challenges can unlock until an admin breaks the cycle'']))"

record ChallengeRequirements =
  cr_prerequisites :: "id list"
  cr_visibility :: Visibility

definition set_challenge_requirements ::
  "studio \<Rightarrow> id \<Rightarrow> ChallengeRequirements
    \<Rightarrow> (author_error, (Challenge \<times> string list) \<times> studio) result" where
  "set_challenge_requirements s i cr =
    (let ids = dedupe_ids (cr_prerequisites cr);
         doc = RawDoc (encode \<lparr>prerequisites = ids, visibility = cr_visibility cr\<rparr>) in
     if List.member ids i then Inl (Invalid (OwnPrerequisite i))
     else
       let missing = missing_ids ids (admin_filter_challenge_ids s ids) in
       if 0 < length ids \<and> 0 < length missing then Inl (Invalid (UnknownPrerequisites missing))
       else
         bind_result
           (bind_result (on_error AuthorDatabase (admin_set_challenge_requirements s i doc))
              (one_row AuthorChallengeNotFound))
           (\<lambda>(c, s'). bind_result (cycle_warnings s' i) (\<lambda>ws. Inr ((c, ws), s'))))"

subsection \<open>Pools of unique flags (instances.go)\<close>

text \<open>\<open>ni_vars\<close> is \<open>None\<close> for no bytes at all.\<close>

record NewInstance =
  ni_hash :: string
  ni_artifact :: "id option"
  ni_vars :: "raw option"

record PoolResult =
  pr_generation :: int
  pr_inserted :: int
  pr_idempotent :: bool
  pr_warnings :: "string list"

definition json_valid :: "raw \<Rightarrow> bool" where
  "json_valid r = (case r of RawDoc _ \<Rightarrow> True | _ \<Rightarrow> False)"

fun upload_error :: "nat \<Rightarrow> string list \<Rightarrow> NewInstance list \<Rightarrow> invalid option" where
  "upload_error k seen [] = None"
| "upload_error k seen (n # ns) =
    (if List.member seen (ni_hash n) then Some (RepeatedHash k)
     else if (case ni_vars n of None \<Rightarrow> False | Some r \<Rightarrow> \<not> json_valid r) then Some (BadVars k)
     else upload_error (k + 1) (ni_hash n # seen) ns)"

definition pool_warnings :: "string \<Rightarrow> string list" where
  "pool_warnings mode =
    (if mode \<noteq> ''unique'' then
       [''this challenge'' @ [CHR 0x27] @ ''s flag_mode is '' @ [CHR 0x27] @ mode @ [CHR 0x27]
        @ '', so these instances will not be issued until it is switched to '' @ [CHR 0x27]
        @ ''unique'' @ [CHR 0x27]]
     else [])"

text \<open>
  The set of wanted files is a Go map. With none wanted the query is skipped; the one the error
  names is any of those that are missing, so the constructor carries none.
\<close>

definition validate_artifacts ::
  "studio \<Rightarrow> id \<Rightarrow> NewInstance list \<Rightarrow> (author_error, unit) result" where
  "validate_artifacts s i ns =
    (let want = remdups (List.map_filter ni_artifact ns) in
     if length want = 0 then Inr ()
     else
       let found = admin_filter_challenge_file_ids s want i in
       if filter (\<lambda>a. \<not> List.member found a) want \<noteq> [] then Inl (Invalid ForeignArtifact)
       else Inr ())"

definition same_hash_set :: "string list \<Rightarrow> NewInstance list \<Rightarrow> bool" where
  "same_hash_set newest ns \<longleftrightarrow>
    length newest = length ns
    \<and> list_all (\<lambda>h. length h = 32) newest
    \<and> list_all (\<lambda>n. List.member newest (ni_hash n)) ns"

definition upload_row :: "NewInstance \<Rightarrow> string \<times> id \<times> raw" where
  "upload_row n =
    (ni_hash n, coalesce (ni_artifact n) 0, coalesce (ni_vars n) (RawDoc (JObject [])))"

text \<open>
  The transaction runs at the default isolation level, so what it reads and what it then writes
  need not be one state of the tables: \<open>replace_pool_read\<close> is everything up to the insert, with the
  generation it settled on, \<open>replace_pool_write\<close> the insert, and \<open>replace_pool\<close> both on one state.
\<close>

datatype pool_plan = KeepPool PoolResult | InsertPool int "string list"

definition replace_pool_read ::
  "studio \<Rightarrow> id \<Rightarrow> NewInstance list \<Rightarrow> (author_error, pool_plan) result" where
  "replace_pool_read s i ns =
    (if length ns = 0 then Inl (Invalid EmptyPool)
     else case upload_error 0 [] ns of
       Some e \<Rightarrow> Inl (Invalid e)
     | None \<Rightarrow>
         bind_result (one_row AuthorChallengeNotFound (admin_get_challenge s i)) (\<lambda>ch.
         bind_result (validate_artifacts s i ns) (\<lambda>_.
           if same_hash_set (admin_newest_pool_hashes s i) ns
           then Inr (KeepPool
             \<lparr>pr_generation = admin_next_pool_generation s i - 1, pr_inserted = 0,
              pr_idempotent = True, pr_warnings = pool_warnings (cg_flag_mode ch)\<rparr>)
           else Inr (InsertPool (admin_next_pool_generation s i) (pool_warnings (cg_flag_mode ch))))))"

definition replace_pool_write ::
  "studio \<Rightarrow> id \<Rightarrow> NewInstance list \<Rightarrow> pool_plan \<Rightarrow> (author_error, PoolResult \<times> studio) result" where
  "replace_pool_write s i ns plan =
    (case plan of
       KeepPool r \<Rightarrow> Inr (r, s)
     | InsertPool gen ws \<Rightarrow>
         bind_result (on_error AuthorDatabase (admin_insert_instances s i gen (map upload_row ns)))
           (\<lambda>(k, s'). Inr (\<lparr>pr_generation = gen, pr_inserted = k, pr_idempotent = False,
                            pr_warnings = ws\<rparr>, s')))"

definition replace_pool ::
  "studio \<Rightarrow> id \<Rightarrow> NewInstance list \<Rightarrow> (author_error, PoolResult \<times> studio) result" where
  "replace_pool s i ns = bind_result (replace_pool_read s i ns) (replace_pool_write s i ns)"

text \<open>A page of the pool: the total is read off its first row.\<close>

definition list_instances ::
  "studio \<Rightarrow> id \<Rightarrow> int \<Rightarrow> int \<Rightarrow> (InstanceRow \<times> id option \<times> int) list \<times> int" where
  "list_instances s i page per_page =
    (let rows = admin_list_instances s i (i32 per_page) (i32 ((page - 1) * per_page))
     in (rows, case rows of [] \<Rightarrow> 0 | (_, _, n) # _ \<Rightarrow> n))"

definition pool_stats :: "studio \<Rightarrow> PoolStat list" where
  "pool_stats s = pool_stats_rows s"

subsection \<open>Tags (tags.go)\<close>

definition add_tag :: "studio \<Rightarrow> id \<Rightarrow> string \<Rightarrow> (author_error, Tag \<times> studio) result" where
  "add_tag s i v =
    on_error (\<lambda>e. case e of PgUnique k \<Rightarrow> AuthorTagAttached | PgForeign k \<Rightarrow> AuthorChallengeNotFound
                   | _ \<Rightarrow> AuthorDatabase e)
      (admin_add_tag s i v)"

definition remove_tag :: "studio \<Rightarrow> id \<Rightarrow> string \<Rightarrow> (author_error, studio) result" where
  "remove_tag s i v =
    (case admin_remove_tag s i v of (n, s') \<Rightarrow> if n = 0 then Inl AuthorTagNotFound else Inr s')"

definition merge_tag :: "studio \<Rightarrow> string \<Rightarrow> string \<Rightarrow> (author_error, studio) result" where
  "merge_tag s from to =
    (if from = to then Inl (Invalid SameTag)
     else if to = '''' then Inl (Invalid EmptyTag)
     else
       case admin_merge_tag_collisions s from to of
         (collisions, s1) \<Rightarrow>
           bind_result (on_error AuthorDatabase (admin_rename_tag s1 from to)) (\<lambda>(renamed, s2).
             if collisions + renamed = 0 then Inl AuthorTagNotFound else Inr s2))"

definition delete_tag :: "studio \<Rightarrow> string \<Rightarrow> bool \<Rightarrow> (author_error, studio) result" where
  "delete_tag s v force =
    (let uses = admin_count_tag_uses s v in
     if uses = 0 then Inl AuthorTagNotFound
     else if \<not> force then Inl (AuthorTagInUse uses)
     else Inr (snd (admin_delete_tag s v)))"

definition list_tags :: "(string \<Rightarrow> int) \<Rightarrow> studio \<Rightarrow> (string \<times> int) list" where
  "list_tags collate s = admin_list_tags collate s"

subsection \<open>Annotations (annotations.go)\<close>

definition set_annotation ::
  "studio \<Rightarrow> id \<Rightarrow> string \<Rightarrow> string \<Rightarrow> (author_error, (string \<times> string) \<times> studio) result" where
  "set_annotation s i key v =
    bind_result (on_error (\<lambda>e. Invalid (BadAnnotation e)) (parse_key key)) (\<lambda>k.
    bind_result (on_error (\<lambda>e. Invalid (BadAnnotation e)) (annotation_clean k v)) (\<lambda>w.
      on_error (\<lambda>e. case e of PgForeign _ \<Rightarrow> AuthorChallengeNotFound | _ \<Rightarrow> AuthorDatabase e)
        (admin_set_annotation s i k w)))"

definition remove_annotation :: "studio \<Rightarrow> id \<Rightarrow> string \<Rightarrow> (author_error, studio) result" where
  "remove_annotation s i k =
    (case admin_remove_annotation s i k of
       (n, s') \<Rightarrow> if n = 0 then Inl AuthorAnnotationNotFound else Inr s')"

end
