(* ===== verification/Authoring_Invariants.thy ===== *)
theory Authoring_Invariants
  imports Authoring Ledger
begin

section \<open>What challenge administration keeps true\<close>

text \<open>
  The invariant of the authoring tables: what the constraints of the schema say (keys, foreign
  keys, closed sets, unique pairs) and what only the services enforce (the type agrees with the
  scoring function, a unique-flag challenge combines no flags and has no pattern, every pattern
  compiles, every requirements document parses and names its own row nowhere).
\<close>

subsection \<open>Sets of ids\<close>

lemma dedupe_ids_loop_eq: "dedupe_ids_loop seen out ids = dedupe_loop seen out ids"
  by (induction seen out ids rule: dedupe_ids_loop.induct) simp_all

lemma dedupe_ids_eq: "dedupe_ids ids = dedupe ids"
  by (simp add: dedupe_ids_def dedupe_def dedupe_ids_loop_eq)

lemma dedupe_ids_facts [simp]: "set (dedupe_ids ids) = set ids" "distinct (dedupe_ids ids)"
  by (simp_all add: dedupe_ids_eq dedupe_distinct)

lemma missing_ids_set [simp]: "set (missing_ids want have_ids) = set want - set have_ids"
  by (auto simp: missing_ids_def)

lemma missing_ids_Nil: "missing_ids want have_ids = [] \<longleftrightarrow> set want \<subseteq> set have_ids"
  by (auto simp: missing_ids_def filter_empty_conv)

subsection \<open>The invariant\<close>

definition known :: "studio \<Rightarrow> id set" where
  "known s = cg_id ` set (sheets s)"

lemma sheet_None: "sheet s i = None \<longleftrightarrow> i \<notin> known s"
  by (auto simp: sheet_def known_def find_None_filter filter_empty_conv)

lemma sheet_Some: "sheet s i = Some c \<Longrightarrow> c \<in> set (sheets s) \<and> cg_id c = i"
  by (auto simp: sheet_def dest: find_Some_in)

lemma known_sheet: "i \<in> known s \<longleftrightarrow> (\<exists>c. sheet s i = Some c)"
  using sheet_None [of s i] by auto

definition keys_ok :: "studio \<Rightarrow> bool" where
  "keys_ok s \<longleftrightarrow>
    distinct (map cg_id (sheets s)) \<and> (\<forall>c\<in>set (sheets s). cg_id c < next_challenge s)
    \<and> distinct (map fl_id (flag_rows s)) \<and> (\<forall>f\<in>set (flag_rows s). fl_id f < next_flag s)
    \<and> distinct (map h_id (hint_rows s)) \<and> (\<forall>h\<in>set (hint_rows s). h_id h < next_hint s)
    \<and> distinct (map in_id (pool s)) \<and> (\<forall>n\<in>set (pool s). in_id n < next_instance s)"

definition refs_ok :: "studio \<Rightarrow> bool" where
  "refs_ok s \<longleftrightarrow>
    fl_challenge ` set (flag_rows s) \<subseteq> known s \<and> h_challenge ` set (hint_rows s) \<subseteq> known s
    \<and> tg_challenge ` set (tag_rows s) \<subseteq> known s \<and> an_of ` set (annotations s) \<subseteq> known s
    \<and> in_challenge ` set (pool s) \<subseteq> known s
    \<and> (\<forall>c\<in>set (sheets s). set_option (cg_next_id c) \<subseteq> known s)"

definition shapes_ok :: "studio \<Rightarrow> bool" where
  "shapes_ok s \<longleftrightarrow>
    (\<forall>c\<in>set (sheets s). broken_check c = None)
    \<and> (\<forall>f\<in>set (flag_rows s). flag_type_check (fl_type f))
    \<and> (\<forall>h\<in>set (hint_rows s). 0 \<le> h_cost h)
    \<and> distinct (map (\<lambda>t. (tg_challenge t, tg_value t)) (tag_rows s))
    \<and> distinct (map (\<lambda>a. (an_of a, an_key a)) (annotations s))
    \<and> (\<forall>a\<in>set (annotations s). annotation_broken_check (an_key a) (an_value a) = None)
    \<and> distinct (map (\<lambda>n. (in_challenge n, in_hash n, in_generation n)) (pool s))
    \<and> (\<forall>n\<in>set (pool s). length (in_hash n) = 32)"

text \<open>A requirements document as the program writes it, which does not name its own row.\<close>

definition doc_ok :: "id \<Rightarrow> raw \<Rightarrow> bool" where
  "doc_ok i r \<longleftrightarrow>
    (\<exists>reqs. r = RawDoc (encode reqs) \<and> list_all in_i64 (prerequisites reqs)
      \<and> visibility reqs \<in> {Hidden, Masked, Preview} \<and> i \<notin> set (prerequisites reqs))"

lemma doc_ok_parse: "doc_ok i r \<Longrightarrow> \<exists>reqs. parse r = Inr reqs \<and> i \<notin> set (prerequisites reqs)"
  using parse_encode by (auto simp: doc_ok_def)

definition rules_ok :: "regex \<Rightarrow> studio \<Rightarrow> bool" where
  "rules_ok re s \<longleftrightarrow>
    (\<forall>c\<in>set (sheets s). cg_type c = challenge_type (cg_function c)
       \<and> doc_ok (cg_id c) (cg_requirements c)
       \<and> (cg_flag_mode c = ''unique'' \<longrightarrow> cg_logic c \<noteq> ''all''))
    \<and> (\<forall>h\<in>set (hint_rows s). doc_ok (h_id h) (h_requirements h))
    \<and> (\<forall>f\<in>set (flag_rows s). fl_type f = ''regex'' \<longrightarrow> re (fl_content f) \<noteq> None
         \<and> (\<forall>c\<in>set (sheets s). cg_id c = fl_challenge f \<longrightarrow> cg_flag_mode c \<noteq> ''unique''))"

text \<open>The foreign keys of the ledger.\<close>

definition ledger_refs :: "studio \<Rightarrow> bool" where
  "ledger_refs s \<longleftrightarrow>
    sv_challenge ` set (solves (play s)) \<subseteq> known s
    \<and> sb_challenge ` set (submissions (play s)) \<subseteq> known s
    \<and> (\<forall>a\<in>set (awards (play s)). set_option (aw_challenge a) \<subseteq> known s)
    \<and> hu_hint ` set (unlocks (play s)) \<subseteq> h_id ` set (hint_rows s)
    \<and> is_challenge ` set (issues (play s)) \<subseteq> known s
    \<and> is_instance ` set (issues (play s)) \<subseteq> in_id ` set (pool s)"

definition studio_ok :: "regex \<Rightarrow> studio \<Rightarrow> bool" where
  "studio_ok re s \<longleftrightarrow> keys_ok s \<and> refs_ok s \<and> shapes_ok s \<and> rules_ok re s \<and> ledger_refs s"

lemmas studio_parts = studio_ok_def keys_ok_def refs_ok_def shapes_ok_def rules_ok_def ledger_refs_def

lemma distinct_find_sheet:
  "keys_ok s \<Longrightarrow> c \<in> set (sheets s) \<Longrightarrow> sheet s (cg_id c) = Some c"
  using find_distinct [of cg_id "sheets s" c "cg_id c" "\<lambda>_. True"]
  by (simp add: keys_ok_def sheet_def)

lemma empty_doc_ok [simp]: "doc_ok i (RawDoc (JObject []))"
  by (auto simp: doc_ok_def encode_def intro!: exI [of _ no_requirements]) (simp_all add: no_requirements_def)

lemma encoded_doc_ok:
  "list_all in_i64 ids \<Longrightarrow> i \<notin> set ids \<Longrightarrow> v \<in> {Hidden, Masked, Preview}
    \<Longrightarrow> doc_ok i (RawDoc (encode \<lparr>prerequisites = ids, visibility = v\<rparr>))"
  by (auto simp: doc_ok_def intro!: exI [of _ "\<lparr>prerequisites = ids, visibility = v\<rparr>"])

subsection \<open>Challenges\<close>

lemma create_ok [inv]:
  assumes "studio_ok re s" "create_challenge s n = Inr (c, s')"
  shows "studio_ok re s'"
proof -
  let ?c = "created_row s (challenge_type (nc_function n)) n"
  have new: "c = ?c" "broken_check c = None"
    and s': "s' = s\<lparr>sheets := sheets s @ [c], next_challenge := next_challenge s + 1\<rparr>"
    using assms(2) by (auto simp: create_challenge_def admin_create_challenge_def split: option.splits)
  have c: "broken_check c = None" "cg_id c = next_challenge s" "cg_next_id c = None"
    "cg_requirements c = RawDoc (JObject [])" "cg_flag_mode c = ''static''"
    "cg_type c = challenge_type (cg_function c)"
    using new(2) by (simp_all add: new(1) created_row_def)
  have k: "known s' = insert (next_challenge s) (known s)"
    by (simp add: known_def s' c(2))
  have fresh: "next_challenge s \<notin> known s"
    using assms(1) by (auto simp: studio_ok_def keys_ok_def known_def)
  have "keys_ok s'"
    using assms(1) fresh c(2) by (auto simp: studio_ok_def keys_ok_def s' known_def)
  moreover have "refs_ok s'"
    using assms(1) c(3) unfolding studio_ok_def refs_ok_def k by (auto simp: s')
  moreover have "shapes_ok s'"
    using assms(1) c(1) by (simp add: studio_ok_def shapes_ok_def s')
  moreover have "rules_ok re s'"
    using assms(1) c by (auto simp: studio_ok_def rules_ok_def s')
  moreover have "ledger_refs s'"
    using assms(1) unfolding studio_ok_def ledger_refs_def k by (auto simp: s')
  ultimately show ?thesis by (simp add: studio_ok_def)
qed

text \<open>
  Any update of one row of \<open>challenges\<close>: what is left to show is the rules the services keep for
  the row as it will be.
\<close>

lemma update_sheet_Inr:
  "update_sheet s i f = Inr (Some (c', s')) \<longleftrightarrow>
    (\<exists>c. sheet s i = Some c \<and> c' = f c \<and> broken_check (f c) = None
      \<and> set_option (cg_next_id (f c)) \<subseteq> known s
      \<and> s' = s\<lparr>sheets := map (\<lambda>r. if cg_id r = i then f r else r) (sheets s)\<rparr>)"
proof (cases "sheet s i")
  case (Some c)
  then show ?thesis
    by (cases "broken_check (f c)"; cases "cg_next_id (f c)")
      (auto simp: update_sheet_def sheet_None)
qed (simp add: update_sheet_def)

lemma update_sheet_ok:
  assumes ok: "studio_ok re s" and upd: "update_sheet s i f = Inr (Some (c', s'))"
    and id: "\<And>c. cg_id (f c) = cg_id c"
    and rule: "\<And>c. sheet s i = Some c \<Longrightarrow>
      cg_type (f c) = challenge_type (cg_function (f c)) \<and> doc_ok i (cg_requirements (f c))
      \<and> (cg_flag_mode (f c) = ''unique'' \<longrightarrow> cg_logic (f c) \<noteq> ''all''
          \<and> (\<forall>g\<in>set (flag_rows s). fl_challenge g = i \<longrightarrow> fl_type g \<noteq> ''regex''))"
  shows "studio_ok re s'"
proof -
  obtain c where c: "sheet s i = Some c" "broken_check (f c) = None"
      "set_option (cg_next_id (f c)) \<subseteq> known s"
    and s': "s' = s\<lparr>sheets := map (\<lambda>r. if cg_id r = i then f r else r) (sheets s)\<rparr>"
    using upd by (auto simp: update_sheet_Inr)
  have ids: "map cg_id (sheets s') = map cg_id (sheets s)" by (simp add: s' id)
  have k: "known s' = known s" using ids by (simp add: known_def flip: set_map)
  have old: "r \<in> set (sheets s) \<Longrightarrow> cg_id r = i \<Longrightarrow> r = c" for r
    using distinct_find_sheet [of s r] ok c(1) by (auto simp: studio_ok_def)
  have each: "\<forall>r\<in>set (sheets s'). q r" if "\<forall>r\<in>set (sheets s). q r" "q (f c)" for q
    using that old by (auto simp: s')
  have fi: "cg_id (f c) = i" "cg_id c < next_challenge s"
    using sheet_Some [OF c(1)] ok by (auto simp: id studio_ok_def keys_ok_def)
  have same: "flag_rows s' = flag_rows s" "hint_rows s' = hint_rows s" "tag_rows s' = tag_rows s"
    "annotations s' = annotations s" "pool s' = pool s" "play s' = play s"
    "next_challenge s' = next_challenge s" "next_flag s' = next_flag s" "next_hint s' = next_hint s"
    "next_instance s' = next_instance s"
    by (simp_all add: s')
  have "keys_ok s'"
    using ok each [of "\<lambda>r. cg_id r < next_challenge s"] fi
    by (simp add: studio_ok_def keys_ok_def same ids id)
  moreover have "ledger_refs s'" using ok by (simp add: studio_ok_def ledger_refs_def same k)
  moreover have "refs_ok s'"
    using ok c(3) each [of "\<lambda>r. set_option (cg_next_id r) \<subseteq> known s"]
    by (simp add: studio_ok_def refs_ok_def same k)
  moreover have "shapes_ok s'"
    using ok c(2) each [of "\<lambda>r. broken_check r = None"]
    by (simp add: studio_ok_def shapes_ok_def same)
  moreover have "rules_ok re s'"
  proof -
    have "\<forall>r\<in>set (sheets s'). cg_type r = challenge_type (cg_function r)
       \<and> doc_ok (cg_id r) (cg_requirements r)
       \<and> (cg_flag_mode r = ''unique'' \<longrightarrow> cg_logic r \<noteq> ''all'')"
      by (rule each) (use ok rule [OF c(1)] fi in \<open>simp_all add: studio_ok_def rules_ok_def\<close>)
    moreover have "\<forall>r\<in>set (sheets s'). cg_id r = fl_challenge g \<longrightarrow> cg_flag_mode r \<noteq> ''unique''"
      if "g \<in> set (flag_rows s)" "fl_type g = ''regex''" for g
      by (rule each) (use that ok rule [OF c(1)] fi in \<open>auto simp: studio_ok_def rules_ok_def\<close>)
    ultimately show ?thesis
      using ok by (simp add: studio_ok_def rules_ok_def same)
  qed
  ultimately show ?thesis by (simp add: studio_ok_def)
qed

lemma sheet_rules:
  assumes "studio_ok re s" "sheet s i = Some c"
  shows "cg_type c = challenge_type (cg_function c)" "doc_ok i (cg_requirements c)"
    "cg_flag_mode c = ''unique'' \<Longrightarrow> cg_logic c \<noteq> ''all''"
    "cg_flag_mode c = ''unique'' \<Longrightarrow> f \<in> set (flag_rows s) \<Longrightarrow> fl_challenge f = i
      \<Longrightarrow> fl_type f \<noteq> ''regex''"
  using assms sheet_Some [OF assms(2)] by (auto simp: studio_ok_def rules_ok_def)

lemma update_challenge_ok [inv]:
  assumes ok: "studio_ok re s" and "update_challenge s i p = Inr (c, s')"
  shows "studio_ok re s'"
proof -
  have upd: "update_sheet s i (patch_challenge (map_option challenge_type (pc_function p)) p)
      = Inr (Some (c, s'))"
    and guard: "pc_logic p = Some ''all'' \<Longrightarrow>
      \<exists>ch. sheet s i = Some ch \<and> cg_flag_mode ch \<noteq> ''unique''"
    using assms(2)
    by (auto simp: update_challenge_def Let_def bind_result_Inr_iff admin_update_challenge_def
        admin_get_challenge_def split: if_splits)
  show ?thesis
    by (rule update_sheet_ok [OF ok upd])
      (use sheet_rules [OF ok] guard in
        \<open>auto simp: patch_challenge_def coalesce_def split: option.splits\<close>)
qed

lemma flag_mode_iff: "is_ok (parse_flag_mode m) \<longleftrightarrow> m = ''static'' \<or> m = ''unique''"
  by (auto simp: is_ok_iff parse_flag_mode_def flag_mode_names_def)

lemma set_flag_mode_ok [inv]:
  assumes ok: "studio_ok re s" and "set_challenge_flag_mode s i mode = Inr (c, s')"
  shows "studio_ok re s'"
proof (cases "s' = s")
  case False
  then obtain ch where ch: "sheet s i = Some ch"
    and upd: "update_sheet s i (\<lambda>c. c\<lparr>cg_flag_mode := mode\<rparr>) = Inr (Some (c, s'))"
    and guard: "mode = ''unique'' \<Longrightarrow> cg_logic ch \<noteq> ''all''
      \<and> length (filter (\<lambda>f. fl_challenge f = i \<and> fl_type f = ''regex'') (flag_rows s)) = 0"
    using assms(2)
    by (auto simp: set_challenge_flag_mode_def bind_result_Inr_iff admin_get_challenge_def
        admin_challenge_flag_stats_def admin_set_challenge_flag_mode_def split: if_splits)
  show ?thesis
    by (rule update_sheet_ok [OF ok upd])
      (use sheet_rules [OF ok] guard ch in \<open>auto simp: filter_empty_conv\<close>)
qed (simp add: ok)

lemma set_state_ok [inv]:
  assumes ok: "studio_ok re s" and "set_challenge_state s i st = Inr (c, s')"
  shows "studio_ok re s'"
proof -
  have upd: "update_sheet s i (\<lambda>c. c\<lparr>cg_state := st\<rparr>) = Inr (Some (c, s'))"
    using assms(2)
    by (auto simp: set_challenge_state_def bind_result_Inr_iff admin_set_challenge_state_def)
  show ?thesis
    by (rule update_sheet_ok [OF ok upd]) (use sheet_rules [OF ok] in auto)
qed

lemma set_requirements_ok [inv]:
  assumes ok: "studio_ok re s" and set: "set_challenge_requirements s i cr = Inr (x, s')"
    and range: "list_all in_i64 (cr_prerequisites cr)" "cr_visibility cr \<in> {Hidden, Masked, Preview}"
  shows "studio_ok re s'"
proof -
  define doc where "doc = RawDoc (encode \<lparr>prerequisites = dedupe_ids (cr_prerequisites cr),
      visibility = cr_visibility cr\<rparr>)"
  obtain c where upd: "update_sheet s i (\<lambda>c. c\<lparr>cg_requirements := doc\<rparr>) = Inr (Some (c, s'))"
    and own: "i \<notin> set (dedupe_ids (cr_prerequisites cr))"
    using set
    by (auto simp: set_challenge_requirements_def Let_def bind_result_Inr_iff doc_def
        admin_set_challenge_requirements_def split: if_splits)
  have "doc_ok i doc"
    unfolding doc_def using own range by (intro encoded_doc_ok) (auto simp: list_all_iff)
  then show ?thesis
    by (intro update_sheet_ok [OF ok upd]) (use sheet_rules [OF ok] in auto)
qed

text \<open>Deleting: nothing in the ledger pointed at the challenge, so nothing in it is orphaned.\<close>

lemma broken_check_None: "broken_check c = None \<longleftrightarrow> (\<forall>p\<in>set challenge_checks. snd p c)"
  by (simp add: broken_check_def find_None_filter filter_empty_conv case_prod_beta)

lemma checks_carry:
  "\<forall>p\<in>set challenge_checks. snd p c \<longrightarrow> snd p c' \<Longrightarrow> broken_check c = None \<Longrightarrow> broken_check c' = None"
  by (simp add: broken_check_None)

lemma dynamic_params_frame [frame]:
  "dynamic_params (c\<lparr>cg_next_id := x\<rparr>) = dynamic_params c"
  "dynamic_params (c\<lparr>cg_position := n\<rparr>) = dynamic_params c"
  by (simp_all add: dynamic_params_def)

lemma check_unlinked: "broken_check c = None \<Longrightarrow> broken_check (c\<lparr>cg_next_id := None\<rparr>) = None"
  by (rule checks_carry) (simp add: challenge_checks_def frame, blast?)

lemma check_moved: "broken_check c = None \<Longrightarrow> broken_check (c\<lparr>cg_position := n\<rparr>) = None"
  by (rule checks_carry) (simp add: challenge_checks_def frame, blast?)

lemma find_snd_None: "find snd xs = None \<longleftrightarrow> (\<forall>p\<in>set xs. \<not> snd p)"
  by (simp add: find_None_filter filter_empty_conv)

lemma delete_challenge_Inr:
  assumes "delete_challenge s i = Inr s'"
  shows "i \<in> known s" "s' = drop_challenge s i" "\<forall>p\<in>set (delete_blockers s i). \<not> snd p"
proof -
  obtain n where n: "admin_delete_challenge s i = Inr (n, s')" "n \<noteq> 0"
    using assms by (auto simp: delete_challenge_def split: sum.splits pg_error.splits if_splits)
  then have "sheet s i \<noteq> None" by (cases "sheet s i = None") (auto simp: admin_delete_challenge_def)
  then show "i \<in> known s" by (simp add: sheet_None)
  have "find snd (delete_blockers s i) = None \<and> s' = drop_challenge s i"
    using n by (auto simp: admin_delete_challenge_def split: if_splits option.splits)
  then show "s' = drop_challenge s i" "\<forall>p\<in>set (delete_blockers s i). \<not> snd p"
    by (simp_all add: find_snd_None)
qed

lemma drop_challenge_ids: "map cg_id (sheets (drop_challenge s i)) = map cg_id (filter (\<lambda>c. cg_id c \<noteq> i) (sheets s))"
  by (simp add: drop_challenge_def)

lemma drop_challenge_known: "known (drop_challenge s i) = known s - {i}"
  using arg_cong [OF drop_challenge_ids [of s i], of set] by (auto simp: known_def)

lemma drop_challenge_fields [frame]:
  "play (drop_challenge s i) = play s" "next_challenge (drop_challenge s i) = next_challenge s"
  "next_flag (drop_challenge s i) = next_flag s" "next_hint (drop_challenge s i) = next_hint s"
  "next_instance (drop_challenge s i) = next_instance s"
  "flag_rows (drop_challenge s i) = filter (\<lambda>f. fl_challenge f \<noteq> i) (flag_rows s)"
  "hint_rows (drop_challenge s i) = filter (\<lambda>h. h_challenge h \<noteq> i) (hint_rows s)"
  "tag_rows (drop_challenge s i) = filter (\<lambda>t. tg_challenge t \<noteq> i) (tag_rows s)"
  "annotations (drop_challenge s i) = filter (\<lambda>a. an_of a \<noteq> i) (annotations s)"
  by (simp_all add: drop_challenge_def)

lemma drop_challenge_pool [frame]:
  "map g (pool (drop_challenge s i)) = map g (filter (\<lambda>n. in_challenge n \<noteq> i) (pool s))"
  if "\<And>n a. g (n\<lparr>in_artifact := a\<rparr>) = g n" for g
  using that by (auto simp: drop_challenge_def)

lemma drop_challenge_sheets:
  assumes "c \<in> set (sheets (drop_challenge s i))"
  obtains r where "r \<in> set (sheets s)" "cg_id r \<noteq> i" "c = r \<and> cg_next_id r \<noteq> Some i \<or> c = r\<lparr>cg_next_id := None\<rparr>"
  using assms by (auto simp: drop_challenge_def split: if_splits)

lemma distinct_map_sub: "distinct (map f xs) \<Longrightarrow> distinct (map f (filter q xs))"
  by (induction xs) auto

lemma delete_ok [inv]:
  assumes ok: "studio_ok re s" and del: "delete_challenge s i = Inr s'"
  shows "studio_ok re s'"
proof -
  note s' = delete_challenge_Inr(2) [OF del] and free = delete_challenge_Inr(3) [OF del]
  note frames = drop_challenge_known drop_challenge_fields
  have ids: "map in_id (pool s') = map in_id (filter (\<lambda>n. in_challenge n \<noteq> i) (pool s))"
    and keys: "map (\<lambda>n. (in_challenge n, in_hash n, in_generation n)) (pool s')
      = map (\<lambda>n. (in_challenge n, in_hash n, in_generation n)) (filter (\<lambda>n. in_challenge n \<noteq> i) (pool s))"
    and chs: "map in_challenge (pool s') = map in_challenge (filter (\<lambda>n. in_challenge n \<noteq> i) (pool s))"
    by (simp_all add: s' frame)
  note sheet_ids = drop_challenge_ids [of s i, folded s']
  have "keys_ok s'"
  proof -
    have "\<forall>n\<in>set (map in_id (pool s')). n < next_instance s"
      using ok unfolding ids by (auto simp: studio_ok_def keys_ok_def)
    moreover have "\<forall>n\<in>set (map cg_id (sheets s')). n < next_challenge s"
      using ok unfolding sheet_ids by (auto simp: studio_ok_def keys_ok_def)
    moreover have "distinct (map in_id (pool s'))" "distinct (map cg_id (sheets s'))"
      using ok unfolding ids sheet_ids by (auto simp: studio_ok_def keys_ok_def distinct_map_sub)
    ultimately show ?thesis
      using ok by (simp add: studio_ok_def keys_ok_def s' frames distinct_map_sub)
  qed
  moreover have "refs_ok s'"
  proof -
    have "in_challenge ` set (pool s') \<subseteq> known s'"
      using ok arg_cong [OF chs, of set]
      by (auto simp: studio_ok_def refs_ok_def s' frames)
    moreover have "set_option (cg_next_id c) \<subseteq> known s'" if "c \<in> set (sheets s')" for c
      using ok that by (auto simp: studio_ok_def refs_ok_def s' frames elim!: drop_challenge_sheets)
    ultimately show ?thesis
      using ok by (auto simp: studio_ok_def refs_ok_def s' frames)
  qed
  moreover have "shapes_ok s'"
  proof -
    have "broken_check c = None" if "c \<in> set (sheets s')" for c
      using that unfolding s'
    proof (rule drop_challenge_sheets)
      fix r assume r: "r \<in> set (sheets s)" "c = r \<and> cg_next_id r \<noteq> Some i \<or> c = r\<lparr>cg_next_id := None\<rparr>"
      have "broken_check r = None" using ok r(1) by (simp add: studio_ok_def shapes_ok_def)
      then show ?thesis
        using r(2) check_unlinked by auto
    qed
    moreover have "\<forall>h\<in>set (map in_hash (pool s')). length h = 32"
    proof -
      have "map in_hash (pool s') = map in_hash (filter (\<lambda>n. in_challenge n \<noteq> i) (pool s))"
        by (simp add: s' frame)
      then show ?thesis using ok by (simp only:) (auto simp: studio_ok_def shapes_ok_def)
    qed
    ultimately show ?thesis
      using ok by (simp add: studio_ok_def shapes_ok_def s' frames keys [unfolded s'] distinct_map_sub)
  qed
  moreover have "rules_ok re s'"
    using ok by (auto simp: studio_ok_def rules_ok_def s' frames elim!: drop_challenge_sheets)
  moreover have "ledger_refs s'"
  proof -
    have none: "\<forall>v\<in>set (solves (play s)). sv_challenge v \<noteq> i"
      "\<forall>v\<in>set (submissions (play s)). sb_challenge v \<noteq> i"
      "\<forall>a\<in>set (awards (play s)). aw_challenge a \<noteq> Some i"
      "\<forall>f\<in>set (issues (play s)). is_challenge f \<noteq> i"
      "\<forall>h\<in>set (hint_rows s). h_challenge h = i \<longrightarrow> h_id h \<notin> hu_hint ` set (unlocks (play s))"
      "\<forall>n\<in>set (pool s). in_challenge n = i \<longrightarrow> in_id n \<notin> is_instance ` set (issues (play s))"
      using free unfolding delete_blockers_def by (auto simp: list_ex_iff) (metis image_eqI)+
    have old: "ledger_refs s" using ok by (simp add: studio_ok_def)
    have "sv_challenge ` set (solves (play s)) \<subseteq> known s'"
      "sb_challenge ` set (submissions (play s)) \<subseteq> known s'"
      "is_challenge ` set (issues (play s)) \<subseteq> known s'"
      using old none(1,2,4) by (auto simp: ledger_refs_def s' drop_challenge_known)
    moreover have "\<forall>a\<in>set (awards (play s)). set_option (aw_challenge a) \<subseteq> known s'"
      using old none(3) by (fastforce simp: ledger_refs_def s' drop_challenge_known)
    moreover have "hu_hint ` set (unlocks (play s)) \<subseteq> h_id ` set (hint_rows s')"
    proof
      fix x assume x: "x \<in> hu_hint ` set (unlocks (play s))"
      then obtain h where "h \<in> set (hint_rows s)" "x = h_id h"
        using old by (auto simp: ledger_refs_def)
      then show "x \<in> h_id ` set (hint_rows s')" using x none(5) by (auto simp: s' frames)
    qed
    moreover have "is_instance ` set (issues (play s)) \<subseteq> in_id ` set (pool s')"
    proof
      fix x assume x: "x \<in> is_instance ` set (issues (play s))"
      then obtain n where "n \<in> set (pool s)" "x = in_id n"
        using old by (auto simp: ledger_refs_def)
      then have "x \<in> set (map in_id (filter (\<lambda>n. in_challenge n \<noteq> i) (pool s)))"
        using x none(6) by auto
      then show "x \<in> in_id ` set (pool s')" unfolding ids [symmetric] by simp
    qed
    ultimately show ?thesis by (simp add: ledger_refs_def s' frames)
  qed
  ultimately show ?thesis by (simp add: studio_ok_def)
qed

end
