(* ===== verification/Authoring_Steps.thy ===== *)
theory Authoring_Steps
  imports Authoring_Invariants
begin

section \<open>Histories of authoring and play\<close>

text \<open>
  The remaining operations keep the invariant, and so does a player's transaction run on the tables
  the authors wrote; together they are the steps of a history.
\<close>

lemma ball_map: "(\<forall>y\<in>set (map g xs). q y) \<longleftrightarrow> (\<forall>x\<in>set xs. q (g x))"
  by simp

subsection \<open>Reordering\<close>

lemma reorder_Inr:
  assumes "reorder_challenges s orders = Inr s'"
  shows "s' = snd (admin_reorder_challenges s orders)"
  using assms
  by (auto simp: reorder_challenges_def admin_reorder_challenges_def split: option.splits if_splits)

lemma reorder_ok [inv]:
  assumes ok: "studio_ok re s" and "reorder_challenges s orders = Inr s'"
  shows "studio_ok re s'"
proof -
  define f :: "Challenge \<Rightarrow> Challenge" where "f c = (case map_of orders (cg_id c) of
      None \<Rightarrow> c | Some n \<Rightarrow> c\<lparr>cg_position := n\<rparr>)" for c
  have s': "s' = s\<lparr>sheets := map f (sheets s)\<rparr>"
    using reorder_Inr [OF assms(2)] by (simp add: admin_reorder_challenges_def f_def [abs_def])
  have f: "cg_id (f c) = cg_id c" "cg_next_id (f c) = cg_next_id c" "cg_type (f c) = cg_type c"
    "cg_function (f c) = cg_function c" "cg_requirements (f c) = cg_requirements c"
    "cg_flag_mode (f c) = cg_flag_mode c" "cg_logic (f c) = cg_logic c" for c
    by (simp_all add: f_def split: option.split)
  have "broken_check (f c) = None" if "broken_check c = None" for c
    using that by (simp add: f_def check_moved split: option.split)
  moreover have "known s' = known s" by (simp add: known_def s' f image_image)
  moreover have "cg_id \<circ> f = cg_id" by (rule ext) (simp add: f)
  ultimately show ?thesis
    using ok by (simp add: studio_parts s' f)
qed

subsection \<open>Flags\<close>

lemma validate_new_flag_Inr:
  "validate_new_flag re mode typ content = Inr u \<longleftrightarrow>
    (typ = ''regex'' \<longrightarrow> mode \<noteq> ''unique'' \<and> re content \<noteq> None)"
  by (cases u) (simp add: validate_new_flag_def)

text \<open>Everything but the flags: kept by any write of \<open>flags\<close> alone.\<close>

definition flag_fits :: "regex \<Rightarrow> studio \<Rightarrow> FlagRow \<Rightarrow> bool" where
  "flag_fits re s f \<longleftrightarrow> fl_challenge f \<in> known s \<and> flag_type_check (fl_type f)
     \<and> (fl_type f = ''regex'' \<longrightarrow> re (fl_content f) \<noteq> None
         \<and> (\<forall>c\<in>set (sheets s). cg_id c = fl_challenge f \<longrightarrow> cg_flag_mode c \<noteq> ''unique''))"

definition flags_fit :: "regex \<Rightarrow> studio \<Rightarrow> FlagRow list \<Rightarrow> id \<Rightarrow> bool" where
  "flags_fit re s fs next \<longleftrightarrow>
    distinct (map fl_id fs) \<and> (\<forall>f\<in>set fs. fl_id f < next) \<and> (\<forall>f\<in>set fs. flag_fits re s f)"

lemma known_frame [frame]:
  "known (s\<lparr>flag_rows := fs\<rparr>) = known s" "known (s\<lparr>hint_rows := hs\<rparr>) = known s"
  "known (s\<lparr>tag_rows := ts\<rparr>) = known s" "known (s\<lparr>annotations := as\<rparr>) = known s"
  "known (s\<lparr>pool := ns\<rparr>) = known s" "known (s\<lparr>next_flag := n\<rparr>) = known s"
  "known (s\<lparr>next_hint := n\<rparr>) = known s" "known (s\<lparr>next_tag := n\<rparr>) = known s"
  "known (s\<lparr>next_annotation := n\<rparr>) = known s" "known (s\<lparr>next_instance := n\<rparr>) = known s"
  "known (s\<lparr>play := d\<rparr>) = known s"
  by (simp_all add: known_def)

lemma flags_fit_iff:
  assumes "studio_ok re s"
  shows "studio_ok re (s\<lparr>flag_rows := fs, next_flag := n\<rparr>) \<longleftrightarrow> flags_fit re s fs n"
proof -
  let ?t = "s\<lparr>flag_rows := fs, next_flag := n\<rparr>"
  have "keys_ok ?t \<longleftrightarrow> distinct (map fl_id fs) \<and> (\<forall>f\<in>set fs. fl_id f < n)"
    using assms by (simp add: studio_ok_def keys_ok_def)
  moreover have "refs_ok ?t \<longleftrightarrow> (\<forall>f\<in>set fs. fl_challenge f \<in> known s)"
    using assms by (simp add: studio_ok_def refs_ok_def frame image_subset_iff)
  moreover have "shapes_ok ?t \<longleftrightarrow> (\<forall>f\<in>set fs. flag_type_check (fl_type f))"
    using assms by (simp add: studio_ok_def shapes_ok_def)
  moreover have "rules_ok re ?t \<longleftrightarrow> (\<forall>f\<in>set fs. fl_type f = ''regex'' \<longrightarrow> re (fl_content f) \<noteq> None
      \<and> (\<forall>c\<in>set (sheets s). cg_id c = fl_challenge f \<longrightarrow> cg_flag_mode c \<noteq> ''unique''))"
    using assms by (simp add: studio_ok_def rules_ok_def)
  moreover have "ledger_refs ?t"
    using assms by (simp add: studio_ok_def ledger_refs_def frame)
  ultimately show ?thesis by (auto simp: studio_ok_def flags_fit_def flag_fits_def)
qed

lemma flags_fit_old: "studio_ok re s \<Longrightarrow> flags_fit re s (flag_rows s) (next_flag s)"
  using flags_fit_iff [where s = s and re = re and fs = "flag_rows s" and n = "next_flag s"] by simp

lemma add_flag_ok [inv]:
  assumes ok: "studio_ok re s" and add: "add_flag re s i typ content ci = Inr (f, s')"
  shows "studio_ok re s'"
proof -
  obtain ch where ch: "sheet s i = Some ch"
    and v: "typ = ''regex'' \<longrightarrow> cg_flag_mode ch \<noteq> ''unique'' \<and> re content \<noteq> None"
    and ins: "admin_insert_flag s i typ content ci = Inr (f, s')"
    using add by (auto simp: add_flag_def bind_result_Inr_iff admin_get_challenge_def
        validate_new_flag_Inr)
  have f: "flag_type_check typ" "f = \<lparr>fl_id = next_flag s, fl_challenge = i, fl_type = typ,
      fl_content = content, fl_case_insensitive = ci\<rparr>"
    and s': "s' = s\<lparr>flag_rows := flag_rows s @ [f], next_flag := next_flag s + 1\<rparr>"
    using ins by (auto simp: admin_insert_flag_def Let_def split: if_splits)
  have only: "c = ch" if "c \<in> set (sheets s)" "cg_id c = i" for c
    using distinct_find_sheet [of s c] ok ch that by (simp add: studio_ok_def)
  have "flags_fit re s (flag_rows s @ [f]) (next_flag s + 1)"
    using flags_fit_old [OF ok] f v sheet_Some [OF ch] only
    by (auto simp: flags_fit_def flag_fits_def known_def)
  then show ?thesis by (simp add: s' flags_fit_iff [OF ok])
qed

lemma update_flag_ok [inv]:
  assumes ok: "studio_ok re s" and upd: "update_flag re s i flag p = Inr (f, s')"
  shows "studio_ok re s'"
proof -
  obtain ch cur where ch: "sheet s i = Some ch" and cur: "admin_get_flag s flag i = Some cur"
    and v: "fl_type (patch_flag p cur) = ''regex'' \<longrightarrow>
      cg_flag_mode ch \<noteq> ''unique'' \<and> re (fl_content (patch_flag p cur)) \<noteq> None"
    and t: "flag_type_check (fl_type (patch_flag p cur))"
    and s': "s' = s\<lparr>flag_rows := map (\<lambda>r. if fl_id r = flag \<and> fl_challenge r = i
        then patch_flag p r else r) (flag_rows s)\<rparr>"
    using upd by (auto simp: update_flag_def bind_result_Inr_iff admin_get_challenge_def
        validate_new_flag_Inr admin_update_flag_def patch_flag_def split: if_splits option.splits)
  let ?g = "\<lambda>r. if fl_id r = flag \<and> fl_challenge r = i then patch_flag p r else r"
  note fit = flags_fit_old [OF ok]
  have cur': "cur \<in> set (flag_rows s)" "fl_id cur = flag" "fl_challenge cur = i"
    using cur by (auto simp: admin_get_flag_def dest: find_Some_in)
  have only: "r = cur" if "r \<in> set (flag_rows s)" "fl_id r = flag" for r
    using fit distinct_map_eqD [of fl_id "flag_rows s" r cur] that cur' by (simp add: flags_fit_def)
  have only_ch: "c = ch" if "c \<in> set (sheets s)" "cg_id c = i" for c
    using distinct_find_sheet [of s c] ok ch that by (simp add: studio_ok_def)
  have same: "fl_id (?g r) = fl_id r" "fl_challenge (?g r) = fl_challenge r" for r
    by (simp_all add: patch_flag_def)
  have "flag_fits re s (?g r)" if r: "r \<in> set (flag_rows s)" for r
  proof (cases "fl_id r = flag \<and> fl_challenge r = i")
    case True
    then have "r = cur" "?g r = patch_flag p cur" using only r by simp_all
    moreover have "flag_fits re s cur" using fit cur' by (simp add: flags_fit_def)
    ultimately show ?thesis
      using v t only_ch cur' same [of cur] by (auto simp: flag_fits_def)
  next
    case False
    then show ?thesis using fit r by (auto simp: flags_fit_def)
  qed
  moreover have "map fl_id (map ?g xs) = map fl_id xs" for xs by (simp add: same(1))
  moreover have "fl_id (?g r) < next_flag s" if "r \<in> set (flag_rows s)" for r
    using fit that by (simp add: flags_fit_def same(1))
  ultimately have "flags_fit re s (map ?g (flag_rows s)) (next_flag s)"
    using fit unfolding flags_fit_def ball_map by (simp del: map_map)
  then show ?thesis using flags_fit_iff [OF ok, where fs = "map ?g (flag_rows s)" and n = "next_flag s"] s' by simp
qed

lemma delete_flag_ok [inv]:
  assumes ok: "studio_ok re s" and del: "delete_flag s i flag = Inr s'"
  shows "studio_ok re s'"
proof -
  have s': "s' = s\<lparr>flag_rows := filter (\<lambda>f. \<not> (fl_id f = flag \<and> fl_challenge f = i)) (flag_rows s)\<rparr>"
    using del by (auto simp: delete_flag_def admin_delete_flag_def split: if_splits)
  have "flags_fit re s (filter (\<lambda>f. \<not> (fl_id f = flag \<and> fl_challenge f = i)) (flag_rows s)) (next_flag s)"
    using flags_fit_old [OF ok] unfolding flags_fit_def by (auto intro: distinct_map_sub)
  then show ?thesis using flags_fit_iff [OF ok, where n = "next_flag s"] s' by simp
qed

subsection \<open>Hints\<close>

definition hint_fits :: "studio \<Rightarrow> AuthoredHint \<Rightarrow> bool" where
  "hint_fits s h \<longleftrightarrow> h_challenge h \<in> known s \<and> 0 \<le> h_cost h \<and> doc_ok (h_id h) (h_requirements h)"

definition hints_fit :: "studio \<Rightarrow> AuthoredHint list \<Rightarrow> id \<Rightarrow> bool" where
  "hints_fit s hs next \<longleftrightarrow>
    distinct (map h_id hs) \<and> (\<forall>h\<in>set hs. h_id h < next) \<and> (\<forall>h\<in>set hs. hint_fits s h)
    \<and> hu_hint ` set (unlocks (play s)) \<subseteq> h_id ` set hs"

lemma hints_fit_iff:
  assumes "studio_ok re s"
  shows "studio_ok re (s\<lparr>hint_rows := hs, next_hint := n\<rparr>) \<longleftrightarrow> hints_fit s hs n"
proof -
  let ?t = "s\<lparr>hint_rows := hs, next_hint := n\<rparr>"
  have "keys_ok ?t \<longleftrightarrow> distinct (map h_id hs) \<and> (\<forall>h\<in>set hs. h_id h < n)"
    using assms by (simp add: studio_ok_def keys_ok_def)
  moreover have "refs_ok ?t \<longleftrightarrow> (\<forall>h\<in>set hs. h_challenge h \<in> known s)"
    using assms by (simp add: studio_ok_def refs_ok_def frame image_subset_iff)
  moreover have "shapes_ok ?t \<longleftrightarrow> (\<forall>h\<in>set hs. 0 \<le> h_cost h)"
    using assms by (simp add: studio_ok_def shapes_ok_def)
  moreover have "rules_ok re ?t \<longleftrightarrow> (\<forall>h\<in>set hs. doc_ok (h_id h) (h_requirements h))"
    using assms by (simp add: studio_ok_def rules_ok_def)
  moreover have "ledger_refs ?t \<longleftrightarrow> hu_hint ` set (unlocks (play s)) \<subseteq> h_id ` set hs"
    using assms by (simp add: studio_ok_def ledger_refs_def frame)
  ultimately show ?thesis by (auto simp: studio_ok_def hints_fit_def hint_fits_def)
qed

lemma hints_fit_old: "studio_ok re s \<Longrightarrow> hints_fit s (hint_rows s) (next_hint s)"
  using hints_fit_iff [where s = s and re = re and hs = "hint_rows s" and n = "next_hint s"] by simp

lemma hint_doc_ok:
  "list_all in_i64 ids \<Longrightarrow> i \<notin> set ids \<Longrightarrow> doc_ok i (hint_requirements (dedupe_ids ids))"
  unfolding hint_requirements_def by (intro encoded_doc_ok) (auto simp: list_all_iff)

text \<open>Prerequisites that pass are other hints of the same challenge.\<close>

lemma validate_hint_prereqs_Inr:
  "validate_hint_prereqs s i hint ids = Inr u \<longleftrightarrow>
    hint \<notin> set ids
    \<and> (\<forall>j\<in>set ids. \<exists>h\<in>set (hint_rows s). h_id h = j \<and> h_challenge h = i)"
proof -
  have "set (admin_filter_hint_ids s ids i)
      = {j \<in> set ids. \<exists>h\<in>set (hint_rows s). h_id h = j \<and> h_challenge h = i}"
    by (auto simp: admin_filter_hint_ids_def)
  then show ?thesis
    by (auto simp: validate_hint_prereqs_def Let_def missing_ids_Nil)
qed

lemma add_hint_ok [inv]:
  assumes ok: "studio_ok re s" and add: "add_hint s i n = Inr (h, s')"
    and range: "list_all in_i64 (nh_prerequisites n)"
  shows "studio_ok re s'"
proof -
  let ?ids = "dedupe_ids (nh_prerequisites n)"
  have ins: "admin_insert_hint s i (nh_title n) (nh_content n) (nh_cost n) (nh_position n)
      (hint_requirements ?ids) = Inr (h, s')"
    and v: "validate_hint_prereqs s' i (h_id h) ?ids = Inr ()"
    using add by (auto simp: add_hint_def Let_def bind_result_Inr_iff split: sum.splits pg_error.splits)
  have h: "h_id h = next_hint s" "h_challenge h = i" "0 \<le> h_cost h" "i \<in> known s"
      "h_requirements h = hint_requirements ?ids"
    and s': "s' = s\<lparr>hint_rows := hint_rows s @ [h], next_hint := next_hint s + 1\<rparr>"
    using ins by (auto simp: admin_insert_hint_def Let_def sheet_None split: if_splits)
  have "doc_ok (h_id h) (h_requirements h)"
    using hint_doc_ok [OF range] v h(5) by (simp add: validate_hint_prereqs_Inr)
  then have "hints_fit s (hint_rows s @ [h]) (next_hint s + 1)"
    using hints_fit_old [OF ok] h by (auto simp: hints_fit_def hint_fits_def)
  then show ?thesis by (simp add: s' hints_fit_iff [OF ok])
qed

lemma update_hint_ok [inv]:
  assumes ok: "studio_ok re s" and upd: "update_hint s i hint p = Inr (h, s')"
    and range: "list_all in_i64 (case ph_prerequisites p of None \<Rightarrow> [] | Some ids \<Rightarrow> ids)"
  shows "studio_ok re s'"
proof -
  let ?ids = "map_option dedupe_ids (ph_prerequisites p)"
  let ?f = "patch_hint p (map_option hint_requirements ?ids)"
  let ?g = "\<lambda>r. if h_id r = hint \<and> h_challenge r = i then ?f r else r"
  obtain cur where f: "find (\<lambda>h. h_id h = hint \<and> h_challenge h = i) (hint_rows s) = Some cur"
    and cost: "0 \<le> h_cost (?f cur)" and s': "s' = s\<lparr>hint_rows := map ?g (hint_rows s)\<rparr>"
    and v: "\<forall>ids. ?ids = Some ids \<longrightarrow> validate_hint_prereqs s' i hint ids = Inr ()"
    using upd
    by (auto simp: update_hint_def Let_def bind_result_Inr_iff admin_update_hint_def
        split: option.splits if_splits)
  have cur: "cur \<in> set (hint_rows s)" "h_id cur = hint" "h_challenge cur = i"
    using find_Some_in [OF f] by simp_all
  note fit = hints_fit_old [OF ok]
  have same: "h_id (?g r) = h_id r" "h_challenge (?g r) = h_challenge r" for r
    by (simp_all add: patch_hint_def)
  have only: "r = cur" if "r \<in> set (hint_rows s)" "h_id r = hint" for r
    using fit distinct_map_eqD [of h_id "hint_rows s" r cur] that cur by (simp add: hints_fit_def)
  have doc: "doc_ok hint (h_requirements (?f cur))"
  proof (cases "ph_prerequisites p")
    case None
    then show ?thesis
      using fit cur by (auto simp: patch_hint_def coalesce_def hints_fit_def hint_fits_def)
  next
    case (Some ids)
    then have "hint \<notin> set ids" using v by (simp add: validate_hint_prereqs_Inr)
    then show ?thesis
      using hint_doc_ok [of ids hint] range Some by (simp add: patch_hint_def coalesce_def)
  qed
  have "hint_fits s (?g r)" if r: "r \<in> set (hint_rows s)" for r
  proof (cases "h_id r = hint \<and> h_challenge r = i")
    case True
    then have "r = cur" "?g r = ?f cur" using only r by simp_all
    moreover have "hint_fits s cur" using fit cur by (simp add: hints_fit_def)
    ultimately show ?thesis
      using cost doc same [of cur] cur(2,3) by (simp add: hint_fits_def)
  next
    case False
    then show ?thesis using fit r by (auto simp: hints_fit_def)
  qed
  moreover have "map h_id (map ?g xs) = map h_id xs" for xs by (simp add: same(1))
  moreover have idset: "h_id ` set (map ?g xs) = h_id ` set xs" for xs
    by (simp only: set_map image_image same(1))
  moreover have "h_id (?g r) < next_hint s" if "r \<in> set (hint_rows s)" for r
    using fit that by (simp add: hints_fit_def same(1))
  ultimately have "hints_fit s (map ?g (hint_rows s)) (next_hint s)"
    using fit unfolding hints_fit_def ball_map idset by (simp del: map_map)
  then show ?thesis
    using hints_fit_iff [OF ok, where hs = "map ?g (hint_rows s)" and n = "next_hint s"] s' by simp
qed

lemma delete_hint_Inr:
  assumes "delete_hint s i hint = Inr s'"
  shows "s' = s\<lparr>hint_rows := filter (\<lambda>h. \<not> (h_id h = hint \<and> h_challenge h = i)) (hint_rows s)\<rparr>"
    "\<forall>h\<in>set (hint_rows s). h_id h = hint \<and> h_challenge h = i \<longrightarrow> h_id h \<notin> hu_hint ` set (unlocks (play s))"
  using assms
  by (auto simp: delete_hint_def admin_delete_hint_def Let_def list_ex_iff split: if_splits)

lemma delete_hint_ok [inv]:
  assumes ok: "studio_ok re s" and del: "delete_hint s i hint = Inr s'"
  shows "studio_ok re s'"
proof -
  note s' = delete_hint_Inr(1) [OF del] and free = delete_hint_Inr(2) [OF del]
  let ?hs = "filter (\<lambda>h. \<not> (h_id h = hint \<and> h_challenge h = i)) (hint_rows s)"
  note fit = hints_fit_old [OF ok]
  have "x \<in> h_id ` set ?hs" if x: "x \<in> hu_hint ` set (unlocks (play s))" for x
  proof -
    obtain h where "h \<in> set (hint_rows s)" "x = h_id h" using fit x by (auto simp: hints_fit_def)
    then show ?thesis using free x by auto
  qed
  then have "hints_fit s ?hs (next_hint s)"
    using fit unfolding hints_fit_def by (simp add: distinct_map_sub subset_iff)
  then show ?thesis using hints_fit_iff [OF ok, where n = "next_hint s"] s' by simp
qed

subsection \<open>Pools\<close>

lemma instance_rows_ids: "map in_id (instance_rows base i gen rows) = map (\<lambda>k. base + int k) [0..<length rows]"
  by (rule nth_equalityI) (simp_all add: instance_rows_def case_prod_beta)

lemma instance_rows_facts:
  assumes "n \<in> set (instance_rows base i gen rows)"
  shows "in_challenge n = i" "in_generation n = gen" "base \<le> in_id n"
    "in_id n < base + int (length rows)"
  using assms by (auto simp: instance_rows_def dest: set_zip_leftD)

lemma length_instance_rows [simp]: "length (instance_rows base i gen rows) = length rows"
  by (simp add: instance_rows_def)

lemma admin_insert_instances_Inr:
  assumes "admin_insert_instances s i gen rows = Inr (k, s')"
  defines "new \<equiv> instance_rows (next_instance s) i gen rows"
  defines "old \<equiv> filter (\<lambda>n. in_challenge n = i \<and> in_generation n = gen) (pool s)"
  shows "k = int (length rows)"
    "s' = s\<lparr>pool := pool s @ new, next_instance := next_instance s + int (length rows)\<rparr>"
    "distinct (map (\<lambda>n. (in_challenge n, in_hash n, in_generation n)) (old @ new))"
    "\<forall>n\<in>set new. length (in_hash n) = 32"
  using assms by (auto simp: admin_insert_instances_def Let_def list_ex_iff split: if_splits)

text \<open>The unique key over the whole table follows from the one over the generation written.\<close>

lemma pool_keys_ok:
  assumes "distinct (map (\<lambda>n. (in_challenge n, in_hash n, in_generation n)) ns)"
    and "distinct (map (\<lambda>n. (in_challenge n, in_hash n, in_generation n))
      (filter (\<lambda>n. in_challenge n = i \<and> in_generation n = gen) ns @ new))"
    and "\<And>n. n \<in> set new \<Longrightarrow> in_challenge n = i \<and> in_generation n = gen"
  shows "distinct (map (\<lambda>n. (in_challenge n, in_hash n, in_generation n)) (ns @ new))"
  using assms(1,2) by (auto dest: assms(3) simp: image_iff)

lemma insert_instances_ok:
  assumes ok: "studio_ok re s" and i: "i \<in> known s"
    and ins: "admin_insert_instances s i gen rows = Inr (k, s')"
  shows "studio_ok re s'"
proof -
  define new where "new = instance_rows (next_instance s) i gen rows"
  note facts = admin_insert_instances_Inr [OF ins, folded new_def]
  note row = instance_rows_facts [where base = "next_instance s" and i = i and gen = gen
      and rows = rows, folded new_def]
  have s': "s' = s\<lparr>pool := pool s @ new, next_instance := next_instance s + int (length rows)\<rparr>"
    using facts(2) .
  have below: "\<forall>n\<in>set (pool s). in_id n < next_instance s"
    using ok by (simp add: studio_ok_def keys_ok_def)
  have "distinct (map in_id new)" unfolding new_def instance_rows_ids by (simp add: distinct_map inj_on_def)
  moreover have "in_id ` set (pool s) \<inter> in_id ` set new = {}"
    using below row(3) by force
  ultimately have "keys_ok s'"
    using ok row(4) by (auto simp: studio_ok_def keys_ok_def s')
  moreover have "refs_ok s'"
    using ok i row(1) unfolding studio_ok_def refs_ok_def s' frame by auto
  moreover have "distinct (map (\<lambda>n. (in_challenge n, in_hash n, in_generation n)) (pool s'))"
    using pool_keys_ok [OF _ facts(3)] ok row(1,2) by (simp add: s' studio_ok_def shapes_ok_def)
  then have "shapes_ok s'"
    using ok facts(4) by (auto simp: studio_ok_def shapes_ok_def s')
  moreover have "rules_ok re s'" using ok by (simp add: studio_ok_def rules_ok_def s')
  moreover have "ledger_refs s'"
    using ok unfolding studio_ok_def ledger_refs_def s' frame by auto
  ultimately show ?thesis by (simp add: studio_ok_def)
qed

lemma replace_pool_write_ok:
  assumes "studio_ok re s" "i \<in> known s" "replace_pool_write s i ns plan = Inr (r, s')"
  shows "studio_ok re s'"
  using assms
  by (cases plan) (auto simp: replace_pool_write_def bind_result_Inr_iff intro: insert_instances_ok)

lemma replace_pool_read_Inr:
  assumes "replace_pool_read s i ns = Inr plan"
  shows "i \<in> known s"
  using assms
  by (auto simp: replace_pool_read_def bind_result_Inr_iff admin_get_challenge_def known_sheet
      split: option.splits if_splits)

lemma replace_pool_ok [inv]:
  "studio_ok re s \<Longrightarrow> replace_pool s i ns = Inr (r, s') \<Longrightarrow> studio_ok re s'"
  by (auto simp: replace_pool_def bind_result_Inr_iff
      intro: replace_pool_write_ok dest: replace_pool_read_Inr)

subsection \<open>Tags\<close>

definition tags_fit :: "studio \<Rightarrow> Tag list \<Rightarrow> bool" where
  "tags_fit s ts \<longleftrightarrow>
    tg_challenge ` set ts \<subseteq> known s \<and> distinct (map (\<lambda>t. (tg_challenge t, tg_value t)) ts)"

lemma tags_fit_iff:
  assumes "studio_ok re s"
  shows "studio_ok re (s\<lparr>tag_rows := ts, next_tag := n\<rparr>) \<longleftrightarrow> tags_fit s ts"
proof -
  let ?t = "s\<lparr>tag_rows := ts, next_tag := n\<rparr>"
  have "keys_ok ?t" "rules_ok re ?t" using assms by (simp_all add: studio_ok_def keys_ok_def rules_ok_def)
  moreover have "ledger_refs ?t" using assms by (simp add: studio_ok_def ledger_refs_def frame)
  moreover have "refs_ok ?t \<longleftrightarrow> tg_challenge ` set ts \<subseteq> known s"
    using assms by (simp add: studio_ok_def refs_ok_def frame)
  moreover have "shapes_ok ?t \<longleftrightarrow> distinct (map (\<lambda>t. (tg_challenge t, tg_value t)) ts)"
    using assms by (simp add: studio_ok_def shapes_ok_def)
  ultimately show ?thesis by (auto simp: studio_ok_def tags_fit_def)
qed

lemma tags_fit_old: "studio_ok re s \<Longrightarrow> tags_fit s (tag_rows s)"
  using tags_fit_iff [where s = s and re = re and ts = "tag_rows s" and n = "next_tag s"] by simp

lemma tags_ok:
  "studio_ok re s \<Longrightarrow> tags_fit s ts \<Longrightarrow> studio_ok re (s\<lparr>tag_rows := ts\<rparr>)"
  using tags_fit_iff [where s = s and re = re and ts = ts and n = "next_tag s"] by simp

lemma tags_fit_filter: "tags_fit s ts \<Longrightarrow> tags_fit s (filter q ts)"
  by (auto simp: tags_fit_def intro: distinct_map_sub)

lemma add_tag_ok [inv]:
  assumes ok: "studio_ok re s" and add: "add_tag s i v = Inr (t, s')"
  shows "studio_ok re s'"
proof -
  have "\<not> list_ex (tagged i v) (tag_rows s)" "i \<in> known s" "tg_challenge t = i" "tg_value t = v"
    and s': "s' = s\<lparr>tag_rows := tag_rows s @ [t], next_tag := next_tag s + 1\<rparr>"
    using add by (auto simp: add_tag_def admin_add_tag_def sheet_None Let_def split: if_splits)
  then have "tags_fit s (tag_rows s @ [t])"
    using tags_fit_old [OF ok] by (auto simp: tags_fit_def list_ex_iff tagged_def)
  then show ?thesis by (simp add: s' tags_fit_iff [OF ok])
qed

lemma remove_tag_ok [inv]:
  "studio_ok re s \<Longrightarrow> remove_tag s i v = Inr s' \<Longrightarrow> studio_ok re s'"
  using tags_ok [OF _ tags_fit_filter [OF tags_fit_old]]
  by (auto simp: remove_tag_def admin_remove_tag_def split: if_splits)

lemma delete_tag_ok [inv]:
  "studio_ok re s \<Longrightarrow> delete_tag s v force = Inr s' \<Longrightarrow> studio_ok re s'"
  using tags_ok [OF _ tags_fit_filter [OF tags_fit_old]]
  by (auto simp: delete_tag_def admin_delete_tag_def Let_def split: if_splits)

definition retag :: "string \<Rightarrow> string \<Rightarrow> Tag \<Rightarrow> Tag" where
  "retag from to t = (if tg_value t = from then t\<lparr>tg_value := to\<rparr> else t)"

lemma merge_tag_Inr:
  assumes "merge_tag s from to = Inr s'"
  shows "from \<noteq> to" "s' = s\<lparr>tag_rows := map (retag from to) (filter (\<lambda>t. \<not> collides s from to t) (tag_rows s))\<rparr>"
    "distinct (map (\<lambda>t. (tg_challenge t, tg_value t)) (tag_rows s'))"
  using assms
  by (auto simp: merge_tag_def admin_merge_tag_collisions_def admin_rename_tag_def Let_def
      retag_def [abs_def] bind_result_Inr_iff split: if_splits)

lemma merge_tag_used:
  assumes "merge_tag s from to = Inr s'"
  shows "from \<in> tg_value ` set (tag_rows s)"
proof (rule ccontr)
  assume none: "from \<notin> tg_value ` set (tag_rows s)"
  then have "filter (collides s from to) (tag_rows s) = []"
    "filter (\<lambda>t. tg_value t = from) (filter (\<lambda>t. \<not> collides s from to t) (tag_rows s)) = []"
    by (auto simp: filter_empty_conv collides_def)
  then show False
    using assms
    by (auto simp: merge_tag_def admin_merge_tag_collisions_def admin_rename_tag_def Let_def
        bind_result_Inr_iff admin_count_tag_uses_def simp del: filter_filter split: if_splits)
qed

lemma merge_tag_ok [inv]:
  assumes ok: "studio_ok re s" and mrg: "merge_tag s from to = Inr s'"
  shows "studio_ok re s'"
proof -
  note s' = merge_tag_Inr(2) [OF mrg] and d = merge_tag_Inr(3) [OF mrg]
  have "tg_challenge (retag from to t) = tg_challenge t" for t by (simp add: retag_def)
  then have "tg_challenge ` set (tag_rows s') \<subseteq> tg_challenge ` set (tag_rows s)"
    by (auto simp: s')
  then have "tags_fit s (tag_rows s')"
    using d tags_fit_old [OF ok] by (auto simp: tags_fit_def)
  then show ?thesis using tags_ok [OF ok] s' by simp
qed

subsection \<open>Annotations\<close>

definition notes_fit :: "studio \<Rightarrow> ChallengeAnnotation list \<Rightarrow> bool" where
  "notes_fit s as \<longleftrightarrow>
    an_of ` set as \<subseteq> known s \<and> distinct (map (\<lambda>a. (an_of a, an_key a)) as)
    \<and> (\<forall>a\<in>set as. annotation_broken_check (an_key a) (an_value a) = None)"

lemma notes_fit_iff:
  assumes "studio_ok re s"
  shows "studio_ok re (s\<lparr>annotations := as, next_annotation := n\<rparr>) \<longleftrightarrow> notes_fit s as"
proof -
  let ?t = "s\<lparr>annotations := as, next_annotation := n\<rparr>"
  have "keys_ok ?t" "rules_ok re ?t" using assms by (simp_all add: studio_ok_def keys_ok_def rules_ok_def)
  moreover have "ledger_refs ?t" using assms by (simp add: studio_ok_def ledger_refs_def frame)
  moreover have "refs_ok ?t \<longleftrightarrow> an_of ` set as \<subseteq> known s"
    using assms by (simp add: studio_ok_def refs_ok_def frame)
  moreover have "shapes_ok ?t \<longleftrightarrow> distinct (map (\<lambda>a. (an_of a, an_key a)) as)
      \<and> (\<forall>a\<in>set as. annotation_broken_check (an_key a) (an_value a) = None)"
    using assms by (simp add: studio_ok_def shapes_ok_def)
  ultimately show ?thesis by (auto simp: studio_ok_def notes_fit_def)
qed

lemma notes_fit_old: "studio_ok re s \<Longrightarrow> notes_fit s (annotations s)"
  using notes_fit_iff [where s = s and re = re and as = "annotations s" and n = "next_annotation s"]
  by simp

lemma notes_ok: "studio_ok re s \<Longrightarrow> notes_fit s as \<Longrightarrow> studio_ok re (s\<lparr>annotations := as\<rparr>)"
  using notes_fit_iff [where s = s and re = re and as = as and n = "next_annotation s"] by simp

text \<open>What the service lets through never trips a CHECK of the table.\<close>

lemma parse_key_check: "parse_key k = Inr k' \<Longrightarrow> k' = k \<and> annotation_key_check k"
  by (cases k) (auto simp: parse_key_def annotation_key_check_def key_byte_def max_key_len_def
      list_all_iff split: if_splits)

lemma rune_count_pos: "v \<noteq> '''' \<Longrightarrow> 1 \<le> rune_count v"
  by (cases v) (simp_all add: rune_count_def)

lemma valid_alpha2_shape: "valid_alpha2 v \<Longrightarrow> length v = 2 \<and> list_all is_upper v"
  by (auto simp: valid_alpha2_def is_ok_iff parse_alpha2_Inr well_shaped_def list_all_length
      less_2_cases_iff split: if_splits)

lemma cleaned_passes_checks:
  assumes "parse_key key = Inr k" "annotation_clean k v = Inr w"
  shows "k = key \<and> w = v \<and> annotation_broken_check key v = None"
proof -
  have k: "k = key" "annotation_key_check key" using parse_key_check [OF assms(1)] by auto
  have v: "w = v" "v \<noteq> ''''" "rune_count v \<le> 256" "key = ''country'' \<longrightarrow> valid_alpha2 v"
    using assms(2) by (auto simp: annotation_clean_Inr k(1) key_country_def)
  then show ?thesis
    using k rune_count_pos [of v] valid_alpha2_shape [of v]
    by (auto simp: annotation_broken_check_def)
qed

lemma set_annotation_Inr:
  assumes "set_annotation s i key v = Inr (kv, s')"
  shows "kv = (key, v)" "annotation_broken_check key v = None"
    "if list_ex (annotated i key) (annotations s)
     then s' = s\<lparr>annotations := map (\<lambda>a. if annotated i key a then a\<lparr>an_value := v\<rparr> else a) (annotations s)\<rparr>
     else i \<in> known s \<and> s' = s\<lparr>annotations := annotations s @
             [\<lparr>an_id = next_annotation s, an_of = i, an_key = key, an_value = v\<rparr>],
           next_annotation := next_annotation s + 1\<rparr>"
proof -
  obtain k w where c: "parse_key key = Inr k" "annotation_clean k v = Inr w"
    and "admin_set_annotation s i k w = Inr (kv, s')"
    using assms by (auto simp: set_annotation_def bind_result_Inr_iff)
  then show "kv = (key, v)" "annotation_broken_check key v = None"
    "if list_ex (annotated i key) (annotations s)
     then s' = s\<lparr>annotations := map (\<lambda>a. if annotated i key a then a\<lparr>an_value := v\<rparr> else a) (annotations s)\<rparr>
     else i \<in> known s \<and> s' = s\<lparr>annotations := annotations s @
             [\<lparr>an_id = next_annotation s, an_of = i, an_key = key, an_value = v\<rparr>],
           next_annotation := next_annotation s + 1\<rparr>"
    using cleaned_passes_checks [OF c]
    by (auto simp: admin_set_annotation_def sheet_None split: option.splits if_splits)
qed

lemma set_annotation_ok [inv]:
  assumes ok: "studio_ok re s" and set: "set_annotation s i key v = Inr (kv, s')"
  shows "studio_ok re s'"
proof (cases "list_ex (annotated i key) (annotations s)")
  case False
  then have "notes_fit s (annotations s @
      [\<lparr>an_id = next_annotation s, an_of = i, an_key = key, an_value = v\<rparr>])"
    using notes_fit_old [OF ok] set_annotation_Inr(2,3) [OF set]
    by (auto simp: notes_fit_def list_ex_iff annotated_def)
  then show ?thesis
    using set_annotation_Inr(3) [OF set] False by (simp add: notes_fit_iff [OF ok])
next
  case True
  let ?g = "\<lambda>a. if annotated i key a then a\<lparr>an_value := v\<rparr> else a"
  have same: "an_of (?g a) = an_of a" "an_key (?g a) = an_key a" for a by simp_all
  have "annotation_broken_check (an_key (?g a)) (an_value (?g a)) = None"
    if "a \<in> set (annotations s)" for a
    using that notes_fit_old [OF ok] set_annotation_Inr(2) [OF set]
    by (auto simp: notes_fit_def annotated_def)
  moreover have "map (\<lambda>a. (an_of a, an_key a)) (map ?g as) = map (\<lambda>a. (an_of a, an_key a)) as" for as
    by (simp add: same)
  moreover have "an_of ` set (map ?g as) = an_of ` set as" for as
    by (simp only: set_map image_image same)
  ultimately have "notes_fit s (map ?g (annotations s))"
    using notes_fit_old [OF ok] unfolding notes_fit_def ball_map by (simp del: map_map set_map)
  then show ?thesis
    using notes_ok [OF ok] set_annotation_Inr(3) [OF set] True by simp
qed

lemma remove_annotation_ok [inv]:
  assumes ok: "studio_ok re s" and rm: "remove_annotation s i k = Inr s'"
  shows "studio_ok re s'"
proof -
  have "notes_fit s (filter (\<lambda>a. \<not> annotated i k a) (annotations s))"
    using notes_fit_old [OF ok] by (auto simp: notes_fit_def intro: distinct_map_sub)
  then show ?thesis
    using notes_ok [OF ok] rm
    by (auto simp: remove_annotation_def admin_remove_annotation_def split: if_splits)
qed

subsection \<open>A player's transaction on the authored tables\<close>

text \<open>
  The transaction runs on \<open>game s\<close>; of the authored tables it can change only asking prices
  (\<open>extends\<close>), and \<open>resume\<close> writes those and the ledger back.
\<close>

definition resume :: "studio \<Rightarrow> db \<Rightarrow> studio" where
  "resume s d =
    s\<lparr>sheets := map2 (\<lambda>c r. c\<lparr>cg_value := ch_value r\<rparr>) (sheets s) (challenges d), play := d\<rparr>"

lemma game_tables [simp]:
  "challenges (game s) = map game_row (sheets s)" "flags (game s) = flag_rows s"
  "hints (game s) = map HintRow.truncate (hint_rows s)" "instances (game s) = pool s"
  "solves (game s) = solves (play s)" "submissions (game s) = submissions (play s)"
  "awards (game s) = awards (play s)" "unlocks (game s) = unlocks (play s)"
  "issues (game s) = issues (play s)"
  by (simp_all add: game_def)

lemma game_row_id [simp]: "ch_id (game_row c) = cg_id c"
  by (simp add: game_row_def)

lemma reprices_game_row:
  "reprices (map game_row cs) rs \<Longrightarrow> map game_row (map2 (\<lambda>c r. c\<lparr>cg_value := ch_value r\<rparr>) cs rs) = rs"
proof (induction cs arbitrary: rs)
  case (Cons c cs)
  then obtain r rs' where rs: "rs = r # rs'" "unpriced (game_row c) = unpriced r"
    "reprices (map game_row cs) rs'"
    by (cases rs) (auto simp: reprices_def)
  have "game_row (c\<lparr>cg_value := ch_value r\<rparr>) = (unpriced (game_row c))\<lparr>ch_value := ch_value r\<rparr>"
    by (simp add: game_row_def unpriced_def)
  also have "\<dots> = r" unfolding rs(2) by (simp add: unpriced_def)
  finally show ?case using Cons.IH [OF rs(3)] rs(1) by simp
qed (simp add: reprices_def)

lemma game_resume: "extends (game s) d \<Longrightarrow> game (resume s d) = d"
  using reprices_game_row [of "sheets s" "challenges d"]
  by (cases d) (simp add: extends_def game_def resume_def)

lemma reprices_length: "reprices cs rs \<Longrightarrow> length rs = length cs"
  by (metis length_map reprices_def)

lemma resume_sheets:
  assumes "extends (game s) d"
  shows "\<And>g. (\<And>c v. g (c\<lparr>cg_value := v\<rparr>) = g c) \<Longrightarrow> map g (sheets (resume s d)) = map g (sheets s)"
    "\<forall>r\<in>set (sheets (resume s d)). \<exists>c\<in>set (sheets s). \<exists>v. r = c\<lparr>cg_value := v\<rparr>"
proof -
  have l: "length (challenges d) = length (sheets s)"
    using assms reprices_length [of "map game_row (sheets s)"] by (simp add: extends_def)
  show "map g (sheets (resume s d)) = map g (sheets s)" if "\<And>c v. g (c\<lparr>cg_value := v\<rparr>) = g c" for g
    by (rule nth_equalityI) (simp_all add: resume_def l that)
  show "\<forall>r\<in>set (sheets (resume s d)). \<exists>c\<in>set (sheets s). \<exists>v. r = c\<lparr>cg_value := v\<rparr>"
    by (auto simp: resume_def dest: set_zip_leftD)
qed

text \<open>The rows a transaction adds to the ledger point at rows it read.\<close>

definition refers :: "db \<Rightarrow> db \<Rightarrow> bool" where
  "refers d d' \<longleftrightarrow>
    (\<forall>v\<in>set (solves d'). v \<in> set (solves d) \<or> sv_challenge v \<in> ch_id ` set (challenges d))
    \<and> (\<forall>v\<in>set (submissions d'). v \<in> set (submissions d) \<or> sb_challenge v \<in> ch_id ` set (challenges d))
    \<and> (\<forall>a\<in>set (awards d'). a \<in> set (awards d) \<or> set_option (aw_challenge a) \<subseteq> ch_id ` set (challenges d))
    \<and> (\<forall>u\<in>set (unlocks d'). u \<in> set (unlocks d) \<or> hu_hint u \<in> h_id ` set (hints d))
    \<and> (\<forall>f\<in>set (issues d'). f \<in> set (issues d)
        \<or> is_challenge f \<in> in_challenge ` set (instances d) \<and> is_instance f \<in> in_id ` set (instances d))"

lemma visible_known: "get_challenge d i = Some c \<Longrightarrow> i \<in> ch_id ` set (challenges d) \<and> ch_id c = i"
  by (auto dest: get_challenge_Some)

lemma submit_refers:
  assumes "submit mode re now d inp = Inr (r, d')"
  shows "refers d d'"
proof -
  obtain acct ch m where o: "submit_open mode d inp = Inr (acct, ch)"
    and w: "submit_write now d inp ch m = Inr (r, d')"
    using assms by (auto simp: submit_Inr_iff)
  have ch: "ch_id ch \<in> ch_id ` set (challenges d)" "ch_id ch = si_challenge inp"
    using o by (auto simp: submit_open_Inr dest: visible_known)
  show ?thesis
  proof (cases "m_correct m")
    case False
    then show ?thesis
      using w ch by (auto simp: submit_write_def submit_incorrect_Inr logged_def refers_def log_row_def)
  next
    case True
    then obtain locked where l: "get_challenge d (ch_id ch) = Some locked"
      and cases: "d' = logged d (log_row now d inp (ch_id locked) ''correct'' (m_attributed m))
        \<or> after_solve now (stamped (logged d (log_row now d inp (ch_id locked) ''correct'' (m_attributed m)))
              (stamp now d inp locked)) (si_actor inp) locked (stamp now d inp locked) = Inr (r, d')"
      using w by (auto simp: submit_write_def submit_correct_Inr Let_def split: if_splits)
    define ids where "ids = ch_id ` set (challenges d)"
    have i: "ch_id locked \<in> ids" using visible_known [OF l] unfolding ids_def by metis
    from cases show ?thesis
    proof
      assume "after_solve now (stamped (logged d (log_row now d inp (ch_id locked) ''correct''
          (m_attributed m))) (stamp now d inp locked)) (si_actor inp) locked (stamp now d inp locked) = Inr (r, d')"
      then show ?thesis
        by (rule after_solve_effect)
          (use i in \<open>auto simp: refers_def ids_def [symmetric] stamped_def logged_def log_row_def stamp_def blood_award_def
            split: if_splits\<close>)
    qed (use i in \<open>auto simp: refers_def ids_def [symmetric] logged_def log_row_def\<close>)
  qed
qed

lemma unlock_refers:
  assumes "unlock_hint mode now d challenge hint a = Inr (u, d')"
  shows "refers d d'"
proof -
  obtain acct h where o: "unlock_open d a challenge hint = Inr h"
    and w: "unlock_spend mode now d a acct h = Inr (u, d')"
    using assms by (auto simp: unlock_hint_Inr)
  obtain creq where "get_hint d hint challenge = Some (h, creq)"
    using o by (auto simp: unlock_open_Inr)
  then have "h_id h \<in> h_id ` set (hints d)" "h_challenge h \<in> ch_id ` set (challenges d)"
    by (auto simp: get_hint_def dest!: find_Some_in visible_known split: option.splits)
  then show ?thesis
    using w by (auto simp: unlock_spend_Inr refers_def unlocked_def awarded_def charge_def unlock_row_def)
qed

lemma issue_refers:
  assumes "issue_instance d challenge account = Inr (x, d')"
  shows "refers d d'"
  using issue_instance_cases [OF assms] by (auto simp: refers_def issue_row_def dest!: pick_instance_Some)

lemma exec_refers: "exec mode re cmd d = Inr (out, d') \<Longrightarrow> refers d d'"
  by (cases cmd) (auto simp: exec_def tag_Inr intro: submit_refers unlock_refers issue_refers)

lemma check_repriced:
  assumes "broken_check c = None"
  shows "broken_check (c\<lparr>cg_value := v\<rparr>) = None"
proof -
  have "dynamic_params (c\<lparr>cg_value := v\<rparr>) = dynamic_params c" by (simp add: dynamic_params_def)
  then show ?thesis
    by (intro checks_carry [OF _ assms]) (simp add: challenge_checks_def, blast?)
qed

lemma play_ok [inv]:
  assumes ok: "studio_ok re s" and ext: "extends (game s) d" and ref: "refers (game s) d"
  shows "studio_ok re (resume s d)"
proof -
  let ?s = "resume s d"
  note same = resume_sheets(1) [OF ext] and rows = resume_sheets(2) [OF ext]
  have k: "known ?s = known s"
    using arg_cong [OF same [of cg_id], of set] by (simp add: known_def)
  have tables: "flag_rows ?s = flag_rows s" "hint_rows ?s = hint_rows s" "tag_rows ?s = tag_rows s"
    "annotations ?s = annotations s" "pool ?s = pool s" "play ?s = d"
    "next_challenge ?s = next_challenge s" "next_flag ?s = next_flag s"
    "next_hint ?s = next_hint s" "next_instance ?s = next_instance s"
    by (simp_all add: resume_def)
  have each: "\<forall>r\<in>set (sheets ?s). q r" if "\<forall>c\<in>set (sheets s). \<forall>v. q (c\<lparr>cg_value := v\<rparr>)" for q
    using rows that by metis
  have "\<forall>c\<in>set (sheets ?s). cg_id c < next_challenge s"
    by (rule each) (use ok in \<open>simp add: studio_ok_def keys_ok_def\<close>)
  moreover have "\<forall>c\<in>set (sheets ?s). set_option (cg_next_id c) \<subseteq> known s"
    by (rule each) (use ok in \<open>simp add: studio_ok_def refs_ok_def\<close>)
  moreover have "distinct (map cg_id (sheets ?s))"
    using ok same [of cg_id] by (simp add: studio_ok_def keys_ok_def)
  ultimately have "keys_ok ?s" "refs_ok ?s"
    using ok by (simp_all add: studio_ok_def keys_ok_def refs_ok_def tables k)
  moreover have "shapes_ok ?s"
  proof -
    have "\<forall>c\<in>set (sheets ?s). broken_check c = None"
      by (rule each) (use ok check_repriced in \<open>simp add: studio_ok_def shapes_ok_def\<close>)
    then show ?thesis using ok by (simp add: studio_ok_def shapes_ok_def tables)
  qed
  moreover have "rules_ok re ?s"
  proof -
    have "\<forall>c\<in>set (sheets ?s). cg_type c = challenge_type (cg_function c)
        \<and> doc_ok (cg_id c) (cg_requirements c) \<and> (cg_flag_mode c = ''unique'' \<longrightarrow> cg_logic c \<noteq> ''all'')"
      by (rule each) (use ok in \<open>simp add: studio_ok_def rules_ok_def\<close>)
    moreover have "\<forall>c\<in>set (sheets ?s). cg_id c = fl_challenge f \<longrightarrow> cg_flag_mode c \<noteq> ''unique''"
      if "f \<in> set (flag_rows s)" "fl_type f = ''regex''" for f
      by (rule each) (use ok that in \<open>simp add: studio_ok_def rules_ok_def\<close>)
    ultimately show ?thesis using ok by (simp add: studio_ok_def rules_ok_def tables)
  qed
  moreover have "ledger_refs ?s"
  proof -
    have ids: "ch_id ` set (map game_row (sheets s)) = known s"
      "h_id ` set (map HintRow.truncate (hint_rows s)) = h_id ` set (hint_rows s)"
      by (simp_all add: known_def image_image HintRow.truncate_def)
    have pool: "in_challenge ` set (pool s) \<subseteq> known s" using ok by (simp add: studio_ok_def refs_ok_def)
    show ?thesis
      using ok ref pool unfolding ledger_refs_def k tables refers_def game_tables ids
      by (auto simp: studio_ok_def ledger_refs_def subset_iff)
  qed
  ultimately show ?thesis by (simp add: studio_ok_def)
qed

subsection \<open>Histories\<close>

text \<open>
  One operation after another; the premises on ranges say that the ids of a request are \<open>int64\<close>.
\<close>

inductive author_step :: "Mode \<Rightarrow> regex \<Rightarrow> studio \<Rightarrow> studio \<Rightarrow> bool" for mode re where
  create: "create_challenge s n = Inr (c, s') \<Longrightarrow> author_step mode re s s'"
| update: "update_challenge s i p = Inr (c, s') \<Longrightarrow> author_step mode re s s'"
| set_mode: "set_challenge_flag_mode s i m = Inr (c, s') \<Longrightarrow> author_step mode re s s'"
| set_state: "set_challenge_state s i st = Inr (c, s') \<Longrightarrow> author_step mode re s s'"
| delete: "delete_challenge s i = Inr s' \<Longrightarrow> author_step mode re s s'"
| reorder: "reorder_challenges s orders = Inr s' \<Longrightarrow> author_step mode re s s'"
| requirements: "set_challenge_requirements s i cr = Inr (x, s')
    \<Longrightarrow> list_all in_i64 (cr_prerequisites cr) \<Longrightarrow> cr_visibility cr \<in> {Hidden, Masked, Preview}
    \<Longrightarrow> author_step mode re s s'"
| new_flag: "add_flag re s i typ content ci = Inr (f, s') \<Longrightarrow> author_step mode re s s'"
| edit_flag: "update_flag re s i flag fp = Inr (f, s') \<Longrightarrow> author_step mode re s s'"
| drop_flag: "delete_flag s i flag = Inr s' \<Longrightarrow> author_step mode re s s'"
| new_hint: "add_hint s i nh = Inr (h, s') \<Longrightarrow> list_all in_i64 (nh_prerequisites nh)
    \<Longrightarrow> author_step mode re s s'"
| edit_hint: "update_hint s i hint hp = Inr (h, s')
    \<Longrightarrow> list_all in_i64 (case ph_prerequisites hp of None \<Rightarrow> [] | Some ids \<Rightarrow> ids)
    \<Longrightarrow> author_step mode re s s'"
| drop_hint: "delete_hint s i hint = Inr s' \<Longrightarrow> author_step mode re s s'"
| upload: "replace_pool s i ns = Inr (r, s') \<Longrightarrow> author_step mode re s s'"
| attach_tag: "add_tag s i v = Inr (t, s') \<Longrightarrow> author_step mode re s s'"
| detach_tag: "remove_tag s i v = Inr s' \<Longrightarrow> author_step mode re s s'"
| join_tags: "merge_tag s from to = Inr s' \<Longrightarrow> author_step mode re s s'"
| drop_tag: "delete_tag s v force = Inr s' \<Longrightarrow> author_step mode re s s'"
| annotate: "set_annotation s i k v = Inr (kv, s') \<Longrightarrow> author_step mode re s s'"
| unannotate: "remove_annotation s i k = Inr s' \<Longrightarrow> author_step mode re s s'"
| played: "exec mode re cmd (game s) = Inr (out, d) \<Longrightarrow> author_step mode re s (resume s d)"

abbreviation author_history :: "Mode \<Rightarrow> regex \<Rightarrow> studio \<Rightarrow> studio \<Rightarrow> bool" where
  "author_history mode re \<equiv> (author_step mode re)\<^sup>*\<^sup>*"

lemmas studio_inv = create_ok update_challenge_ok set_flag_mode_ok set_state_ok delete_ok reorder_ok
  set_requirements_ok add_flag_ok update_flag_ok delete_flag_ok add_hint_ok update_hint_ok
  delete_hint_ok replace_pool_ok add_tag_ok remove_tag_ok merge_tag_ok delete_tag_ok
  set_annotation_ok remove_annotation_ok

lemma author_step_ok: "author_step mode re s s' \<Longrightarrow> studio_ok re s \<Longrightarrow> studio_ok re s'"
proof (induction rule: author_step.induct)
  case (played cmd s out d)
  then show ?case using play_ok game.exec_grows [OF played(1)] exec_refers [OF played(1)] by blast
qed (rule studio_inv, assumption+)+

lemma author_history_ok: "author_history mode re s s' \<Longrightarrow> studio_ok re s \<Longrightarrow> studio_ok re s'"
  by (induction rule: rtranclp_induct) (auto intro: author_step_ok)

end
