(* ===== verification/Authoring_Properties.thy ===== *)
theory Authoring_Properties
  imports Authoring_Steps
begin

section \<open>Challenge administration: properties\<close>

text \<open>
  What the operators of an instance can rely on after any history of authoring and play that began
  with an empty catalogue, and the two places where the services promise more than they keep: a
  pattern the authoring check accepts and the submission cannot compile, and two uploads that land
  in one generation.
\<close>

subsection \<open>An instance before its first challenge\<close>

definition fresh_studio :: "string \<Rightarrow> AccountRow list \<Rightarrow> AccountRow list \<Rightarrow> studio" where
  "fresh_studio mode us ts =
    \<lparr>sheets = [], flag_rows = [], hint_rows = [], tag_rows = [], annotations = [], files = [],
     pool = [],
     play = \<lparr>user_mode = mode, users = us, teams = ts, db.challenges = [], db.flags = [],
       db.hints = [], db.instances = [], issues = [], submissions = [], solves = [], awards = [],
       unlocks = [], next_submission = 1, next_solve = 1, next_award = 1, next_unlock = 1,
       announcements = [], pulses = []\<rparr>,
     next_challenge = 1, next_flag = 1, next_hint = 1, next_tag = 1, next_annotation = 1,
     next_instance = 1\<rparr>"

lemma fresh_ok: "studio_ok re (fresh_studio mode us ts)"
  by (simp add: studio_parts fresh_studio_def known_def)

lemma reachable_ok: "author_history mode re (fresh_studio um us ts) s \<Longrightarrow> studio_ok re s"
  using author_history_ok fresh_ok by blast

subsection \<open>Comparing flags on authored challenges\<close>

definition flag_of :: "FlagRow \<Rightarrow> Flag" where
  "flag_of r = \<lparr>f_type = (if fl_type r = ''regex'' then TypeRegex else TypeStatic),
     f_content = fl_content r, f_case_insensitive = fl_case_insensitive r\<rparr>"

lemma flag_type_cases: "flag_type_check t \<longleftrightarrow> t = ''static'' \<or> t = ''regex''"
  by (auto simp: flag_type_check_def)

lemma parse_flag_type_names [simp]:
  "parse_flag_type ''static'' = Inr TypeStatic" "parse_flag_type ''regex'' = Inr TypeRegex"
  by (simp_all add: parse_flag_type_def flag_type_names_def)

lemma parse_flag_rows_typed:
  "\<forall>r\<in>set rows. flag_type_check (fl_type r) \<Longrightarrow> parse_flag_rows rows = Inr (map flag_of rows)"
  by (induction rows) (auto simp: flag_type_cases lift_flags_def flag_of_def)

lemma game_flags: "get_challenge_flags (game s) i = admin_list_challenge_flags s i"
  by (simp add: get_challenge_flags_def admin_list_challenge_flags_def)

lemma set_listed_flags: "set (admin_list_challenge_flags s i) = {f \<in> set (flag_rows s). fl_challenge f = i}"
  by (simp add: admin_list_challenge_flags_def)

lemma get_challenge_sheet:
  assumes "studio_ok re s"
  shows "get_challenge (game s) i = Some ch \<longleftrightarrow>
    (\<exists>c. sheet s i = Some c \<and> cg_state c = ''visible'' \<and> ch = game_row c)"
proof
  assume g: "get_challenge (game s) i = Some ch"
  have "ch \<in> set (map game_row (sheets s))" "ch_id ch = i" "ch_state ch = ''visible''"
    using get_challenge_Some [OF g] by (simp_all only: game_tables)
  then obtain c where "c \<in> set (sheets s)" "ch = game_row c" "cg_id c = i" "cg_state c = ''visible''"
    by (auto simp: game_row_def)
  then show "\<exists>c. sheet s i = Some c \<and> cg_state c = ''visible'' \<and> ch = game_row c"
    using distinct_find_sheet [of s c] assms by (auto simp: studio_ok_def)
next
  assume "\<exists>c. sheet s i = Some c \<and> cg_state c = ''visible'' \<and> ch = game_row c"
  then obtain c where c: "c \<in> set (sheets s)" "cg_id c = i" "cg_state c = ''visible''" "ch = game_row c"
    using sheet_Some by blast
  have "distinct (map ch_id (challenges (game s)))"
    using assms by (simp add: studio_ok_def keys_ok_def comp_def)
  moreover have "ch \<in> set (challenges (game s))" using c(1,4) by simp
  moreover have "ch_id ch = i" "ch_state ch = ''visible''"
    using c(2-4) by (simp_all add: game_row_def)
  ultimately show "get_challenge (game s) i = Some ch"
    unfolding get_challenge_def by (intro find_distinct) simp_all
qed

lemma sheet_checks:
  assumes "studio_ok re s" "sheet s i = Some c"
  shows "cg_flag_mode c = ''static'' \<or> cg_flag_mode c = ''unique''"
    "cg_logic c = ''any'' \<or> cg_logic c = ''all''"
proof -
  have "broken_check c = None"
    using assms sheet_Some [OF assms(2)] by (simp add: studio_ok_def shapes_ok_def)
  then show "cg_flag_mode c = ''static'' \<or> cg_flag_mode c = ''unique''"
    "cg_logic c = ''any'' \<or> cg_logic c = ''all''"
    by (simp_all add: broken_check_None challenge_checks_def)
qed

lemma parse_modes [simp]:
  "parse_flag_mode ''static'' = Inr ModeStatic" "parse_flag_mode ''unique'' = Inr ModeUnique"
  by (simp_all add: parse_flag_mode_def flag_mode_names_def)

lemma parse_logics: "l = ''any'' \<or> l = ''all'' \<Longrightarrow> is_ok (parse_logic l)"
  by (auto simp: parse_logic_def logic_names_def)

text \<open>Whether a comparison answers, whatever is submitted.\<close>

definition comparable :: "regex \<Rightarrow> string \<Rightarrow> FlagRow list \<Rightarrow> bool" where
  "comparable re mode fs \<longleftrightarrow> mode = ''unique''
    \<or> fs \<noteq> [] \<and> (\<forall>f\<in>set fs. fl_type f = ''regex'' \<longrightarrow> re (pattern_of (flag_of f)) \<noteq> None)"

lemma check_static_answers:
  assumes ok: "studio_ok re s" and c: "sheet s i = Some c"
  shows "is_ok (check_static re (game s) (game_row c) p) \<longleftrightarrow>
    admin_list_challenge_flags s i \<noteq> []
    \<and> list_all (flag_evaluates re p) (map flag_of (admin_list_challenge_flags s i))"
proof -
  let ?fs = "admin_list_challenge_flags s i"
  have "parse_flag_rows ?fs = Inr (map flag_of ?fs)"
    using ok by (intro parse_flag_rows_typed) (simp add: set_listed_flags studio_ok_def shapes_ok_def)
  moreover obtain l where "parse_logic (cg_logic c) = Inr l"
    using parse_logics [OF sheet_checks(2) [OF ok c]] by (auto simp: is_ok_iff)
  moreover have "is_ok (lift_flags r) \<longleftrightarrow> is_ok r" for r :: "(flags_error, bool) result"
    by (cases r) (simp_all add: lift_flags_def)
  moreover have "is_ok (bind_result r (\<lambda>x. Inr (h x))) \<longleftrightarrow> is_ok r" for r :: "(gameplay_error, bool) result"
    and h :: "bool \<Rightarrow> match_result"
    by (cases r) simp_all
  moreover have "cg_id c = i" using sheet_Some [OF c] by simp
  ultimately show ?thesis
    by (simp add: check_static_def Let_def game_flags game_row_def lift_flags_def [of "Inr _"]
        match_folds_answer)
qed

lemma check_answers:
  assumes ok: "studio_ok re s" and c: "sheet s i = Some c"
  shows "is_ok (check re (game s) (game_row c) p)
    \<longleftrightarrow> comparable re (cg_flag_mode c) (admin_list_challenge_flags s i)"
proof -
  have "list_all (flag_evaluates re p) (map flag_of fs)
      \<longleftrightarrow> (\<forall>f\<in>set fs. fl_type f = ''regex'' \<longrightarrow> re (pattern_of (flag_of f)) \<noteq> None)" for fs
    by (auto simp: list_all_iff flag_evaluates_iff flag_of_def)
  then have st: "is_ok (check_static re (game s) (game_row c) p)
      \<longleftrightarrow> admin_list_challenge_flags s i \<noteq> []
        \<and> (\<forall>f\<in>set (admin_list_challenge_flags s i). fl_type f = ''regex''
            \<longrightarrow> re (pattern_of (flag_of f)) \<noteq> None)"
    by (simp add: check_static_answers [OF ok c])
  have "is_ok (check_unique d ch p)" for d ch
    by (simp add: check_unique_def split: option.split)
  moreover have "ch_flag_mode (game_row c) = cg_flag_mode c" by (simp add: game_row_def)
  ultimately show ?thesis
    using sheet_checks(1) [OF ok c] st
    by (auto simp: check_def comparable_def lift_flags_def)
qed

lemma gate_reads_documents:
  assumes ok: "studio_ok re s" and g: "get_challenge (game s) i = Some ch"
  shows "prereq_gate (game s) a ch \<noteq> Inl (ErrRequirements e)"
proof -
  obtain c where "sheet s i = Some c" "ch = game_row c"
    using g by (auto simp: get_challenge_sheet [OF ok])
  then have "is_ok (parse (ch_requirements ch))"
    using sheet_rules(2) [OF ok, THEN doc_ok_parse] by (auto simp: is_ok_iff game_row_def)
  then show ?thesis by (auto simp: prereq_gate_def is_ok_iff split: if_splits)
qed

subsection \<open>A sample catalogue\<close>

definition sample_new :: NewChallenge where
  "sample_new =
    \<lparr>nc_name = ''warmup'', nc_category = ''misc'', nc_description = '''', nc_attribution = None,
     nc_connection_info = None, nc_state = ''visible'', nc_value = 100, nc_function = ''static'',
     nc_initial = None, nc_minimum = None, nc_decay = None, nc_max_attempts = 0,
     nc_logic = ''any'', nc_position = 0, nc_first_blood = ''none'', nc_first_blood_bonus = None\<rparr>"

definition outcome :: "(author_error, 'a \<times> studio) result \<Rightarrow> studio" where
  "outcome r = snd (projr r)"

lemma outcome_Inr: "is_ok r \<Longrightarrow> r = Inr (fst (projr r), outcome r)"
  by (auto simp: is_ok_iff outcome_def)

definition sample_start :: studio where
  "sample_start = fresh_studio ''users'' [\<lparr>acc_id = 7, acc_hidden = False, acc_banned = False\<rparr>] []"

definition sample_one :: studio where
  "sample_one = outcome (create_challenge sample_start sample_new)"

definition sample_two :: studio where
  "sample_two = outcome (create_challenge sample_one sample_new)"

definition quote_engine :: regex where
  "quote_engine p = (if p = [CHR 0x5C] @ ''Qflag{x}'' then Some (\<lambda>x. x = ''flag{x}'') else None)"

definition sample_flagged :: studio where
  "sample_flagged = outcome (add_flag quote_engine sample_two 1 ''static'' ''flag{x}'' False)"

lemma sample_steps:
  "is_ok (create_challenge sample_start sample_new)" "is_ok (create_challenge sample_one sample_new)"
  "is_ok (add_flag quote_engine sample_two 1 ''static'' ''flag{x}'' False)"
  by code_simp+

lemma sample_history:
  "author_history ModeUsers quote_engine sample_start sample_two"
  "author_history ModeUsers quote_engine sample_start sample_flagged"
proof -
  have 1: "author_step ModeUsers quote_engine sample_start sample_one"
    unfolding sample_one_def by (rule create [OF outcome_Inr [OF sample_steps(1)]])
  have 2: "author_step ModeUsers quote_engine sample_one sample_two"
    unfolding sample_two_def by (rule create [OF outcome_Inr [OF sample_steps(2)]])
  have 3: "author_step ModeUsers quote_engine sample_two sample_flagged"
    unfolding sample_flagged_def by (rule new_flag [OF outcome_Inr [OF sample_steps(3)]])
  show "author_history ModeUsers quote_engine sample_start sample_two" using 1 2 by simp
  then show "author_history ModeUsers quote_engine sample_start sample_flagged" using 3 by simp
qed

subsection \<open>Properties\<close>

text \<open>
  C7: After any history of authoring and play that began with an empty catalogue, a visible
  challenge can be played: its requirements document parses, so the prerequisite gate only ever
  refuses for the reason it names, and its flags can be compared, whatever is submitted, exactly
  when it hands out unique flags, or has flags at all and the engine compiles the anchored form of
  each of its patterns. No unique-flag challenge has a pattern or combines its flags, every
  challenge has the type its scoring function says, and no solve, attempt, award, unlock or issued
  flag has lost the challenge, hint or instance it is about.
\<close>

theorem authored_challenges_playable:
  assumes "author_history mode re (fresh_studio um us ts) s"
  shows "(\<forall>i ch. get_challenge (game s) i = Some ch \<longrightarrow>
      (\<forall>a e. prereq_gate (game s) a ch \<noteq> Inl (ErrRequirements e))
      \<and> (\<forall>p. is_ok (check re (game s) ch p)
          \<longleftrightarrow> comparable re (ch_flag_mode ch) (get_challenge_flags (game s) i)))
    \<and> (\<forall>c\<in>set (sheets s). cg_type c = challenge_type (cg_function c)
        \<and> (cg_flag_mode c = ''unique'' \<longrightarrow> cg_logic c \<noteq> ''all''
            \<and> (\<forall>f\<in>set (flag_rows s). fl_challenge f = cg_id c \<longrightarrow> fl_type f \<noteq> ''regex'')))
    \<and> ledger_refs s"
proof -
  have ok: "studio_ok re s" by (rule reachable_ok [OF assms])
  have "(\<forall>a e. prereq_gate (game s) a ch \<noteq> Inl (ErrRequirements e))
      \<and> (\<forall>p. is_ok (check re (game s) ch p)
          \<longleftrightarrow> comparable re (ch_flag_mode ch) (get_challenge_flags (game s) i))"
    if g: "get_challenge (game s) i = Some ch" for i ch
  proof -
    obtain c where c: "sheet s i = Some c" "ch = game_row c"
      using g by (auto simp: get_challenge_sheet [OF ok])
    moreover have "ch_flag_mode ch = cg_flag_mode c" by (simp add: c(2) game_row_def)
    ultimately show ?thesis
      using check_answers [OF ok c(1)] gate_reads_documents [OF ok g] by (simp add: game_flags)
  qed
  then show ?thesis using ok by (auto simp: studio_ok_def rules_ok_def)
qed

theorem authored_challenges_playable_witness:
  "is_ok (check quote_engine (game sample_flagged)
      (game_row (the (sheet sample_flagged 1))) ''anything'')"
proof -
  have "get_challenge (game sample_flagged) 1 = Some (game_row (the (sheet sample_flagged 1)))"
    and "comparable quote_engine (ch_flag_mode (game_row (the (sheet sample_flagged 1))))
      (get_challenge_flags (game sample_flagged) 1)"
    by code_simp+
  then show ?thesis
    using authored_challenges_playable [OF sample_history(2) [unfolded sample_start_def]] by blast
qed

text \<open>
  C10: The check of a new pattern and the comparison of a submission compile different texts. When
  the engine takes the content alone but not in its anchored group (an unclosed \<open>\Q\<close> quotes the
  closing parenthesis), AddFlag stores the pattern on a static challenge, and from then on every
  submission to that challenge fails, whoever sends it and whatever it says. The check of the
  domain package, which the importer runs, refuses the same flag.
\<close>

theorem accepted_pattern_breaks_submissions:
  assumes "studio_ok re s" "get_challenge (game s) i = Some ch" "ch_flag_mode ch = ''static''"
    and "re content \<noteq> None"
    and "re (pattern_of \<lparr>f_type = TypeRegex, f_content = content, f_case_insensitive = ci\<rparr>) = None"
  shows "\<exists>f s'. add_flag re s i ''regex'' content ci = Inr (f, s')
    \<and> (\<forall>mode now inp. si_challenge inp = i \<longrightarrow> \<not> is_ok (submit mode re now (game s') inp))
    \<and> \<not> is_ok (validate_flag re \<lparr>f_type = TypeRegex, f_content = content, f_case_insensitive = ci\<rparr>)"
proof -
  let ?flag = "\<lparr>f_type = TypeRegex, f_content = content, f_case_insensitive = ci\<rparr>"
  obtain c where c: "sheet s i = Some c" "cg_flag_mode c = ''static''"
    using assms(2,3) by (auto simp: get_challenge_sheet [OF assms(1)] game_row_def)
  define f where "f = \<lparr>fl_id = next_flag s, fl_challenge = i, fl_type = ''regex'',
      fl_content = content, fl_case_insensitive = ci\<rparr>"
  define s' where "s' = s\<lparr>flag_rows := flag_rows s @ [f], next_flag := next_flag s + 1\<rparr>"
  have add: "add_flag re s i ''regex'' content ci = Inr (f, s')"
    using c assms(4)
    by (auto simp: add_flag_def admin_get_challenge_def one_row_def validate_new_flag_def
        admin_insert_flag_def flag_type_check_def on_error_def f_def s'_def Let_def)
  have ok: "studio_ok re s'" by (rule add_flag_ok [OF assms(1) add])
  have same: "sheet s' j = sheet s j" for j by (simp add: sheet_def s'_def)
  have "f \<in> set (admin_list_challenge_flags s' i)" "flag_of f = ?flag"
    by (simp_all add: set_listed_flags s'_def f_def flag_of_def)
  then have bad: "\<not> is_ok (check re (game s') (game_row c) p)" for p
    using check_answers [OF ok, of i c p] c same assms(5) by (auto simp: comparable_def f_def)
  have "\<not> is_ok (submit mode re now (game s') inp)" if "si_challenge inp = i" for mode now inp
  proof
    assume "is_ok (submit mode re now (game s') inp)"
    then obtain acct ch' m where "submit_open mode (game s') inp = Inr (acct, ch')"
      "submit_check re (game s') inp ch' = Inr m"
      by (auto simp: is_ok_iff submit_Inr_iff)
    then have "get_challenge (game s') i = Some ch'" "is_ok (check re (game s') ch' (si_provided inp))"
      using that by (auto simp: submit_open_Inr submit_check_Inr)
    then show False using bad c(1) by (auto simp: get_challenge_sheet [OF ok] same)
  qed
  moreover have "\<not> is_ok (validate_flag re ?flag)"
    using assms(5) by (auto simp: validate_flag_def compile_def)
  ultimately show ?thesis using add by blast
qed

theorem accepted_pattern_breaks_submissions_witness:
  "\<exists>f s'. add_flag quote_engine sample_flagged 1 ''regex'' ([CHR 0x5C] @ ''Qflag{x}'') False = Inr (f, s')
    \<and> (\<forall>mode now inp. si_challenge inp = 1 \<longrightarrow> \<not> is_ok (submit mode quote_engine now (game s') inp))
    \<and> \<not> is_ok (validate_flag quote_engine
        \<lparr>f_type = TypeRegex, f_content = [CHR 0x5C] @ ''Qflag{x}'', f_case_insensitive = False\<rparr>)"
proof (rule accepted_pattern_breaks_submissions)
  show "studio_ok quote_engine sample_flagged"
    by (rule reachable_ok [OF sample_history(2) [unfolded sample_start_def]])
  show "get_challenge (game sample_flagged) 1 = Some (game_row (the (sheet sample_flagged 1)))"
    "ch_flag_mode (game_row (the (sheet sample_flagged 1))) = ''static''"
    by code_simp+
qed (simp_all add: quote_engine_def pattern_of_def)

subsection \<open>Deleted challenges\<close>

lemma update_sheet_known:
  assumes "update_sheet s i f = Inr (Some (c, s'))" "\<And>c. cg_id (f c) = cg_id c"
  shows "known s' = known s" "next_challenge s' = next_challenge s"
proof -
  have s': "s' = s\<lparr>sheets := map (\<lambda>r. if cg_id r = i then f r else r) (sheets s)\<rparr>"
    using assms(1) by (auto simp: update_sheet_Inr)
  then have "map cg_id (sheets s') = map cg_id (sheets s)" by (simp add: assms(2))
  then show "known s' = known s" by (simp add: known_def flip: set_map)
  show "next_challenge s' = next_challenge s" by (simp add: s')
qed

text \<open>An id that was given out and is no longer there never comes back.\<close>

definition gone :: "id \<Rightarrow> studio \<Rightarrow> bool" where
  "gone i s \<longleftrightarrow> i < next_challenge s \<and> i \<notin> known s"

definition ids_forward :: "studio \<Rightarrow> studio \<Rightarrow> bool" where
  "ids_forward s s' \<longleftrightarrow> next_challenge s \<le> next_challenge s'
    \<and> known s' \<subseteq> known s \<union> {i. next_challenge s \<le> i}"

lemma known_below: "studio_ok re s \<Longrightarrow> i \<in> known s \<Longrightarrow> i < next_challenge s"
  by (auto simp: known_def studio_ok_def keys_ok_def)

lemma ids_forward_refl [simp]: "ids_forward s s"
  by (simp add: ids_forward_def)

lemma gone_forward: "ids_forward s s' \<Longrightarrow> gone i s \<Longrightarrow> gone i s'"
  by (auto simp: ids_forward_def gone_def)

lemma same_sheets_forward:
  "sheets s' = sheets s \<Longrightarrow> next_challenge s' = next_challenge s \<Longrightarrow> ids_forward s s'"
  by (simp add: ids_forward_def known_def)

lemma update_forward:
  "update_sheet s i f = Inr (Some (c, s')) \<Longrightarrow> (\<And>c. cg_id (f c) = cg_id c) \<Longrightarrow> ids_forward s s'"
  using update_sheet_known [of s i f c s'] by (simp add: ids_forward_def)

text \<open>The operations that leave the challenges themselves alone.\<close>

definition keeps_sheets :: "studio \<Rightarrow> studio \<Rightarrow> bool" where
  "keeps_sheets s s' \<longleftrightarrow> sheets s' = sheets s \<and> next_challenge s' = next_challenge s"

lemma flag_ops_keep:
  "add_flag re s i typ content ci = Inr (f, s') \<Longrightarrow> keeps_sheets s s'"
  "update_flag re s i flag fp = Inr (f, s') \<Longrightarrow> keeps_sheets s s'"
  "delete_flag s i flag = Inr s' \<Longrightarrow> keeps_sheets s s'"
  by (auto simp: keeps_sheets_def add_flag_def update_flag_def delete_flag_def bind_result_Inr_iff
      admin_insert_flag_def admin_update_flag_def admin_delete_flag_def Let_def
      split: if_splits option.splits)

lemma hint_ops_keep:
  "add_hint s i n = Inr (h, s') \<Longrightarrow> keeps_sheets s s'"
  "update_hint s i hint hp = Inr (h, s') \<Longrightarrow> keeps_sheets s s'"
  "delete_hint s i hint = Inr s' \<Longrightarrow> keeps_sheets s s'"
  by (auto simp: keeps_sheets_def add_hint_def update_hint_def delete_hint_def bind_result_Inr_iff
      admin_insert_hint_def admin_update_hint_def admin_delete_hint_def Let_def
      split: if_splits option.splits sum.splits pg_error.splits)

lemma pool_ops_keep:
  assumes "replace_pool s i ns = Inr (r, s')"
  shows "keeps_sheets s s'"
proof -
  obtain plan where "replace_pool_write s i ns plan = Inr (r, s')"
    using assms by (auto simp: replace_pool_def bind_result_Inr_iff)
  then show ?thesis
    by (cases plan) (auto simp: replace_pool_write_def bind_result_Inr_iff keeps_sheets_def
        dest: admin_insert_instances_Inr(2))
qed

lemma tag_ops_keep:
  "add_tag s i v = Inr (t, s') \<Longrightarrow> keeps_sheets s s'"
  "remove_tag s i v = Inr s' \<Longrightarrow> keeps_sheets s s'"
  "merge_tag s from to = Inr s' \<Longrightarrow> keeps_sheets s s'"
  "delete_tag s v force = Inr s' \<Longrightarrow> keeps_sheets s s'"
  by (auto simp: keeps_sheets_def add_tag_def admin_add_tag_def remove_tag_def admin_remove_tag_def
      delete_tag_def admin_delete_tag_def Let_def dest: merge_tag_Inr(2) split: if_splits)

lemma annotation_ops_keep:
  "set_annotation s i k v = Inr (kv, s') \<Longrightarrow> keeps_sheets s s'"
  "remove_annotation s i k = Inr s' \<Longrightarrow> keeps_sheets s s'"
  by (auto simp: keeps_sheets_def remove_annotation_def admin_remove_annotation_def
      dest: set_annotation_Inr(3) split: if_splits)

lemma keeps_forward: "keeps_sheets s s' \<Longrightarrow> ids_forward s s'"
  by (simp add: keeps_sheets_def ids_forward_def known_def)

lemma create_forward: "create_challenge s n = Inr (c, s') \<Longrightarrow> ids_forward s s'"
  by (auto simp: create_challenge_def admin_create_challenge_def created_row_def ids_forward_def
      known_def split: option.splits)

lemma sheet_writes:
  "update_challenge s i p = Inr (c, s')
    \<Longrightarrow> update_sheet s i (patch_challenge (map_option challenge_type (pc_function p)) p) = Inr (Some (c, s'))"
  "set_challenge_state s i st = Inr (c, s') \<Longrightarrow> update_sheet s i (\<lambda>c. c\<lparr>cg_state := st\<rparr>) = Inr (Some (c, s'))"
  "set_challenge_flag_mode s i m = Inr (c, s')
    \<Longrightarrow> s' = s \<or> update_sheet s i (\<lambda>c. c\<lparr>cg_flag_mode := m\<rparr>) = Inr (Some (c, s'))"
  "set_challenge_requirements s i cr = Inr (x, s') \<Longrightarrow> \<exists>c doc.
    update_sheet s i (\<lambda>c. c\<lparr>cg_requirements := doc\<rparr>) = Inr (Some (c, s'))"
  by (auto simp: update_challenge_def set_challenge_state_def set_challenge_flag_mode_def
      set_challenge_requirements_def Let_def bind_result_Inr_iff admin_update_challenge_def
      admin_set_challenge_state_def admin_set_challenge_flag_mode_def
      admin_set_challenge_requirements_def admin_challenge_flag_stats_def split: if_splits)

lemma author_step_forward: "author_step mode re s s' \<Longrightarrow> ids_forward s s'"
proof (induction rule: author_step.induct)
  case (update s i p c s')
  show ?case by (rule update_forward [OF sheet_writes(1) [OF update]]) (simp add: patch_challenge_def)
next
  case (set_mode s i m c s')
  show ?case using sheet_writes(3) [OF set_mode] by (auto intro: update_forward)
next
  case (set_state s i st c s')
  show ?case by (rule update_forward [OF sheet_writes(2) [OF set_state]]) simp
next
  case (requirements s i cr x s')
  show ?case using sheet_writes(4) [OF requirements(1)] by (auto intro: update_forward)
next
  case (delete s i s')
  show ?case
    using delete_challenge_Inr(2) [OF delete]
    by (auto simp: ids_forward_def drop_challenge_known frame)
next
  case (reorder s orders s')
  have "map cg_id (sheets s') = map cg_id (sheets s)" "next_challenge s' = next_challenge s"
    by (simp_all add: reorder_Inr [OF reorder] admin_reorder_challenges_def split: option.split)
  then show ?case by (simp add: ids_forward_def known_def flip: set_map)
next
  case (played cmd s out d)
  have "map cg_id (sheets (resume s d)) = map cg_id (sheets s)"
    by (rule resume_sheets(1) [OF game.exec_grows [OF played]]) simp
  then show ?case by (simp add: ids_forward_def known_def resume_def flip: set_map)
qed (rule create_forward keeps_forward [OF flag_ops_keep(1)] keeps_forward [OF flag_ops_keep(2)]
    keeps_forward [OF flag_ops_keep(3)] keeps_forward [OF hint_ops_keep(1)]
    keeps_forward [OF hint_ops_keep(2)] keeps_forward [OF hint_ops_keep(3)]
    keeps_forward [OF pool_ops_keep] keeps_forward [OF tag_ops_keep(1)]
    keeps_forward [OF tag_ops_keep(2)] keeps_forward [OF tag_ops_keep(3)]
    keeps_forward [OF tag_ops_keep(4)] keeps_forward [OF annotation_ops_keep(1)]
    keeps_forward [OF annotation_ops_keep(2)], assumption)+

lemma gone_stays: "author_history mode re s s' \<Longrightarrow> gone i s \<Longrightarrow> gone i s'"
  by (induction rule: rtranclp_induct) (auto dest: author_step_forward gone_forward)

definition sample_chained :: studio where
  "sample_chained = outcome (set_challenge_requirements sample_two 2
     \<lparr>cr_prerequisites = [1, 1], cr_visibility = Masked\<rparr>)"

lemma sample_chain: "author_history ModeUsers quote_engine sample_start sample_chained"
proof -
  have "is_ok (set_challenge_requirements sample_two 2 \<lparr>cr_prerequisites = [1, 1], cr_visibility = Masked\<rparr>)"
    by code_simp
  then have "author_step ModeUsers quote_engine sample_two sample_chained"
    unfolding sample_chained_def by (intro requirements [OF outcome_Inr]) simp_all
  then show ?thesis using sample_history(1) by simp
qed

definition sample_stranded :: studio where
  "sample_stranded = projr (delete_challenge sample_chained 1)"

text \<open>
  C9: Deleting a challenge strands the challenges that require it. Deletion looks at the ledger
  only, the requirements documents keep the id, and no id is ever given out twice: whatever history
  follows, while a visible challenge still names the deleted one no player, solver or not, gets
  past its prerequisite gate, so nobody can submit to it or buy its hints. Writing such a document
  afresh is refused.
\<close>

theorem deleted_prerequisite_strands:
  assumes "author_history mode re (fresh_studio um us ts) s" "delete_challenge s i = Inr s1"
    and "author_history mode re s1 s'"
    and "get_challenge (game s') j = Some ch" "parse (ch_requirements ch) = Inr reqs"
    and "i \<in> set (prerequisites reqs)"
  shows "(\<forall>a. prereq_gate (game s') a ch \<in> {Inl ErrChallengeLocked, Inl ErrChallengeNotFound})
    \<and> (\<forall>m now inp. si_challenge inp = j \<longrightarrow> \<not> is_ok (submit m re now (game s') inp))
    \<and> (\<forall>k cr. i \<in> set (cr_prerequisites cr) \<longrightarrow> \<not> is_ok (set_challenge_requirements s' k cr))"
proof -
  have ok: "studio_ok re s" by (rule reachable_ok [OF assms(1)])
  have ok': "studio_ok re s'" by (rule author_history_ok [OF assms(3) delete_ok [OF ok assms(2)]])
  have "gone i s1"
    using delete_challenge_Inr(1,2) [OF assms(2)] known_below [OF ok]
    by (simp add: gone_def drop_challenge_known frame)
  then have i: "i \<notin> known s'" using gone_stays [OF assms(3)] by (simp add: gone_def)
  then have "\<forall>v\<in>set (solves (game s')). sv_challenge v \<noteq> i"
    using ok' by (auto simp: studio_ok_def ledger_refs_def)
  then have unmet: "\<not> challenge_prereqs_met (game s') a reqs" for a
    using assms(6) by (auto simp: challenge_prereqs_met_iff)
  then have gate: "prereq_gate (game s') a ch \<in> {Inl ErrChallengeLocked, Inl ErrChallengeNotFound}" for a
    by (simp add: prereq_gate_def assms(5))
  moreover have "\<not> is_ok (submit m re now (game s') inp)" if "si_challenge inp = j" for m now inp
  proof
    assume "is_ok (submit m re now (game s') inp)"
    then obtain acct ch' where "submit_open m (game s') inp = Inr (acct, ch')"
      by (auto simp: is_ok_iff submit_Inr_iff)
    then show False using gate [of "si_actor inp"] that assms(4) by (auto simp: submit_open_Inr)
  qed
  moreover have "\<not> is_ok (set_challenge_requirements s' k cr)" if "i \<in> set (cr_prerequisites cr)" for k cr
  proof -
    have "i \<notin> set (admin_filter_challenge_ids s' (dedupe_ids (cr_prerequisites cr)))"
      using i by (auto simp: admin_filter_challenge_ids_def known_def)
    then have "missing_ids (dedupe_ids (cr_prerequisites cr))
        (admin_filter_challenge_ids s' (dedupe_ids (cr_prerequisites cr))) \<noteq> []"
      using that by (auto simp: missing_ids_Nil)
    moreover have "dedupe_ids (cr_prerequisites cr) \<noteq> []"
      using that dedupe_ids_facts(1) [of "cr_prerequisites cr"] by force
    ultimately show ?thesis by (simp add: set_challenge_requirements_def Let_def)
  qed
  ultimately show ?thesis by blast
qed

theorem deleted_prerequisite_strands_witness:
  "\<forall>a. prereq_gate (game sample_stranded) a (game_row (the (sheet sample_stranded 2)))
     \<in> {Inl ErrChallengeLocked, Inl ErrChallengeNotFound}"
proof -
  have "is_ok (delete_challenge sample_chained 1)" by code_simp
  then have "delete_challenge sample_chained 1 = Inr sample_stranded"
    by (auto simp: is_ok_iff sample_stranded_def)
  moreover have "get_challenge (game sample_stranded) 2 = Some (game_row (the (sheet sample_stranded 2)))"
    and "parse (ch_requirements (game_row (the (sheet sample_stranded 2))))
      = Inr \<lparr>prerequisites = [1], visibility = Masked\<rparr>"
    by code_simp+
  ultimately show ?thesis
    using deleted_prerequisite_strands [OF sample_chain [unfolded sample_start_def], of 1 sample_stranded sample_stranded 2]
    by simp
qed

end
