(* ===== verification/Pool_Uploads.thy ===== *)
theory Pool_Uploads
  imports Authoring_Properties
begin

section \<open>Uploads of unique flags and the rest of a challenge's material\<close>

text \<open>
  A pool upload is idempotent and, run alone, lands in a generation of its own; two uploads that
  overlap share one. Then the exact effect of writing prerequisites, and of the tag operations on
  the sets of tags the challenges carry.
\<close>

subsection \<open>Generations\<close>

lemma foldr_max_ge: "x \<in> set xs \<Longrightarrow> x \<le> foldr max xs (0::int)"
  by (induction xs) auto

lemma foldr_max_in: "foldr max xs (0::int) \<in> insert 0 (set xs)"
  by (induction xs) (auto simp: max_def)

lemma foldr_max_nonneg: "0 \<le> foldr max xs (0::int)"
  by (induction xs) auto

lemma newest_bound: "n \<in> set (pool s) \<Longrightarrow> in_challenge n = i \<Longrightarrow> in_generation n \<le> newest_generation s i"
  unfolding newest_generation_def by (intro foldr_max_ge) auto

lemma newest_eq:
  assumes "n \<in> set (pool s)" "in_challenge n = i" "in_generation n = g" "0 \<le> g"
    and "\<And>m. m \<in> set (pool s) \<Longrightarrow> in_challenge m = i \<Longrightarrow> in_generation m \<le> g"
  shows "newest_generation s i = g"
proof (rule antisym)
  have "newest_generation s i \<in> insert 0 (in_generation ` {m \<in> set (pool s). in_challenge m = i})"
    using foldr_max_in [of "map in_generation (filter (\<lambda>n. in_challenge n = i) (pool s))"]
    by (simp add: newest_generation_def)
  then show "newest_generation s i \<le> g" using assms(4,5) by auto
  show "g \<le> newest_generation s i" using newest_bound [OF assms(1,2)] assms(3) by simp
qed

lemma distinct_keyed: "distinct (map (\<lambda>h. (i, h, g)) hs) \<longleftrightarrow> distinct hs"
  by (simp add: distinct_map inj_on_def)

lemma newest_hashes_distinct:
  assumes "studio_ok re s"
  shows "distinct (admin_newest_pool_hashes s i)"
    "\<forall>h\<in>set (admin_newest_pool_hashes s i). length h = 32"
proof -
  let ?g = "newest_generation s i"
  let ?ns = "filter (\<lambda>n. in_challenge n = i \<and> in_generation n = ?g) (pool s)"
  have "distinct (map (\<lambda>n. (in_challenge n, in_hash n, in_generation n)) ?ns)"
    using assms by (intro distinct_map_sub) (simp add: studio_ok_def shapes_ok_def)
  moreover have "map (\<lambda>n. (in_challenge n, in_hash n, in_generation n)) ?ns
      = map (\<lambda>h. (i, h, ?g)) (map in_hash ?ns)" by auto
  ultimately have "distinct (map (\<lambda>h. (i, h, ?g)) (map in_hash ?ns))" by simp
  then show "distinct (admin_newest_pool_hashes s i)"
    unfolding admin_newest_pool_hashes_def distinct_keyed .
  show "\<forall>h\<in>set (admin_newest_pool_hashes s i). length h = 32"
    using assms by (auto simp: admin_newest_pool_hashes_def studio_ok_def shapes_ok_def)
qed

lemma upload_error_None:
  "upload_error k seen ns = None \<Longrightarrow> distinct (map ni_hash ns) \<and> ni_hash ` set ns \<inter> set seen = {}"
  by (induction k seen ns rule: upload_error.induct) (auto split: if_splits)

lemma same_hash_set_iff:
  assumes "distinct newest" "\<forall>h\<in>set newest. length h = 32" "distinct (map ni_hash ns)"
  shows "same_hash_set newest ns \<longleftrightarrow> set newest = ni_hash ` set ns"
proof -
  have n: "card (set newest) = length newest" using assms(1) by (rule distinct_card)
  have c: "card (ni_hash ` set ns) = length ns"
    using distinct_card [OF assms(3)] by simp
  have "length newest = length ns \<and> ni_hash ` set ns \<subseteq> set newest \<longleftrightarrow> set newest = ni_hash ` set ns"
    using n c by (metis List.finite_set card_subset_eq order_refl)
  then show ?thesis
    using assms(2) by (auto simp: same_hash_set_def list_all_iff)
qed

lemma instance_rows_hashes: "map in_hash (instance_rows base i g rows) = map fst rows"
  by (rule nth_equalityI) (simp_all add: instance_rows_def case_prod_beta)

lemma upload_hashes: "map fst (map upload_row ns) = map ni_hash ns"
  by (simp add: upload_row_def)

lemma artifacts_frame: "files s' = files s \<Longrightarrow> validate_artifacts s' i ns = validate_artifacts s i ns"
  by (simp add: validate_artifacts_def admin_filter_challenge_file_ids_def Let_def)

lemma artifacts_exist:
  assumes "validate_artifacts s i ns = Inr ()" "n \<in> set ns" "ni_artifact n = Some a"
  shows "\<exists>f\<in>set (files s). fi_id f = a"
proof -
  have "a \<in> set (List.map_filter ni_artifact ns)"
    using assms(2,3) by (force simp: List.map_filter_def)
  then have "a \<in> set (admin_filter_challenge_file_ids s (remdups (List.map_filter ni_artifact ns)) i)"
    using assms(1) by (auto simp: validate_artifacts_def Let_def filter_empty_conv split: if_splits)
  then show ?thesis by (auto simp: admin_filter_challenge_file_ids_def)
qed

lemma instance_rows_artifact:
  assumes "n \<in> set (instance_rows base i g (map upload_row ns))" "in_artifact n = Some a"
  shows "\<exists>m\<in>set ns. ni_artifact m = Some a"
proof -
  obtain k row where r: "(k, row) \<in> set (zip [0..<length ns] (map upload_row ns))"
    "in_artifact n = (if fst (snd row) = 0 then None else Some (fst (snd row)))"
    using assms(1) by (auto simp: instance_rows_def)
  then obtain m where "m \<in> set ns" "row = upload_row m" by (auto dest!: set_zip_rightD)
  then show ?thesis
    using r(2) assms(2) by (auto simp: upload_row_def coalesce_def split: if_splits option.splits)
qed

text \<open>The plan of an upload, and what the insert makes of it.\<close>

lemma read_plan:
  assumes "studio_ok re s" "replace_pool_read s i ns = Inr plan"
  shows "ns \<noteq> []" "distinct (map ni_hash ns)" "upload_error 0 [] ns = None"
    "validate_artifacts s i ns = Inr ()" "i \<in> known s"
    "\<exists>ws. plan = (if set (admin_newest_pool_hashes s i) = ni_hash ` set ns
       then KeepPool \<lparr>pr_generation = newest_generation s i, pr_inserted = 0,
              pr_idempotent = True, pr_warnings = ws\<rparr>
       else InsertPool (newest_generation s i + 1) ws)"
proof -
  show ne: "ns \<noteq> []" and up: "upload_error 0 [] ns = None" and "validate_artifacts s i ns = Inr ()"
    using assms(2) by (auto simp: replace_pool_read_def bind_result_Inr_iff split: if_splits option.splits)
  show "i \<in> known s" by (rule replace_pool_read_Inr [OF assms(2)])
  show d: "distinct (map ni_hash ns)" using upload_error_None [OF up] by simp
  note same = same_hash_set_iff [OF newest_hashes_distinct [OF assms(1)] d]
  show "\<exists>ws. plan = (if set (admin_newest_pool_hashes s i) = ni_hash ` set ns
       then KeepPool \<lparr>pr_generation = newest_generation s i, pr_inserted = 0,
              pr_idempotent = True, pr_warnings = ws\<rparr>
       else InsertPool (newest_generation s i + 1) ws)"
    using assms(2) ne up
    by (auto simp: replace_pool_read_def bind_result_Inr_iff same admin_next_pool_generation_def
        split: if_splits)
qed

lemma write_plan:
  assumes "replace_pool_write s i ns (InsertPool g ws) = Inr (r, s')"
  defines "new \<equiv> instance_rows (next_instance s) i g (map upload_row ns)"
  shows "r = \<lparr>pr_generation = g, pr_inserted = int (length ns), pr_idempotent = False, pr_warnings = ws\<rparr>"
    "s' = s\<lparr>pool := pool s @ new, next_instance := next_instance s + int (length ns)\<rparr>"
    "map in_hash new = map ni_hash ns"
    "\<And>n. n \<in> set new \<Longrightarrow> in_challenge n = i \<and> in_generation n = g \<and> next_instance s \<le> in_id n"
proof -
  obtain k where ins: "admin_insert_instances s i g (map upload_row ns) = Inr (k, s')"
    and r: "r = \<lparr>pr_generation = g, pr_inserted = k, pr_idempotent = False, pr_warnings = ws\<rparr>"
    using assms(1) by (auto simp: replace_pool_write_def bind_result_Inr_iff)
  show "r = \<lparr>pr_generation = g, pr_inserted = int (length ns), pr_idempotent = False, pr_warnings = ws\<rparr>"
    "s' = s\<lparr>pool := pool s @ new, next_instance := next_instance s + int (length ns)\<rparr>"
    using admin_insert_instances_Inr(1,2) [OF ins] r by (simp_all add: new_def)
  show "map in_hash new = map ni_hash ns"
    unfolding new_def instance_rows_hashes by (rule upload_hashes)
  show "\<And>n. n \<in> set new \<Longrightarrow> in_challenge n = i \<and> in_generation n = g \<and> next_instance s \<le> in_id n"
    using instance_rows_facts [of _ "next_instance s" i g "map upload_row ns"] by (auto simp: new_def)
qed

text \<open>After an insert into a generation above all others, that generation is the upload.\<close>

lemma fresh_generation:
  assumes p: "pool s' = pool s @ new" and ne: "new \<noteq> []"
    and new: "\<And>n. n \<in> set new \<Longrightarrow> in_challenge n = i \<and> in_generation n = newest_generation s i + 1"
  shows "newest_generation s' i = newest_generation s i + 1"
    "admin_newest_pool_hashes s' i = map in_hash new"
proof -
  let ?g = "newest_generation s i + 1"
  obtain n where n: "n \<in> set new" using ne by (cases new) auto
  have "0 \<le> ?g" using foldr_max_nonneg by (simp add: newest_generation_def add_increasing2)
  show g: "newest_generation s' i = ?g"
  proof (rule newest_eq)
    show "n \<in> set (pool s')" "in_challenge n = i" "in_generation n = ?g" using n new p by auto
    show "in_generation m \<le> ?g" if "m \<in> set (pool s')" "in_challenge m = i" for m
      using that newest_bound [of m s i] new [of m] by (auto simp: p)
  qed fact
  have "filter (\<lambda>n. in_challenge n = i \<and> in_generation n = ?g) (pool s) = []"
    using newest_bound [of _ s i] by (fastforce simp: filter_empty_conv)
  moreover have "filter (\<lambda>n. in_challenge n = i \<and> in_generation n = ?g) new = new"
    using new by simp
  ultimately show "admin_newest_pool_hashes s' i = map in_hash new"
    by (simp add: admin_newest_pool_hashes_def g p)
qed

subsection \<open>Sample uploads\<close>

definition digest :: "char \<Rightarrow> string" where
  "digest c = replicate 32 c"

definition entry :: "char \<Rightarrow> NewInstance" where
  "entry c = \<lparr>ni_hash = digest c, ni_artifact = None, ni_vars = None\<rparr>"

definition sample_uploaded :: studio where
  "sample_uploaded = outcome (replace_pool sample_two 1 [entry CHR ''a'', entry CHR ''b''])"

lemma sample_two_ok: "studio_ok quote_engine sample_two"
  by (rule reachable_ok [OF sample_history(1) [unfolded sample_start_def]])

lemma sample_upload: "is_ok (replace_pool sample_two 1 [entry CHR ''a'', entry CHR ''b''])"
  by code_simp

subsection \<open>Properties of uploads\<close>

text \<open>
  C8: An upload that answers does one of two things. If its digests are, as a set, those of the
  challenge's newest generation, nothing is written and that generation is reported. Otherwise the
  whole upload is appended as one generation above every earlier one, with fresh ids, and every
  instance already there stays as it is. Either way the same upload sent again changes nothing and
  is answered with the same generation.
\<close>

theorem pool_upload_exact:
  assumes ok: "studio_ok re s" and up: "replace_pool s i ns = Inr (r, s')"
  shows "(if set (admin_newest_pool_hashes s i) = ni_hash ` set ns
     then s' = s \<and> pr_idempotent r \<and> pr_inserted r = 0 \<and> pr_generation r = newest_generation s i
     else \<not> pr_idempotent r \<and> pr_inserted r = int (length ns)
       \<and> pr_generation r = newest_generation s i + 1
       \<and> (\<exists>new. pool s' = pool s @ new \<and> map in_hash new = map ni_hash ns
            \<and> (\<forall>n\<in>set new. in_challenge n = i \<and> in_generation n = pr_generation r
                  \<and> next_instance s \<le> in_id n)))
    \<and> (\<exists>r'. replace_pool s' i ns = Inr (r', s') \<and> pr_idempotent r' \<and> pr_generation r' = pr_generation r)"
proof -
  obtain plan where read: "replace_pool_read s i ns = Inr plan" and wr: "replace_pool_write s i ns plan = Inr (r, s')"
    using up by (auto simp: replace_pool_def bind_result_Inr_iff)
  note rp = read_plan [OF ok read]
  have ok': "studio_ok re s'" by (rule replace_pool_ok [OF ok up])
  have again: "\<exists>r'. replace_pool s' i ns = Inr (r', s') \<and> pr_idempotent r' \<and> pr_generation r' = pr_generation r"
    if hashes: "set (admin_newest_pool_hashes s' i) = ni_hash ` set ns"
      and gen: "newest_generation s' i = pr_generation r"
  proof -
    have "sheet s' = sheet s" "files s' = files s"
      using wr by (cases plan; auto simp: sheet_def [abs_def] replace_pool_write_def bind_result_Inr_iff
          dest!: admin_insert_instances_Inr(2))+
    moreover have "same_hash_set (admin_newest_pool_hashes s' i) ns"
      using same_hash_set_iff [OF newest_hashes_distinct [OF ok'] rp(2)] hashes by simp
    moreover obtain c where "sheet s i = Some c" using rp(5) by (auto simp: known_sheet)
    ultimately show ?thesis
      using rp(1,3) gen artifacts_frame [of s' s i ns] rp(4)
      by (simp add: replace_pool_def replace_pool_read_def replace_pool_write_def one_row_def
          admin_get_challenge_def admin_next_pool_generation_def)
  qed
  show ?thesis
  proof (cases "set (admin_newest_pool_hashes s i) = ni_hash ` set ns")
    case True
    then have "s' = s \<and> pr_idempotent r \<and> pr_inserted r = 0 \<and> pr_generation r = newest_generation s i"
      using rp(6) wr by (auto simp: replace_pool_write_def)
    then show ?thesis using again True by auto
  next
    case False
    then obtain ws where "replace_pool_write s i ns (InsertPool (newest_generation s i + 1) ws) = Inr (r, s')"
      using rp(6) wr by auto
    note w = write_plan [OF this]
    define new where "new = instance_rows (next_instance s) i (newest_generation s i + 1) (map upload_row ns)"
    note w = w [folded new_def]
    have "new \<noteq> []" using w(3) rp(1) by auto
    moreover have p: "pool s' = pool s @ new" using w(2) by simp
    ultimately have g: "newest_generation s' i = newest_generation s i + 1"
      "admin_newest_pool_hashes s' i = map in_hash new"
      using fresh_generation [of s' s new i] w(4) by auto
    then have "set (admin_newest_pool_hashes s' i) = ni_hash ` set ns"
      using arg_cong [OF w(3), of set] by simp
    then show ?thesis using again g(1) False w p by auto
  qed
qed

theorem pool_upload_exact_witness:
  "\<exists>r'. replace_pool sample_uploaded 1 [entry CHR ''a'', entry CHR ''b''] = Inr (r', sample_uploaded)
    \<and> pr_idempotent r'"
proof -
  have "replace_pool sample_two 1 [entry CHR ''a'', entry CHR ''b'']
      = Inr (fst (projr (replace_pool sample_two 1 [entry CHR ''a'', entry CHR ''b''])), sample_uploaded)"
    unfolding sample_uploaded_def by (rule outcome_Inr [OF sample_upload])
  from pool_upload_exact [OF sample_two_ok this] show ?thesis by blast
qed

text \<open>
  C11: Two uploads that overlap share a generation. When both have read the table before either
  writes, both settle on the same number, and as long as their digests are disjoint no constraint
  refuses the second: the newest generation then holds the two sets mixed, neither of the two
  uploads is recognised when it is pushed again, and players are issued from both.
\<close>

theorem overlapping_uploads_share_generation:
  assumes ok: "studio_ok re s"
    and ra: "replace_pool_read s i as = Inr (InsertPool g wa)"
    and rb: "replace_pool_read s i bs = Inr (InsertPool g' wb)"
    and wa: "replace_pool_write s i as (InsertPool g wa) = Inr (r, s1)"
    and disj: "ni_hash ` set as \<inter> ni_hash ` set bs = {}" and w32: "\<forall>n\<in>set bs. length (ni_hash n) = 32"
  shows "\<exists>r2 s2. replace_pool_write s1 i bs (InsertPool g' wb) = Inr (r2, s2)
    \<and> pr_generation r2 = pr_generation r
    \<and> set (admin_newest_pool_hashes s2 i) = ni_hash ` set as \<union> ni_hash ` set bs
    \<and> \<not> same_hash_set (admin_newest_pool_hashes s2 i) as
    \<and> \<not> same_hash_set (admin_newest_pool_hashes s2 i) bs"
proof -
  note pa = read_plan [OF ok ra] and pb = read_plan [OF ok rb]
  define G where "G = newest_generation s i + 1"
  have g: "g = G" "g' = G" using pa(6) pb(6) by (auto simp: G_def split: if_splits)
  note w = write_plan [OF wa, unfolded g]
  define A where "A = instance_rows (next_instance s) i G (map upload_row as)"
  define B where "B = instance_rows (next_instance s1) i G (map upload_row bs)"
  note w = w [folded A_def]
  have hb: "map in_hash B = map ni_hash bs"
    unfolding B_def instance_rows_hashes by (rule upload_hashes)
  have B: "in_challenge n = i \<and> in_generation n = G" if "n \<in> set B" for n
    using that instance_rows_facts [of n "next_instance s1" i G "map upload_row bs"] by (simp add: B_def)
  have none: "filter (\<lambda>n. in_challenge n = i \<and> in_generation n = G) (pool s) = []"
    using newest_bound [of _ s i] by (fastforce simp: filter_empty_conv G_def)
  have onlyA: "filter (\<lambda>n. in_challenge n = i \<and> in_generation n = G) (pool s1) = A"
    using none w(2,4) by simp
  have triple: "map (\<lambda>n. (in_challenge n, in_hash n, in_generation n)) xs = map (\<lambda>h. (i, h, G)) (map in_hash xs)"
    if "\<forall>n\<in>set xs. in_challenge n = i \<and> in_generation n = G" for xs
    using that by simp
  have "distinct (map in_hash (A @ B))"
    using pa(2) pb(2) disj w(3) hb by (metis distinct_append map_append set_map)
  then have "distinct (map (\<lambda>h. (i, h, G)) (map in_hash (A @ B)))"
    by (simp only: distinct_keyed)
  moreover have "map (\<lambda>n. (in_challenge n, in_hash n, in_generation n)) (A @ B)
      = map (\<lambda>h. (i, h, G)) (map in_hash (A @ B))"
    by (rule triple) (use w(4) B in auto)
  ultimately have dist: "distinct (map (\<lambda>n. (in_challenge n, in_hash n, in_generation n)) (A @ B))"
    by (simp only:)
  have "\<forall>h\<in>set (map in_hash B). length h = 32" using w32 unfolding hb by simp
  then have width: "\<not> list_ex (\<lambda>n. length (in_hash n) \<noteq> 32) B" by (simp add: list_ex_iff)
  have files: "files s1 = files s" by (simp add: w(2))
  have arts: "\<not> list_ex (\<lambda>n. case in_artifact n of None \<Rightarrow> False
      | Some a \<Rightarrow> \<not> list_ex (\<lambda>f. fi_id f = a) (files s1)) B"
    using instance_rows_artifact [of _ "next_instance s1" i G bs, folded B_def]
      artifacts_exist [OF pb(4)]
    by (fastforce simp: list_ex_iff files split: option.splits)
  define s2 where "s2 = s1\<lparr>pool := pool s1 @ B, next_instance := next_instance s1 + int (length B)\<rparr>"
  have "admin_insert_instances s1 i G (map upload_row bs) = Inr (int (length B), s2)"
    unfolding admin_insert_instances_def Let_def onlyA B_def [symmetric]
    using dist width arts by (simp add: s2_def)
  then obtain r2 where b: "replace_pool_write s1 i bs (InsertPool g' wb) = Inr (r2, s2)" "pr_generation r2 = G"
    by (simp add: replace_pool_write_def g(2) on_error_def)
  have "newest_generation s2 i = G"
  proof -
    obtain n where n: "n \<in> set A" using w(3) pa(1) by (cases A) auto
    show ?thesis
    proof (rule newest_eq)
      show "n \<in> set (pool s2)" "in_challenge n = i" "in_generation n = G"
        using n w(2) w(4) [OF n] by (auto simp: s2_def)
      show "0 \<le> G" using foldr_max_nonneg by (simp add: G_def newest_generation_def add_increasing2)
      show "in_generation m \<le> G" if "m \<in> set (pool s2)" "in_challenge m = i" for m
        using that newest_bound [of m s i] w(2) w(4) [of m] B [of m] by (auto simp: s2_def G_def)
    qed
  qed
  moreover have "filter (\<lambda>n. in_challenge n = i \<and> in_generation n = G) (pool s2) = A @ B"
    using onlyA B by (simp add: s2_def)
  ultimately have h: "admin_newest_pool_hashes s2 i = map ni_hash as @ map ni_hash bs"
    using w(3) hb by (simp add: admin_newest_pool_hashes_def)
  have "length (map ni_hash as @ map ni_hash bs) \<noteq> length as"
    "length (map ni_hash as @ map ni_hash bs) \<noteq> length bs"
    using pa(1) pb(1) by simp_all
  then show ?thesis
    using b w(1) h by (intro exI [of _ r2] exI [of _ s2]) (simp add: same_hash_set_def)
qed

theorem overlapping_uploads_share_generation_witness:
  "\<exists>r2 s2. replace_pool_write sample_uploaded 1 [entry CHR ''c'']
      (InsertPool 1 (pool_warnings ''static'')) = Inr (r2, s2)
    \<and> \<not> same_hash_set (admin_newest_pool_hashes s2 1) [entry CHR ''c'']"
proof -
  let ?as = "[entry CHR ''a'', entry CHR ''b'']" and ?bs = "[entry CHR ''c'']"
  have reads: "replace_pool_read sample_two 1 ?as = Inr (InsertPool 1 (pool_warnings ''static''))"
    "replace_pool_read sample_two 1 ?bs = Inr (InsertPool 1 (pool_warnings ''static''))"
    by code_simp+
  have "replace_pool_write sample_two 1 ?as (InsertPool 1 (pool_warnings ''static''))
      = Inr (fst (projr (replace_pool sample_two 1 ?as)), sample_uploaded)"
    using outcome_Inr [OF sample_upload] reads(1)
    by (simp add: replace_pool_def sample_uploaded_def)
  from overlapping_uploads_share_generation [OF sample_two_ok reads this]
  show ?thesis by (auto simp: entry_def digest_def)
qed

subsection \<open>Writing prerequisites\<close>

lemma dedupe_ids_Nil: "dedupe_ids ids = [] \<longleftrightarrow> ids = []"
  by (simp add: dedupe_ids_eq dedupe_Nil_iff)

text \<open>The prerequisite graph as the documents say it.\<close>

definition requires :: "studio \<Rightarrow> (id \<times> id) set" where
  "requires s = {(i, j). \<exists>c reqs. sheet s i = Some c \<and> parse (cg_requirements c) = Inr reqs
      \<and> j \<in> set (prerequisites reqs)}"

lemma requirement_edges_map:
  "requirement_edges rows = Inr g \<Longrightarrow>
    map_of g i = (case map_of rows i of None \<Rightarrow> None | Some r \<Rightarrow> Some (prerequisites (projr (parse r))))
    \<and> (\<forall>r. map_of rows i = Some r \<longrightarrow> is_ok (parse r))"
  by (induction rows arbitrary: g rule: requirement_edges.induct)
    (auto simp: bind_result_Inr_iff)

lemma requirement_edges_total: "\<forall>(i, r)\<in>set rows. is_ok (parse r) \<Longrightarrow> is_ok (requirement_edges rows)"
  by (induction rows rule: requirement_edges.induct) (auto simp: is_ok_iff bind_result_Inr_iff)

lemma listed_requirements: "map_of (admin_list_challenge_requirements s) i = map_option cg_requirements (sheet s i)"
proof -
  have "map_of (map (\<lambda>c. (cg_id c, cg_requirements c)) cs) i
      = map_option cg_requirements (find (\<lambda>c. cg_id c = i) cs)" for cs
    by (induction cs) simp_all
  then show ?thesis by (simp add: admin_list_challenge_requirements_def sheet_def)
qed

lemma edges_requires:
  assumes "requirement_edges (admin_list_challenge_requirements s) = Inr g"
  shows "edges g = requires s"
proof -
  have "j \<in> set (succs g i) \<longleftrightarrow> (i, j) \<in> requires s" for i j
    using requirement_edges_map [OF assms, of i]
    by (cases "sheet s i") (auto simp: succs_def requires_def listed_requirements is_ok_iff)
  then show ?thesis by (auto simp: edges_def)
qed

lemma updated_sheet:
  assumes "update_sheet s i f = Inr (Some (c, s'))" "\<And>c. cg_id (f c) = cg_id c"
  shows "sheet s' j = (if j = i then map_option f (sheet s j) else sheet s j)"
proof -
  have "find (\<lambda>c. cg_id c = j) (map (\<lambda>r. if cg_id r = i then f r else r) cs)
      = (if j = i then map_option f (find (\<lambda>c. cg_id c = j) cs) else find (\<lambda>c. cg_id c = j) cs)" for cs
    by (induction cs) (auto simp: assms(2))
  moreover have "sheets s' = map (\<lambda>r. if cg_id r = i then f r else r) (sheets s)"
    using assms(1) by (auto simp: update_sheet_Inr)
  ultimately show ?thesis by (simp only: sheet_def)
qed

definition sample_cyclic :: studio where
  "sample_cyclic = outcome (set_challenge_requirements sample_chained 1
     \<lparr>cr_prerequisites = [2], cr_visibility = Hidden\<rparr>)"

text \<open>
  Writing the prerequisites of a challenge. What is stored decodes to the requested ids, each
  once in their first order, and to the requested visibility; every one of them is an existing
  challenge and none is the challenge itself; no other challenge's document changes; and there is a
  warning exactly when the challenge now lies on a cycle of the graph all documents form together.
\<close>

theorem requirements_written_exactly:
  assumes "studio_ok re s" and set: "set_challenge_requirements s i cr = Inr ((c, ws), s')"
    and "list_all in_i64 (cr_prerequisites cr)" "cr_visibility cr \<in> {Hidden, Masked, Preview}"
  shows "sheet s' i = Some c
    \<and> parse (cg_requirements c) = Inr \<lparr>prerequisites = dedupe (cr_prerequisites cr), visibility = cr_visibility cr\<rparr>
    \<and> set (cr_prerequisites cr) \<subseteq> known s' - {i}
    \<and> (\<forall>j. j \<noteq> i \<longrightarrow> sheet s' j = sheet s j)
    \<and> (ws = [] \<longleftrightarrow> (i, i) \<notin> (requires s')\<^sup>+)"
proof -
  let ?reqs = "\<lparr>prerequisites = dedupe_ids (cr_prerequisites cr), visibility = cr_visibility cr\<rparr>"
  let ?f = "\<lambda>c. c\<lparr>cg_requirements := RawDoc (encode ?reqs)\<rparr>"
  have own: "i \<notin> set (cr_prerequisites cr)"
    and all: "set (cr_prerequisites cr) \<subseteq> known s"
    and upd: "update_sheet s i ?f = Inr (Some (c, s'))"
    and warn: "cycle_warnings s' i = Inr ws"
    using set
    by (auto simp: set_challenge_requirements_def Let_def bind_result_Inr_iff missing_ids_Nil
        admin_set_challenge_requirements_def admin_filter_challenge_ids_def known_def dedupe_ids_Nil
        split: if_splits)
  have k: "known s' = known s" by (rule update_sheet_known(1) [OF upd]) simp
  obtain c0 where c0: "sheet s i = Some c0" "c = ?f c0"
    using upd by (auto simp: update_sheet_Inr)
  have at: "sheet s' j = (if j = i then map_option ?f (sheet s j) else sheet s j)" for j
    by (rule updated_sheet [OF upd]) simp
  have "parse (cg_requirements c) = Inr ?reqs"
    using parse_encode [of ?reqs] assms(3,4) by (simp add: c0(2) list_all_iff)
  moreover have "ws = [] \<longleftrightarrow> (i, i) \<notin> (requires s')\<^sup>+"
  proof -
    obtain g where g: "requirement_edges (admin_list_challenge_requirements s') = Inr g"
      and ws: "ws = [] \<longleftrightarrow> find_cycle g i = None"
      using warn by (auto simp: cycle_warnings_def bind_result_Inr_iff split: option.splits)
    show ?thesis using ws find_cycle_spec [of g i] edges_requires [OF g] by simp
  qed
  ultimately show ?thesis
    using own all k at c0 by (auto simp: dedupe_ids_eq)
qed

theorem requirements_written_exactly_witness:
  "(1, 1) \<in> (requires sample_cyclic)\<^sup>+"
proof -
  have ok: "studio_ok quote_engine sample_chained"
    by (rule reachable_ok [OF sample_chain [unfolded sample_start_def]])
  have written: "is_ok (set_challenge_requirements sample_chained 1
      \<lparr>cr_prerequisites = [2], cr_visibility = Hidden\<rparr>)"
    and ws: "snd (fst (projr (set_challenge_requirements sample_chained 1
       \<lparr>cr_prerequisites = [2], cr_visibility = Hidden\<rparr>))) \<noteq> []"
    by code_simp+
  obtain c where "set_challenge_requirements sample_chained 1 \<lparr>cr_prerequisites = [2], cr_visibility = Hidden\<rparr>
      = Inr ((c, snd (fst (projr (set_challenge_requirements sample_chained 1
          \<lparr>cr_prerequisites = [2], cr_visibility = Hidden\<rparr>)))), sample_cyclic)"
    using outcome_Inr [OF written, folded sample_cyclic_def] by (metis prod.collapse)
  from requirements_written_exactly [OF ok this] ws show ?thesis by simp
qed

subsection \<open>Tags as sets\<close>

text \<open>The contract of the tags: a set of values per challenge.\<close>

definition tags_of :: "studio \<Rightarrow> id \<Rightarrow> string set" where
  "tags_of s i = {v. \<exists>t\<in>set (tag_rows s). tagged i v t}"

lemma tagged_simps [simp]: "tagged i v t \<longleftrightarrow> tg_challenge t = i \<and> tg_value t = v"
  by (simp add: tagged_def)

lemma tags_ofI: "t \<in> set (tag_rows s) \<Longrightarrow> tg_challenge t = i \<Longrightarrow> tg_value t = v \<Longrightarrow> v \<in> tags_of s i"
  by (auto simp: tags_of_def)

lemma merged_tags:
  assumes "merge_tag s from to = Inr s'"
  shows "tags_of s' i = (\<lambda>v. if v = from then to else v) ` tags_of s i"
proof (rule set_eqI)
  fix v
  note m = merge_tag_Inr [OF assms]
  have kept: "t \<in> set (tag_rows s) \<and> \<not> collides s from to t \<Longrightarrow> retag from to t \<in> set (tag_rows s')" for t
    by (simp add: m(2))
  show "v \<in> tags_of s' i \<longleftrightarrow> v \<in> (\<lambda>v. if v = from then to else v) ` tags_of s i"
  proof
    assume "v \<in> tags_of s' i"
    then obtain t where "t \<in> set (tag_rows s)" "tg_challenge (retag from to t) = i" "tg_value (retag from to t) = v"
      by (auto simp: tags_of_def m(2))
    then have "tg_value t \<in> tags_of s i" "v = (if tg_value t = from then to else tg_value t)"
      by (auto simp: tags_of_def retag_def)
    then show "v \<in> (\<lambda>v. if v = from then to else v) ` tags_of s i" by blast
  next
    assume "v \<in> (\<lambda>v. if v = from then to else v) ` tags_of s i"
    then obtain t where t: "t \<in> set (tag_rows s)" "tg_challenge t = i"
      "v = (if tg_value t = from then to else tg_value t)"
      by (auto simp: tags_of_def)
    show "v \<in> tags_of s' i"
    proof (cases "collides s from to t")
      case False
      then have "retag from to t \<in> set (tag_rows s')" using kept t(1) by blast
      then show ?thesis by (rule tags_ofI) (use t(2,3) in \<open>simp_all add: retag_def\<close>)
    next
      case True
      then obtain w where w: "w \<in> set (tag_rows s)" "tg_challenge w = i" "tg_value w = to" "tg_value t = from"
        using t(2) by (auto simp: collides_def list_ex_iff)
      then have "\<not> collides s from to w" using m(1) by (simp add: collides_def)
      then have "retag from to w \<in> set (tag_rows s')" using kept w(1) by blast
      then show ?thesis by (rule tags_ofI) (use w t(3) m(1) in \<open>simp_all add: retag_def\<close>)
    qed
  qed
qed

text \<open>
  Dropping the rows that would collide first is what keeps the renaming off the unique key.
\<close>

lemma merge_tag_answers:
  assumes "studio_ok re s"
  shows "is_ok (merge_tag s from to) \<longleftrightarrow> from \<noteq> to \<and> to \<noteq> [] \<and> from \<in> tg_value ` set (tag_rows s)"
proof
  assume "is_ok (merge_tag s from to)"
  then obtain s' where m: "merge_tag s from to = Inr s'" by (auto simp: is_ok_iff)
  then have "to \<noteq> []" by (auto simp: merge_tag_def split: if_splits)
  then show "from \<noteq> to \<and> to \<noteq> [] \<and> from \<in> tg_value ` set (tag_rows s)"
    using merge_tag_Inr(1) [OF m] merge_tag_used [OF m] by simp
next
  assume a: "from \<noteq> to \<and> to \<noteq> [] \<and> from \<in> tg_value ` set (tag_rows s)"
  let ?key = "\<lambda>t. (tg_challenge t, tg_value t)"
  let ?kept = "filter (\<lambda>t. \<not> collides s from to t) (tag_rows s)"
  let ?new = "map (\<lambda>t. if tg_value t = from then t\<lparr>tg_value := to\<rparr> else t) ?kept"
  have d: "distinct (map ?key (tag_rows s))" using assms by (simp add: studio_ok_def shapes_ok_def)
  have "inj_on (\<lambda>t. ?key (if tg_value t = from then t\<lparr>tg_value := to\<rparr> else t)) (set ?kept)"
  proof (rule inj_onI)
    fix t u
    assume tu: "t \<in> set ?kept" "u \<in> set ?kept"
      and eq: "?key (if tg_value t = from then t\<lparr>tg_value := to\<rparr> else t)
        = ?key (if tg_value u = from then u\<lparr>tg_value := to\<rparr> else u)"
    have no: "\<not> (tg_value x = from \<and> tg_value y = to \<and> tg_challenge x = tg_challenge y)"
      if "x \<in> set ?kept" "y \<in> set ?kept" for x y
      using that by (auto simp: collides_def list_ex_iff)
    have "?key t = ?key u" using eq no [OF tu] no [OF tu(2,1)] by (auto split: if_splits)
    then show "t = u" using distinct_map_eqD [OF d] tu by simp
  qed
  moreover have "distinct ?kept" using d by (simp add: distinct_map)
  ultimately have "distinct (map ?key ?new)" by (simp add: distinct_map comp_def)
  moreover have "filter (collides s from to) (tag_rows s) \<noteq> []
      \<or> filter (\<lambda>t. tg_value t = from) ?kept \<noteq> []"
    using a by (auto simp: filter_empty_conv)
  then have "int (length (filter (collides s from to) (tag_rows s)))
      + int (length (filter (\<lambda>t. tg_value t = from) ?kept)) \<noteq> 0"
    by (metis add_nonneg_eq_0_iff length_0_conv of_nat_0_le_iff of_nat_eq_0_iff)
  ultimately show "is_ok (merge_tag s from to)"
    using a by (auto simp: merge_tag_def admin_merge_tag_collisions_def admin_rename_tag_def
        Let_def on_error_def admin_count_tag_uses_def simp del: filter_filter)
qed

text \<open>
  C12: The tag table implements a set of values per challenge. Attaching adds one value to one
  challenge that does not carry it; detaching takes one off; deleting a value takes it off every
  challenge; merging maps the source to the destination everywhere, on challenges that carried both
  as on those that carried one, and never fails on the unique key. None of them touches another
  challenge's set, and each refuses exactly when there was nothing to do.
\<close>

theorem tags_refine_sets:
  assumes "studio_ok re s"
  shows "(\<forall>i v t s'. add_tag s i v = Inr (t, s')
      \<longrightarrow> v \<notin> tags_of s i \<and> tags_of s' = (tags_of s)(i := insert v (tags_of s i)))
    \<and> (\<forall>i v s'. remove_tag s i v = Inr s'
      \<longrightarrow> v \<in> tags_of s i \<and> tags_of s' = (tags_of s)(i := tags_of s i - {v}))
    \<and> (\<forall>v force s'. delete_tag s v force = Inr s'
      \<longrightarrow> force \<and> (\<exists>i. v \<in> tags_of s i) \<and> tags_of s' = (\<lambda>i. tags_of s i - {v}))
    \<and> (\<forall>src dst. is_ok (merge_tag s src dst)
      \<longleftrightarrow> src \<noteq> dst \<and> dst \<noteq> [] \<and> (\<exists>i. src \<in> tags_of s i))
    \<and> (\<forall>src dst s'. merge_tag s src dst = Inr s'
      \<longrightarrow> tags_of s' = (\<lambda>i. (\<lambda>v. if v = src then dst else v) ` tags_of s i))"
proof (intro conjI allI impI)
  fix i v t s'
  assume add: "add_tag s i v = Inr (t, s')"
  have rows: "tag_rows s' = tag_rows s @ [t]" "tg_challenge t = i" "tg_value t = v"
    "\<not> list_ex (tagged i v) (tag_rows s)"
    using add by (auto simp: add_tag_def admin_add_tag_def Let_def split: if_splits)
  then have at: "tags_of s' j = (if j = i then insert v (tags_of s j) else tags_of s j)" for j
    by (auto simp: tags_of_def)
  show "v \<notin> tags_of s i" using rows(4) by (auto simp: tags_of_def list_ex_iff)
  show "tags_of s' = (tags_of s)(i := insert v (tags_of s i))" by (rule ext) (simp add: at)
next
  fix i v s'
  assume "remove_tag s i v = Inr s'"
  then have rows: "tag_rows s' = filter (\<lambda>t. \<not> tagged i v t) (tag_rows s)"
    "filter (tagged i v) (tag_rows s) \<noteq> []"
    by (auto simp: remove_tag_def admin_remove_tag_def split: if_splits)
  have at: "tags_of s' j = (if j = i then tags_of s j - {v} else tags_of s j)" for j
    by (auto simp: tags_of_def rows(1))
  show "v \<in> tags_of s i" using rows(2) by (auto simp: tags_of_def filter_empty_conv)
  show "tags_of s' = (tags_of s)(i := tags_of s i - {v})" by (rule ext) (simp add: at)
next
  fix v force s'
  assume "delete_tag s v force = Inr s'"
  then have rows: "tag_rows s' = filter (\<lambda>t. tg_value t \<noteq> v) (tag_rows s)" "force"
    "filter (\<lambda>t. tg_value t = v) (tag_rows s) \<noteq> []"
    by (auto simp: delete_tag_def admin_delete_tag_def admin_count_tag_uses_def Let_def split: if_splits)
  show "force" by fact
  show "\<exists>i. v \<in> tags_of s i" using rows(3) by (auto simp: tags_of_def filter_empty_conv)
  show "tags_of s' = (\<lambda>i. tags_of s i - {v})" by (rule ext) (auto simp: tags_of_def rows(1))
next
  fix src dst
  show "is_ok (merge_tag s src dst) \<longleftrightarrow> src \<noteq> dst \<and> dst \<noteq> [] \<and> (\<exists>i. src \<in> tags_of s i)"
    using merge_tag_answers [OF assms, of src dst] by (auto simp: tags_of_def)
next
  fix src dst s'
  assume "merge_tag s src dst = Inr s'"
  then show "tags_of s' = (\<lambda>i. (\<lambda>v. if v = src then dst else v) ` tags_of s i)"
    by (intro ext merged_tags)
qed

theorem tags_refine_sets_witness:
  "tags_of (projr (merge_tag (outcome (add_tag sample_two 1 ''old'')) ''old'' ''new'')) 1 = {''new''}"
proof -
  let ?s = "outcome (add_tag sample_two 1 ''old'')"
  have add: "is_ok (add_tag sample_two 1 ''old'')" and "is_ok (merge_tag ?s ''old'' ''new'')"
    and rows: "map tg_value (tag_rows sample_two) = []"
    by code_simp+
  then have m: "merge_tag ?s ''old'' ''new'' = Inr (projr (merge_tag ?s ''old'' ''new''))"
    by (auto simp: is_ok_iff)
  note added = outcome_Inr [OF add]
  have "tags_of ?s = (tags_of sample_two)(1 := insert ''old'' (tags_of sample_two 1))"
    using tags_refine_sets [OF sample_two_ok, THEN conjunct1, rule_format, OF added] by (rule conjunct2)
  moreover have "tags_of sample_two 1 = {}" using rows by (simp add: tags_of_def)
  ultimately have "tags_of ?s 1 = {''old''}" by simp
  moreover have "tags_of (projr (merge_tag ?s ''old'' ''new''))
      = (\<lambda>i. (\<lambda>v. if v = ''old'' then ''new'' else v) ` tags_of ?s i)"
    by (rule tags_refine_sets [OF add_tag_ok [OF sample_two_ok added], THEN conjunct2, THEN conjunct2,
          THEN conjunct2, THEN conjunct2, rule_format, OF m])
  ultimately show ?thesis by simp
qed

end
