(* ===== verification/Scoreboard.thy ===== *)
theory Scoreboard
  imports Teams Standings Freeze_Redact
begin

section \<open>The scoreboard (internal/board and its handlers)\<close>

text \<open>
  The queries of \<open>scoreboard.sql\<close> and \<open>score_history.sql\<close>, the service that calls them and the two
  handlers that decide up to which instant a viewer may look. The ledger is the game store of a
  directory; names, divisions and visibility come from its account tables. A score is a sum of
  \<open>int4\<close> columns in a \<open>bigint\<close>, which no table of fewer than 2^32 rows can leave, so it is a
  plain sum here.
\<close>

subsection \<open>The scoring CTE\<close>

text \<open>The mode decides which column of a ledger row is the account's; a NULL scores for nobody.\<close>

definition account_column :: "string \<Rightarrow> id \<Rightarrow> id option \<Rightarrow> id option" where
  "account_column mode user team = (if mode = ''teams'' then team else Some user)"

definition scored :: "string \<Rightarrow> time option \<Rightarrow> id \<Rightarrow> id option \<Rightarrow> int \<Rightarrow> time \<Rightarrow> Event list" where
  "scored mode cutoff user team v date =
    (case account_column mode user team of
       None \<Rightarrow> []
     | Some a \<Rightarrow>
         if v \<noteq> 0 \<and> before_cutoff cutoff date
         then [\<lparr>ev_account = a, ev_value = v, ev_at = date\<rparr>] else [])"

definition scoring :: "string \<Rightarrow> time option \<Rightarrow> db \<Rightarrow> Event list" where
  "scoring mode cutoff l =
    concat (map (\<lambda>s. scored mode cutoff (sv_user s) (sv_team s) (sv_value s) (sv_date s)) (solves l))
    @ concat (map (\<lambda>a. scored mode cutoff (aw_user a) (aw_team a) (aw_value a) (aw_date a)) (awards l))"

definition sumscores :: "Event list \<Rightarrow> Entry list" where
  "sumscores evs =
    map (\<lambda>a. Entry a (sum_list (map ev_value (filter (\<lambda>e. ev_account e = a) evs)))
               (Max (set (map ev_at (filter (\<lambda>e. ev_account e = a) evs)))))
      (remdups (map ev_account evs))"

subsection \<open>The boards\<close>

record BoardEntry =
  be_account :: id
  be_name :: string
  be_bracket :: "id option"
  be_bracket_name :: "string option"
  be_score :: int
  be_last :: time
  be_hidden :: bool
  be_banned :: bool

definition bracket_name :: "directory \<Rightarrow> id option \<Rightarrow> string option" where
  "bracket_name d b = map_option bk_name (find (\<lambda>r. eq_id (Some (bk_id r)) b) (divisions d))"

definition user_entry :: "directory \<Rightarrow> UserRow \<Rightarrow> Entry \<Rightarrow> BoardEntry" where
  "user_entry d u e =
    \<lparr>be_account = us_id u, be_name = us_name u, be_bracket = us_bracket u,
     be_bracket_name = bracket_name d (us_bracket u), be_score = e_score e, be_last = e_last e,
     be_hidden = us_hidden u, be_banned = us_banned u\<rparr>"

definition team_entry :: "directory \<Rightarrow> TeamRow \<Rightarrow> Entry \<Rightarrow> BoardEntry" where
  "team_entry d t e =
    \<lparr>be_account = tm_id t, be_name = tm_name t, be_bracket = tm_bracket t,
     be_bracket_name = bracket_name d (tm_bracket t), be_score = e_score e, be_last = e_last e,
     be_hidden = tm_hidden t, be_banned = tm_banned t\<rparr>"

text \<open>The WHERE clause, the ORDER BY and the LIMIT the three queries share.\<close>

definition shown :: "bool \<Rightarrow> id option \<Rightarrow> BoardEntry \<Rightarrow> bool" where
  "shown admin bracket r \<longleftrightarrow>
    (admin \<or> \<not> be_hidden r \<and> \<not> be_banned r) \<and> (bracket = None \<or> eq_id (be_bracket r) bracket)"

definition rank_of :: "BoardEntry \<Rightarrow> Entry" where
  "rank_of r = Entry (be_account r) (be_score r) (be_last r)"

definition limited :: "int \<Rightarrow> 'a list \<Rightarrow> 'a list" where
  "limited lim xs = (if lim = 0 then xs else take (nat lim) xs)"

definition get_user_standings ::
  "directory \<Rightarrow> bool \<Rightarrow> id option \<Rightarrow> int \<Rightarrow> time option \<Rightarrow> BoardEntry list" where
  "get_user_standings d admin bracket lim cutoff =
    limited lim (sort_key rank_of (filter (shown admin bracket)
      [user_entry d u e. u \<leftarrow> people d, e \<leftarrow> sumscores (scoring ''users'' cutoff (ledger d)),
                         e_account e = us_id u]))"

definition get_team_standings ::
  "directory \<Rightarrow> bool \<Rightarrow> id option \<Rightarrow> int \<Rightarrow> time option \<Rightarrow> BoardEntry list" where
  "get_team_standings d admin bracket lim cutoff =
    limited lim (sort_key rank_of (filter (shown admin bracket)
      [team_entry d t e. t \<leftarrow> rosters d, e \<leftarrow> sumscores (scoring ''teams'' cutoff (ledger d)),
                         e_account e = tm_id t]))"

text \<open>
  The time-travel query starts from the sums and joins both account tables under the mode of the
  instance; it does not read the division's name. No instance, no row.
\<close>

definition as_of_row :: "directory \<Rightarrow> string \<Rightarrow> Entry \<Rightarrow> BoardEntry list" where
  "as_of_row d mode e =
    (let u = (if mode = ''users'' then user_by_id d (e_account e) else None);
         t = (if mode = ''teams'' then team_by_id d (e_account e) else None)
     in case (u, t) of
          (Some u, _) \<Rightarrow> [(user_entry d u e)\<lparr>be_bracket_name := None\<rparr>]
        | (None, Some t) \<Rightarrow> [(team_entry d t e)\<lparr>be_bracket_name := None\<rparr>]
        | (None, None) \<Rightarrow> [])"

definition get_standings_as_of ::
  "directory \<Rightarrow> bool \<Rightarrow> id option \<Rightarrow> int \<Rightarrow> time \<Rightarrow> BoardEntry list" where
  "get_standings_as_of d admin bracket lim as_of =
    (case instance_mode d of
       None \<Rightarrow> []
     | Some mode \<Rightarrow>
         limited lim (sort_key rank_of (filter (shown admin bracket)
           (concat (map (as_of_row d mode) (sumscores (scoring mode (Some as_of) (ledger d))))))))"

subsection \<open>One account's curve\<close>

text \<open>Hidden and banned of the subject, both NULL when the id names nobody.\<close>

definition history_subject :: "directory \<Rightarrow> string \<Rightarrow> id \<Rightarrow> (bool \<times> bool) option" where
  "history_subject d mode a =
    (if mode = ''users'' then map_option (\<lambda>u. (us_hidden u, us_banned u)) (user_by_id d a)
     else if mode = ''teams'' then map_option (\<lambda>t. (tm_hidden t, tm_banned t)) (team_by_id d a)
     else None)"

definition history_events :: "directory \<Rightarrow> id \<Rightarrow> bool \<Rightarrow> time option \<Rightarrow> (time \<times> int) list" where
  "history_events d a admin cutoff =
    (case instance_mode d of
       None \<Rightarrow> []
     | Some mode \<Rightarrow>
         if admin \<or> history_subject d mode a = Some (False, False)
         then map (\<lambda>e. (ev_at e, ev_value e))
           (filter (\<lambda>e. ev_account e = a) (scoring mode cutoff (ledger d)))
         else [])"

text \<open>
  \<open>sum(value) OVER (ORDER BY date, value)\<close> has the default frame, which takes in every row that is
  not after the current one: rows that tie in both columns are all in each other's sum.
\<close>

definition not_after :: "time \<times> int \<Rightarrow> time \<times> int \<Rightarrow> bool" where
  "not_after x y \<longleftrightarrow> fst x < fst y \<or> fst x = fst y \<and> snd x \<le> snd y"

definition get_score_history :: "directory \<Rightarrow> id \<Rightarrow> bool \<Rightarrow> time option \<Rightarrow> HistoryPoint list" where
  "get_score_history d a admin cutoff =
    (let evs = history_events d a admin cutoff
     in map (\<lambda>x. \<lparr>hp_date = fst x, hp_delta = snd x,
                  hp_score = sum_list (map snd (filter (\<lambda>y. not_after y x) evs))\<rparr>)
          (sort_key fst (sort_key snd evs)))"

subsection \<open>The service\<close>

definition clamp_limit :: "int \<Rightarrow> int" where
  "clamp_limit n = (if n \<le> 0 \<or> 1000000 < n then 0 else n)"

definition top :: "Mode \<Rightarrow> directory \<Rightarrow> bool \<Rightarrow> id option \<Rightarrow> int \<Rightarrow> BoardEntry list" where
  "top mode d admin bracket limit =
    (case mode of
       ModeTeams \<Rightarrow> get_team_standings d admin bracket (clamp_limit limit) None
     | _ \<Rightarrow> get_user_standings d admin bracket (clamp_limit limit) None)"

definition board_as_of :: "directory \<Rightarrow> time \<Rightarrow> bool \<Rightarrow> id option \<Rightarrow> int \<Rightarrow> BoardEntry list" where
  "board_as_of d as_of admin bracket limit =
    get_standings_as_of d admin bracket (clamp_limit limit) as_of"

definition list_brackets :: "directory \<Rightarrow> string option \<Rightarrow> BracketRow list" where
  "list_brackets d applies_to =
    sort_key bk_id (filter (\<lambda>b. case applies_to of None \<Rightarrow> True | Some k \<Rightarrow> bk_applies_to b = k)
      (divisions d))"

record BracketChoice =
  bc_id :: id
  bc_name :: string
  bc_description :: "string option"

definition board_brackets :: "Mode \<Rightarrow> directory \<Rightarrow> BracketChoice list" where
  "board_brackets mode d =
    map (\<lambda>b. \<lparr>bc_id = bk_id b, bc_name = bk_name b, bc_description = bk_description b\<rparr>)
      (list_brackets d (Some (mode_string mode)))"

definition score_history :: "directory \<Rightarrow> id \<Rightarrow> bool \<Rightarrow> time option \<Rightarrow> HistoryPoint list" where
  "score_history d a admin cutoff = get_score_history d a admin cutoff"

subsection \<open>The handlers\<close>

record StandingBody =
  sd_rank :: int
  sd_account :: id
  sd_name :: string
  sd_score :: int

record ScoreboardInput =
  sc_limit :: int
  sc_as_of :: time
  sc_bracket :: int

text \<open>A request's \<open>as_of\<close> moved back to the horizon of a viewer the freeze applies to.\<close>

definition clamp_as_of :: "Policy \<Rightarrow> time \<Rightarrow> time" where
  "clamp_as_of p t =
    (case freeze_at (E p) of
       Some f \<Rightarrow> if frozen p \<and> f < t then f else t
     | None \<Rightarrow> t)"

definition freeze_cutoff :: "Policy \<Rightarrow> time option" where
  "freeze_cutoff p = (if frozen p then freeze_at (E p) else None)"

definition scoreboard_entries ::
  "Mode \<Rightarrow> Policy \<Rightarrow> directory \<Rightarrow> ScoreboardInput \<Rightarrow> BoardEntry list" where
  "scoreboard_entries mode p d inp =
    (let admin = is_admin (P p);
         bracket = (if 0 < sc_bracket inp then Some (sc_bracket inp) else None)
     in if sc_as_of inp \<noteq> zero_time
        then board_as_of d (clamp_as_of p (sc_as_of inp)) admin bracket (sc_limit inp)
        else case freeze_cutoff p of
               Some f \<Rightarrow> board_as_of d f admin bracket (sc_limit inp)
             | None \<Rightarrow> top mode d admin bracket (sc_limit inp))"

fun numbered :: "int \<Rightarrow> BoardEntry list \<Rightarrow> StandingBody list" where
  "numbered n [] = []"
| "numbered n (e # es) =
    \<lparr>sd_rank = n + 1, sd_account = be_account e, sd_name = be_name e, sd_score = be_score e\<rparr>
      # numbered (n + 1) es"

definition scoreboard :: "Mode \<Rightarrow> Policy \<Rightarrow> directory \<Rightarrow> ScoreboardInput \<Rightarrow> StandingBody list" where
  "scoreboard mode p d inp = numbered 0 (scoreboard_entries mode p d inp)"

definition scoreboard_detail :: "Policy \<Rightarrow> directory \<Rightarrow> id \<Rightarrow> time \<Rightarrow> HistoryPoint list" where
  "scoreboard_detail p d a as_of =
    score_history d a (is_admin (P p))
      (if as_of \<noteq> zero_time then Some (clamp_as_of p as_of) else freeze_cutoff p)"

end
