(* ===== verification/Scoreboard_Lemmas.thy ===== *)
theory Scoreboard_Lemmas
  imports Scoreboard Roster_Invariants
begin

section \<open>The scoreboard queries against the domain's standings\<close>

text \<open>
  The three queries as one shape: the entries of the domain's board in their order, joined to the
  account table, then filtered and cut.
\<close>

subsection \<open>Sorting rows by an entry that determines them\<close>

lemma map_sort_key: "map f (sort_key f xs) = sort (map f xs)"
  by (rule properties_for_sort [symmetric]) simp_all

lemma sort_key_map: "sort_key f (map g xs) = map g (sort_key (\<lambda>x. f (g x)) xs)"
proof (induction xs)
  case (Cons x xs)
  have "insort_key f (g x) (map g ys) = map g (insort_key (\<lambda>x. f (g x)) x ys)" for ys
    by (induction ys) auto
  then show ?case using Cons by simp
qed simp

lemma sort_rows:
  assumes "\<And>x. x \<in> set xs \<Longrightarrow> g (f x) = x"
  shows "sort_key f xs = map g (sort (map f xs))"
proof -
  have "map (g \<circ> f) (sort_key f xs) = sort_key f xs"
    by (rule map_idI) (simp add: assms)
  then show ?thesis by (simp only: map_map [symmetric] map_sort_key)
qed

lemma mset_filter_disjoint:
  "(\<And>x. \<not> (p x \<and> q x)) \<Longrightarrow> mset (filter p xs) + mset (filter q xs) = mset (filter (\<lambda>x. p x \<or> q x) xs)"
  by (induction xs) auto

lemma mset_join:
  "distinct (map k us) \<Longrightarrow>
    mset (concat (map (\<lambda>u. filter (\<lambda>e. f e = k u) es) us)) = mset (filter (\<lambda>e. f e \<in> k ` set us) es)"
proof (induction us)
  case (Cons u us)
  have "mset (filter (\<lambda>e. f e = k u) es) + mset (filter (\<lambda>e. f e \<in> k ` set us) es)
      = mset (filter (\<lambda>e. f e = k u \<or> f e \<in> k ` set us) es)"
    using Cons.prems by (intro mset_filter_disjoint) auto
  then show ?case using Cons by simp
qed simp

lemma map_filter_map: "List.map_filter h xs = map (\<lambda>x. the (h x)) (filter (\<lambda>x. h x \<noteq> None) xs)"
  by (induction xs) (auto simp: List.map_filter_simps split: option.splits)

lemma join_sorted:
  fixes k :: "'u \<Rightarrow> id" and mk :: "'u \<Rightarrow> Entry \<Rightarrow> BoardEntry"
  assumes keys: "distinct (map k us)"
    and mk: "\<And>u e. e_account e = k u \<Longrightarrow> rank_of (mk u e) = e"
  defines "row \<equiv> \<lambda>e. map_option (\<lambda>u. mk u e) (find (\<lambda>u. k u = e_account e) us)"
  shows "sort_key rank_of (filter sh [mk u e. u \<leftarrow> us, e \<leftarrow> es, e_account e = k u])
    = filter sh (List.map_filter row (sort es))"
proof -
  let ?rows = "[mk u e. u \<leftarrow> us, e \<leftarrow> es, e_account e = k u]"
  let ?g = "\<lambda>e. the (row e)"
  have found: "row e = Some (mk u e)" if "u \<in> set us" "e_account e = k u" for u e
    using find_distinct [OF keys that(1), of "e_account e" "\<lambda>_. True"] that by (simp add: row_def)
  have g: "?g (rank_of r) = r" if "r \<in> set ?rows" for r
    using that by (auto simp: mk found)
  have some: "row e \<noteq> None \<longleftrightarrow> e_account e \<in> k ` set us" for e
    by (force simp: row_def find_None_iff)
  have "map rank_of ?rows = concat (map (\<lambda>u. filter (\<lambda>e. e_account e = k u) es) us)"
  proof (induction us)
    case (Cons u us)
    have "map rank_of [mk u e. e \<leftarrow> es, e_account e = k u] = filter (\<lambda>e. e_account e = k u) es"
      by (induction es) (simp_all add: mk)
    then show ?case using Cons by simp
  qed simp
  then have m: "mset (map rank_of ?rows) = mset (filter (\<lambda>e. row e \<noteq> None) es)"
    by (simp only: mset_join [OF keys] some)
  have "map rank_of (filter sh ?rows) = filter (\<lambda>e. sh (?g e)) (map rank_of ?rows)"
    using g by (auto simp: filter_map o_def intro!: arg_cong [of _ _ "map rank_of"] filter_cong)
  then have ms: "mset (map rank_of (filter sh ?rows))
      = mset (filter (\<lambda>e. sh (?g e)) (filter (\<lambda>e. row e \<noteq> None) es))"
    using m by (simp only: mset_filter)
  have "sort (map rank_of (filter sh ?rows))
      = filter (\<lambda>e. sh (?g e)) (filter (\<lambda>e. row e \<noteq> None) (sort es))"
    by (simp only: sort_mset_eq [OF ms] filter_sort)
  moreover have "sort_key rank_of (filter sh ?rows) = map ?g (sort (map rank_of (filter sh ?rows)))"
    using g by (intro sort_rows) simp
  ultimately show ?thesis
    by (simp add: map_filter_map filter_map o_def)
qed

lemma map_filter_sorted:
  assumes "\<And>e r. row e = Some r \<Longrightarrow> rank_of r = e"
  shows "sort_key rank_of (filter sh (List.map_filter row es)) = filter sh (List.map_filter row (sort es))"
proof -
  let ?g = "\<lambda>e. the (row e)"
  have inv: "rank_of (?g e) = e" if "row e \<noteq> None" for e using that assms by auto
  have g: "?g (rank_of r) = r" if "r \<in> set (List.map_filter row es)" for r
    using that assms by (auto simp: map_filter_map)
  have "map rank_of (filter sh (List.map_filter row es))
      = filter (\<lambda>e. sh (?g e)) (filter (\<lambda>e. row e \<noteq> None) es)"
    using inv by (auto simp: map_filter_map filter_map o_def intro!: map_idI)
  moreover have "sort_key rank_of (filter sh (List.map_filter row es))
      = map ?g (sort (map rank_of (filter sh (List.map_filter row es))))"
    using g by (intro sort_rows) simp
  ultimately show ?thesis
    by (simp add: map_filter_map filter_map o_def filter_sort [symmetric])
qed

subsection \<open>The sums\<close>

lemma scored_counts: "e \<in> set (scored mode cutoff u t v date) \<Longrightarrow> counts e \<and> ev_value e = v \<and> ev_at e = date"
  by (auto simp: scored_def counts_def split: option.splits if_splits)

lemma scoring_counts: "e \<in> set (scoring mode cutoff l) \<Longrightarrow> counts e"
  by (auto simp: scoring_def dest: scored_counts)

lemma scoring_events_counting:
  "(\<And>e. e \<in> set evs \<Longrightarrow> counts e) \<Longrightarrow> scoring_events evs a = filter (\<lambda>e. ev_account e = a) evs"
  by (auto simp: scoring_events_def intro!: filter_cong)

lemma fold_max_Max:
  fixes ds :: "time list"
  assumes "ds \<noteq> []" "\<And>t. t \<in> set ds \<Longrightarrow> 0 \<le> t"
  shows "fold max ds 0 = Max (set ds)"
proof -
  have "fold max ds 0 = Max (set (0 # ds))" by (simp only: Max.set_eq_fold)
  also have "\<dots> = max 0 (Max (set ds))" using assms(1) by simp
  also have "\<dots> = Max (set ds)"
    using assms by (auto simp: max_def intro: order_trans [OF assms(2) Max_ge])
  finally show ?thesis .
qed

text \<open>Sums that fit and instants after Go's zero time, which is what the columns hold.\<close>

definition sums_fit :: "Event list \<Rightarrow> bool" where
  "sums_fit evs \<longleftrightarrow>
    list_all (\<lambda>e. 0 \<le> ev_at e
      \<and> in_i64 (sum_list (map ev_value (filter (\<lambda>x. ev_account x = ev_account e) evs)))) evs"

lemma sumscores_standing:
  assumes "sums_fit evs" "\<And>e. e \<in> set evs \<Longrightarrow> counts e" "a \<in> ev_account ` set evs"
  shows "Entry a (sum_list (map ev_value (filter (\<lambda>e. ev_account e = a) evs)))
      (Max (set (map ev_at (filter (\<lambda>e. ev_account e = a) evs)))) = standing_of evs a"
proof -
  let ?es = "filter (\<lambda>e. ev_account e = a) evs"
  obtain e where e: "e \<in> set evs" "ev_account e = a" using assms(3) by auto
  have "?es \<noteq> []" using e by (auto simp: filter_empty_conv)
  moreover have fit: "in_i64 (sum_list (map ev_value ?es))" "\<forall>x\<in>set evs. 0 \<le> ev_at x"
    using assms(1) e by (auto simp: sums_fit_def list_all_iff)
  moreover have "fold max (map ev_at ?es) 0 = Max (set (map ev_at ?es))"
    using \<open>?es \<noteq> []\<close> fit(2) by (intro fold_max_Max) auto
  ultimately show ?thesis
    by (simp add: standing_of_def scoring_events_counting [OF assms(2)] i64_id zero_time_def)
qed

lemma sumscores_board:
  assumes "sums_fit evs" "\<And>e. e \<in> set evs \<Longrightarrow> counts e" "\<And>xs. mset (iter xs) = mset xs"
  shows "sort (sumscores evs) = map st_entry (board iter evs)"
proof -
  have rows: "sumscores evs = map (standing_of evs) (remdups (map ev_account evs))"
    using sumscores_standing [OF assms(1,2)] by (simp add: sumscores_def)
  have d: "distinct (map e_account (aggregate iter evs))"
    using aggregate_rows(2) [OF assms(3)] .
  have "{a. scoring_events evs a \<noteq> []} = ev_account ` set evs"
    by (auto simp: scoring_events_counting [OF assms(2)] filter_empty_conv)
  then have "set (aggregate iter evs) = set (sumscores evs)"
    using aggregate_rows(1) [OF assms(3), of evs] by (simp add: rows)
  moreover have "distinct (sumscores evs)"
    by (simp add: rows distinct_map inj_on_def standing_of_def)
  moreover have "distinct (aggregate iter evs)"
    using d by (rule distinct_map [THEN iffD1, THEN conjunct1])
  ultimately have "mset (sumscores evs) = mset (aggregate iter evs)"
    by (simp add: set_eq_iff_mset_eq_distinct)
  from sort_mset_eq [OF this] show ?thesis
    by (simp add: board_def number_from_entries rank_def)
qed

subsection \<open>The three queries\<close>

text \<open>The row a board makes of an entry, if its account exists.\<close>

definition listed_row :: "directory \<Rightarrow> string \<Rightarrow> Entry \<Rightarrow> BoardEntry option" where
  "listed_row d mode e =
    (if mode = ''teams'' then map_option (\<lambda>t. team_entry d t e) (team_by_id d (e_account e))
     else map_option (\<lambda>u. user_entry d u e) (user_by_id d (e_account e)))"

definition unnamed :: "BoardEntry \<Rightarrow> BoardEntry" where
  "unnamed r = r\<lparr>be_bracket_name := None\<rparr>"

lemma rank_of_entry [simp]:
  "e_account e = us_id u \<Longrightarrow> rank_of (user_entry d u e) = e"
  "e_account e = tm_id t \<Longrightarrow> rank_of (team_entry d t e) = e"
  "rank_of (unnamed r) = rank_of r"
  by (cases e; simp add: rank_of_def user_entry_def team_entry_def unnamed_def)+

lemma listed_row_rank: "listed_row d mode e = Some r \<Longrightarrow> rank_of r = e"
  by (auto simp: listed_row_def user_by_id_def team_by_id_def dest!: find_Some_in split: if_splits)

lemma user_standings_rows:
  assumes "distinct (map us_id (people d))"
  shows "get_user_standings d admin bracket lim cutoff
    = limited lim (filter (shown admin bracket) (List.map_filter (listed_row d ''users'')
        (sort (sumscores (scoring ''users'' cutoff (ledger d))))))"
  unfolding get_user_standings_def
  by (subst join_sorted [OF assms]) (simp_all add: listed_row_def [abs_def] user_by_id_def)

lemma team_standings_rows:
  assumes "distinct (map tm_id (rosters d))"
  shows "get_team_standings d admin bracket lim cutoff
    = limited lim (filter (shown admin bracket) (List.map_filter (listed_row d ''teams'')
        (sort (sumscores (scoring ''teams'' cutoff (ledger d))))))"
  unfolding get_team_standings_def
  by (subst join_sorted [OF assms]) (simp_all add: listed_row_def [abs_def] team_by_id_def)

lemma as_of_row_listed:
  assumes "mode = ''users'' \<or> mode = ''teams''"
  shows "as_of_row d mode e = (case listed_row d mode e of None \<Rightarrow> [] | Some r \<Rightarrow> [unnamed r])"
  using assms by (auto simp: as_of_row_def listed_row_def unnamed_def Let_def split: option.splits)

lemma concat_option: "concat (map (\<lambda>x. case f x of None \<Rightarrow> [] | Some y \<Rightarrow> [g y]) xs)
    = List.map_filter (\<lambda>x. map_option g (f x)) xs"
  by (induction xs) (auto simp: List.map_filter_simps split: option.splits)

lemma as_of_rows:
  assumes "instance_mode d = Some mode" "mode = ''users'' \<or> mode = ''teams''"
  shows "get_standings_as_of d admin bracket lim t
    = limited lim (filter (shown admin bracket)
        (List.map_filter (\<lambda>e. map_option unnamed (listed_row d mode e))
          (sort (sumscores (scoring mode (Some t) (ledger d))))))"
proof -
  have "sort_key rank_of (filter (shown admin bracket)
      (List.map_filter (\<lambda>e. map_option unnamed (listed_row d mode e))
        (sumscores (scoring mode (Some t) (ledger d)))))
    = filter (shown admin bracket)
      (List.map_filter (\<lambda>e. map_option unnamed (listed_row d mode e))
        (sort (sumscores (scoring mode (Some t) (ledger d)))))"
    by (rule map_filter_sorted) (auto dest: listed_row_rank)
  then show ?thesis
    using assms(1) by (simp add: get_standings_as_of_def as_of_row_listed [OF assms(2), abs_def] concat_option)
qed

lemma map_filter_unnamed:
  "filter (shown admin bracket) (List.map_filter (\<lambda>e. map_option unnamed (row e)) es)
    = map unnamed (filter (shown admin bracket) (List.map_filter row es))"
  by (induction es) (auto simp: List.map_filter_simps shown_def unnamed_def split: option.splits)

lemma limited_map: "limited lim (map f xs) = map f (limited lim xs)"
  by (simp add: limited_def take_map)

end
