(* ===== verification/Scoreboard_Properties.thy ===== *)
theory Scoreboard_Properties
  imports Scoreboard_Lemmas Sample_Directory Game_Properties Unlock_Properties
begin

section \<open>Properties of the scoreboard\<close>

text \<open>
  The SQL boards are the domain's board joined to the accounts, the score they show is the balance
  game play spends from, a frozen viewer sees nothing that happens after the freeze, and what the
  points of an account's curve add up to.
\<close>

subsection \<open>The board\<close>

lemma clamp_limit_range: "0 \<le> clamp_limit n \<and> clamp_limit n \<le> 1000000"
  by (simp add: clamp_limit_def)

lemma mode_names [simp]: "mode_string ModeUsers = ''users''" "mode_string ModeTeams = ''teams''"
  by code_simp+

lemma top_rows:
  assumes "keys_ok d" "mode = ModeUsers \<or> mode = ModeTeams"
  shows "top mode d admin bracket limit
    = limited (clamp_limit limit) (filter (shown admin bracket)
        (List.map_filter (listed_row d (mode_string mode))
          (sort (sumscores (scoring (mode_string mode) None (ledger d))))))"
  using assms
  by (auto simp: top_def user_standings_rows team_standings_rows keys_ok_def)

lemma board_as_of_rows:
  assumes "instance_mode d = Some (mode_string mode)" "mode = ModeUsers \<or> mode = ModeTeams"
  shows "board_as_of d t admin bracket limit
    = map unnamed (limited (clamp_limit limit) (filter (shown admin bracket)
        (List.map_filter (listed_row d (mode_string mode))
          (sort (sumscores (scoring (mode_string mode) (Some t) (ledger d)))))))"
  unfolding board_as_of_def
  by (subst as_of_rows [OF assms(1)])
    (use assms(2) in \<open>auto simp: map_filter_unnamed limited_map\<close>)

lemma before_cutoff_simp [simp]: "before_cutoff (Some t) date \<longleftrightarrow> date < t" "before_cutoff None date"
  by (simp_all add: before_cutoff_def)

lemma scored_past:
  "before_cutoff (Some t) date \<Longrightarrow> scored mode (Some t) u tm v date = scored mode None u tm v date"
  by (simp add: scored_def split: option.splits)

text \<open>
  C14: The scoreboard is the domain's. On a directory with unique keys, the live board is the board
  \<open>internal/domain/scoring\<close> computes from the ledger's events, in its order, joined to the accounts
  that exist, narrowed to the rows the viewer may see and to the bracket, and cut at the limit; the
  time-travel board at \<open>t\<close> is the same of the events before \<open>t\<close>, without the division names; so at
  an instant after every event both list the same accounts, scores and order.
\<close>
theorem scoreboard_is_domain_board:
  assumes "keys_ok d" "instance_mode d = Some m" "m = mode_string mode"
    "mode = ModeUsers \<or> mode = ModeTeams"
    "\<And>cutoff. sums_fit (scoring m cutoff (ledger d))" "\<And>xs. mset (iter xs) = mset xs"
  shows "top mode d admin bracket limit
      = limited (clamp_limit limit) (filter (shown admin bracket) (List.map_filter (listed_row d m)
          (map st_entry (Standings.board iter (scoring m None (ledger d))))))
    \<and> board_as_of d t admin bracket limit
      = map unnamed (limited (clamp_limit limit) (filter (shown admin bracket)
          (List.map_filter (listed_row d m)
            (map st_entry (Standings.board iter (scoring m (Some t) (ledger d)))))))
    \<and> (list_all (\<lambda>s. sv_date s < t) (solves (ledger d)) \<and> list_all (\<lambda>a. aw_date a < t) (awards (ledger d))
        \<longrightarrow> board_as_of d t admin bracket limit = map unnamed (top mode d admin bracket limit))"
proof -
  have b: "map st_entry (Standings.board iter (scoring m c (ledger d)))
      = sort (sumscores (scoring m c (ledger d)))" for c
    using sumscores_board [OF assms(5) scoring_counts assms(6)] by simp
  have rows: "board_as_of d t admin bracket limit
      = map unnamed (limited (clamp_limit limit) (filter (shown admin bracket)
          (List.map_filter (listed_row d m) (sort (sumscores (scoring m (Some t) (ledger d)))))))"
    using board_as_of_rows [of d mode] assms(2-4) by simp
  have tops: "top mode d admin bracket limit
      = limited (clamp_limit limit) (filter (shown admin bracket)
          (List.map_filter (listed_row d m) (sort (sumscores (scoring m None (ledger d))))))"
    using top_rows [OF assms(1,4)] assms(3) by simp
  have "scoring m (Some t) (ledger d) = scoring m None (ledger d)"
    if "list_all (\<lambda>s. sv_date s < t) (solves (ledger d))"
      "list_all (\<lambda>a. aw_date a < t) (awards (ledger d))"
    using that
    by (auto simp: scoring_def list_all_iff
        intro!: arg_cong [of _ _ concat] arg_cong2 [of _ _ _ _ append] scored_past)
  then show ?thesis by (simp add: rows tops b)
qed

subsection \<open>The score is the balance\<close>

lemma scored_total:
  "m = user_mode l \<Longrightarrow> account_column m user team = Some a \<Longrightarrow>
    sum_list (map ev_value (filter (\<lambda>e. ev_account e = a) (scored m None u t v date)))
      = (if scoped l user team u t then v else 0)"
  by (auto simp: scored_def account_column_def scoped_def before_cutoff_def eq_id_iff split: option.splits if_splits)

lemma scored_concat:
  assumes "\<And>x. sum_list (map ev_value (filter (\<lambda>e. ev_account e = a) (f x))) = (if p x then v x else 0)"
  shows "sum_list (map ev_value (filter (\<lambda>e. ev_account e = a) (concat (map f xs))))
    = sum_list (map v (filter p xs))"
  by (induction xs) (simp_all add: assms)

lemma scoring_total:
  assumes "m = user_mode l" "account_column m user team = Some a"
  shows "sum_list (map ev_value (filter (\<lambda>e. ev_account e = a) (scoring m None l)))
    = get_account_score l team user"
  by (simp add: scoring_def get_account_score_def scored_concat [OF scored_total [OF assms]])

lemma in_board:
  assumes "keys_ok d" "mode = ModeUsers \<or> mode = ModeTeams"
  shows "r \<in> set (top mode d True None 0) \<longleftrightarrow>
    (\<exists>e\<in>set (sumscores (scoring (mode_string mode) None (ledger d))).
       listed_row d (mode_string mode) e = Some r)"
  unfolding top_rows [OF assms]
  by (auto simp: clamp_limit_def limited_def shown_def map_filter_map) force

lemma listed_row_score:
  "listed_row d m e = Some r \<Longrightarrow> be_score r = e_score e \<and> be_account r = e_account e"
  using listed_row_rank [of d m e r] by (cases e) (auto simp: rank_of_def)

text \<open>
  C15: What a hint costs is taken from what the board shows: on the organizers' board, which lists
  every scoring account, an account's score is the balance \<open>UnlockHint\<close> compares with the price, and
  an account that exists and has no row there has nothing to spend.
\<close>
theorem board_score_is_balance:
  assumes "keys_ok d" "mode = ModeUsers \<or> mode = ModeTeams" "user_mode (ledger d) = mode_string mode"
    "account_column (mode_string mode) user team = Some a"
    "listed_row d (mode_string mode) (Entry a 0 0) \<noteq> None"
  shows "(\<forall>r\<in>set (top mode d True None 0). be_account r = a
        \<longrightarrow> be_score r = get_account_score (ledger d) team user)
    \<and> ((\<forall>r\<in>set (top mode d True None 0). be_account r \<noteq> a)
        \<longrightarrow> get_account_score (ledger d) team user = 0)"
proof -
  let ?evs = "scoring (mode_string mode) None (ledger d)"
  let ?total = "sum_list (map ev_value (filter (\<lambda>e. ev_account e = a) ?evs))"
  have total: "?total = get_account_score (ledger d) team user"
    using scoring_total [OF assms(3) [symmetric] assms(4)] .
  have sums: "e_score e = sum_list (map ev_value (filter (\<lambda>x. ev_account x = e_account e) ?evs))"
    if "e \<in> set (sumscores ?evs)" for e
    using that by (auto simp: sumscores_def)
  have "be_score r = get_account_score (ledger d) team user"
    if r: "r \<in> set (top mode d True None 0)" "be_account r = a" for r
    using r sums total by (auto simp: in_board [OF assms(1,2)] dest: listed_row_score)
  moreover have "get_account_score (ledger d) team user = 0"
    if none: "\<forall>r\<in>set (top mode d True None 0). be_account r \<noteq> a"
  proof (cases "a \<in> ev_account ` set ?evs")
    case True
    then have "a \<in> e_account ` set (sumscores ?evs)"
      by (simp add: sumscores_def image_image)
    then obtain e where e: "e \<in> set (sumscores ?evs)" "e_account e = a" by auto
    then obtain r where "listed_row d (mode_string mode) e = Some r"
      using assms(5) by (auto simp: listed_row_def split: if_splits)
    then show ?thesis
      using none e by (auto simp: in_board [OF assms(1,2)] dest: listed_row_score)
  next
    case False
    then have "filter (\<lambda>e. ev_account e = a) ?evs = []"
      by (auto simp: filter_empty_conv)
    then show ?thesis using total by simp
  qed
  ultimately show ?thesis by blast
qed

subsection \<open>A frozen viewer sees nothing that happens later\<close>

text \<open>
  The solves, awards and unlocks only gained rows, of accounts that satisfy \<open>who\<close>; no solve or award
  among them is dated before \<open>f\<close>.
\<close>

definition gained :: "time \<Rightarrow> (id \<Rightarrow> id option \<Rightarrow> bool) \<Rightarrow> db \<Rightarrow> db \<Rightarrow> bool" where
  "gained f who l l' \<longleftrightarrow>
    (\<exists>ss aws us. solves l' = solves l @ ss \<and> awards l' = awards l @ aws \<and> unlocks l' = unlocks l @ us
      \<and> list_all (\<lambda>s. f \<le> sv_date s \<and> who (sv_user s) (sv_team s)) ss
      \<and> list_all (\<lambda>a. f \<le> aw_date a \<and> who (aw_user a) (aw_team a)) aws
      \<and> list_all (\<lambda>u. who (hu_user u) (hu_team u)) us)"

lemma gained_same:
  "solves l' = solves l \<Longrightarrow> awards l' = awards l \<Longrightarrow> unlocks l' = unlocks l \<Longrightarrow> gained f who l l'"
  by (simp add: gained_def)

lemma gained_trans: "gained f who a b \<Longrightarrow> gained f who b c \<Longrightarrow> gained f who a c"
  by (auto simp: gained_def)

lemma gainedI:
  "solves l' = solves l @ ss \<Longrightarrow> awards l' = awards l @ aws \<Longrightarrow> unlocks l' = unlocks l @ us
    \<Longrightarrow> \<forall>s\<in>set ss. f \<le> sv_date s \<and> who (sv_user s) (sv_team s)
    \<Longrightarrow> \<forall>a\<in>set aws. f \<le> aw_date a \<and> who (aw_user a) (aw_team a)
    \<Longrightarrow> \<forall>u\<in>set us. who (hu_user u) (hu_team u) \<Longrightarrow> gained f who l l'"
  by (auto simp: gained_def list_all_iff)

lemma scored_late: "f \<le> date \<Longrightarrow> t \<le> f \<Longrightarrow> scored m (Some t) u tm v date = []"
  by (auto simp: scored_def split: option.splits)

lemma scoring_gained:
  assumes "gained f who l l'" "t \<le> f"
  shows "scoring m (Some t) l' = scoring m (Some t) l"
proof -
  obtain ss aws where e: "solves l' = solves l @ ss" "awards l' = awards l @ aws"
    "\<forall>s\<in>set ss. f \<le> sv_date s" "\<forall>a\<in>set aws. f \<le> aw_date a"
    using assms(1) by (auto simp: gained_def list_all_iff)
  have "concat (map (\<lambda>s. scored m (Some t) (sv_user s) (sv_team s) (sv_value s) (sv_date s)) ss) = []"
    "concat (map (\<lambda>a. scored m (Some t) (aw_user a) (aw_team a) (aw_value a) (aw_date a)) aws) = []"
    using e(3,4) assms(2) by (auto simp: scored_late)
  then show ?thesis by (simp only: scoring_def e(1,2) map_append concat_append append_Nil2)
qed

fun command_time :: "command \<Rightarrow> time option" where
  "command_time (CSubmit now inp) = Some now"
| "command_time (CUnlock now challenge hint a) = Some now"
| "command_time (CIssue challenge account) = None"

fun command_actor :: "command \<Rightarrow> Actor option" where
  "command_actor (CSubmit now inp) = Some (si_actor inp)"
| "command_actor (CUnlock now challenge hint a) = Some a"
| "command_actor (CIssue challenge account) = None"

text \<open>A command that runs at or after \<open>f\<close> for an account that satisfies \<open>who\<close>.\<close>

definition late_by :: "time \<Rightarrow> (id \<Rightarrow> id option \<Rightarrow> bool) \<Rightarrow> command \<Rightarrow> bool" where
  "late_by f who c \<longleftrightarrow>
    pred_option (\<lambda>now. f \<le> now) (command_time c)
    \<and> pred_option (\<lambda>a. who (ac_user a) (ac_team a)) (command_actor c)"

lemma submit_gains:
  assumes "submit mode re now l inp = Inr (r, l')" "f \<le> now"
    "who (ac_user (si_actor inp)) (ac_team (si_actor inp))"
  shows "gained f who l l'"
proof -
  obtain ch m where w: "submit_write now l inp ch m = Inr (r, l')"
    using assms(1) by (auto simp: submit_Inr_iff)
  show ?thesis
  proof (cases "m_correct m")
    case False
    then show ?thesis
      using w by (auto simp: submit_write_def submit_incorrect_Inr frame intro: gained_same)
  next
    case correct: True
    obtain locked where "l' = logged l (log_row now l inp (ch_id locked) ''correct'' (m_attributed m))
      \<or> after_solve now (stamped (logged l (log_row now l inp (ch_id locked) ''correct'' (m_attributed m)))
          (stamp now l inp locked)) (si_actor inp) locked (stamp now l inp locked) = Inr (r, l')"
      using w correct by (auto simp: submit_write_def submit_correct_Inr Let_def split: if_splits)
    then show ?thesis
    proof
      assume after: "after_solve now (stamped (logged l (log_row now l inp (ch_id locked) ''correct''
          (m_attributed m))) (stamp now l inp locked)) (si_actor inp) locked (stamp now l inp locked)
        = Inr (r, l')"
      show ?thesis
        by (rule after_solve_effect [OF after],
            rule gainedI [where ss = "[stamp now l inp locked]" and us = "[]"])
          (use assms(2,3) in \<open>auto simp: frame stamp_def blood_award_def split: if_splits\<close>)
    qed (simp add: gained_same frame)
  qed
qed

lemma exec_gains:
  assumes "exec mode re c l = Inr (r, l')" "late_by f who c"
  shows "gained f who l l'"
proof (cases c)
  case (CSubmit now inp)
  then show ?thesis using assms by (auto simp: exec_def tag_Inr late_by_def intro: submit_gains)
next
  case (CUnlock now challenge hint a)
  then show ?thesis
    using assms
    by (auto simp: exec_def tag_Inr unlock_hint_Inr unlock_spend_Inr unlocked_def awarded_def charge_def
        unlock_row_def late_by_def intro: gainedI [where ss = "[]"])
next
  case (CIssue challenge account)
  then show ?thesis
    using assms by (auto simp: exec_def tag_Inr intro: gained_same dest!: issue_instance_cases)
qed

lemma run_gains: "list_all (late_by f who) cs \<Longrightarrow> gained f who l (run_all (exec mode re) cs l)"
proof (induction cs arbitrary: l)
  case (Cons c cs)
  have "gained f who l (case exec mode re c l of Inl _ \<Rightarrow> l | Inr (_, l') \<Rightarrow> l')"
    using Cons.prems by (auto simp: gained_same split: sum.splits intro!: exec_gains)
  then show ?case using Cons by (auto intro: gained_trans)
qed (simp add: gained_same)

lemma as_of_gained:
  assumes "gained f who (ledger d) l'" "t \<le> f"
  shows "board_as_of (d\<lparr>ledger := l'\<rparr>) t admin bracket limit = board_as_of d t admin bracket limit"
proof -
  have "as_of_row (d\<lparr>ledger := l'\<rparr>) = as_of_row d"
    by (rule ext)+ (simp add: as_of_row_def user_by_id_def team_by_id_def user_entry_def
        team_entry_def bracket_name_def Let_def cong: option.case_cong)
  then show ?thesis
    using scoring_gained [OF assms]
    by (simp add: board_as_of_def get_standings_as_of_def cong: option.case_cong)
qed

lemma history_gained:
  assumes "gained f who (ledger d) l'" "t \<le> f"
  shows "score_history (d\<lparr>ledger := l'\<rparr>) a admin (Some t) = score_history d a admin (Some t)"
proof -
  have "history_subject (d\<lparr>ledger := l'\<rparr>) = history_subject d"
    by (rule ext)+ (simp add: history_subject_def user_by_id_def team_by_id_def)
  then have "history_events (d\<lparr>ledger := l'\<rparr>) a admin (Some t) = history_events d a admin (Some t)"
    using scoring_gained [OF assms] by (cases "instance_mode d") (simp_all add: history_events_def)
  then show ?thesis by (simp add: score_history_def get_score_history_def)
qed

lemma clamp_as_of_frozen: "frozen p \<Longrightarrow> freeze_at (E p) = Some f \<Longrightarrow> clamp_as_of p t \<le> f"
  by (simp add: clamp_as_of_def)

text \<open>
  C13: The freeze holds against every parameter. While a viewer is frozen, the board and the score
  curves he is served, whatever \<open>as_of\<close>, bracket and limit he asks for, are the ones he was served
  before any sequence of submissions, unlocks and issues that ran at or after the freeze.
\<close>
theorem frozen_board_ignores_later_play:
  assumes "frozen p" "freeze_at (E p) = Some f"
    "list_all (\<lambda>c. \<forall>now. command_time c = Some now \<longrightarrow> f \<le> now) cs"
  shows "scoreboard mode p (d\<lparr>ledger := run_all (exec m re) cs (ledger d)\<rparr>) inp = scoreboard mode p d inp
    \<and> scoreboard_detail p (d\<lparr>ledger := run_all (exec m re) cs (ledger d)\<rparr>) a as_of
        = scoreboard_detail p d a as_of"
proof -
  have "list_all (late_by f (\<lambda>_ _. True)) cs"
    using assms(3) by (auto simp: late_by_def list_all_iff option.pred_set)
  note g = run_gains [OF this, of "ledger d" m re]
  note clamped = clamp_as_of_frozen [OF assms(1,2)]
  show ?thesis
    using as_of_gained [OF g] history_gained [OF g] clamped assms(1,2)
    by (simp add: scoreboard_def scoreboard_entries_def scoreboard_detail_def freeze_cutoff_def Let_def)
qed

subsection \<open>What the points of a curve add up to\<close>

definition lex_sorted :: "(time \<times> int) list \<Rightarrow> (time \<times> int) list" where
  "lex_sorted evs = sort_key fst (sort_key snd evs)"

lemma mset_lex_sorted: "mset (lex_sorted evs) = mset evs"
  by (simp add: lex_sorted_def)

lemma lex_sorted_sorted: "sorted_wrt not_after (lex_sorted evs)"
  using sort_key_lex [of fst snd evs]
  by (simp add: lex_sorted_def not_after_def [abs_def] lex_le_def [abs_def])

lemma sum_same: "sum_list (map snd (filter (\<lambda>y. y = x) ys)) = snd x * int (count_list ys x)"
  by (induction ys) (auto simp: algebra_simps)

lemma not_after_refl: "not_after x x"
  by (simp add: not_after_def)

lemma not_after_antisym: "not_after x y \<Longrightarrow> not_after y x \<Longrightarrow> x = y"
  by (cases x; cases y) (auto simp: not_after_def)

lemma window_sum:
  assumes "sorted_wrt not_after xs" "i < length xs"
  shows "sum_list (map snd (filter (\<lambda>y. not_after y (xs ! i)) xs))
    = sum_list (map snd (take (Suc i) xs)) + snd (xs ! i) * int (count_list (drop (Suc i) xs) (xs ! i))"
proof -
  let ?p = "\<lambda>y. not_after y (xs ! i)"
  have "?p y" if y: "y \<in> set (take (Suc i) xs)" for y
  proof -
    obtain j where "j < length (take (Suc i) xs)" "y = take (Suc i) xs ! j"
      using y unfolding in_set_conv_nth by blast
    then have j: "j \<le> i" "y = xs ! j" by simp_all
    show ?thesis
    proof (cases "j = i")
      case False
      then show ?thesis using j assms(2) sorted_wrt_nth_less [OF assms(1), of j i] by simp
    qed (simp add: j not_after_def)
  qed
  then have "filter ?p (take (Suc i) xs) = take (Suc i) xs"
    by (simp add: filter_id_conv)
  moreover have "filter ?p (drop (Suc i) xs) = filter (\<lambda>y. y = xs ! i) (drop (Suc i) xs)"
  proof (rule filter_cong [OF refl])
    fix y assume "y \<in> set (drop (Suc i) xs)"
    then obtain k where "k < length (drop (Suc i) xs)" "y = drop (Suc i) xs ! k"
      unfolding in_set_conv_nth by blast
    then have "i < Suc i + k" "Suc i + k < length xs" "y = xs ! (Suc i + k)"
      using assms(2) by simp_all
    then have "not_after (xs ! i) y"
      using sorted_wrt_nth_less [OF assms(1), of i "Suc i + k"] by simp
    then show "?p y \<longleftrightarrow> y = xs ! i"
      using not_after_antisym [of y "xs ! i"] not_after_refl by blast
  qed
  moreover have "filter ?p xs = filter ?p (take (Suc i) xs) @ filter ?p (drop (Suc i) xs)"
    by (metis append_take_drop_id filter_append)
  ultimately show ?thesis by (simp add: sum_same)
qed

lemma not_distinct_later:
  "distinct xs \<longleftrightarrow> (\<forall>i<length xs. count_list (drop (Suc i) xs) (xs ! i) = 0)"
proof (induction xs)
  case (Cons x xs)
  have "(\<forall>i<length (x # xs). count_list (drop (Suc i) (x # xs)) ((x # xs) ! i) = 0)
      \<longleftrightarrow> count_list xs x = 0 \<and> (\<forall>i<length xs. count_list (drop (Suc i) xs) (xs ! i) = 0)"
    by (auto simp: less_Suc_eq_0_disj)
  then show ?case using Cons by (simp add: count_list_0_iff)
qed simp

lemma history_points:
  defines "xs \<equiv> \<lambda>d a admin cutoff. lex_sorted (history_events d a admin cutoff)"
  shows "score_history d a admin cutoff
    = map (\<lambda>x. \<lparr>hp_date = fst x, hp_delta = snd x,
        hp_score = sum_list (map snd (filter (\<lambda>y. not_after y x) (xs d a admin cutoff)))\<rparr>)
      (xs d a admin cutoff)"
proof -
  have "sum_list (map snd (filter q (lex_sorted evs))) = sum_list (map snd (filter q evs))" for q evs
  proof -
    have "mset (map snd (filter q (lex_sorted evs))) = mset (map snd (filter q evs))"
      using mset_lex_sorted [of evs] by simp
    then show ?thesis by (metis sum_mset_sum_list)
  qed
  then show ?thesis
    by (simp add: xs_def score_history_def get_score_history_def Let_def lex_sorted_def)
qed

lemma history_nonzero: "x \<in> set (history_events d a admin cutoff) \<Longrightarrow> snd x \<noteq> 0"
  by (auto simp: history_events_def counts_def dest!: scoring_counts split: option.splits if_splits)

text \<open>
  C39: What a score curve says. Its points are the account's events, sorted by date and then value;
  the last one carries their sum; and every point is the running total up to and including it
  exactly when no two events tie in both columns: points that tie all carry the total after the
  last of them.
\<close>
theorem history_totals_exact:
  fixes d a admin cutoff
  defines "hs \<equiv> score_history d a admin cutoff" and "evs \<equiv> history_events d a admin cutoff"
  shows "mset (map (\<lambda>p. (hp_date p, hp_delta p)) hs) = mset evs
    \<and> sorted_wrt not_after (map (\<lambda>p. (hp_date p, hp_delta p)) hs)
    \<and> (hs \<noteq> [] \<longrightarrow> hp_score (last hs) = sum_list (map snd evs))
    \<and> ((\<forall>i<length hs. hp_score (hs ! i) = sum_list (map hp_delta (take (Suc i) hs))) \<longleftrightarrow> distinct evs)"
proof -
  let ?xs = "lex_sorted evs"
  have hs: "hs = map (\<lambda>x. \<lparr>hp_date = fst x, hp_delta = snd x,
      hp_score = sum_list (map snd (filter (\<lambda>y. not_after y x) ?xs))\<rparr>) ?xs"
    unfolding hs_def evs_def by (rule history_points)
  have pairs: "map (\<lambda>p. (hp_date p, hp_delta p)) hs = ?xs"
    by (simp add: hs o_def)
  have len: "length hs = length ?xs" by (simp add: hs)
  have point: "hp_score (hs ! i) = sum_list (map hp_delta (take (Suc i) hs))
      + snd (?xs ! i) * int (count_list (drop (Suc i) ?xs) (?xs ! i))" if "i < length hs" for i
    using that window_sum [OF lex_sorted_sorted [of evs]] by (simp add: hs take_map o_def)
  have "hp_score (last hs) = sum_list (map snd evs)" if "hs \<noteq> []"
  proof -
    let ?n = "length hs - 1"
    have "0 < length hs" using that by simp
    then have "hp_score (hs ! ?n) = sum_list (map hp_delta hs)"
      using point [of ?n] len by simp
    moreover have "mset (map snd ?xs) = mset (map snd evs)"
      by (simp add: mset_lex_sorted)
    then have "sum_list (map snd ?xs) = sum_list (map snd evs)"
      by (metis sum_mset_sum_list)
    ultimately show ?thesis
      using that by (simp add: last_conv_nth hs o_def)
  qed
  moreover have "snd (?xs ! i) \<noteq> 0" if "i < length hs" for i
    using that history_nonzero [of "?xs ! i"] mset_lex_sorted [of evs]
    by (metis evs_def len mset_eq_setD nth_mem)
  then have "(\<forall>i<length hs. hp_score (hs ! i) = sum_list (map hp_delta (take (Suc i) hs)))
      \<longleftrightarrow> (\<forall>i<length ?xs. count_list (drop (Suc i) ?xs) (?xs ! i) = 0)"
    by (simp add: point len)
  moreover have "distinct ?xs \<longleftrightarrow> distinct evs"
    by (rule mset_eq_imp_distinct_iff [OF mset_lex_sorted])
  ultimately show ?thesis
    unfolding pairs not_distinct_later [of ?xs, symmetric]
    by (simp add: mset_lex_sorted lex_sorted_sorted)
qed

lemma blood_bonus_rows:
  assumes "store_ok l" "submit mode re now l inp = Inr (r, l')" "r_status r = StatusCorrect"
    "r_first_blood r" "get_challenge l (si_challenge inp) = Some ch" "ch_first_blood ch = ''bonus''"
    "ch_first_blood_bonus ch = Some v"
  shows "\<exists>w. solves l' = solves l @ [stamp now l inp ch] \<and> awards l' = awards l @ [w]
    \<and> aw_user w = ac_user (si_actor inp) \<and> aw_team w = ac_team (si_actor inp) \<and> aw_value w = v
    \<and> aw_date w = now \<and> r_value r = ch_value ch"
  using assms(1,2)
proof (cases rule: submit_InrE)
  case (Correct c m)
  have c: "c = ch" using Correct(1) assms(5) by simp
  show ?thesis
    by (rule after_solve_effect [OF Correct(6)])
      (use assms(4,6,7) in \<open>auto simp: c blood_award_def frame stamp_def\<close>)
qed (use assms(3) in \<open>simp_all add: bare_result_def\<close>)

text \<open>
  A first blood whose bonus equals its price draws both points of the curve at the full amount:
  solve and bonus are written in one transaction, so they carry the same date, and the point of the
  first of them already includes the other.
\<close>
theorem blood_bonus_points_tie:
  assumes "store_ok (ledger d)" "submit m re now (ledger d) inp = Inr (r, l')"
    "r_status r = StatusCorrect" "r_first_blood r"
    "get_challenge (ledger d) (si_challenge inp) = Some ch" "ch_first_blood ch = ''bonus''"
    "ch_first_blood_bonus ch = Some v" "ch_value ch = v" "v \<noteq> 0"
    "instance_mode d = Some mode"
    "account_column mode (ac_user (si_actor inp)) (ac_team (si_actor inp)) = Some a"
    "history_events d a True None = []"
  shows "score_history (d\<lparr>ledger := l'\<rparr>) a True None
    = [\<lparr>hp_date = now, hp_delta = v, hp_score = 2 * v\<rparr>, \<lparr>hp_date = now, hp_delta = v, hp_score = 2 * v\<rparr>]"
proof -
  obtain w where w: "solves l' = solves (ledger d) @ [stamp now (ledger d) inp ch]"
      "awards l' = awards (ledger d) @ [w]" "aw_user w = ac_user (si_actor inp)"
      "aw_team w = ac_team (si_actor inp)" "aw_value w = v" "aw_date w = now"
    using blood_bonus_rows [OF assms(1-7)] by auto
  have "history_events (d\<lparr>ledger := l'\<rparr>) a True None = [(now, v), (now, v)]"
    using assms(8-12)
    by (simp add: history_events_def scoring_def w stamp_def scored_def)
  then show ?thesis
    by (simp add: score_history_def get_score_history_def not_after_def)
qed

subsection \<open>Witnesses\<close>

text \<open>
  A users-mode directory over the sample event: 7 and 9 play, 8 is hidden, and 7 took the first blood
  of the warm-up for 100 points and a bonus of 25.
\<close>

definition scored_directory :: directory where
  "scored_directory =
    sample_directory\<lparr>instance_mode := Some ''users'',
      people := [sample_user 7 ''ann'' ''user'' None, (sample_user 8 ''bob'' ''user'' None)\<lparr>us_hidden := True\<rparr>,
        sample_user 9 ''cyd'' ''user'' None],
      rosters := [], next_user := 10,
      ledger := sample_db\<lparr>
        solves := [\<lparr>sv_id = 1, sv_submission = Some 1, sv_challenge = 1, sv_user = 7, sv_team = None,
          sv_value = 100, sv_date = 100\<rparr>],
        awards := [\<lparr>aw_id = 1, aw_user = 7, aw_team = None, aw_type = ''first_blood'',
          aw_challenge = Some 1, aw_name = ''First blood: warmup'', aw_description = None,
          aw_value = 25, aw_date = 100\<rparr>],
        next_submission := 2, next_solve := 2, next_award := 2\<rparr>\<rparr>"

lemmas scored_defs = scored_directory_def sample_directory_defs

lemma scored_keys: "keys_ok scored_directory"
  by (simp add: keys_ok_def scored_defs)

lemma scored_scoring: "scoring ''users'' cutoff (ledger scored_directory)
  = (if before_cutoff cutoff 100
     then [\<lparr>ev_account = 7, ev_value = 100, ev_at = 100\<rparr>, \<lparr>ev_account = 7, ev_value = 25, ev_at = 100\<rparr>]
     else [])"
  by (simp add: scoring_def scored_def account_column_def scored_directory_def)

theorem scoreboard_is_domain_board_witness:
  "board_as_of scored_directory 200 False None 0 = map unnamed (top ModeUsers scored_directory False None 0)"
proof -
  have fit: "sums_fit (scoring ''users'' cutoff (ledger scored_directory))" for cutoff
    by (simp add: scored_scoring sums_fit_def)
  have m: "instance_mode scored_directory = Some ''users''" by (simp add: scored_directory_def)
  have past: "list_all (\<lambda>s. sv_date s < 200) (solves (ledger scored_directory))"
    "list_all (\<lambda>a. aw_date a < 200) (awards (ledger scored_directory))"
    by (simp_all add: scored_directory_def)
  have users: "''users'' = mode_string ModeUsers" by simp
  show ?thesis
    using scoreboard_is_domain_board [OF scored_keys m users _ fit, of "\<lambda>xs. xs" False None 0 200] past
    by blast
qed

theorem board_score_is_balance_witness:
  "filter (\<lambda>r. be_account r = 7 \<and> be_score r \<noteq> get_account_score (ledger scored_directory) None 7)
    (top ModeUsers scored_directory True None 0) = []"
proof -
  have "user_mode (ledger scored_directory) = mode_string ModeUsers"
    by (simp add: scored_directory_def sample_db_def)
  moreover have "account_column (mode_string ModeUsers) 7 None = Some 7"
    by (simp add: account_column_def)
  moreover have "listed_row scored_directory (mode_string ModeUsers) (Entry 7 0 0) \<noteq> None"
    by (simp add: listed_row_def user_by_id_def scored_defs)
  ultimately show ?thesis
    using board_score_is_balance [OF scored_keys, of ModeUsers 7 None 7]
    unfolding filter_empty_conv by blast
qed

theorem frozen_board_ignores_later_play_witness:
  "scoreboard ModeUsers \<lparr>E = sample_event\<lparr>freeze_at := Some 150\<rparr>, P = sample_player,
       R = sample_request ClassScoreboard\<rparr>
     (scored_directory\<lparr>ledger := run_all (exec ModeUsers no_regex) [CSubmit 150 (attempt 1 9 ''flag'')]
        (ledger scored_directory)\<rparr>) \<lparr>sc_limit = 100, sc_as_of = 1000, sc_bracket = 0\<rparr>
   = scoreboard ModeUsers \<lparr>E = sample_event\<lparr>freeze_at := Some 150\<rparr>, P = sample_player,
       R = sample_request ClassScoreboard\<rparr>
     scored_directory \<lparr>sc_limit = 100, sc_as_of = 1000, sc_bracket = 0\<rparr>"
  by (rule frozen_board_ignores_later_play [where f = 150, THEN conjunct1])
    (simp_all add: sample_defs frozen_def freeze_exempt_def)

theorem history_totals_exact_witness:
  "score_history scored_directory 7 True None \<noteq> []
    \<and> hp_score (last (score_history scored_directory 7 True None)) = 125"
proof -
  let ?hs = "score_history scored_directory 7 True None"
  have evs: "history_events scored_directory 7 True None = [(100, 100), (100, 25)]"
    using scored_scoring [of None] by (simp add: history_events_def scored_directory_def before_cutoff_def)
  note exact = history_totals_exact [of scored_directory 7 True None]
  then have "mset (map (\<lambda>p. (hp_date p, hp_delta p)) ?hs) \<noteq> {#}" by (simp add: evs)
  then have "?hs \<noteq> []" by auto
  then show ?thesis using exact by (simp add: evs)
qed

text \<open>The same event with a bonus as large as the price.\<close>

definition doubled_db :: db where
  "doubled_db =
    sample_db\<lparr>challenges := [(sample_challenge 1)\<lparr>ch_first_blood_bonus := Some 100\<rparr>]\<rparr>"

definition doubled_challenge :: ChallengeRow where
  "doubled_challenge = (sample_challenge 1)\<lparr>ch_first_blood_bonus := Some 100\<rparr>"

definition after_doubled :: db where
  "after_doubled =
    (case submit_write 100 doubled_db (attempt 1 7 ''flag'') doubled_challenge
        \<lparr>m_correct = True, m_attributed = None\<rparr> of Inl _ \<Rightarrow> doubled_db | Inr (_, d) \<Rightarrow> d)"

lemma doubled_solve:
  "submit ModeUsers no_regex 100 doubled_db (attempt 1 7 ''flag'') =
    Inr (\<lparr>r_status = StatusCorrect, r_first_blood = True, r_value = 100, r_next_id = Some 2\<rparr>,
         after_doubled)"
proof -
  have "submit ModeUsers no_regex 100 doubled_db (attempt 1 7 ''flag'') =
    bind_result (attempts_gate doubled_db (player 7) doubled_challenge) (\<lambda>_.
      submit_write 100 doubled_db (attempt 1 7 ''flag'') doubled_challenge
        \<lparr>m_correct = (''flag'' = trim_space ''flag''), m_attributed = None\<rparr>)"
    by (rule sample_submit) code_simp+
  also have "\<dots> = Inr (\<lparr>r_status = StatusCorrect, r_first_blood = True, r_value = 100,
      r_next_id = Some 2\<rparr>, after_doubled)"
    by code_simp
  finally show ?thesis .
qed

theorem blood_bonus_points_tie_witness:
  "score_history (scored_directory\<lparr>ledger := after_doubled\<rparr>) 7 True None
    = [\<lparr>hp_date = 100, hp_delta = 100, hp_score = 200\<rparr>, \<lparr>hp_date = 100, hp_delta = 100, hp_score = 200\<rparr>]"
proof -
  let ?d = "scored_directory\<lparr>ledger := doubled_db\<rparr>"
  have l: "ledger ?d = doubled_db" by simp
  have ok: "store_ok doubled_db" by code_simp
  have ch: "get_challenge doubled_db (si_challenge (attempt 1 7 ''flag''))
      = Some doubled_challenge"
    by code_simp
  have none: "history_events ?d 7 True None = []"
    by (simp add: history_events_def scored_directory_def scoring_def doubled_db_def sample_db_def)
  have "score_history (?d\<lparr>ledger := after_doubled\<rparr>) 7 True None
    = [\<lparr>hp_date = 100, hp_delta = 100, hp_score = 2 * 100\<rparr>, \<lparr>hp_date = 100, hp_delta = 100, hp_score = 2 * 100\<rparr>]"
    by (rule blood_bonus_points_tie [where d = ?d and mode = "''users''", unfolded l, OF ok doubled_solve _ _ ch])
      (use none in \<open>simp_all add: doubled_challenge_def sample_challenge_def scored_directory_def account_column_def
        attempt_def player_def\<close>)
  then show ?thesis by simp
qed

end
