(* ===== verification/Catalog.thy ===== *)
theory Catalog
  imports Authoring Scoreboard
begin

section \<open>The challenge board as players read it (internal/catalog)\<close>

text \<open>
  The queries of \<open>catalog.sql\<close> that read for one viewer, and the service over them. They run on the
  tables the authors write (\<open>studio\<close>) and the ledger (\<open>play\<close>). A viewer is a user and his team, if
  any; \<open>cutoff\<close> is the freeze horizon, \<open>None\<close> for a live view. \<open>collate\<close> is the place of a text in
  the order of the database's collation and \<open>cast\<close> what its \<open>::bigint\<close> makes of a text, both the
  database's own.
\<close>

datatype catalog_error =
    ErrViewNotFound
  | ErrViewRequirements prereq_error
  | ErrViewFlagMode flags_error
  | ErrViewSql
  | ErrViewValue sql_error

subsection \<open>Prerequisites in SQL\<close>

text \<open>
  \<open>jsonb_array_elements_text(requirements -> 'prerequisites')\<close>: a \<open>jsonb\<close> object keeps the last of
  several members of one name, a document that is no object has none, and a member that is not an
  array is an error. Elements are cast and looked up in order until one is unmet; a NULL never
  equals anything.
\<close>

definition json_member :: "string \<Rightarrow> raw \<Rightarrow> json option" where
  "json_member name r =
    (case r of RawDoc (JObject ms) \<Rightarrow> map_of (rev ms) name | _ \<Rightarrow> None)"

definition element_id :: "(string \<Rightarrow> int option) \<Rightarrow> json \<Rightarrow> (catalog_error, id option) result" where
  "element_id cast j =
    (case j of
       JNull \<Rightarrow> Inr None
     | JInt n \<Rightarrow> if in_i64 n then Inr (Some n) else Inl ErrViewSql
     | JNumber t \<Rightarrow> (case cast t of None \<Rightarrow> Inl ErrViewSql | Some n \<Rightarrow> Inr (Some n))
     | JString t \<Rightarrow> (case cast t of None \<Rightarrow> Inl ErrViewSql | Some n \<Rightarrow> Inr (Some n))
     | _ \<Rightarrow> Inl ErrViewSql)"

fun all_met :: "(string \<Rightarrow> int option) \<Rightarrow> (id \<Rightarrow> bool) \<Rightarrow> json list \<Rightarrow> (catalog_error, bool) result" where
  "all_met cast have [] = Inr True"
| "all_met cast have (j # js) =
    bind_result (element_id cast j) (\<lambda>i.
      case i of
        None \<Rightarrow> Inr False
      | Some i \<Rightarrow> if have i then all_met cast have js else Inr False)"

definition prerequisites_met ::
  "(string \<Rightarrow> int option) \<Rightarrow> (id \<Rightarrow> bool) \<Rightarrow> raw \<Rightarrow> (catalog_error, bool) result" where
  "prerequisites_met cast have r =
    (case json_member ''prerequisites'' r of
       None \<Rightarrow> Inr True
     | Some (JArray js) \<Rightarrow> all_met cast have js
     | Some _ \<Rightarrow> Inl ErrViewSql)"

subsection \<open>The projection of a challenge for a viewer\<close>

definition has_solve :: "db \<Rightarrow> id \<Rightarrow> id option \<Rightarrow> id \<Rightarrow> bool" where
  "has_solve l user team i =
    list_ex (\<lambda>s. sv_challenge s = i \<and> scoped l user team (sv_user s) (sv_team s)) (solves l)"

definition solve_count :: "db \<Rightarrow> time option \<Rightarrow> id \<Rightarrow> int" where
  "solve_count l cutoff i =
    int (length (filter (\<lambda>s. sv_challenge s = i \<and> before_cutoff cutoff (sv_date s)
                            \<and> eligible l (sv_user s) (sv_team s)) (solves l)))"

text \<open>
  A frozen viewer is quoted the price at the frozen count, by the arithmetic that
  \<open>RecalcChallengeValue\<close> writes.
\<close>

definition quoted_value :: "time option \<Rightarrow> Challenge \<Rightarrow> int \<Rightarrow> (catalog_error, int) result" where
  "quoted_value cutoff c n =
    (if cutoff = None \<or> cg_function c = ''static'' then Inr (cg_value c)
     else case recalc_value (curve_of (game_row c)) n of
            Inl e \<Rightarrow> Inl (ErrViewValue e)
          | Inr v \<Rightarrow> Inr v)"

record Projection =
  pj_value :: int
  pj_solve_count :: int
  pj_solved :: bool
  pj_met :: bool

definition project ::
  "(string \<Rightarrow> int option) \<Rightarrow> db \<Rightarrow> id \<Rightarrow> id option \<Rightarrow> time option \<Rightarrow> Challenge
    \<Rightarrow> (catalog_error, Projection) result" where
  "project cast l user team cutoff c =
    bind_result (quoted_value cutoff c (solve_count l cutoff (cg_id c))) (\<lambda>v.
    bind_result (prerequisites_met cast (has_solve l user team) (cg_requirements c)) (\<lambda>met.
      Inr \<lparr>pj_value = v, pj_solve_count = solve_count l cutoff (cg_id c),
           pj_solved = has_solve l user team (cg_id c), pj_met = met\<rparr>))"

fun map_rows :: "('a \<Rightarrow> ('e, 'b) result) \<Rightarrow> 'a list \<Rightarrow> ('e, ('a \<times> 'b) list) result" where
  "map_rows f [] = Inr []"
| "map_rows f (x # xs) =
    bind_result (f x) (\<lambda>y. bind_result (map_rows f xs) (\<lambda>ys. Inr ((x, y) # ys)))"

definition board_order :: "(string \<Rightarrow> int) \<Rightarrow> Challenge list \<Rightarrow> Challenge list" where
  "board_order collate cs =
    sort_key (\<lambda>c. collate (cg_category c)) (sort_key cg_position (sort_key cg_id cs))"

definition list_challenges ::
  "(string \<Rightarrow> int) \<Rightarrow> (string \<Rightarrow> int option) \<Rightarrow> studio \<Rightarrow> id \<Rightarrow> id option \<Rightarrow> time option
    \<Rightarrow> (catalog_error, (Challenge \<times> Projection) list) result" where
  "list_challenges collate cast s user team cutoff =
    map_rows (project cast (play s) user team cutoff)
      (board_order collate (filter (\<lambda>c. cg_state c = ''visible'') (sheets s)))"

definition get_challenge_for_view ::
  "(string \<Rightarrow> int option) \<Rightarrow> studio \<Rightarrow> id \<Rightarrow> id \<Rightarrow> id option \<Rightarrow> time option
    \<Rightarrow> (catalog_error, (Challenge \<times> Projection) option) result" where
  "get_challenge_for_view cast s i user team cutoff =
    (case find (\<lambda>c. cg_id c = i \<and> cg_state c = ''visible'') (sheets s) of
       None \<Rightarrow> Inr None
     | Some c \<Rightarrow> bind_result (project cast (play s) user team cutoff c) (\<lambda>p. Inr (Some (c, p))))"

text \<open>\<open>ORDER BY challenge, key\<close>, the keys of one challenge told apart by the table.\<close>

definition list_visible_annotations ::
  "(string \<Rightarrow> int) \<Rightarrow> studio \<Rightarrow> (id \<times> string \<times> string) list" where
  "list_visible_annotations collate s =
    map (\<lambda>a. (an_of a, an_key a, an_value a))
      (sort_key an_of (sort_key (\<lambda>a. collate (an_key a))
        (filter (\<lambda>a. list_ex (\<lambda>c. cg_id c = an_of a \<and> cg_state c = ''visible'') (sheets s))
          (annotations s))))"

subsection \<open>Hints\<close>

record HintView =
  hv_id :: id
  hv_title :: "string option"
  hv_cost :: int
  hv_unlocked :: bool
  hv_locked :: bool
  hv_content :: "string option"

definition has_unlock :: "db \<Rightarrow> id \<Rightarrow> id option \<Rightarrow> id \<Rightarrow> bool" where
  "has_unlock l user team h =
    list_ex (\<lambda>u. hu_hint u = h \<and> scoped l user team (hu_user u) (hu_team u)) (unlocks l)"

text \<open>The CTE \<open>mine\<close>: the viewer's unlocks joined to the hints they are of.\<close>

definition my_unlocks :: "studio \<Rightarrow> id \<Rightarrow> id option \<Rightarrow> id \<Rightarrow> (id \<times> string) list" where
  "my_unlocks s user team i =
    [(hu_hint u, h_content h). u \<leftarrow> unlocks (play s), h \<leftarrow> hint_rows s,
       h_id h = hu_hint u \<and> h_challenge h = i \<and> scoped (play s) user team (hu_user u) (hu_team u)]"

definition hint_views ::
  "(string \<Rightarrow> int option) \<Rightarrow> studio \<Rightarrow> id \<Rightarrow> id option \<Rightarrow> id \<Rightarrow> AuthoredHint
    \<Rightarrow> (catalog_error, HintView list) result" where
  "hint_views cast s user team i h =
    bind_result (prerequisites_met cast (has_unlock (play s) user team) (h_requirements h)) (\<lambda>met.
      let row = (\<lambda>content.
        \<lparr>hv_id = h_id h, hv_title = h_title h, hv_cost = h_cost h, hv_unlocked = (content \<noteq> None),
         hv_locked = (\<not> met), hv_content = content\<rparr>);
        bought = filter (\<lambda>(j, _). j = h_id h) (my_unlocks s user team i)
      in Inr (if bought = [] then [row None] else map (\<lambda>(_, t). row (Some t)) bought))"

definition list_challenge_hints ::
  "(string \<Rightarrow> int option) \<Rightarrow> studio \<Rightarrow> id \<Rightarrow> id \<Rightarrow> id option
    \<Rightarrow> (catalog_error, HintView list) result" where
  "list_challenge_hints cast s i user team =
    bind_result
      (map_rows (hint_views cast s user team i)
        (sort_key h_position (sort_key h_id (filter (\<lambda>h. h_challenge h = i) (hint_rows s)))))
      (\<lambda>rows. Inr (concat (map snd rows)))"

subsection \<open>The board\<close>

text \<open>A Go map of annotations is a function to options.\<close>

record Listing =
  li_id :: id
  li_name :: string
  li_category :: string
  li_value :: int
  li_function :: string
  li_solve_count :: int
  li_solved :: bool
  li_locked :: bool
  li_annotations :: "string \<Rightarrow> string option"

definition locked_name :: string where "locked_name = ''???''"

definition annotations_of :: "(id \<times> string \<times> string) list \<Rightarrow> id \<Rightarrow> string \<Rightarrow> string option" where
  "annotations_of rows i = map_of (map snd (rev (filter (\<lambda>(j, _). j = i) rows)))"

fun listings ::
  "(id \<times> string \<times> string) list \<Rightarrow> (Challenge \<times> Projection) list
    \<Rightarrow> (catalog_error, Listing list) result" where
  "listings notes [] = Inr []"
| "listings notes ((c, p) # rows) =
    (let item = \<lparr>li_id = cg_id c, li_name = cg_name c, li_category = cg_category c,
           li_value = pj_value p, li_function = cg_function c, li_solve_count = pj_solve_count p,
           li_solved = pj_solved p, li_locked = False, li_annotations = annotations_of notes (cg_id c)\<rparr>
     in if pj_met p then bind_result (listings notes rows) (\<lambda>items. Inr (item # items))
        else
          (case parse (cg_requirements c) of
             Inl e \<Rightarrow> Inl (ErrViewRequirements e)
           | Inr reqs \<Rightarrow>
               if \<not> visible (visibility reqs) then listings notes rows
               else
                 bind_result (listings notes rows) (\<lambda>items.
                   Inr (item\<lparr>li_locked := True, li_annotations := (\<lambda>_. None),
                       li_name := (if visibility reqs = Masked then locked_name else cg_name c)\<rparr>
                     # items))))"

definition catalog_list ::
  "(string \<Rightarrow> int) \<Rightarrow> (string \<Rightarrow> int option) \<Rightarrow> studio \<Rightarrow> id \<Rightarrow> id option \<Rightarrow> time option
    \<Rightarrow> (catalog_error, Listing list) result" where
  "catalog_list collate cast s user team cutoff =
    bind_result (list_challenges collate cast s user team cutoff)
      (listings (list_visible_annotations collate s))"

subsection \<open>One challenge\<close>

record ChallengeView =
  vw_id :: id
  vw_name :: string
  vw_category :: string
  vw_description :: string
  vw_attribution :: "string option"
  vw_connection_info :: "string option"
  vw_type :: string
  vw_value :: int
  vw_function :: string
  vw_max_attempts :: int
  vw_state :: string
  vw_solve_count :: int
  vw_solved :: bool
  vw_locked :: bool
  vw_flag_mode :: FlagMode
  vw_next_id :: "id option"

record Detail =
  dt_challenge :: ChallengeView
  dt_tags :: "string list"
  dt_annotations :: "string \<Rightarrow> string option"
  dt_files :: "(id \<times> string \<times> int) list"
  dt_hints :: "HintView list"

text \<open>The stub of a locked challenge: nothing that helps solve it.\<close>

definition locked_detail :: "Challenge \<Rightarrow> Projection \<Rightarrow> FlagMode \<Rightarrow> Visibility \<Rightarrow> Detail" where
  "locked_detail c p mode vis =
    \<lparr>dt_challenge =
       \<lparr>vw_id = cg_id c, vw_name = (if vis = Masked then locked_name else cg_name c),
        vw_category = cg_category c, vw_description = '''', vw_attribution = None,
        vw_connection_info = None, vw_type = cg_type c, vw_value = pj_value p,
        vw_function = cg_function c, vw_max_attempts = cg_max_attempts c, vw_state = cg_state c,
        vw_solve_count = pj_solve_count p, vw_solved = pj_solved p, vw_locked = True,
        vw_flag_mode = mode, vw_next_id = None\<rparr>,
     dt_tags = [], dt_annotations = (\<lambda>_. None), dt_files = [], dt_hints = []\<rparr>"

definition open_detail ::
  "(string \<Rightarrow> int) \<Rightarrow> (string \<Rightarrow> int option) \<Rightarrow> studio \<Rightarrow> id \<Rightarrow> id option \<Rightarrow> Challenge \<Rightarrow> Projection
    \<Rightarrow> FlagMode \<Rightarrow> (catalog_error, Detail) result" where
  "open_detail collate cast s user team c p mode =
    bind_result (list_challenge_hints cast s (cg_id c) user team) (\<lambda>hs.
      Inr \<lparr>dt_challenge =
         \<lparr>vw_id = cg_id c, vw_name = cg_name c, vw_category = cg_category c,
          vw_description = cg_description c, vw_attribution = cg_attribution c,
          vw_connection_info = cg_connection_info c, vw_type = cg_type c, vw_value = pj_value p,
          vw_function = cg_function c, vw_max_attempts = cg_max_attempts c, vw_state = cg_state c,
          vw_solve_count = pj_solve_count p, vw_solved = pj_solved p, vw_locked = False,
          vw_flag_mode = mode, vw_next_id = cg_next_id c\<rparr>,
       dt_tags = list_challenge_tags collate s (cg_id c),
       dt_annotations = map_of (rev (admin_list_challenge_annotations collate s (cg_id c))),
       dt_files = map (\<lambda>f. (fi_id f, fi_name f, fi_size f)) (list_challenge_files s (cg_id c)),
       dt_hints = hs\<rparr>)"

definition catalog_detail ::
  "(string \<Rightarrow> int) \<Rightarrow> (string \<Rightarrow> int option) \<Rightarrow> studio \<Rightarrow> id \<Rightarrow> id \<Rightarrow> id option \<Rightarrow> time option
    \<Rightarrow> (catalog_error, Detail) result" where
  "catalog_detail collate cast s i user team cutoff =
    bind_result (get_challenge_for_view cast s i user team cutoff) (\<lambda>row.
      case row of
        None \<Rightarrow> Inl ErrViewNotFound
      | Some (c, p) \<Rightarrow>
          (case parse_flag_mode (cg_flag_mode c) of
             Inl e \<Rightarrow> Inl (ErrViewFlagMode e)
           | Inr mode \<Rightarrow>
               if pj_met p then open_detail collate cast s user team c p mode
               else
                 (case parse (cg_requirements c) of
                    Inl e \<Rightarrow> Inl (ErrViewRequirements e)
                  | Inr reqs \<Rightarrow>
                      if \<not> visible (visibility reqs) then Inl ErrViewNotFound
                      else Inr (locked_detail c p mode (visibility reqs)))))"

end
