(* ===== verification/Solve_List.thy ===== *)
theory Solve_List
  imports Catalog Sample_Directory Sample_Event
begin

section \<open>Who solved a challenge, page by page (internal/catalog, ListChallengeSolves)\<close>

text \<open>
  One page of a challenge's solves, oldest first, resumed after the (date, id) of the last row the
  page before it read. Names come from the account tables of a directory, the solves and the
  challenges from its ledger.
\<close>

subsection \<open>The query\<close>

record SolveListRow =
  sl_solve :: "id option"
  sl_name :: string
  sl_value :: int
  sl_date :: "time option"
  sl_shown :: bool

text \<open>The account a solve is shown under, if it is visible.\<close>

definition solver_name :: "directory \<Rightarrow> string \<Rightarrow> SolveRow \<Rightarrow> string option" where
  "solver_name d mode s =
    (if mode = ''users''
     then map_option us_name
       (find (\<lambda>u. us_id u = sv_user s \<and> \<not> us_hidden u \<and> \<not> us_banned u) (people d))
     else if mode = ''teams''
     then map_option tm_name
       (find (\<lambda>t. eq_id (Some (tm_id t)) (sv_team s) \<and> \<not> tm_hidden t \<and> \<not> tm_banned t) (rosters d))
     else None)"

definition solve_list_row :: "directory \<Rightarrow> string \<Rightarrow> SolveRow \<Rightarrow> SolveListRow" where
  "solve_list_row d mode s =
    \<lparr>sl_solve = Some (sv_id s), sl_name = coalesce (solver_name d mode s) '''', sl_value = sv_value s,
     sl_date = Some (sv_date s), sl_shown = (solver_name d mode s \<noteq> None)\<rparr>"

text \<open>The challenge's own row, of a LEFT JOIN that matched no solve.\<close>

definition no_solve_row :: SolveListRow where
  "no_solve_row = \<lparr>sl_solve = None, sl_name = '''', sl_value = 0, sl_date = None, sl_shown = False\<rparr>"

definition after_cursor :: "(time \<times> id) option \<Rightarrow> SolveRow \<Rightarrow> bool" where
  "after_cursor cursor s =
    (case cursor of
       None \<Rightarrow> True
     | Some (t, i) \<Rightarrow> t < sv_date s \<or> sv_date s = t \<and> i < sv_id s)"

definition listed_solves :: "directory \<Rightarrow> id \<Rightarrow> time option \<Rightarrow> (time \<times> id) option \<Rightarrow> SolveRow list" where
  "listed_solves d i cutoff cursor =
    sort_key sv_date (sort_key sv_id
      (filter (\<lambda>s. sv_challenge s = i \<and> before_cutoff cutoff (sv_date s) \<and> after_cursor cursor s)
        (solves (ledger d))))"

definition list_challenge_solves ::
  "directory \<Rightarrow> id \<Rightarrow> time option \<Rightarrow> (time \<times> id) option \<Rightarrow> int \<Rightarrow> SolveListRow list" where
  "list_challenge_solves d i cutoff cursor lim =
    (case instance_mode d of
       None \<Rightarrow> []
     | Some mode \<Rightarrow>
         if get_challenge (ledger d) i = None then []
         else take (nat lim)
           (if listed_solves d i cutoff cursor = [] then [no_solve_row]
            else map (solve_list_row d mode) (listed_solves d i cutoff cursor)))"

subsection \<open>The service\<close>

record SolvesPage =
  sp_rows :: "SolveEntry list"
  sp_next :: "(time \<times> id) option"

definition shown_entries :: "SolveListRow list \<Rightarrow> SolveEntry list" where
  "shown_entries rows =
    map (\<lambda>r. \<lparr>se_name = sl_name r, se_value = sl_value r, se_date = coalesce (sl_date r) zero_time\<rparr>)
      (filter sl_shown rows)"

definition catalog_solves ::
  "directory \<Rightarrow> id \<Rightarrow> time option \<Rightarrow> (time \<times> id) option \<Rightarrow> int
    \<Rightarrow> (catalog_error, SolvesPage) result" where
  "catalog_solves d i cutoff after limit =
    (let rows = list_challenge_solves d i cutoff after (i32 limit) in
     if rows = [] then Inl ErrViewNotFound
     else Inr
       \<lparr>sp_rows = shown_entries rows,
        sp_next =
          (case sl_solve (last rows) of
             Some solve \<Rightarrow>
               if int (length rows) = limit
               then Some (coalesce (sl_date (last rows)) zero_time, solve) else None
           | None \<Rightarrow> None)\<rparr>)"

text \<open>What a client does that follows \<open>Next\<close> to the end, with fuel.\<close>

fun follow :: "nat \<Rightarrow> directory \<Rightarrow> id \<Rightarrow> time option \<Rightarrow> int \<Rightarrow> (time \<times> id) option
    \<Rightarrow> SolveEntry list list option" where
  "follow 0 d i cutoff limit cursor = None"
| "follow (Suc n) d i cutoff limit cursor =
    (case catalog_solves d i cutoff cursor limit of
       Inl _ \<Rightarrow> None
     | Inr page \<Rightarrow>
         (case sp_next page of
            None \<Rightarrow> Some [sp_rows page]
          | Some next' \<Rightarrow> map_option (Cons (sp_rows page)) (follow n d i cutoff limit (Some next'))))"

subsection \<open>Pages cover the list\<close>

definition solve_key_less :: "SolveRow \<Rightarrow> SolveRow \<Rightarrow> bool" where
  "solve_key_less x y \<longleftrightarrow> sv_date x < sv_date y \<or> sv_date x = sv_date y \<and> sv_id x < sv_id y"

lemma solve_keys_sorted:
  assumes "distinct (map sv_id xs)"
  shows "sorted_wrt solve_key_less (sort_key sv_date (sort_key sv_id xs))"
proof -
  have "sorted_wrt solve_key_less ys" if "sorted_wrt (lex_le sv_date sv_id) ys" "distinct (map sv_id ys)" for ys
    using that by (induction ys) (auto simp: solve_key_less_def lex_le_def order_less_le)
  moreover have "mset (map sv_id (sort_key sv_date (sort_key sv_id xs))) = mset (map sv_id xs)" by simp
  then have "distinct (map sv_id (sort_key sv_date (sort_key sv_id xs)))"
    using assms by (metis mset_eq_imp_distinct_iff)
  ultimately show ?thesis using sort_key_lex by blast
qed

lemma listed_solves_sorted:
  "distinct (map sv_id (solves (ledger d))) \<Longrightarrow> sorted_wrt solve_key_less (listed_solves d i cutoff cursor)"
  by (simp add: listed_solves_def solve_keys_sorted distinct_map_filter)

lemma listed_solves_after:
  "listed_solves d i cutoff cursor = filter (after_cursor cursor) (listed_solves d i cutoff None)"
  by (simp add: listed_solves_def filter_sort after_cursor_def [of None] conj_ac)

text \<open>The cursor after the first \<open>m\<close> rows.\<close>

definition cursor_at :: "SolveRow list \<Rightarrow> nat \<Rightarrow> (time \<times> id) option" where
  "cursor_at xs m = (if m = 0 then None else Some (sv_date (xs ! (m - 1)), sv_id (xs ! (m - 1))))"

lemma after_cursor_drop:
  assumes "sorted_wrt solve_key_less xs" "m \<le> length xs"
  shows "filter (after_cursor (cursor_at xs m)) xs = drop m xs"
proof (cases m)
  case 0
  then show ?thesis by (simp add: cursor_at_def after_cursor_def)
next
  case (Suc k)
  define p where "p = after_cursor (cursor_at xs m)"
  have p: "p y \<longleftrightarrow> solve_key_less (xs ! k) y" for y
    by (auto simp: p_def Suc cursor_at_def after_cursor_def solve_key_less_def)
  have "\<not> p (xs ! j)" if "j < m" for j
    using that Suc assms sorted_wrt_nth_less [OF assms(1), of j k]
    by (cases "j = k") (auto simp: p solve_key_less_def)
  then have "filter p (take m xs) = []"
    using assms(2) by (auto simp: filter_empty_conv in_set_conv_nth)
  moreover have "p (xs ! j)" if "m \<le> j" "j < length xs" for j
    using that Suc sorted_wrt_nth_less [OF assms(1), of k j] by (simp add: p)
  then have "filter p (drop m xs) = drop m xs"
    by (auto simp: filter_id_conv in_set_conv_nth)
  moreover have "filter p xs = filter p (take m xs) @ filter p (drop m xs)"
    by (metis append_take_drop_id filter_append)
  ultimately show ?thesis by (simp add: p_def)
qed

lemma shown_entries_append: "shown_entries (rs @ qs) = shown_entries rs @ shown_entries qs"
  by (simp add: shown_entries_def)

lemma catalog_page:
  assumes "list_challenge_solves d i cutoff cursor (i32 limit) = map (solve_list_row d mode) pg" "pg \<noteq> []"
  shows "catalog_solves d i cutoff cursor limit = Inr
    \<lparr>sp_rows = shown_entries (map (solve_list_row d mode) pg),
     sp_next = (if int (length pg) = limit then Some (sv_date (last pg), sv_id (last pg)) else None)\<rparr>"
  using assms by (simp add: catalog_solves_def last_map solve_list_row_def coalesce_def Let_def)

lemma one_page:
  fixes cutoff
  assumes d: "instance_mode d = Some mode" "get_challenge (ledger d) i \<noteq> None"
    and keys: "distinct (map sv_id (solves (ledger d)))" and lim: "1 \<le> limit" "limit < 2147483648"
  defines "xs \<equiv> listed_solves d i cutoff None"
  assumes m: "m \<le> length xs"
  shows "catalog_solves d i cutoff (cursor_at xs m) limit = Inr
    \<lparr>sp_rows = shown_entries (map (solve_list_row d mode) (take (nat limit) (drop m xs))),
     sp_next = (if nat limit \<le> length xs - m then cursor_at xs (m + nat limit) else None)\<rparr>"
proof -
  have rest: "listed_solves d i cutoff (cursor_at xs m) = drop m xs"
    unfolding xs_def
    by (subst listed_solves_after)
      (use after_cursor_drop [OF listed_solves_sorted [OF keys], of m i cutoff None] m in \<open>simp add: xs_def\<close>)
  have l: "i32 limit = limit" using lim by (simp add: i32_def)
  show ?thesis
  proof (cases "drop m xs = []")
    case True
    then show ?thesis
      using d lim by (auto simp: catalog_solves_def list_challenge_solves_def rest l shown_entries_def
          no_solve_row_def)
  next
    case False
    let ?page = "take (nat limit) (drop m xs)"
    have rows: "list_challenge_solves d i cutoff (cursor_at xs m) (i32 limit)
        = map (solve_list_row d mode) ?page"
      using d False by (auto simp: list_challenge_solves_def rest l take_map)
    have ne: "?page \<noteq> []" using False lim by simp
    then have len: "0 < length ?page" by simp
    have "length ?page \<le> nat limit" by simp
    then have short: "length ?page - 1 < nat limit" using len by linarith
    have "last ?page = ?page ! (length ?page - 1)" using ne by (rule last_conv_nth)
    also have "\<dots> = drop m xs ! (length ?page - 1)"
      using short by (rule nth_take)
    also have "\<dots> = xs ! (m + (length ?page - 1))" using m by (rule nth_drop)
    finally have last: "last ?page = xs ! (m + length ?page - 1)"
      using len by (simp only: Nat.add_diff_assoc Suc_leI One_nat_def)
    have full: "int (length ?page) = limit \<longleftrightarrow> nat limit \<le> length xs - m"
      using lim by auto
    have "cursor_at xs (m + nat limit) = Some (sv_date (last ?page), sv_id (last ?page))"
      if "nat limit \<le> length xs - m"
    proof -
      have "length ?page = nat limit" using that by simp
      then show ?thesis using lim by (simp add: last cursor_at_def)
    qed
    then have "(if int (length ?page) = limit then Some (sv_date (last ?page), sv_id (last ?page)) else None)
        = (if nat limit \<le> length xs - m then cursor_at xs (m + nat limit) else None)"
      by (auto simp only: full split: if_split)
    then show ?thesis by (simp only: catalog_page [OF rows ne])
  qed
qed

lemma follow_pages:
  fixes cutoff
  assumes d: "instance_mode d = Some mode" "get_challenge (ledger d) i \<noteq> None"
    and keys: "distinct (map sv_id (solves (ledger d)))" and lim: "1 \<le> limit" "limit < 2147483648"
  defines "xs \<equiv> listed_solves d i cutoff None"
  shows "m \<le> length xs \<Longrightarrow> length xs - m < n \<Longrightarrow>
    \<exists>ps. follow n d i cutoff limit (cursor_at xs m) = Some ps
      \<and> concat ps = shown_entries (map (solve_list_row d mode) (drop m xs))
      \<and> length ps = Suc ((length xs - m) div nat limit) \<and> (\<forall>p\<in>set ps. length p \<le> nat limit)"
proof (induction n arbitrary: m)
  case (Suc n)
  note page = one_page [OF d keys lim, of m cutoff, folded xs_def, OF Suc.prems(1)]
  have short: "length (shown_entries (map (solve_list_row d mode) (take (nat limit) ys))) \<le> nat limit" for ys
    by (simp add: shown_entries_def) (metis length_filter_le length_map length_take min.bounded_iff)
  show ?case
  proof (cases "nat limit \<le> length xs - m")
    case True
    let ?m = "m + nat limit"
    have "?m \<le> length xs" "length xs - ?m < n" using True Suc.prems lim by linarith+
    from Suc.IH [OF this] obtain ps where ps: "follow n d i cutoff limit (cursor_at xs ?m) = Some ps"
      "concat ps = shown_entries (map (solve_list_row d mode) (drop ?m xs))"
      "length ps = Suc ((length xs - ?m) div nat limit)" "\<forall>p\<in>set ps. length p \<le> nat limit"
      by blast
    have "cursor_at xs ?m \<noteq> None" using lim by (simp add: cursor_at_def)
    moreover have "(length xs - m) div nat limit = Suc ((length xs - ?m) div nat limit)"
      using True lim by (simp add: le_div_geq diff_diff_left)
    moreover have "drop m xs = take (nat limit) (drop m xs) @ drop ?m xs"
      by (metis add.commute append_take_drop_id drop_drop)
    from arg_cong [OF this, of "\<lambda>ys. shown_entries (map (solve_list_row d mode) ys)"]
    have "shown_entries (map (solve_list_row d mode) (drop m xs))
        = shown_entries (map (solve_list_row d mode) (take (nat limit) (drop m xs))) @ concat ps"
      by (simp only: ps(2) map_append shown_entries_append)
    ultimately show ?thesis
      using page True ps short by (auto split: option.splits)
  next
    case False
    then show ?thesis
      using page lim short [of "drop m xs"] by (auto simp: min_def)
  qed
qed simp

subsection \<open>Properties\<close>

text \<open>
  Following the cursor of a solve list from its first page ends, after one page more than full
  pages fit, and the pages put together are the challenge's solves before the freeze, oldest first,
  each once, less those of accounts that are hidden or banned; a page never exceeds the limit, and
  a page whose solvers are all hidden is empty without ending the list. The answer is a not-found
  exactly when the challenge is not visible.
\<close>
theorem solve_pages_cover_list:
  assumes "instance_mode d = Some mode" "distinct (map sv_id (solves (ledger d)))"
    "1 \<le> limit" "limit < 2147483648"
  shows "if get_challenge (ledger d) i = None
    then catalog_solves d i cutoff cursor limit = Inl ErrViewNotFound
    else \<exists>ps. follow (Suc (length (listed_solves d i cutoff None))) d i cutoff limit None = Some ps
      \<and> concat ps = shown_entries (map (solve_list_row d mode) (listed_solves d i cutoff None))
      \<and> length ps = Suc (length (listed_solves d i cutoff None) div nat limit)
      \<and> (\<forall>p\<in>set ps. length p \<le> nat limit)
      \<and> sorted_wrt solve_key_less (listed_solves d i cutoff None)
      \<and> set (listed_solves d i cutoff None)
          = {s \<in> set (solves (ledger d)). sv_challenge s = i \<and> before_cutoff cutoff (sv_date s)}"
proof (cases "get_challenge (ledger d) i = None")
  case visible: False
  have "set (listed_solves d i cutoff None)
      = {s \<in> set (solves (ledger d)). sv_challenge s = i \<and> before_cutoff cutoff (sv_date s)}"
    by (auto simp: listed_solves_def after_cursor_def)
  moreover have "cursor_at xs 0 = None" for xs by (simp add: cursor_at_def)
  ultimately show ?thesis
    using follow_pages [OF assms(1) visible assms(2-4), of 0 cutoff
        "Suc (length (listed_solves d i cutoff None))"] listed_solves_sorted [OF assms(2), of i cutoff None]
    by (simp add: visible)
qed (use assms in \<open>simp add: catalog_solves_def list_challenge_solves_def\<close>)

text \<open>
  Two solves of one instant, the first by a hidden account, read one by one: an empty page, the page
  of the second, and the empty last page.
\<close>

definition solved_directory :: directory where
  "solved_directory =
    sample_directory\<lparr>instance_mode := Some ''users'',
      people := [(sample_user 8 ''bob'' ''user'' None)\<lparr>us_hidden := True\<rparr>, sample_user 9 ''cyd'' ''user'' None],
      rosters := [], next_user := 10,
      ledger := sample_db\<lparr>
        solves := [\<lparr>sv_id = 1, sv_submission = Some 1, sv_challenge = 1, sv_user = 8, sv_team = None,
          sv_value = 100, sv_date = 100\<rparr>,
          \<lparr>sv_id = 2, sv_submission = Some 2, sv_challenge = 1, sv_user = 9, sv_team = None,
          sv_value = 90, sv_date = 100\<rparr>]\<rparr>\<rparr>"

theorem solve_pages_cover_list_witness:
  "\<exists>ps. follow 3 solved_directory 1 None 1 None = Some ps \<and> length ps = 3
    \<and> concat ps = [\<lparr>se_name = ''cyd'', se_value = 90, se_date = 100\<rparr>]"
proof -
  have rows: "listed_solves solved_directory 1 None None = solves (ledger solved_directory)"
    by (simp add: listed_solves_def solved_directory_def after_cursor_def before_cutoff_def)
  have "get_challenge (ledger solved_directory) 1 \<noteq> None"
    by (simp add: get_challenge_def solved_directory_def sample_db_def sample_challenge_def)
  moreover have "distinct (map sv_id (solves (ledger solved_directory)))"
    "length (solves (ledger solved_directory)) = 2"
    by (simp_all add: solved_directory_def)
  moreover have "shown_entries (map (solve_list_row solved_directory ''users'') (solves (ledger solved_directory)))
      = [\<lparr>se_name = ''cyd'', se_value = 90, se_date = 100\<rparr>]"
    by (simp add: shown_entries_def solve_list_row_def solver_name_def coalesce_def sample_directory_defs
        solved_directory_def)
  moreover have "instance_mode solved_directory = Some ''users''" by (simp add: solved_directory_def)
  ultimately show ?thesis
    using solve_pages_cover_list [of solved_directory "''users''" 1 1 None] by (auto simp: rows numeral_3_eq_3)
qed

end
