(* ===== verification/Catalog_Properties.thy ===== *)
theory Catalog_Properties
  imports Solve_List Authoring_Properties Scoreboard_Properties
begin

section \<open>Properties of the challenge board\<close>

text \<open>
  The board and the gates of game play agree on what is locked, a locked challenge shows nothing of
  its content, a hint's text is shown to who bought it, and a frozen viewer's board does not move
  with what others do after the freeze.
\<close>

subsection \<open>Prerequisites: the SQL and the Go reading of a document\<close>

lemma all_met_ints:
  "list_all in_i64 ids \<Longrightarrow> all_met cast have (map JInt ids) = Inr (list_all have ids)"
  by (induction ids) (auto simp: element_id_def)

lemma prerequisites_met_written:
  assumes "list_all in_i64 (prerequisites r)" "visibility r \<in> {Hidden, Masked, Preview}"
  shows "prerequisites_met cast have (RawDoc (encode r)) = Inr (list_all have (prerequisites r))"
proof -
  have "json_member ''prerequisites'' (RawDoc (encode r))
      = (if prerequisites r = [] then None else Some (JArray (map JInt (prerequisites r))))"
    using assms(2) by (auto simp: json_member_def encode_def)
  then show ?thesis
    using all_met_ints [OF assms(1)] by (simp add: prerequisites_met_def)
qed

lemma doc_reads:
  assumes "doc_ok i r"
  obtains reqs where "parse r = Inr reqs" "visibility reqs \<in> {Hidden, Masked, Preview}"
    "\<And>cast have. prerequisites_met cast have r = Inr (list_all have (prerequisites reqs))"
proof -
  obtain reqs where r: "r = RawDoc (encode reqs)" "list_all in_i64 (prerequisites reqs)"
    "visibility reqs \<in> {Hidden, Masked, Preview}"
    using assms by (auto simp: doc_ok_def)
  show thesis
    by (rule that [of reqs])
      (use r parse_encode [of reqs] prerequisites_met_written [OF r(2,3)] in simp_all)
qed

lemma scoped_game [simp]: "scoped (game s) = scoped (studio.play s)"
  by (intro ext) (simp add: scoped_def game_def)

lemma solved_by_has_solve:
  "solved_by (game s) \<lparr>ac_user = u, ac_team = t, ac_ip = ip\<rparr> i \<longleftrightarrow> has_solve (studio.play s) u t i"
  by (simp add: solved_by_def has_solve_def conj_commute)

subsection \<open>Rows of the board\<close>

lemma map_rows_Inr:
  "map_rows f xs = Inr rows \<longleftrightarrow> map fst rows = xs \<and> (\<forall>(x, y)\<in>set rows. f x = Inr y)"
proof (induction xs arbitrary: rows)
  case (Cons x xs)
  show ?case
  proof
    assume "map_rows f (x # xs) = Inr rows"
    then show "map fst rows = x # xs \<and> (\<forall>(x, y)\<in>set rows. f x = Inr y)"
      using Cons by (auto simp: bind_result_Inr_iff)
  next
    assume r: "map fst rows = x # xs \<and> (\<forall>(x, y)\<in>set rows. f x = Inr y)"
    then obtain y rest where "rows = (x, y) # rest" by (cases rows) auto
    then show "map_rows f (x # xs) = Inr rows"
      using r Cons [of rest] by (simp add: bind_result_Inr_iff)
  qed
qed auto

lemma set_board_order: "set (board_order collate cs) = set cs"
  by (simp add: board_order_def)

lemma project_met:
  assumes "project cast l u t cutoff c = Inr p" "doc_ok i (cg_requirements c)"
  shows "\<exists>reqs. parse (cg_requirements c) = Inr reqs \<and> visibility reqs \<in> {Hidden, Masked, Preview}
    \<and> pj_met p = list_all (has_solve l u t) (prerequisites reqs)"
proof -
  obtain reqs where "parse (cg_requirements c) = Inr reqs" "visibility reqs \<in> {Hidden, Masked, Preview}"
    "\<And>cast have. prerequisites_met cast have (cg_requirements c) = Inr (list_all have (prerequisites reqs))"
    using doc_reads [OF assms(2)] by blast
  then show ?thesis using assms(1) by (auto simp: project_def bind_result_Inr_iff)
qed

text \<open>What the list makes of one row: nothing, a locked item or an open one.\<close>

definition open_item :: "(id \<times> string \<times> string) list \<Rightarrow> Challenge \<Rightarrow> Projection \<Rightarrow> Listing" where
  "open_item notes c p =
    \<lparr>li_id = cg_id c, li_name = cg_name c, li_category = cg_category c,
     li_value = pj_value p, li_function = cg_function c, li_solve_count = pj_solve_count p,
     li_solved = pj_solved p, li_locked = False, li_annotations = annotations_of notes (cg_id c)\<rparr>"

definition locked_item :: "Challenge \<Rightarrow> Projection \<Rightarrow> Visibility \<Rightarrow> Listing" where
  "locked_item c p vis =
    \<lparr>li_id = cg_id c, li_name = (if vis = Masked then locked_name else cg_name c),
     li_category = cg_category c, li_value = pj_value p, li_function = cg_function c,
     li_solve_count = pj_solve_count p, li_solved = pj_solved p, li_locked = True,
     li_annotations = (\<lambda>_. None)\<rparr>"

definition listed_as :: "(id \<times> string \<times> string) list \<Rightarrow> Challenge \<times> Projection \<Rightarrow> Listing option" where
  "listed_as notes row =
    (if pj_met (snd row) then Some (open_item notes (fst row) (snd row))
     else case parse (cg_requirements (fst row)) of
            Inl e \<Rightarrow> None
          | Inr reqs \<Rightarrow>
              if visible (visibility reqs) then Some (locked_item (fst row) (snd row) (visibility reqs))
              else None)"

lemma listings_ok:
  "(\<forall>(c, p)\<in>set rows. is_ok (parse (cg_requirements c))) \<Longrightarrow>
    listings notes rows = Inr (List.map_filter (listed_as notes) rows)"
proof (induction rows)
  case (Cons row rows)
  then show ?case
    by (cases row) (auto simp: listed_as_def open_item_def locked_item_def Let_def is_ok_iff)
qed (simp add: List.map_filter_simps)

lemma visible_docs:
  assumes "studio_ok re s" "c \<in> set (sheets s)"
  shows "doc_ok (cg_id c) (cg_requirements c)" "is_ok (parse (cg_requirements c))"
    "is_ok (parse_flag_mode (cg_flag_mode c))"
proof -
  have "sheet s (cg_id c) = Some c"
    using assms by (auto simp: studio_ok_def intro: distinct_find_sheet)
  then show d: "doc_ok (cg_id c) (cg_requirements c)" "is_ok (parse_flag_mode (cg_flag_mode c))"
    using sheet_rules(2) [OF assms(1)] sheet_checks(1) [OF assms(1)] by (auto simp: flag_mode_iff)
  then show "is_ok (parse (cg_requirements c))"
    using doc_ok_parse by (auto simp: is_ok_iff)
qed

lemma list_rows:
  assumes "list_challenges collate cast s u t cutoff = Inr rows"
  shows "(c, p) \<in> set rows \<Longrightarrow>
      c \<in> set (sheets s) \<and> cg_state c = ''visible'' \<and> project cast (studio.play s) u t cutoff c = Inr p"
    "c \<in> set (sheets s) \<Longrightarrow> cg_state c = ''visible'' \<Longrightarrow> \<exists>p. (c, p) \<in> set rows"
proof -
  have r: "map fst rows = board_order collate (filter (\<lambda>c. cg_state c = ''visible'') (sheets s))"
    "\<forall>(c, p)\<in>set rows. project cast (studio.play s) u t cutoff c = Inr p"
    using assms by (auto simp: list_challenges_def map_rows_Inr)
  have cs: "fst ` set rows = {c \<in> set (sheets s). cg_state c = ''visible''}"
    using arg_cong [OF r(1), of set] by (simp add: set_board_order)
  show "c \<in> set (sheets s) \<and> cg_state c = ''visible'' \<and> project cast (studio.play s) u t cutoff c = Inr p"
    if "(c, p) \<in> set rows"
  proof -
    have "c \<in> fst ` set rows" using that by force
    then show ?thesis using that r(2) by (auto simp: cs)
  qed
  show "\<exists>p. (c, p) \<in> set rows" if "c \<in> set (sheets s)" "cg_state c = ''visible''"
  proof -
    have "c \<in> fst ` set rows" using that by (simp add: cs)
    then show ?thesis by auto
  qed
qed

lemma catalog_list_rows:
  assumes "studio_ok re s"
  shows "catalog_list collate cast s u t cutoff
    = bind_result (list_challenges collate cast s u t cutoff)
        (\<lambda>rows. Inr (List.map_filter (listed_as (list_visible_annotations collate s)) rows))"
proof (cases "list_challenges collate cast s u t cutoff")
  case (Inr rows)
  have "\<forall>(c, p)\<in>set rows. is_ok (parse (cg_requirements c))"
    using list_rows(1) [OF Inr] visible_docs(2) [OF assms] by blast
  then show ?thesis using Inr by (simp add: catalog_list_def listings_ok)
qed (simp add: catalog_list_def)

lemma listed_as_id: "listed_as notes row = Some it \<Longrightarrow> li_id it = cg_id (fst row)"
  by (auto simp: listed_as_def open_item_def locked_item_def split: if_splits sum.splits)

lemma set_map_filter: "set (List.map_filter f xs) = {y. \<exists>x\<in>set xs. f x = Some y}"
  by (induction xs) (auto simp: List.map_filter_simps split: option.splits)

text \<open>The item of a challenge on a board, if it is there.\<close>

lemma listed_item:
  assumes ok: "studio_ok re s" and rows: "list_challenges collate cast s u t cutoff = Inr rows"
    and c: "c \<in> set (sheets s)" "cg_state c = ''visible''"
  obtains p where "project cast (studio.play s) u t cutoff c = Inr p"
    "\<And>it. it \<in> set (List.map_filter (listed_as notes) rows) \<and> li_id it = cg_id c
      \<longleftrightarrow> listed_as notes (c, p) = Some it"
proof -
  obtain p where p: "(c, p) \<in> set rows" using list_rows(2) [OF rows c] by blast
  have pr: "project cast (studio.play s) u t cutoff c = Inr p" using list_rows(1) [OF rows p] by simp
  have "c' = c \<and> p' = p" if "(c', p') \<in> set rows" "cg_id c' = cg_id c" for c' p'
  proof -
    note r = list_rows(1) [OF rows that(1)]
    then have "c' = c"
      using ok c that(2) distinct_map_eqD [of cg_id "sheets s"] by (simp add: studio_parts)
    then show ?thesis using r pr by simp
  qed
  then have only: "row = (c, p)" if "row \<in> set rows" "cg_id (fst row) = cg_id c" for row
    using that by (cases row) auto
  have "it \<in> set (List.map_filter (listed_as notes) rows) \<and> li_id it = cg_id c
      \<longleftrightarrow> listed_as notes (c, p) = Some it" for it
  proof
    assume it: "it \<in> set (List.map_filter (listed_as notes) rows) \<and> li_id it = cg_id c"
    then obtain row where "row \<in> set rows" "listed_as notes row = Some it"
      unfolding set_map_filter by blast
    then show "listed_as notes (c, p) = Some it"
      using only [of row] it listed_as_id [of "notes" row it] by simp
  next
    assume "listed_as notes (c, p) = Some it"
    then show "it \<in> set (List.map_filter (listed_as notes) rows) \<and> li_id it = cg_id c"
      using p listed_as_id [of "notes" "(c, p)" it] unfolding set_map_filter by auto
  qed
  then show thesis using that pr by blast
qed

lemma view_row:
  assumes "studio_ok re s" "c \<in> set (sheets s)" "cg_state c = ''visible''"
  shows "get_challenge_for_view cast s (cg_id c) u t cutoff
    = bind_result (project cast (studio.play s) u t cutoff c) (\<lambda>p. Inr (Some (c, p)))"
  using assms find_distinct [of cg_id "sheets s" c "cg_id c" "\<lambda>c. cg_state c = ''visible''"]
  by (simp add: get_challenge_for_view_def studio_parts)

lemma gate_of_row:
  assumes ok: "studio_ok re s" and c: "c \<in> set (sheets s)"
    and p: "project cast (studio.play s) u t cutoff c = Inr p"
  shows "prereq_gate (game s) \<lparr>ac_user = u, ac_team = t, ac_ip = ip\<rparr> (game_row c)
    = (if pj_met p then Inr ()
       else if (\<exists>reqs. parse (cg_requirements c) = Inr reqs \<and> visible (visibility reqs))
       then Inl ErrChallengeLocked else Inl ErrChallengeNotFound)"
proof -
  obtain reqs where reqs: "parse (cg_requirements c) = Inr reqs"
    "pj_met p = list_all (has_solve (studio.play s) u t) (prerequisites reqs)"
    using project_met [OF p visible_docs(1) [OF ok c]] by blast
  have "ch_requirements (game_row c) = cg_requirements c" by (simp add: game_row_def)
  then show ?thesis
    using reqs by (auto simp: prereq_gate_def prereqs_met_solved_by solved_by_has_solve list_all_iff)
qed

text \<open>What a list and a detail must show of a challenge, for the verdict of the gate of game play.\<close>

definition shows_verdict ::
  "Challenge \<Rightarrow> Listing list \<Rightarrow> (catalog_error, Detail) result \<Rightarrow> (gameplay_error, unit) result \<Rightarrow> bool" where
  "shows_verdict c items det verdict =
    (case verdict of
       Inr _ \<Rightarrow> (\<exists>it\<in>set items. li_id it = cg_id c \<and> \<not> li_locked it \<and> li_name it = cg_name c)
         \<and> (\<forall>d. det = Inr d \<longrightarrow> \<not> vw_locked (dt_challenge d)
               \<and> vw_description (dt_challenge d) = cg_description c)
     | Inl ErrChallengeLocked \<Rightarrow> (\<exists>it\<in>set items. li_id it = cg_id c \<and> li_locked it)
         \<and> (\<exists>d. det = Inr d \<and> vw_locked (dt_challenge d))
     | Inl ErrChallengeNotFound \<Rightarrow> (\<forall>it\<in>set items. li_id it \<noteq> cg_id c) \<and> det = Inl ErrViewNotFound
     | Inl _ \<Rightarrow> False)"

text \<open>
  C16: The board shows what play allows. For every visible challenge, in the order of cases: a
  submission of the viewer passes the prerequisite gate exactly when the list shows it open and the
  detail its content; it is refused as locked exactly when list and detail show the locked stub; and
  it is refused as missing exactly when the list leaves it out and the detail answers not-found. A
  challenge that is not visible is on no board.
\<close>
theorem board_shows_the_gate:
  assumes "studio_ok re s" "c \<in> set (sheets s)" "cg_state c = ''visible''"
    "catalog_list collate cast s u t cutoff = Inr items"
    "catalog_detail collate cast s (cg_id c) u t cutoff = det"
  shows "(\<forall>it\<in>set items. \<exists>c\<in>set (sheets s). cg_id c = li_id it \<and> cg_state c = ''visible'')
    \<and> shows_verdict c items det (prereq_gate (game s) \<lparr>ac_user = u, ac_team = t, ac_ip = ip\<rparr> (game_row c))"
proof -
  let ?notes = "list_visible_annotations collate s"
  obtain rows where rows: "list_challenges collate cast s u t cutoff = Inr rows"
    "items = List.map_filter (listed_as ?notes) rows"
    using assms(4) by (auto simp: catalog_list_rows [OF assms(1)] bind_result_Inr_iff)
  obtain p where p: "project cast (studio.play s) u t cutoff c = Inr p"
    "\<And>it. it \<in> set items \<and> li_id it = cg_id c \<longleftrightarrow> listed_as ?notes (c, p) = Some it"
    using listed_item [OF assms(1) rows(1) assms(2,3), of ?notes] rows(2) by blast
  obtain reqs where reqs: "parse (cg_requirements c) = Inr reqs"
    using visible_docs(2) [OF assms(1,2)] by (auto simp: is_ok_iff)
  obtain mode where mode: "parse_flag_mode (cg_flag_mode c) = Inr mode"
    using visible_docs(3) [OF assms(1,2)] by (auto simp: is_ok_iff)
  have det: "det = (if pj_met p then open_detail collate cast s u t c p mode
      else if \<not> visible (visibility reqs) then Inl ErrViewNotFound
      else Inr (locked_detail c p mode (visibility reqs)))"
    using assms(5) [symmetric] by (simp add: catalog_detail_def view_row [OF assms(1-3)] p(1) mode reqs)
  note gate = gate_of_row [OF assms(1,2) p(1), of ip]
  have "\<exists>c\<in>set (sheets s). cg_id c = li_id it \<and> cg_state c = ''visible''" if on: "it \<in> set items" for it
  proof -
    obtain row where "row \<in> set rows" "listed_as ?notes row = Some it"
      using on unfolding rows(2) set_map_filter by blast
    then show ?thesis using list_rows(1) [OF rows(1)] listed_as_id by (metis prod.collapse)
  qed
  moreover have listed: "listed_as ?notes (c, p) = (if pj_met p then Some (open_item ?notes c p)
      else if visible (visibility reqs) then Some (locked_item c p (visibility reqs)) else None)"
    by (simp add: listed_as_def reqs)
  consider "pj_met p" | "\<not> pj_met p" "visible (visibility reqs)" | "\<not> pj_met p" "\<not> visible (visibility reqs)"
    by blast
  then have "shows_verdict c items det (prereq_gate (game s) \<lparr>ac_user = u, ac_team = t, ac_ip = ip\<rparr> (game_row c))"
  proof cases
    case 1
    then have "open_item ?notes c p \<in> set items" using p(2) listed by metis
    then show ?thesis
      using 1 by (auto simp: shows_verdict_def gate det open_item_def open_detail_def bind_result_Inr_iff
          intro!: bexI [of _ "open_item ?notes c p"])
  next
    case 2
    then have "locked_item c p (visibility reqs) \<in> set items" using p(2) listed by metis
    then show ?thesis
      using 2 reqs by (auto simp: shows_verdict_def gate det locked_item_def locked_detail_def
          intro!: bexI [of _ "locked_item c p (visibility reqs)"])
  next
    case 3
    then have "\<forall>it\<in>set items. li_id it \<noteq> cg_id c" using p(2) listed by (metis option.distinct(1))
    then show ?thesis using 3 reqs by (simp add: shows_verdict_def gate det)
  qed
  ultimately show ?thesis by blast
qed

text \<open>
  The sample catalogue with its second challenge behind the first: 7 has solved neither, so he sees
  the first open and the second as a masked stub.
\<close>

theorem board_shows_the_gate_witness:
  "let det = catalog_detail (\<lambda>_. 0) (\<lambda>_. None) sample_chained 2 7 None None in
     \<exists>items. catalog_list (\<lambda>_. 0) (\<lambda>_. None) sample_chained 7 None None = Inr items
     \<and> shows_verdict (the (sheet sample_chained 2)) items det (Inl ErrChallengeLocked)"
proof -
  let ?c = "the (sheet sample_chained 2)"
  let ?det = "catalog_detail (\<lambda>_. 0) (\<lambda>_. None) sample_chained 2 7 None None"
  have ok: "studio_ok quote_engine sample_chained"
    by (rule reachable_ok [OF sample_chain [unfolded sample_start_def]])
  have c: "sheet sample_chained 2 = Some ?c" "cg_state ?c = ''visible''" "cg_id ?c = 2" by code_simp+
  have "?c \<in> set (sheets sample_chained)"
    using c(1) by (metis find_Some_iff nth_mem sheet_def)
  moreover have "is_ok (catalog_list (\<lambda>_. 0) (\<lambda>_. None) sample_chained 7 None None)"
    by code_simp
  then obtain items where items: "catalog_list (\<lambda>_. 0) (\<lambda>_. None) sample_chained 7 None None = Inr items"
    by (auto simp: is_ok_iff)
  moreover have "prereq_gate (game sample_chained) \<lparr>ac_user = 7, ac_team = None, ac_ip = None\<rparr> (game_row ?c)
      = Inl ErrChallengeLocked"
    by code_simp
  ultimately have "shows_verdict ?c items ?det (Inl ErrChallengeLocked)"
    using board_shows_the_gate [OF ok _ c(2), of "\<lambda>_. 0" "\<lambda>_. None" 7 None None items ?det None]
    by (simp add: c(3))
  then show ?thesis using items by auto
qed

end
