(* ===== verification/Catalog_Freeze.thy ===== *)
theory Catalog_Freeze
  imports Catalog_Properties
begin

section \<open>A frozen viewer's challenge board\<close>

text \<open>
  Play by others after the freeze reaches the tables of the authors only through the asking prices,
  and a frozen board quotes no live price that can move. So nothing a frozen viewer is served of a
  challenge depends on it.
\<close>

subsection \<open>What play does to the sheets\<close>

definition revalued :: "db \<Rightarrow> Challenge \<Rightarrow> Challenge" where
  "revalued l c =
    (case find (\<lambda>r. ch_id r = cg_id c) (challenges l) of
       None \<Rightarrow> c
     | Some r \<Rightarrow> c\<lparr>cg_value := ch_value r\<rparr>)"

lemma revalued_fields [simp]:
  "cg_id (revalued l c) = cg_id c" "cg_name (revalued l c) = cg_name c"
  "cg_category (revalued l c) = cg_category c" "cg_description (revalued l c) = cg_description c"
  "cg_attribution (revalued l c) = cg_attribution c"
  "cg_connection_info (revalued l c) = cg_connection_info c" "cg_type (revalued l c) = cg_type c"
  "cg_function (revalued l c) = cg_function c" "cg_max_attempts (revalued l c) = cg_max_attempts c"
  "cg_state (revalued l c) = cg_state c" "cg_requirements (revalued l c) = cg_requirements c"
  "cg_flag_mode (revalued l c) = cg_flag_mode c" "cg_next_id (revalued l c) = cg_next_id c"
  "cg_position (revalued l c) = cg_position c"
  "curve_of (game_row (revalued l c)) = curve_of (game_row c)"
  by (simp_all add: revalued_def curve_of_def game_row_def split: option.splits)

lemma resumed_row:
  assumes "extends (game s) l" "distinct (map cg_id (sheets s))" "k < length (sheets s)"
  shows "revalued l (sheets s ! k) = (sheets s ! k)\<lparr>cg_value := ch_value (challenges l ! k)\<rparr>"
    "unpriced (challenges l ! k) = unpriced (game_row (sheets s ! k))"
proof -
  have r: "reprices (map game_row (sheets s)) (challenges l)"
    using assms(1) by (simp add: extends_def)
  note len = reprices_length [OF r]
  have ids: "map ch_id (challenges l) = map cg_id (sheets s)"
    using reprices_ids [OF r] by (simp add: o_def)
  then have "ch_id (challenges l ! k) = cg_id (sheets s ! k)"
    using assms(3) len nth_map [of k "challenges l" ch_id] nth_map [of k "sheets s" cg_id] by simp
  then have "find (\<lambda>r. ch_id r = cg_id (sheets s ! k)) (challenges l) = Some (challenges l ! k)"
    using find_distinct [of ch_id "challenges l" "challenges l ! k" "cg_id (sheets s ! k)" "\<lambda>_. True"]
      ids assms(2,3) len by simp
  then show "revalued l (sheets s ! k) = (sheets s ! k)\<lparr>cg_value := ch_value (challenges l ! k)\<rparr>"
    by (simp add: revalued_def)
  have "map unpriced (map game_row (sheets s)) ! k = map unpriced (challenges l) ! k"
    using r by (simp only: reprices_def)
  then show "unpriced (challenges l ! k) = unpriced (game_row (sheets s ! k))"
    using assms(3) len by simp
qed

lemma resume_revalued:
  assumes "extends (game s) l" "distinct (map cg_id (sheets s))"
  shows "sheets (resume s l) = map (revalued l) (sheets s)"
    "c \<in> set (sheets s) \<Longrightarrow> cg_function c = ''static'' \<Longrightarrow> cg_value (revalued l c) = cg_value c"
proof -
  have "length (challenges l) = length (sheets s)"
    using assms(1) reprices_length [of "map game_row (sheets s)"] by (simp add: extends_def)
  then show "sheets (resume s l) = map (revalued l) (sheets s)"
    using resumed_row(1) [OF assms] by (intro nth_equalityI) (simp_all add: resume_def)
  show "cg_value (revalued l c) = cg_value c" if "c \<in> set (sheets s)" "cg_function c = ''static''"
  proof -
    obtain k where k: "k < length (sheets s)" "c = sheets s ! k"
      using \<open>c \<in> set (sheets s)\<close> by (auto simp: in_set_conv_nth)
    have "game_row c = unpriced (game_row c)"
      using that(2) by (simp add: unpriced_def game_row_def)
    then have same: "unpriced (challenges l ! k) = game_row c"
      using resumed_row(2) [OF assms k(1)] k(2) by simp
    have "ch_function (unpriced (challenges l ! k)) = ch_function (game_row c)"
      by (simp only: same)
    then have "ch_function (challenges l ! k) = ''static''"
      using that(2) by (simp add: game_row_def)
    then have "ch_value (challenges l ! k) = cg_value c"
      using arg_cong [OF same, of ch_value] by (simp add: unpriced_def game_row_def)
    then show ?thesis using resumed_row(1) [OF assms k(1)] k(2) by simp
  qed
qed

lemma resume_tables [simp]:
  "studio.play (resume s l) = l" "annotations (resume s l) = annotations s"
  "hint_rows (resume s l) = hint_rows s" "tag_rows (resume s l) = tag_rows s"
  "files (resume s l) = files s"
  by (simp_all add: resume_def)

subsection \<open>What a frozen viewer reads of the ledger\<close>

text \<open>\<open>who\<close>: the accounts that are not the viewer's.\<close>

abbreviation others :: "db \<Rightarrow> id \<Rightarrow> id option \<Rightarrow> id \<Rightarrow> id option \<Rightarrow> bool" where
  "others l u t ru rt \<equiv> \<not> scoped l u t ru rt"

lemma viewer_reads:
  assumes "gained f (others l u t) l l'" "extends l l'"
  shows "has_solve l' u t = has_solve l u t" "has_unlock l' u t = has_unlock l u t"
    "f' \<le> f \<Longrightarrow> solve_count l' (Some f') i = solve_count l (Some f') i"
    "filter (\<lambda>x. scoped l' u t (hu_user x) (hu_team x)) (unlocks l')
      = filter (\<lambda>x. scoped l u t (hu_user x) (hu_team x)) (unlocks l)"
proof -
  obtain ss us where g: "solves l' = solves l @ ss" "unlocks l' = unlocks l @ us"
    "\<forall>s\<in>set ss. f \<le> sv_date s \<and> others l u t (sv_user s) (sv_team s)"
    "\<forall>x\<in>set us. others l u t (hu_user x) (hu_team x)"
    using assms(1) by (auto simp: gained_def list_all_iff)
  note same = extends_scoped [OF assms(2)] extends_eligible [OF assms(2)]
  show "has_solve l' u t = has_solve l u t"
    using g(3) by (intro ext) (auto simp: has_solve_def same g(1) list_ex_iff)
  show "has_unlock l' u t = has_unlock l u t"
    using g(4) by (intro ext) (auto simp: has_unlock_def same g(2) list_ex_iff)
  show "filter (\<lambda>x. scoped l' u t (hu_user x) (hu_team x)) (unlocks l')
      = filter (\<lambda>x. scoped l u t (hu_user x) (hu_team x)) (unlocks l)"
    using g(4) by (simp add: same g(2) filter_empty_conv)
  show "solve_count l' (Some f') i = solve_count l (Some f') i" if "f' \<le> f"
  proof -
    have "filter (\<lambda>s. sv_challenge s = i \<and> before_cutoff (Some f') (sv_date s)
        \<and> eligible l (sv_user s) (sv_team s)) ss = []"
      using g(3) that by (auto simp: filter_empty_conv)
    then show ?thesis by (simp add: solve_count_def same g(1))
  qed
qed

lemma my_unlocks_scoped:
  "my_unlocks s u t i =
    [(hu_hint x, h_content h).
      x \<leftarrow> filter (\<lambda>x. scoped (studio.play s) u t (hu_user x) (hu_team x)) (unlocks (studio.play s)),
      h \<leftarrow> hint_rows s, h_id h = hu_hint x \<and> h_challenge h = i]"
proof -
  have "[(hu_hint x, h_content h). x \<leftarrow> us, h \<leftarrow> hint_rows s, h_id h = hu_hint x \<and> h_challenge h = i
        \<and> scoped (studio.play s) u t (hu_user x) (hu_team x)]
    = [(hu_hint x, h_content h).
        x \<leftarrow> filter (\<lambda>x. scoped (studio.play s) u t (hu_user x) (hu_team x)) us,
        h \<leftarrow> hint_rows s, h_id h = hu_hint x \<and> h_challenge h = i]" for us
    by (induction us) auto
  then show ?thesis by (simp only: my_unlocks_def)
qed

subsection \<open>Rows and their order\<close>

lemma map_rows_map:
  "(\<And>x. x \<in> set xs \<Longrightarrow> f' (g x) = f x) \<Longrightarrow>
    map_rows f' (map g xs) = bind_result (map_rows f xs) (\<lambda>rows. Inr (map (\<lambda>(x, y). (g x, y)) rows))"
  by (induction xs) (auto simp: bind_result_def split: sum.splits)

lemma listings_revalued:
  "listings notes (map (\<lambda>(c, p). (revalued l c, p)) rows) = listings notes rows"
proof (induction rows)
  case (Cons row rows)
  obtain c p where "row = (c, p)" by (cases row)
  then show ?case using Cons by (simp add: Let_def split: sum.split)
qed simp

lemma find_map: "find q (map g xs) = map_option g (find (\<lambda>x. q (g x)) xs)"
  by (induction xs) auto

lemma hints_read:
  assumes "hint_rows s' = hint_rows s" "has_unlock (studio.play s') u t = has_unlock (studio.play s) u t"
    "filter (\<lambda>x. scoped (studio.play s') u t (hu_user x) (hu_team x)) (unlocks (studio.play s'))
      = filter (\<lambda>x. scoped (studio.play s) u t (hu_user x) (hu_team x)) (unlocks (studio.play s))"
  shows "list_challenge_hints cast s' i u t = list_challenge_hints cast s i u t"
proof -
  have "hint_views cast s' u t i = hint_views cast s u t i"
    by (rule ext) (simp add: hint_views_def my_unlocks_scoped assms)
  then show ?thesis by (simp add: list_challenge_hints_def assms(1))
qed

text \<open>
  Two studios whose sheets differ in asking prices and whose viewer has the same rows: the same board.
\<close>

lemma same_board:
  assumes sheets: "sheets s' = map (revalued l) (sheets s)"
    and same: "annotations s' = annotations s" "tag_rows s' = tag_rows s" "files s' = files s"
    and row: "\<And>c. c \<in> set (sheets s) \<Longrightarrow>
      project cast (studio.play s') u t cutoff (revalued l c) = project cast (studio.play s) u t cutoff c"
    and hints: "\<And>i. list_challenge_hints cast s' i u t = list_challenge_hints cast s i u t"
  shows "catalog_list collate cast s' u t cutoff = catalog_list collate cast s u t cutoff"
    "catalog_detail collate cast s' i u t cutoff = catalog_detail collate cast s i u t cutoff"
proof -
  have visible': "filter (\<lambda>c. cg_state c = ''visible'') (sheets s')
      = map (revalued l) (filter (\<lambda>c. cg_state c = ''visible'') (sheets s))"
    by (simp add: sheets filter_map o_def)
  have order: "board_order collate (map (revalued l) cs) = map (revalued l) (board_order collate cs)" for cs
    by (simp add: board_order_def sort_key_map)
  have "list_challenges collate cast s' u t cutoff
      = bind_result (list_challenges collate cast s u t cutoff)
          (\<lambda>rows. Inr (map (\<lambda>(c, p). (revalued l c, p)) rows))"
    unfolding list_challenges_def visible' order
    by (rule map_rows_map) (simp add: set_board_order row)
  moreover have "list_visible_annotations collate s' = list_visible_annotations collate s"
    by (simp add: list_visible_annotations_def same sheets list_ex_iff)
  ultimately show "catalog_list collate cast s' u t cutoff = catalog_list collate cast s u t cutoff"
    by (cases "list_challenges collate cast s u t cutoff")
      (simp_all add: catalog_list_def listings_revalued)
  have opened: "open_detail collate cast s' u t (revalued l c) p mode
      = open_detail collate cast s u t c p mode" for c p mode
    by (simp add: open_detail_def hints list_challenge_tags_def admin_list_challenge_annotations_def
        list_challenge_files_def same)
  have stub: "locked_detail (revalued l c) = locked_detail c" for c
    by (intro ext) (simp add: locked_detail_def)
  show "catalog_detail collate cast s' i u t cutoff = catalog_detail collate cast s i u t cutoff"
  proof (cases "find (\<lambda>c. cg_id c = i \<and> cg_state c = ''visible'') (sheets s)")
    case None
    then have "get_challenge_for_view cast s i u t cutoff = Inr None"
      "get_challenge_for_view cast s' i u t cutoff = Inr None"
      by (simp_all add: get_challenge_for_view_def sheets find_map)
    then show ?thesis by (simp add: catalog_detail_def)
  next
    case (Some c)
    then have c: "c \<in> set (sheets s)" by (auto simp: find_Some_iff in_set_conv_nth)
    have "get_challenge_for_view cast s i u t cutoff
        = bind_result (project cast (studio.play s) u t cutoff c) (\<lambda>p. Inr (Some (c, p)))"
      "get_challenge_for_view cast s' i u t cutoff
        = bind_result (project cast (studio.play s) u t cutoff c) (\<lambda>p. Inr (Some (revalued l c, p)))"
      using Some row [OF c] by (simp_all add: get_challenge_for_view_def sheets find_map)
    then show ?thesis
      by (cases "project cast (studio.play s) u t cutoff c")
        (simp_all add: catalog_detail_def opened stub split: sum.split)
  qed
qed

subsection \<open>Properties\<close>

text \<open>
  C17: The challenge board keeps the freeze. Whatever other accounts submit, unlock or draw from the
  pools at or after the horizon, a frozen viewer is served the list and the page of every challenge
  as before: prices, solve counts, what is solved and locked, and every hint.
\<close>
theorem frozen_catalog_ignores_later_play:
  fixes m
  assumes "studio_ok re s" "list_all (late_by f (others (studio.play s) u t)) cs"
  defines "s' \<equiv> resume s (run_all (exec m re) cs (game s))"
  shows "catalog_list collate cast s' u t (Some f) = catalog_list collate cast s u t (Some f)
    \<and> catalog_detail collate cast s' i u t (Some f) = catalog_detail collate cast s i u t (Some f)"
proof -
  define l where "l = run_all (exec m re) cs (game s)"
  have s': "s' = resume s l" by (simp add: s'_def l_def)
  have g: "gained f (others (game s) u t) (game s) l"
    unfolding l_def by (rule run_gains) (use assms(2) in simp)
  have ext: "extends (game s) l" unfolding l_def by (rule game.run_grows)
  note reads = viewer_reads [OF g ext]
  have keys: "distinct (map cg_id (sheets s))" using assms(1) by (simp add: studio_parts)
  have own: "has_solve (game s) = has_solve (studio.play s)"
    "has_unlock (game s) = has_unlock (studio.play s)"
    "solve_count (game s) = solve_count (studio.play s)"
    by (simp_all add: fun_eq_iff has_solve_def has_unlock_def solve_count_def eligible_def game_def scoped_def
        cong: option.case_cong)
  have row: "project cast l u t (Some f) (revalued l c) = project cast (studio.play s) u t (Some f) c"
    if "c \<in> set (sheets s)" for c
    using resume_revalued(2) [OF ext keys that] reads(3) [of f]
    by (simp add: project_def quoted_value_def reads(1) own)
  have hints: "list_challenge_hints cast s' i u t = list_challenge_hints cast s i u t" for i
    unfolding s' by (rule hints_read) (use reads in \<open>simp_all add: own\<close>)
  note same = resume_revalued(1) [OF ext keys, folded s'] _ _ _ _ hints
  show ?thesis
    by (intro conjI same_board [OF same]) (simp_all add: s' row)
qed

text \<open>
  The sample catalogue, frozen at 150 for 9; later 7 tries the first challenge.
\<close>

theorem frozen_catalog_ignores_later_play_witness:
  "catalog_list (\<lambda>_. 0) (\<lambda>_. None)
      (resume sample_chained (run_all (exec ModeUsers quote_engine)
        [CSubmit 150 (attempt 1 7 ''flag'')] (game sample_chained))) 9 None (Some 150)
    = catalog_list (\<lambda>_. 0) (\<lambda>_. None) sample_chained 9 None (Some 150)"
proof -
  have "studio_ok quote_engine sample_chained"
    by (rule reachable_ok [OF sample_chain [unfolded sample_start_def]])
  moreover have "list_all (late_by 150 (others (studio.play sample_chained) 9 None))
      [CSubmit 150 (attempt 1 7 ''flag'')]"
    by (simp add: late_by_def attempt_def player_def scoped_def)
  ultimately show ?thesis
    using frozen_catalog_ignores_later_play by blast
qed

end
