(* ===== verification/Keyset_Cursor.thy ===== *)
theory Keyset_Cursor
  imports Credentials
begin

section \<open>Keyset cursors (internal/httpapi/cursor.go)\<close>

text \<open>
  The token a paged list hands out: nanoseconds since 1970 and a row id, in base64 for URLs. The
  functions of the standard library it is made of come first.
\<close>

subsection \<open>The library: URL base64, ParseInt, Cut, UnixNano\<close>

text \<open>
  \<open>base64.RawURLEncoding\<close> is the standard encoding with two characters of the alphabet replaced.
\<close>

definition url_char :: "char \<Rightarrow> char" where
  "url_char c = (if c = CHR ''+'' then CHR ''-'' else if c = CHR ''/'' then CHR ''_'' else c)"

definition std_char :: "char \<Rightarrow> char" where
  "std_char c = (if c = CHR ''-'' then CHR ''+'' else if c = CHR ''_'' then CHR ''/'' else c)"

definition url_encode :: "string \<Rightarrow> string" where
  "url_encode s = map url_char (b64_encode s)"

definition url_decode :: "string \<Rightarrow> string option" where
  "url_decode s =
    (if list_ex (\<lambda>c. c = CHR ''+'' \<or> c = CHR ''/'') s then None else b64_decode (map std_char s))"

definition parse_int64 :: "string \<Rightarrow> int option" where
  "parse_int64 s =
    (let (sg, ds) = scan_sign s; v = sg * int (nat_of_digits ds)
     in if ds = [] \<or> \<not> list_all is_digit ds \<or> \<not> in_i64 v then None else Some v)"

definition cut :: "char \<Rightarrow> string \<Rightarrow> (string \<times> string) option" where
  "cut sep s =
    (case dropWhile (\<lambda>c. c \<noteq> sep) s of
       [] \<Rightarrow> None
     | _ # after \<Rightarrow> Some (takeWhile (\<lambda>c. c \<noteq> sep) s, after))"

text \<open>1 January 1970 in nanoseconds since the zero time; \<open>UnixNano\<close> wraps outside 1678 to 2262.\<close>

definition unix_epoch :: time where "unix_epoch = 62135596800 * 1000000000"

definition unix_nano :: "time \<Rightarrow> int" where "unix_nano t = i64 (t - unix_epoch)"

definition time_unix :: "int \<Rightarrow> time" where "time_unix n = unix_epoch + n"

subsection \<open>The cursor\<close>

definition encode_keyset_cursor :: "time \<Rightarrow> id \<Rightarrow> string" where
  "encode_keyset_cursor date i = url_encode (decimal (unix_nano date) @ '':'' @ decimal i)"

text \<open>Every fault is the one error \<open>errBadCursor\<close>, here \<open>None\<close>.\<close>

definition decode_keyset_cursor :: "string \<Rightarrow> (time \<times> id) option" where
  "decode_keyset_cursor s =
    (case url_decode s of
       None \<Rightarrow> None
     | Some b \<Rightarrow>
         (case cut CHR '':'' b of
            None \<Rightarrow> None
          | Some (nanos, i) \<Rightarrow>
              (case parse_int64 nanos of
                 None \<Rightarrow> None
               | Some n \<Rightarrow>
                   (case parse_int64 i of
                      None \<Rightarrow> None
                    | Some k \<Rightarrow> Some (time_unix n, k)))))"

subsection \<open>Round trips\<close>

lemma std_url: "c \<in> set b64_alphabet \<Longrightarrow> std_char (url_char c) = c \<and> url_char c \<notin> {CHR ''+'', CHR ''/''}"
  by (auto simp: std_char_def url_char_def b64_alphabet_def)

lemma b64_encode_alphabet: "set (b64_encode s) \<subseteq> set b64_alphabet"
proof
  fix c assume "c \<in> set (b64_encode s)"
  then obtain v where v: "v \<in> set (sextets (map byte s))" "c = b64_alphabet ! v"
    by (auto simp: b64_encode_def)
  have "list_all (\<lambda>v. v < 64) (sextets (map byte s))"
    by (rule sextets_range [OF bytes_range])
  then show "c \<in> set b64_alphabet" using v by (simp add: list_all_iff)
qed

lemma url_roundtrip: "url_decode (url_encode s) = Some s"
proof -
  have plain: "std_char (url_char c) = c \<and> url_char c \<notin> {CHR ''+'', CHR ''/''}"
    if "c \<in> set (b64_encode s)" for c
    using std_url b64_encode_alphabet that by blast
  then have "map std_char (url_encode s) = b64_encode s"
    by (simp add: url_encode_def map_idI)
  moreover have "\<not> list_ex (\<lambda>c. c = CHR ''+'' \<or> c = CHR ''/'') (url_encode s)"
    using plain by (auto simp: url_encode_def list_ex_iff)
  ultimately show ?thesis by (simp add: url_decode_def)
qed

lemma digits_unsigned: "scan_sign (digits_of n) = (1, digits_of n)"
proof -
  obtain c cs where ds: "digits_of n = c # cs" "is_digit c"
    using digits_of_facts [of n] by (cases "digits_of n") auto
  then have "c \<noteq> CHR ''-''" "c \<noteq> CHR ''+''"
    by (auto simp: is_digit_def byte_in_def byte_def)
  then show ?thesis by (simp add: scan_sign_def ds)
qed

lemma parse_decimal: "in_i64 n \<Longrightarrow> parse_int64 (decimal n) = Some n"
  using digits_of_facts [of "nat n"] digits_of_facts [of "nat (- n)"]
  by (auto simp: parse_int64_def decimal_def digits_unsigned Let_def)
    (simp_all add: scan_sign_def)

lemma decimal_no_colon: "CHR '':'' \<notin> set (decimal n)"
  using digits_of_facts [of "nat n"] digits_of_facts [of "nat (- n)"]
  by (auto simp: decimal_def list_all_iff is_digit_def byte_in_def byte_def)

lemma cut_append: "sep \<notin> set a \<Longrightarrow> cut sep (a @ sep # b) = Some (a, b)"
  by (induction a) (auto simp: cut_def split: list.splits)

lemma cursor_resumes:
  assumes "in_i64 (date - unix_epoch)" "in_i64 i"
  shows "decode_keyset_cursor (encode_keyset_cursor date i) = Some (date, i)"
    "encode_keyset_cursor date i \<noteq> ''''"
proof -
  have "unix_nano date = date - unix_epoch" using assms(1) by (simp add: unix_nano_def i64_id)
  then show r: "decode_keyset_cursor (encode_keyset_cursor date i) = Some (date, i)"
    using assms cut_append [OF decimal_no_colon, of "unix_nano date" "decimal i"]
    by (simp add: decode_keyset_cursor_def encode_keyset_cursor_def url_roundtrip parse_decimal time_unix_def)
  have "decode_keyset_cursor '''' = None"
    by (simp add: decode_keyset_cursor_def url_decode_def b64_decode_def cut_def)
  then show "encode_keyset_cursor date i \<noteq> ''''" using r by auto
qed

text \<open>
  C36: A cursor handed back unchanged resumes where it was made: every date between 1678 and 2262 and
  every row id decode to themselves. The token is made of letters, digits, hyphens and underscores
  alone, so it stands in a query string as it is; and whatever token a client makes up decodes to a
  date and an id in the range of the columns, or to nothing.
\<close>
theorem keyset_cursor_roundtrip:
  assumes "in_i64 (date - unix_epoch)" "in_i64 i"
  shows "decode_keyset_cursor (encode_keyset_cursor date i) = Some (date, i)
    \<and> list_all (\<lambda>c. is_lower c \<or> is_upper c \<or> is_digit c \<or> c = CHR ''-'' \<or> c = CHR ''_'')
        (encode_keyset_cursor date i)
    \<and> (case decode_keyset_cursor s of None \<Rightarrow> True
       | Some (d, j) \<Rightarrow> in_i64 (d - unix_epoch) \<and> in_i64 j)"
proof (intro conjI)
  show "decode_keyset_cursor (encode_keyset_cursor date i) = Some (date, i)"
    by (rule cursor_resumes [OF assms])
  have "list_all (\<lambda>c. is_lower (url_char c) \<or> is_upper (url_char c) \<or> is_digit (url_char c)
      \<or> url_char c = CHR ''-'' \<or> url_char c = CHR ''_'') b64_alphabet"
    by (simp add: b64_alphabet_def url_char_def is_lower_def is_upper_def is_digit_def byte_in_def byte_def)
  then show "list_all (\<lambda>c. is_lower c \<or> is_upper c \<or> is_digit c \<or> c = CHR ''-'' \<or> c = CHR ''_'')
      (encode_keyset_cursor date i)"
    using b64_encode_alphabet by (fastforce simp: encode_keyset_cursor_def url_encode_def list_all_iff)
  show "case decode_keyset_cursor s of None \<Rightarrow> True
     | Some (d, j) \<Rightarrow> in_i64 (d - unix_epoch) \<and> in_i64 j"
    by (auto simp: decode_keyset_cursor_def parse_int64_def time_unix_def Let_def
        split: option.splits prod.splits if_splits)
qed

theorem keyset_cursor_roundtrip_witness:
  "decode_keyset_cursor (encode_keyset_cursor (unix_epoch + 1500) 7) = Some (unix_epoch + 1500, 7)"
  using keyset_cursor_roundtrip [of "unix_epoch + 1500" 7] by simp

end
