(* ===== verification/Player_Http.thy ===== *)
theory Player_Http
  imports Catalog_Freeze Keyset_Cursor Pool_Properties Decide Unlock_Properties
begin

section \<open>The players' requests (internal/httpapi)\<close>

text \<open>
  The gate of the router and the handlers it lets through to: the challenge board, one challenge,
  its solves, a submission and a hint purchase. A request leaves an answer and the tables after it;
  a refusal is its status and what it says. The policy is the one the gate evaluated, which every
  handler reads again.
\<close>

datatype refusal = Refused int string

type_synonym 'a answer = "(refusal, 'a) result"

subsection \<open>The gate (router.go)\<close>

definition policy_gate ::
  "Policy \<Rightarrow> (studio \<Rightarrow> 'a answer \<times> studio) \<Rightarrow> studio \<Rightarrow> 'a answer \<times> studio" where
  "policy_gate p next_handler s =
    (let out = decide p in
     if denied out
     then (Inl (Refused (if status out = 0 then 403 else status out) (reason_string (reason out))), s)
     else next_handler s)"

subsection \<open>The acting account (handlers.go)\<close>

definition request_actor :: "Mode \<Rightarrow> Policy \<Rightarrow> string option \<Rightarrow> Actor" where
  "request_actor mode p ip =
    \<lparr>ac_user = user_id (P p),
     ac_team = (if mode = ModeTeams \<and> account_id (P p) \<noteq> 0 then Some (account_id (P p)) else None),
     ac_ip = ip\<rparr>"

subsection \<open>The board (handlers_challenges.go)\<close>

record ListItem =
  it_id :: id
  it_name :: string
  it_category :: string
  it_value :: int
  it_function :: string
  it_solve_count :: "int option"
  it_solved :: bool
  it_locked :: bool
  it_annotations :: "string \<Rightarrow> string option"

definition redact_solve_count :: "Redactor \<Rightarrow> int \<Rightarrow> int option" where
  "redact_solve_count red n =
    (case challenge_solve_count red (Some n) of None \<Rightarrow> None | Some _ \<Rightarrow> Some n)"

definition list_item :: "Redactor \<Rightarrow> Listing \<Rightarrow> ListItem" where
  "list_item red r =
    \<lparr>it_id = li_id r, it_name = li_name r, it_category = li_category r, it_value = li_value r,
     it_function = li_function r, it_solve_count = redact_solve_count red (li_solve_count r),
     it_solved = li_solved r, it_locked = li_locked r, it_annotations = li_annotations r\<rparr>"

definition challenge_list ::
  "(string \<Rightarrow> int) \<Rightarrow> (string \<Rightarrow> int option) \<Rightarrow> Mode \<Rightarrow> Policy \<Rightarrow> string option \<Rightarrow> studio
    \<Rightarrow> ListItem list answer" where
  "challenge_list collate cast mode p ip s =
    (let a = request_actor mode p ip in
     case catalog_list collate cast s (ac_user a) (ac_team a) (freeze_cutoff p) of
       Inl _ \<Rightarrow> Inl (Refused 500 ''could not load challenges'')
     | Inr rows \<Rightarrow> Inr (map (list_item (new_redactor p)) rows))"

subsection \<open>One challenge, and the instance its first view draws\<close>

text \<open>
  \<open>reading\<close> is what \<open>encoding/json\<close> makes of a value read into an \<open>any\<close>: nothing where a number does
  not fit a \<open>float64\<close>. A Go map of variables is a function to options, a \<open>null\<close> document the nil map.
\<close>

record InstanceBody =
  ib_instance :: id
  ib_artifact :: "id option"
  ib_vars :: "(string \<Rightarrow> json option) option"

definition decode_vars :: "(json \<Rightarrow> json option) \<Rightarrow> raw \<Rightarrow> (string \<Rightarrow> json option) option option" where
  "decode_vars reading r =
    (case r of
       RawEmpty \<Rightarrow> Some (Some (\<lambda>_. None))
     | RawMalformed \<Rightarrow> None
     | RawDoc JNull \<Rightarrow> Some None
     | RawDoc (JObject ms) \<Rightarrow>
         if list_all (\<lambda>(_, v). reading v \<noteq> None) ms
         then Some (Some (\<lambda>k. case map_of (rev ms) k of None \<Rightarrow> None | Some v \<Rightarrow> reading v))
         else None
     | RawDoc _ \<Rightarrow> None)"

definition instance_body :: "(json \<Rightarrow> json option) \<Rightarrow> IssuedInstance \<Rightarrow> InstanceBody option" where
  "instance_body reading i =
    (case decode_vars reading (ii_vars i) of
       None \<Rightarrow> None
     | Some vars \<Rightarrow>
         Some \<lparr>ib_instance = ii_instance i, ib_artifact = ii_artifact i, ib_vars = vars\<rparr>)"

datatype view_error = ViewGameplay gameplay_error | ViewDecodeVars

text \<open>The wiring without a game-play service is not modelled: it refuses the view.\<close>

definition issue_for_view ::
  "(json \<Rightarrow> json option) \<Rightarrow> Mode \<Rightarrow> Policy \<Rightarrow> string option \<Rightarrow> ChallengeView \<Rightarrow> studio
    \<Rightarrow> (view_error, InstanceBody option) result \<times> studio" where
  "issue_for_view reading mode p ip ch s =
    (if vw_flag_mode ch \<noteq> ModeUnique \<or> vw_locked ch \<or> \<not> authed (P p) \<or> is_admin (P p)
     then (Inr None, s)
     else
       case actor_account mode (request_actor mode p ip) of
         Inl e \<Rightarrow> (Inl (ViewGameplay e), s)
       | Inr acct \<Rightarrow>
           (case issue_instance (game s) (vw_id ch) acct of
              Inl e \<Rightarrow> (Inl (ViewGameplay e), s)
            | Inr (drawn, d) \<Rightarrow>
                (case instance_body reading drawn of
                   None \<Rightarrow> (Inl ViewDecodeVars, resume s d)
                 | Some body \<Rightarrow> (Inr (Some body), resume s d))))"

text \<open>The page: the fields of the view, its lists, and the instance.\<close>

record DetailPage =
  dp_view :: ChallengeView
  dp_flag_mode :: string
  dp_solve_count :: "int option"
  dp_tags :: "string list"
  dp_annotations :: "string \<Rightarrow> string option"
  dp_files :: "(id \<times> string \<times> int) list"
  dp_hints :: "HintView list"
  dp_instance :: "InstanceBody option"

definition pool_dry :: string where
  "pool_dry = ''this challenge has no instances left '' @ [CHR 0xE2, CHR 0x80, CHR 0x94]
    @ '' tell an organiser''"

text \<open>A challenge whose pool ran dry is reported to the organizers, beside the refusal.\<close>

definition challenge_detail ::
  "(string \<Rightarrow> int) \<Rightarrow> (string \<Rightarrow> int option) \<Rightarrow> (json \<Rightarrow> json option) \<Rightarrow> Mode \<Rightarrow> Policy \<Rightarrow> string option \<Rightarrow> id
    \<Rightarrow> studio \<Rightarrow> DetailPage answer \<times> (id \<times> string) list \<times> studio" where
  "challenge_detail collate cast reading mode p ip i s =
    (let a = request_actor mode p ip in
     case catalog_detail collate cast s i (ac_user a) (ac_team a) (freeze_cutoff p) of
       Inl ErrViewNotFound \<Rightarrow> (Inl (Refused 404 ''challenge not found''), [], s)
     | Inl _ \<Rightarrow> (Inl (Refused 500 ''could not load challenge''), [], s)
     | Inr d \<Rightarrow>
         let c = dt_challenge d in
         (case issue_for_view reading mode p ip c s of
            (Inl (ViewGameplay ErrPoolExhausted), s') \<Rightarrow>
              (Inl (Refused 503 pool_dry), [(vw_id c, vw_name c)], s')
          | (Inl (ViewGameplay (ErrAccount ErrTeamless)), s') \<Rightarrow>
              (Inl (Refused 403 ''join a team to play''), [], s')
          | (Inl _, s') \<Rightarrow> (Inl (Refused 500 ''could not load challenge''), [], s')
          | (Inr inst, s') \<Rightarrow>
              (Inr \<lparr>dp_view = c, dp_flag_mode = flag_mode_string (vw_flag_mode c),
                 dp_solve_count = redact_solve_count (new_redactor p) (vw_solve_count c),
                 dp_tags = dt_tags d, dp_annotations = dt_annotations d, dp_files = dt_files d,
                 dp_hints = dt_hints d, dp_instance = inst\<rparr>, [], s')))"

subsection \<open>Who solved it\<close>

record SolvesBody =
  so_solves :: "SolveEntry list"
  so_next :: string
  so_limit :: int

text \<open>
  The redactor's nil list and an empty one are told apart by what it lets through: a cursor goes out
  only beside a list that was not withheld.
\<close>

definition challenge_solves ::
  "Policy \<Rightarrow> directory \<Rightarrow> id \<Rightarrow> string \<Rightarrow> int \<Rightarrow> SolvesBody answer" where
  "challenge_solves p d i cursor limit =
    (let after = (if cursor = '''' then Inr None
                  else case decode_keyset_cursor cursor of
                         None \<Rightarrow> Inl (Refused 422 ''invalid cursor'')
                       | Some k \<Rightarrow> Inr (Some k))
     in bind_result after (\<lambda>after.
       case catalog_solves d i (freeze_cutoff p) after limit of
         Inl ErrViewNotFound \<Rightarrow> Inl (Refused 404 ''challenge not found'')
       | Inl _ \<Rightarrow> Inl (Refused 500 ''could not load solves'')
       | Inr page \<Rightarrow>
           let red = new_redactor p;
               withheld = (\<not> (scores_visible red \<and> accounts_visible red))
           in Inr \<lparr>so_solves = challenge_solve_list red (sp_rows page),
                so_next =
                  (case sp_next page of
                     Some (date, k) \<Rightarrow> if withheld then '''' else encode_keyset_cursor date k
                   | None \<Rightarrow> ''''),
                so_limit = limit\<rparr>))"

subsection \<open>Submissions and hints (handlers_submit.go)\<close>

record AttemptBody =
  ab_status :: string
  ab_first_blood :: bool
  ab_value :: int
  ab_next_id :: "id option"

definition attempt_refusal :: "gameplay_error \<Rightarrow> refusal" where
  "attempt_refusal e =
    (case e of
       ErrChallengeNotFound \<Rightarrow> Refused 404 ''challenge not found''
     | ErrChallengeLocked \<Rightarrow> Refused 403 ''solve the prerequisites first''
     | ErrNoAttemptsRemaining \<Rightarrow> Refused 403 ''no attempts remaining for this challenge''
     | ErrAccount ErrTeamless \<Rightarrow> Refused 403 ''join a team to play''
     | _ \<Rightarrow> Refused 500 ''could not submit flag'')"

definition attempt_flag ::
  "Mode \<Rightarrow> regex \<Rightarrow> time \<Rightarrow> Policy \<Rightarrow> string option \<Rightarrow> id \<Rightarrow> string \<Rightarrow> studio
    \<Rightarrow> AttemptBody answer \<times> studio" where
  "attempt_flag mode re now p ip i flag s =
    (case submit mode re now (game s)
        \<lparr>si_challenge = i, si_actor = request_actor mode p ip, si_provided = flag\<rparr> of
       Inl e \<Rightarrow> (Inl (attempt_refusal e), s)
     | Inr (res, d) \<Rightarrow>
         (Inr \<lparr>ab_status = status_string (r_status res), ab_first_blood = r_first_blood res,
            ab_value = r_value res, ab_next_id = r_next_id res\<rparr>, resume s d))"

definition unlock_refusal :: "gameplay_error \<Rightarrow> refusal" where
  "unlock_refusal e =
    (case e of
       ErrHintNotFound \<Rightarrow> Refused 404 ''hint not found''
     | ErrHintLocked \<Rightarrow> Refused 403 ''unlock the prerequisite hints first''
     | ErrAlreadyUnlocked \<Rightarrow> Refused 409 ''hint already unlocked''
     | ErrInsufficientScore \<Rightarrow> Refused 402 ''not enough points to unlock this hint''
     | ErrAccount ErrTeamless \<Rightarrow> Refused 403 ''join a team to play''
     | _ \<Rightarrow> Refused 500 ''could not unlock hint'')"

definition unlock_request ::
  "Mode \<Rightarrow> time \<Rightarrow> Policy \<Rightarrow> string option \<Rightarrow> id \<Rightarrow> id \<Rightarrow> studio \<Rightarrow> Unlock answer \<times> studio" where
  "unlock_request mode now p ip i hint s =
    (case unlock_hint mode now (game s) i hint (request_actor mode p ip) of
       Inl e \<Rightarrow> (Inl (unlock_refusal e), s)
     | Inr (u, d) \<Rightarrow> (Inr u, resume s d))"

end
