(* ===== verification/Player_Http_Properties.thy ===== *)
theory Player_Http_Properties
  imports Player_Http
begin

section \<open>Properties of the players' requests\<close>

text \<open>
  What a request can do end to end: the page of a unique-flag challenge draws one instance and shows
  it again, play changes the tables only for the caller and only past the gate, and the solve list
  can be followed to its end through the tokens alone.
\<close>

subsection \<open>A view that draws\<close>

lemma game_row_value [simp]: "ch_value (game_row c) = cg_value c"
  by (simp add: game_row_def)

lemma resume_same:
  assumes "challenges d = map game_row (sheets s)"
  shows "resume s d = s\<lparr>studio.play := d\<rparr>"
proof -
  have "map2 (\<lambda>c r. c\<lparr>cg_value := ch_value r\<rparr>) cs (map game_row cs) = cs" for cs :: "Challenge list"
    by (induction cs) auto
  then show ?thesis using assms by (simp add: resume_def)
qed

text \<open>What a draw leaves of the tables: one more row of issues at most.\<close>

lemma drawn:
  assumes "issue_instance (game s) i a = Inr (x, d)"
  shows "\<exists>rows. d = (game s)\<lparr>issues := issues (game s) @ rows\<rparr> \<and> length rows \<le> 1"
    "resume s d = s\<lparr>studio.play := d\<rparr>" "game (resume s d) = d"
proof -
  show rows: "\<exists>rows. d = (game s)\<lparr>issues := issues (game s) @ rows\<rparr> \<and> length rows \<le> 1"
    using issue_instance_cases [OF assms] by (auto intro: exI [of _ "[]"] exI [of _ "[r]" for r])
  then have "challenges d = map game_row (sheets s)" by auto
  then show "resume s d = s\<lparr>studio.play := d\<rparr>" by (rule resume_same)
  show "game (resume s d) = d" by (rule game_resume [OF issue_instance_extends [OF assms]])
qed

lemma view_after_draw:
  assumes "issue_instance (game s) i a = Inr (x, d)"
  shows "catalog_detail collate cast (resume s d) k u t cutoff = catalog_detail collate cast s k u t cutoff"
proof -
  obtain rows where d: "d = (game s)\<lparr>issues := issues (game s) @ rows\<rparr>" using drawn(1) [OF assms] by blast
  let ?s = "s\<lparr>studio.play := d\<rparr>"
  have reads: "has_solve d = has_solve (studio.play s)" "has_unlock d = has_unlock (studio.play s)"
    "solve_count d = solve_count (studio.play s)" "unlocks d = unlocks (studio.play s)"
    "scoped d = scoped (studio.play s)"
    by (simp_all add: d fun_eq_iff has_solve_def has_unlock_def solve_count_def eligible_def game_def
        scoped_def cong: option.case_cong)
  have "sheets ?s = map (revalued (d\<lparr>challenges := []\<rparr>)) (sheets s)"
    by (simp add: map_idI revalued_def)
  moreover have "project cast d u t cutoff (revalued (d\<lparr>challenges := []\<rparr>) c)
      = project cast (studio.play s) u t cutoff c" for c
    by (simp add: project_def reads revalued_def)
  moreover have "list_challenge_hints cast ?s j u t = list_challenge_hints cast s j u t" for j
    by (rule hints_read) (simp_all add: reads)
  ultimately have "catalog_detail collate cast ?s k u t cutoff = catalog_detail collate cast s k u t cutoff"
    using same_board(2) [of ?s "d\<lparr>challenges := []\<rparr>" s cast u t cutoff] by simp
  then show ?thesis by (simp only: drawn(2) [OF assms])
qed

lemma detail_id:
  assumes "catalog_detail collate cast s i u t cutoff = Inr d"
  shows "vw_id (dt_challenge d) = i"
proof -
  obtain c p where row: "get_challenge_for_view cast s i u t cutoff = Inr (Some (c, p))"
    using assms by (auto simp: catalog_detail_def bind_result_Inr_iff split: option.splits)
  then have "cg_id c = i"
    by (auto simp: get_challenge_for_view_def bind_result_Inr_iff find_Some_iff split: option.splits)
  then show ?thesis
    using assms by (auto simp: catalog_detail_def row open_detail_def locked_detail_def bind_result_Inr_iff
        split: sum.splits if_splits)
qed

text \<open>
  C26: The page of a unique-flag challenge draws from the pool once. Only an authenticated player for
  whom the challenge is open draws; the draw adds one row to the issues at most and changes nothing
  else, and the page carries the instance that account holds. Every reload shows the same page and
  changes nothing; a page without an instance changed nothing either.
\<close>
theorem page_draws_once:
  assumes "store_ok (game s)"
    "challenge_detail collate cast reading mode p ip i s = (Inr page, alerts, s')"
  shows "alerts = [] \<and> challenge_detail collate cast reading mode p ip i s' = (Inr page, [], s')
    \<and> (case dp_instance page of
         None \<Rightarrow> s' = s \<and> (vw_flag_mode (dp_view page) \<noteq> ModeUnique \<or> vw_locked (dp_view page)
           \<or> \<not> authed (P p) \<or> is_admin (P p))
       | Some b \<Rightarrow> vw_flag_mode (dp_view page) = ModeUnique \<and> \<not> vw_locked (dp_view page)
           \<and> authed (P p) \<and> \<not> is_admin (P p)
           \<and> (\<exists>a x. actor_account mode (request_actor mode p ip) = Inr a
               \<and> holds (game s') i a = Some x \<and> ii_instance x = ib_instance b)
           \<and> (\<exists>rows. length rows \<le> 1
               \<and> s' = s\<lparr>studio.play := (game s)\<lparr>issues := issues (game s) @ rows\<rparr>\<rparr>))"
proof -
  let ?a = "request_actor mode p ip"
  let ?gate = "\<lambda>v. vw_flag_mode v \<noteq> ModeUnique \<or> vw_locked v \<or> \<not> authed (P p) \<or> is_admin (P p)"
  obtain dt where dt: "catalog_detail collate cast s i (ac_user ?a) (ac_team ?a) (freeze_cutoff p) = Inr dt"
    using assms(2) by (auto simp: challenge_detail_def Let_def split: sum.splits catalog_error.splits)
  obtain inst where inst: "issue_for_view reading mode p ip (dt_challenge dt) s = (Inr inst, s')"
    using assms(2) by (auto simp: challenge_detail_def Let_def dt
        split: sum.splits prod.splits view_error.splits gameplay_error.splits account_error.splits)
  have page: "alerts = []" "dp_view page = dt_challenge dt" "dp_instance page = inst"
    using assms(2) by (auto simp: challenge_detail_def Let_def dt inst)
  have again: "challenge_detail collate cast reading mode p ip i s' = (Inr page, [], s')"
    if "catalog_detail collate cast s' i (ac_user ?a) (ac_team ?a) (freeze_cutoff p) = Inr dt"
      "issue_for_view reading mode p ip (dt_challenge dt) s' = (Inr inst, s')"
    using assms(2) by (simp add: challenge_detail_def Let_def dt inst that)
  show ?thesis
  proof (cases "?gate (dt_challenge dt)")
    case True
    then have "inst = None" "s' = s" using inst by (auto simp: issue_for_view_def)
    then show ?thesis using True again dt inst page by auto
  next
    case open_to: False
    note view = issue_for_view_def detail_id [OF dt]
    obtain a where a: "actor_account mode ?a = Inr a"
      using inst open_to by (auto simp: view split: sum.splits)
    obtain x d where xd: "issue_instance (game s) i a = Inr (x, d)"
      using inst open_to by (auto simp: view a split: sum.splits)
    obtain b where b: "instance_body reading x = Some b"
      using inst open_to by (auto simp: view a xd split: option.splits)
    have "inst = Some b" "s' = resume s d"
      using inst open_to by (simp_all add: view a xd b)
    note draw = a xd b this
    have "issue_instance d i a = Inr (x, d)"
      using pool.reissue [OF assms(1) draw(2), of "[]"] by simp
    moreover have "resume s' d = s'"
      using drawn(1,2) [OF draw(2)] resume_same [of d s'] by (auto simp: draw(5))
    ultimately have "issue_for_view reading mode p ip (dt_challenge dt) s' = (Inr inst, s')"
      using open_to draw drawn(3) [OF draw(2)] detail_id [OF dt] by (simp add: issue_for_view_def)
    moreover have "holds (game s') i a = Some x"
      using issue_instance_gives [OF draw(2)] drawn(3) [OF draw(2)] by (simp add: draw(5))
    moreover have "ii_instance x = ib_instance b"
      using draw(3) by (auto simp: instance_body_def split: option.splits)
    moreover have "\<exists>rows. length rows \<le> 1
        \<and> s' = s\<lparr>studio.play := (game s)\<lparr>issues := issues (game s) @ rows\<rparr>\<rparr>"
      using drawn(1,2) [OF draw(2)] by (auto simp: draw(5))
    ultimately show ?thesis
      using again view_after_draw [OF draw(2)] dt open_to page draw(1,4) by (auto simp: draw(5))
  qed
qed

subsection \<open>Play past the gate\<close>

lemma unlock_gains:
  assumes "unlock_hint mode now l i hint a = Inr (u, l')" "who (ac_user a) (ac_team a)"
  shows "gained now who l l'"
  using exec_gains [of mode re "CUnlock now i hint a" l "OUnlock u" l' now who] assms
  by (simp add: exec_def tag_Inr late_by_def)

text \<open>
  What one account's play may leave: rows at the end of the log, the solves, the awards, the unlocks
  and the announcements, each under its user and team and dated now, pulses of the solves it added,
  and new asking prices of the challenges it added a solve of. Every other column of the game is as
  it was: the accounts, the flags, the hints, the pool and the instances drawn from it.
\<close>

definition own_play :: "time \<Rightarrow> id \<Rightarrow> id option \<Rightarrow> db \<Rightarrow> db \<Rightarrow> bool" where
  "own_play now u t l l' \<longleftrightarrow>
    (\<exists>subs ss aws us ans ps cs.
      l' = l\<lparr>submissions := submissions l @ subs,
             next_submission := next_submission l + int (length subs),
             solves := solves l @ ss, next_solve := next_solve l + int (length ss),
             awards := awards l @ aws, next_award := next_award l + int (length aws),
             unlocks := unlocks l @ us, next_unlock := next_unlock l + int (length us),
             announcements := announcements l @ ans, pulses := pulses l @ ps, challenges := cs\<rparr>
      \<and> list_all (\<lambda>b. sb_user b = u \<and> sb_team b = t \<and> sb_date b = now) subs
      \<and> list_all (\<lambda>s. sv_user s = u \<and> sv_team s = t \<and> sv_date s = now) ss
      \<and> list_all (\<lambda>a. aw_user a = u \<and> aw_team a = t \<and> aw_date a = now) aws
      \<and> list_all (\<lambda>r. hu_user r = u \<and> hu_team r = t) us
      \<and> list_all (\<lambda>a. an_user a = u \<and> an_team a = t \<and> an_at a = now) ans
      \<and> list_all (\<lambda>p. pu_at p = now \<and> List.member (map sv_id ss) (pu_solve p)) ps
      \<and> list_all2 (\<lambda>c c'. c' = c \<or> List.member (map sv_challenge ss) (ch_id c)
            \<and> c' = c\<lparr>ch_value := ch_value c'\<rparr>) (challenges l) cs)"

lemma own_playI:
  assumes "l' = l\<lparr>submissions := submissions l @ subs,
             next_submission := next_submission l + int (length subs),
             solves := solves l @ ss, next_solve := next_solve l + int (length ss),
             awards := awards l @ aws, next_award := next_award l + int (length aws),
             unlocks := unlocks l @ us, next_unlock := next_unlock l + int (length us),
             announcements := announcements l @ ans, pulses := pulses l @ ps, challenges := cs\<rparr>"
    "\<forall>b\<in>set subs. sb_user b = u \<and> sb_team b = t \<and> sb_date b = now"
    "\<forall>s\<in>set ss. sv_user s = u \<and> sv_team s = t \<and> sv_date s = now"
    "\<forall>a\<in>set aws. aw_user a = u \<and> aw_team a = t \<and> aw_date a = now"
    "\<forall>r\<in>set us. hu_user r = u \<and> hu_team r = t"
    "\<forall>a\<in>set ans. an_user a = u \<and> an_team a = t \<and> an_at a = now"
    "\<forall>p\<in>set ps. pu_at p = now \<and> pu_solve p \<in> sv_id ` set ss"
    "list_all2 (\<lambda>c c'. c' = c \<or> ch_id c \<in> sv_challenge ` set ss
            \<and> c' = c\<lparr>ch_value := ch_value c'\<rparr>) (challenges l) cs"
  shows "own_play now u t l l'"
  unfolding own_play_def
  by (rule exI [of _ subs], rule exI [of _ ss], rule exI [of _ aws], rule exI [of _ us],
      rule exI [of _ ans], rule exI [of _ ps], rule exI [of _ cs])
    (use assms in \<open>simp add: list_all_iff\<close>)

lemma recalc_one:
  assumes "recalc_challenge_value d i = Inr d'"
  shows "\<exists>cs. d' = d\<lparr>challenges := cs\<rparr>
    \<and> list_all2 (\<lambda>c c'. c' = c \<or> ch_id c = i \<and> c' = c\<lparr>ch_value := ch_value c'\<rparr>) (challenges d) cs"
proof (cases "find (\<lambda>c. ch_id c = i \<and> ch_function c \<noteq> ''static'') (challenges d)")
  case None
  then show ?thesis
    using assms by (intro exI [of _ "challenges d"]) (simp add: recalc_challenge_value_def list.rel_refl)
next
  case (Some c)
  then show ?thesis
    using assms by (auto simp: recalc_challenge_value_def list_all2_map2 list.rel_refl split: sum.splits)
qed

lemma submit_own:
  assumes "submit mode re now l inp = Inr (r, l')"
  shows "own_play now (ac_user (si_actor inp)) (ac_team (si_actor inp)) l l'"
proof -
  have same: "list_all2 (\<lambda>c c'. c' = c) cs cs" for cs :: "ChallengeRow list"
    by (simp add: list.rel_refl)
  obtain ch m where w: "submit_write now l inp ch m = Inr (r, l')"
    using assms by (auto simp: submit_Inr_iff)
  show ?thesis
  proof (cases "m_correct m")
    case False
    then have "l' = logged l (log_row now l inp (ch_id ch) ''incorrect'' None)"
      using w by (simp add: submit_write_def submit_incorrect_Inr)
    then show ?thesis
      by (intro own_playI [where subs = "[log_row now l inp (ch_id ch) ''incorrect'' None]" and ss = "[]"
            and aws = "[]" and us = "[]" and ans = "[]" and ps = "[]" and cs = "challenges l"])
        (simp_all add: logged_def log_row_def same)
  next
    case correct: True
    let ?row = "\<lambda>c. log_row now l inp (ch_id c) ''correct'' (m_attributed m)"
    obtain locked where "l' = logged l (?row locked)
      \<or> after_solve now (stamped (logged l (?row locked)) (stamp now l inp locked))
          (si_actor inp) locked (stamp now l inp locked) = Inr (r, l')"
      using w correct by (auto simp: submit_write_def submit_correct_Inr Let_def split: if_splits)
    then show ?thesis
    proof
      assume "l' = logged l (?row locked)"
      then show ?thesis
        by (intro own_playI [where subs = "[?row locked]" and ss = "[]" and aws = "[]" and us = "[]"
              and ans = "[]" and ps = "[]" and cs = "challenges l"])
          (simp_all add: logged_def log_row_def same)
    next
      assume after: "after_solve now (stamped (logged l (?row locked)) (stamp now l inp locked))
          (si_actor inp) locked (stamp now l inp locked) = Inr (r, l')"
      let ?d = "stamped (logged l (?row locked)) (stamp now l inp locked)"
      let ?blood = "takes_first_blood ?d (si_actor inp) locked (stamp now l inp locked)"
      let ?pulse = "\<lparr>pu_solve = next_solve l, pu_challenge = ch_id locked, pu_first_blood = ?blood,
          pu_at = now\<rparr>"
      let ?ann = "if ?blood then [\<lparr>an_challenge = ch_id locked, an_name = ch_name locked,
          an_user = ac_user (si_actor inp), an_team = ac_team (si_actor inp), an_solve = next_solve l,
          an_at = now\<rparr>] else []"
      show ?thesis
      proof (rule after_solve_exact [OF after])
        fix aws ans cs
        assume l': "l' = ?d\<lparr>awards := awards ?d @ aws, next_award := next_award ?d + int (length aws),
              announcements := announcements ?d @ ans,
              pulses := pulses ?d @ [\<lparr>pu_solve = sv_id (stamp now l inp locked),
                pu_challenge = ch_id locked, pu_first_blood = ?blood,
                pu_at = sv_date (stamp now l inp locked)\<rparr>], challenges := cs\<rparr>"
          and aws: "if ?blood \<and> ch_first_blood locked = ''bonus''
            then (\<exists>bonus. ch_first_blood_bonus locked = Some bonus
              \<and> aws = [blood_award now ?d (si_actor inp) locked bonus]
              \<and> \<not> list_ex (\<lambda>w. aw_type w = ''first_blood'' \<and> eq_id (aw_challenge w) (Some (ch_id locked)))
                    (awards ?d))
            else aws = []"
          and static: "ch_function locked = ''static'' \<Longrightarrow> cs = challenges ?d"
          and ans: "ans = (if ?blood then [\<lparr>an_challenge = ch_id locked, an_name = ch_name locked,
              an_user = ac_user (si_actor inp), an_team = ac_team (si_actor inp),
              an_solve = sv_id (stamp now l inp locked), an_at = sv_date (stamp now l inp locked)\<rparr>] else [])"
          and re: "ch_function locked \<noteq> ''static'' \<Longrightarrow> recalc_challenge_value
             (?d\<lparr>awards := awards ?d @ aws, next_award := next_award ?d + int (length aws),
                announcements := announcements ?d @ ans,
                pulses := pulses ?d @ [\<lparr>pu_solve = sv_id (stamp now l inp locked),
                  pu_challenge = ch_id locked, pu_first_blood = ?blood,
                  pu_at = sv_date (stamp now l inp locked)\<rparr>]\<rparr>) (ch_id locked) = Inr l'"
        have "list_all2 (\<lambda>c c'. c' = c \<or> ch_id c = ch_id locked \<and> c' = c\<lparr>ch_value := ch_value c'\<rparr>)
            (challenges l) cs"
        proof (cases "ch_function locked = ''static''")
          case True
          then show ?thesis using static by (simp add: frame list.rel_refl)
        next
          case False
          obtain cs' where cs': "l' = ?d\<lparr>awards := awards ?d @ aws,
                next_award := next_award ?d + int (length aws), announcements := announcements ?d @ ans,
                pulses := pulses ?d @ [\<lparr>pu_solve = sv_id (stamp now l inp locked),
                  pu_challenge = ch_id locked, pu_first_blood = ?blood,
                  pu_at = sv_date (stamp now l inp locked)\<rparr>], challenges := cs'\<rparr>"
            "list_all2 (\<lambda>c c'. c' = c \<or> ch_id c = ch_id locked \<and> c' = c\<lparr>ch_value := ch_value c'\<rparr>)
              (challenges l) cs'"
            using recalc_one [OF re [OF False]] by (auto simp: frame)
          have "cs' = cs" using arg_cong [OF cs'(1), of challenges] arg_cong [OF l', of challenges] by simp
          then show ?thesis using cs'(2) by simp
        qed
        then show ?thesis
          by (intro own_playI [where subs = "[?row locked]" and ss = "[stamp now l inp locked]"
                and aws = aws and us = "[]" and ans = ?ann and ps = "[?pulse]" and cs = cs])
            (use aws in \<open>auto simp: l' ans stamped_def logged_def stamp_def log_row_def blood_award_def
              split: if_splits\<close>)
      qed
    qed
  qed
qed

lemma unlock_own:
  assumes "unlock_hint mode now l i hint a = Inr (u, l')"
  shows "own_play now (ac_user a) (ac_team a) l l'"
proof -
  obtain h where "l' = unlocked (awarded l (charge now l a h)) (unlock_row l a h)"
    using assms by (auto simp: unlock_hint_Inr unlock_spend_Inr)
  then show ?thesis
    by (intro own_playI [where subs = "[]" and ss = "[]" and aws = "[charge now l a h]"
          and us = "[unlock_row l a h]" and ans = "[]" and ps = "[]" and cs = "challenges l"])
      (simp_all add: unlocked_def awarded_def charge_def unlock_row_def list.rel_refl)
qed

text \<open>
  What the gate lets through to a submission and to a hint purchase, spelled out for the two classes.
\<close>

definition may_play :: "Policy \<Rightarrow> bool" where
  "may_play p \<longleftrightarrow>
    setup_done (E p) \<and> authed (P p) \<and> \<not> banned (P p) \<and> \<not> team_banned (P p)
    \<and> \<not> Principal.force_password_change (P p)
    \<and> (is_admin (P p) \<or>
        (verify_emails (E p) \<longrightarrow> verified (P p)) \<and> phase (E p) = PhaseRunning)
    \<and> (req_class (R p) = ClassChallengeAttempt \<longrightarrow>
        admits (challenge_vis (E p)) VisChallenge (P p)
        \<and> (is_admin (P p) \<or> profile_complete (P p)
            \<and> (ev_mode (E p) = ModeTeams \<longrightarrow> \<not> p_teamless (P p) \<and> team_profile_complete (P p)))
        \<and> (paused (E p) \<longrightarrow> is_admin (P p) \<and> preview (R p)))"

lemma permitted_may_play:
  assumes "req_class (R p) \<in> {ClassChallengeAttempt, ClassHintUnlock}"
  shows "permitted p \<longleftrightarrow> may_play p"
proof -
  note spec = permitted_def route_exists_def caller_acceptable_def sees_def ready_to_play_def
    clock_open_def Let_def may_play_def available_in_def
  have vis: "vis_for e VisChallenge = challenge_vis e" for e by (simp add: vis_for_def)
  consider "req_class (R p) = ClassChallengeAttempt" | "req_class (R p) = ClassHintUnlock"
    using assms by blast
  then show ?thesis
  proof cases
    case 1
    have attrs: "class_attrs ClassChallengeAttempt =
        no_attrs\<lparr>vis_gates := [VisChallenge], requires_auth := True, requires_verified := True,
          requires_profile := True, requires_team := True, time_gated := True, mutates_score := True\<rparr>"
      by (simp add: class_attrs_def)
    show ?thesis
      by (cases "phase (E p)"; cases "authed (P p)"; cases "is_admin (P p)")
        (simp_all add: spec 1 attrs no_attrs_def vis, blast+)
  next
    case 2
    have attrs: "class_attrs ClassHintUnlock =
        no_attrs\<lparr>requires_auth := True, requires_verified := True, time_gated := True, mutates_score := True\<rparr>"
      by (simp add: class_attrs_def)
    show ?thesis
      by (cases "phase (E p)"; cases "authed (P p)"; cases "is_admin (P p)")
        (simp_all add: spec 2 attrs no_attrs_def)
  qed
qed

text \<open>
  C19: No play without the gate, and none for anybody else. If a submission or a hint purchase that
  came in over HTTP changed anything, then every guard of the gate held: the order-free
  specification of the gate, and spelled out for the two classes a finished setup, an authenticated
  caller who is not banned, nor is its team, and who owes no change of password; unless he is an
  administrator an address confirmed where that is required and an instant inside the event; and for
  a submission a board his visibility admits him to, a complete profile of his and of the team he
  must have in a team event, and a pause only an administrator who previews gets past. And what
  changed is his: \<open>own_play\<close> under his user and team, dated at the transaction, with the price column
  of the catalogue the only one to follow, and no row of game play removed or rewritten.
\<close>
theorem gated_play_is_own:
  assumes "phase (E p) = phase_at now start end_at" "s' \<noteq> s"
    "(req_class (R p) = ClassChallengeAttempt
        \<and> policy_gate p (attempt_flag mode re now p ip i flag) s = (answer, s'))
     \<or> (req_class (R p) = ClassHintUnlock
        \<and> policy_gate p (unlock_request mode now p ip i hint) s = (bought, s'))"
  shows "permitted p \<and> may_play p
    \<and> setup_done (E p) \<and> authed (P p) \<and> \<not> banned (P p) \<and> \<not> team_banned (P p)
    \<and> (is_admin (P p) \<or>
        (verify_emails (E p) \<longrightarrow> verified (P p))
        \<and> list_all (\<lambda>s. s < now) (case start of None \<Rightarrow> [] | Some s \<Rightarrow> [s])
        \<and> list_all (\<lambda>e. now \<le> e) (case end_at of None \<Rightarrow> [] | Some e \<Rightarrow> [e]))
    \<and> (req_class (R p) = ClassChallengeAttempt \<and> paused (E p)
        \<longrightarrow> is_admin (P p) \<and> preview (R p))
    \<and> s' = resume s (studio.play s')
    \<and> own_play now (user_id (P p)) (ac_team (request_actor mode p ip)) (game s) (studio.play s')
    \<and> gained now (\<lambda>u t. u = user_id (P p) \<and> t = ac_team (request_actor mode p ip))
        (game s) (studio.play s')
    \<and> extends (game s) (studio.play s')"
proof -
  let ?who = "\<lambda>u t. u = user_id (P p) \<and> t = ac_team (request_actor mode p ip)"
  have own: "?who (ac_user (request_actor mode p ip)) (ac_team (request_actor mode p ip))"
    by (simp add: request_actor_def)
  have allowed: "allow (decide p)"
    using assms(2,3) by (auto simp: policy_gate_def denied_def Let_def split: if_splits)
  have play: "s' = resume s (studio.play s')
      \<and> own_play now (user_id (P p)) (ac_team (request_actor mode p ip)) (game s) (studio.play s')
      \<and> gained now ?who (game s) (studio.play s') \<and> extends (game s) (studio.play s')"
    using assms(3)
  proof
    assume "req_class (R p) = ClassChallengeAttempt
        \<and> policy_gate p (attempt_flag mode re now p ip i flag) s = (answer, s')"
    then obtain r d where sub: "submit mode re now (game s)
        \<lparr>si_challenge = i, si_actor = request_actor mode p ip, si_provided = flag\<rparr> = Inr (r, d)"
      "s' = resume s d"
      using assms(2) allowed
      by (auto simp: policy_gate_def denied_def attempt_flag_def Let_def split: sum.splits prod.splits)
    have "extends (game s) d"
      using sub(1) game.exec_grows [of mode re "CSubmit now \<lparr>si_challenge = i,
          si_actor = request_actor mode p ip, si_provided = flag\<rparr>"]
      by (simp add: exec_def tag_Inr)
    then show ?thesis
      using submit_gains [OF sub(1), of now ?who] submit_own [OF sub(1)] own by (simp add: sub(2))
  next
    assume "req_class (R p) = ClassHintUnlock
        \<and> policy_gate p (unlock_request mode now p ip i hint) s = (bought, s')"
    then obtain u d where buy: "unlock_hint mode now (game s) i hint (request_actor mode p ip) = Inr (u, d)"
      "s' = resume s d"
      using assms(2) allowed
      by (auto simp: policy_gate_def denied_def unlock_request_def Let_def split: sum.splits prod.splits)
    then show ?thesis
      using unlock_gains [OF buy(1), of ?who] unlock_own [OF buy(1)] own
        unlock_hint_extends [OF buy(1)] by (simp add: buy(2))
  qed
  have "mutates_score (class_attrs (req_class (R p)))"
    using assms(3) by (auto simp: class_attrs_def no_attrs_def)
  moreover have "permitted p" using allowed by (simp add: decide_permitted)
  moreover from this have "may_play p" using assms(3) permitted_may_play [of p] by blast
  ultimately show ?thesis
    using score_mutation_guarded [OF allowed _ assms(1)] play by blast
qed

subsection \<open>The solve list over HTTP\<close>

text \<open>A client that hands back every token it gets, with fuel.\<close>

fun follow_tokens :: "nat \<Rightarrow> Policy \<Rightarrow> directory \<Rightarrow> id \<Rightarrow> int \<Rightarrow> string
    \<Rightarrow> SolveEntry list list option" where
  "follow_tokens 0 p d i limit token = None"
| "follow_tokens (Suc n) p d i limit token =
    (case challenge_solves p d i token limit of
       Inl _ \<Rightarrow> None
     | Inr body \<Rightarrow>
         if so_next body = '''' then Some [so_solves body]
         else map_option (Cons (so_solves body)) (follow_tokens n p d i limit (so_next body)))"

definition cursor_fits :: "(time \<times> id) option \<Rightarrow> bool" where
  "cursor_fits cursor =
    (case cursor of None \<Rightarrow> True | Some (t, k) \<Rightarrow> in_i64 (t - unix_epoch) \<and> in_i64 k)"

definition token_of :: "(time \<times> id) option \<Rightarrow> string" where
  "token_of cursor = (case cursor of None \<Rightarrow> '''' | Some (t, k) \<Rightarrow> encode_keyset_cursor t k)"

lemma token_of_simps [simp]:
  "token_of None = ''''" "token_of (Some (t, k)) = encode_keyset_cursor t k"
  by (simp_all add: token_of_def)

lemma page_cursor:
  assumes "catalog_solves d i cutoff cursor limit = Inr page" "sp_next page = Some (t, k)"
  shows "\<exists>s\<in>set (solves (ledger d)). sv_date s = t \<and> sv_id s = k"
proof -
  let ?rows = "list_challenge_solves d i cutoff cursor (i32 limit)"
  have r: "?rows \<noteq> []" "sl_solve (last ?rows) = Some k" "t = coalesce (sl_date (last ?rows)) zero_time"
    using assms by (auto simp: catalog_solves_def Let_def split: if_splits option.splits)
  obtain mode where "last ?rows \<in> set (map (solve_list_row d mode) (listed_solves d i cutoff cursor))"
    using last_in_set [OF r(1)] r(2)
    by (auto simp: list_challenge_solves_def no_solve_row_def split: option.splits if_splits
        dest!: in_set_takeD)
  then show ?thesis
    using r(2,3) by (auto simp: solve_list_row_def listed_solves_def coalesce_def)
qed

lemma follow_tokens_follow:
  assumes "scores_visible (new_redactor p)" "accounts_visible (new_redactor p)"
    "list_all (\<lambda>s. in_i64 (sv_date s - unix_epoch) \<and> in_i64 (sv_id s)) (solves (ledger d))"
  shows "cursor_fits cursor \<Longrightarrow>
    follow_tokens n p d i limit (token_of cursor) = follow n d i (freeze_cutoff p) limit cursor"
proof (induction n arbitrary: cursor)
  case (Suc n)
  have read: "(if token_of cursor = '''' then Inr None
      else case decode_keyset_cursor (token_of cursor) of
             None \<Rightarrow> Inl (Refused 422 ''invalid cursor'')
           | Some k \<Rightarrow> Inr (Some k)) = Inr cursor"
    using Suc.prems cursor_resumes by (auto simp: token_of_def cursor_fits_def split: option.splits)
  show ?case
  proof (cases "catalog_solves d i (freeze_cutoff p) cursor limit")
    case (Inl e)
    then show ?thesis by (cases e) (simp_all add: challenge_solves_def read Let_def)
  next
    case (Inr page)
    then have body: "challenge_solves p d i (token_of cursor) limit
        = Inr \<lparr>so_solves = sp_rows page, so_next = token_of (sp_next page), so_limit = limit\<rparr>"
      using assms(1,2)
      by (cases "sp_next page")
        (auto simp: challenge_solves_def read Let_def challenge_solve_list_def)
    have fits: "cursor_fits (sp_next page)"
      using page_cursor [OF Inr] assms(3) by (auto simp: cursor_fits_def list_all_iff split: option.split)
    then have "token_of (sp_next page) = '''' \<longleftrightarrow> sp_next page = None"
      using cursor_resumes(2) by (auto simp: token_of_def cursor_fits_def split: option.splits)
    then show ?thesis
      using Suc.IH [OF fits] by (auto simp: body Inr split: option.split)
  qed
qed simp

text \<open>
  C27: The solve list served page by page is the solve list. A client that hands back every token
  until it gets none is done after one page more than full pages fit, and what it read is every solve
  of the challenge before its freeze, oldest first, each once, less those of hidden and banned
  accounts. Where scores or accounts are withheld from it, it gets no row and no token, whatever
  token it sends; and a challenge that is not visible is a not-found.
\<close>
theorem solve_list_followed:
  assumes "instance_mode d = Some mode" "distinct (map sv_id (solves (ledger d)))"
    "1 \<le> limit" "limit \<le> 100"
    "list_all (\<lambda>s. in_i64 (sv_date s - unix_epoch) \<and> in_i64 (sv_id s)) (solves (ledger d))"
  shows "if get_challenge (ledger d) i = None
    then challenge_solves p d i '''' limit = Inl (Refused 404 ''challenge not found'')
    else if \<not> (scores_visible (new_redactor p) \<and> accounts_visible (new_redactor p))
    then (case challenge_solves p d i token limit of
            Inl e \<Rightarrow> e = Refused 422 ''invalid cursor''
          | Inr body \<Rightarrow> so_solves body = [] \<and> so_next body = '''')
    else \<exists>ps. follow_tokens (Suc (length (listed_solves d i (freeze_cutoff p) None))) p d i limit '''' = Some ps
      \<and> concat ps = shown_entries (map (solve_list_row d mode) (listed_solves d i (freeze_cutoff p) None))
      \<and> length ps = Suc (length (listed_solves d i (freeze_cutoff p) None) div nat limit)
      \<and> (\<forall>q\<in>set ps. length q \<le> nat limit)
      \<and> sorted_wrt solve_key_less (listed_solves d i (freeze_cutoff p) None)
      \<and> set (listed_solves d i (freeze_cutoff p) None)
          = {s \<in> set (solves (ledger d)). sv_challenge s = i \<and> before_cutoff (freeze_cutoff p) (sv_date s)}"
proof -
  have lim: "limit < 2147483648" using assms(4) by simp
  note pages = solve_pages_cover_list [OF assms(1-3) lim, of i "freeze_cutoff p"]
  consider "get_challenge (ledger d) i = None"
    | "get_challenge (ledger d) i \<noteq> None"
      "\<not> (scores_visible (new_redactor p) \<and> accounts_visible (new_redactor p))"
    | "get_challenge (ledger d) i \<noteq> None" "scores_visible (new_redactor p)" "accounts_visible (new_redactor p)"
    by blast
  then show ?thesis
  proof cases
    case 1
    then show ?thesis using pages by (simp add: challenge_solves_def Let_def)
  next
    case 2
    have "is_ok (catalog_solves d i (freeze_cutoff p) c limit)" for c
      using 2(1) assms(1,3,4) by (auto simp: catalog_solves_def list_challenge_solves_def Let_def i32_def)
    then have "\<forall>c. \<exists>page. catalog_solves d i (freeze_cutoff p) c limit = Inr page"
      by (simp add: is_ok_iff)
    then obtain pg where "\<And>c. catalog_solves d i (freeze_cutoff p) c limit = Inr (pg c)" by metis
    then have "case challenge_solves p d i token limit of
        Inl e \<Rightarrow> e = Refused 422 ''invalid cursor''
      | Inr body \<Rightarrow> so_solves body = [] \<and> so_next body = ''''"
      using 2(2) by (cases "token = ''''"; cases "decode_keyset_cursor token")
        (auto simp: challenge_solves_def Let_def challenge_solve_list_def split: option.split prod.split)
    then show ?thesis using 2 by auto
  next
    case 3
    have "follow_tokens n p d i limit '''' = follow n d i (freeze_cutoff p) limit None" for n
      using follow_tokens_follow [OF 3(2,3) assms(5), of None] by (simp add: cursor_fits_def)
    then show ?thesis using pages 3 by auto
  qed
qed

subsection \<open>Witnesses\<close>

text \<open>
  A catalogue with one unique-flag challenge, a pool of one instance and a free hint, and player 7.
\<close>

definition unique_studio :: studio where
  "unique_studio =
    sample_one\<lparr>sheets := map (\<lambda>c. c\<lparr>cg_flag_mode := ''unique''\<rparr>) (sheets sample_one),
      pool := [\<lparr>in_id = 1, in_challenge = 1, in_hash = [], in_artifact = None, in_vars = RawEmpty,
        in_generation = 1\<rparr>],
      hint_rows := [\<lparr>h_id = 1, h_challenge = 1, h_title = None, h_content = ''look closer'', h_cost = 0,
        h_requirements = RawDoc (JObject []), h_position = 0\<rparr>]\<rparr>"

definition unique_view :: "DetailPage answer \<times> (id \<times> string) list \<times> studio" where
  "unique_view = challenge_detail (\<lambda>_. 0) (\<lambda>_. None) Some ModeUsers (sample_policy ClassChallengeDetail)
    None 1 unique_studio"

theorem page_draws_once_witness:
  "\<exists>page s'. unique_view = (Inr page, [], s')
    \<and> challenge_detail (\<lambda>_. 0) (\<lambda>_. None) Some ModeUsers (sample_policy ClassChallengeDetail) None 1 s'
        = (Inr page, [], s')"
proof -
  have "is_ok (fst unique_view)" by code_simp
  then obtain page where "fst unique_view = Inr page" by (auto simp: is_ok_iff)
  then obtain alerts s' where v: "unique_view = (Inr page, alerts, s')" by (metis prod.collapse)
  have ok: "store_ok (game unique_studio)" by code_simp
  have "alerts = [] \<and> challenge_detail (\<lambda>_. 0) (\<lambda>_. None) Some ModeUsers
      (sample_policy ClassChallengeDetail) None 1 s' = (Inr page, [], s')"
    using page_draws_once [OF ok v [unfolded unique_view_def]] by blast
  then show ?thesis using v by blast
qed

definition free_hint :: "Unlock answer \<times> studio" where
  "free_hint = policy_gate (sample_policy ClassHintUnlock)
    (unlock_request ModeUsers 100 (sample_policy ClassHintUnlock) None 1 1) unique_studio"

theorem gated_play_is_own_witness:
  "snd free_hint \<noteq> unique_studio \<and> may_play (sample_policy ClassHintUnlock)
    \<and> own_play 100 7 None (game unique_studio) (studio.play (snd free_hint))
    \<and> snd free_hint = resume unique_studio (studio.play (snd free_hint))"
proof -
  have "length (unlocks (studio.play (snd free_hint))) = 1"
    "length (unlocks (studio.play unique_studio)) = 0"
    by code_simp+
  then have changed: "snd free_hint \<noteq> unique_studio" by (metis zero_neq_one)
  have "phase (E (sample_policy ClassHintUnlock)) = phase_at 100 None None"
    by (simp add: sample_defs phase_at_def)
  moreover have "req_class (R (sample_policy ClassHintUnlock)) = ClassHintUnlock"
    by (simp add: sample_defs)
  moreover have "policy_gate (sample_policy ClassHintUnlock)
      (unlock_request ModeUsers 100 (sample_policy ClassHintUnlock) None 1 1) unique_studio
      = (fst free_hint, snd free_hint)"
    by (simp add: free_hint_def)
  moreover have "user_id (P (sample_policy ClassHintUnlock)) = 7"
    "ac_team (request_actor ModeUsers (sample_policy ClassHintUnlock) None) = None"
    by (simp_all add: sample_defs request_actor_def)
  ultimately show ?thesis
    using gated_play_is_own [of "sample_policy ClassHintUnlock" 100 None None "snd free_hint" unique_studio]
      changed by fastforce
qed

text \<open>The two solves of one instant, read one by one over HTTP.\<close>

definition recent_directory :: directory where
  "recent_directory =
    solved_directory\<lparr>ledger := (ledger solved_directory)\<lparr>solves :=
      map (\<lambda>s. s\<lparr>sv_date := unix_epoch + 100\<rparr>) (solves (ledger solved_directory))\<rparr>\<rparr>"

theorem solve_list_followed_witness:
  "\<exists>ps. follow_tokens 3 (sample_policy ClassChallengeSolves) recent_directory 1 1 '''' = Some ps
    \<and> length ps = 3"
proof -
  let ?p = "sample_policy ClassChallengeSolves"
  have cut: "freeze_cutoff ?p = None"
    by (simp add: freeze_cutoff_def sample_defs)
  have rows: "length (listed_solves recent_directory 1 None None) = 2"
    by (simp add: listed_solves_def recent_directory_def solved_directory_def after_cursor_def
        before_cutoff_def)
  have "get_challenge (ledger recent_directory) 1 \<noteq> None"
    by (simp add: get_challenge_def recent_directory_def solved_directory_def sample_db_def sample_challenge_def)
  moreover have "distinct (map sv_id (solves (ledger recent_directory)))"
    "list_all (\<lambda>s. in_i64 (sv_date s - unix_epoch) \<and> in_i64 (sv_id s)) (solves (ledger recent_directory))"
    "instance_mode recent_directory = Some ''users''"
    by (simp_all add: recent_directory_def solved_directory_def)
  moreover have "scores_visible (new_redactor ?p)" "accounts_visible (new_redactor ?p)" by code_simp+
  ultimately show ?thesis
    using solve_list_followed [where d = recent_directory and mode = "''users''" and limit = 1 and p = ?p and i = 1
        and token = "''''"] cut rows
    by (auto simp: numeral_3_eq_3)
qed

end
