(* ===== verification/Manual_Awards.thy ===== *)
theory Manual_Awards
  imports Input_Rules Scoreboard_Properties
begin

section \<open>Manual point adjustments (internal/adminops/awards.go)\<close>

text \<open>
  An organizer's award or penalty is a row of the ledger of type \<open>standard\<close>; revoking it deletes the
  row. Accounts come from the directory, the rows from its ledger.
\<close>

datatype award_op_error =
    AwardInvalid award_error
  | AwardAccountNotFound id
  | AwardNotFound
  | AwardNotManual string
  | AwardDatabase pg_error

record ManualAward =
  mw_id :: id
  mw_value :: int
  mw_reason :: string
  mw_date :: time

subsection \<open>awards.sql\<close>

text \<open>
  The row of a manual award, with the foreign key of its user: of a team, its captain. \<open>None\<close> is no
  row returned: no such account, or a team without a captain.
\<close>

definition manual_row :: "directory \<Rightarrow> time \<Rightarrow> id \<Rightarrow> id option \<Rightarrow> int \<Rightarrow> string \<Rightarrow> AwardRow" where
  "manual_row d now user team value why =
    \<lparr>aw_id = next_award (ledger d), aw_user = user, aw_team = team, aw_type = ''standard'',
     aw_challenge = None, aw_name = ''manual adjustment'', aw_description = Some why,
     aw_value = value, aw_date = now\<rparr>"

definition insert_manual :: "directory \<Rightarrow> AwardRow \<Rightarrow> (pg_error, AwardRow \<times> directory) result" where
  "insert_manual d r =
    (if user_by_id d (aw_user r) = None then Inl (PgForeign ''awards_user_id_fkey'')
     else Inr (r, d\<lparr>ledger := (ledger d)\<lparr>awards := awards (ledger d) @ [r],
                                         next_award := next_award (ledger d) + 1\<rparr>\<rparr>))"

definition grant_user_award ::
  "directory \<Rightarrow> time \<Rightarrow> id \<Rightarrow> int \<Rightarrow> string \<Rightarrow> (pg_error, (AwardRow \<times> directory) option) result" where
  "grant_user_award d now user value why =
    (case user_by_id d user of
       None \<Rightarrow> Inr None
     | Some u \<Rightarrow>
         bind_result (insert_manual d (manual_row d now (us_id u) (us_team u) value why))
           (\<lambda>r. Inr (Some r)))"

definition grant_team_award ::
  "directory \<Rightarrow> time \<Rightarrow> id \<Rightarrow> int \<Rightarrow> string \<Rightarrow> (pg_error, (AwardRow \<times> directory) option) result" where
  "grant_team_award d now team value why =
    (case team_by_id d team of
       None \<Rightarrow> Inr None
     | Some t \<Rightarrow>
         (case tm_captain t of
            None \<Rightarrow> Inr None
          | Some c \<Rightarrow>
              bind_result (insert_manual d (manual_row d now c (Some (tm_id t)) value why))
                (\<lambda>r. Inr (Some r))))"

definition newest_first :: "AwardRow list \<Rightarrow> AwardRow list" where
  "newest_first rows = rev (sort_key aw_date (sort_key aw_id rows))"

definition list_user_manual_awards :: "directory \<Rightarrow> id \<Rightarrow> AwardRow list" where
  "list_user_manual_awards d user =
    newest_first (filter (\<lambda>a. aw_user a = user \<and> aw_type a = ''standard'') (awards (ledger d)))"

definition list_team_manual_awards :: "directory \<Rightarrow> id \<Rightarrow> AwardRow list" where
  "list_team_manual_awards d team =
    newest_first
      (filter (\<lambda>a. eq_id (aw_team a) (Some team) \<and> aw_type a = ''standard'') (awards (ledger d)))"

text \<open>
  One statement: the type found under the id, empty for none, and the id deleted, zero for none.
  Deleting a charge that an unlock refers to would break its foreign key.
\<close>

definition revoke_manual_award ::
  "directory \<Rightarrow> id \<Rightarrow> (pg_error, (string \<times> id) \<times> directory) result" where
  "revoke_manual_award d i =
    (case find (\<lambda>a. aw_id a = i) (awards (ledger d)) of
       None \<Rightarrow> Inr (('''', 0), d)
     | Some a \<Rightarrow>
         if aw_type a \<noteq> ''standard'' then Inr ((aw_type a, 0), d)
         else if list_ex (\<lambda>u. hu_award u = i) (unlocks (ledger d))
         then Inl (PgForeign ''hint_unlocks_award_id_fkey'')
         else
           Inr ((aw_type a, i),
             d\<lparr>ledger := (ledger d)\<lparr>awards := filter (\<lambda>a. aw_id a \<noteq> i) (awards (ledger d))\<rparr>\<rparr>))"

subsection \<open>The service\<close>

definition deref_reason :: "string option \<Rightarrow> string" where
  "deref_reason r = (case r of None \<Rightarrow> '''' | Some s \<Rightarrow> s)"

definition as_manual :: "AwardRow \<Rightarrow> ManualAward" where
  "as_manual r =
    \<lparr>mw_id = aw_id r, mw_value = aw_value r, mw_reason = deref_reason (aw_description r),
     mw_date = aw_date r\<rparr>"

definition grant_award ::
  "Mode \<Rightarrow> time \<Rightarrow> directory \<Rightarrow> id \<Rightarrow> int \<Rightarrow> string \<Rightarrow> (award_op_error, ManualAward \<times> directory) result" where
  "grant_award mode now d account value why =
    (case validate_manual value why of
       Inl e \<Rightarrow> Inl (AwardInvalid e)
     | Inr cleaned \<Rightarrow>
         (case (if mode = ModeTeams then grant_team_award d now account value cleaned
                else grant_user_award d now account value cleaned) of
            Inl e \<Rightarrow> Inl (AwardDatabase e)
          | Inr None \<Rightarrow> Inl (AwardAccountNotFound account)
          | Inr (Some (row, d')) \<Rightarrow> Inr (as_manual row, d')))"

definition revoke_award :: "directory \<Rightarrow> id \<Rightarrow> (award_op_error, directory) result" where
  "revoke_award d i =
    (case revoke_manual_award d i of
       Inl e \<Rightarrow> Inl (AwardDatabase e)
     | Inr ((found_type, deleted), d') \<Rightarrow>
         if found_type = '''' then Inl AwardNotFound
         else if deleted = 0 then Inl (AwardNotManual found_type)
         else Inr d')"

definition list_manual_awards :: "Mode \<Rightarrow> directory \<Rightarrow> id \<Rightarrow> ManualAward list" where
  "list_manual_awards mode d account =
    map as_manual
      (if mode = ModeTeams then list_team_manual_awards d account else list_user_manual_awards d account)"

subsection \<open>What a grant writes\<close>

lemma insert_manual_Inr:
  assumes "insert_manual d r = Inr (q, d')"
  shows "q = r \<and> d' = d\<lparr>ledger := (ledger d)\<lparr>awards := awards (ledger d) @ [r],
    next_award := next_award (ledger d) + 1\<rparr>\<rparr>"
  using assms by (auto simp: insert_manual_def split: if_splits)

lemma grant_Inr:
  assumes "grant_award mode now d account value why = Inr (w, d')" "mode \<in> {ModeUsers, ModeTeams}"
  obtains user team cleaned where "validate_manual value why = Inr cleaned"
    "w = as_manual (manual_row d now user team value cleaned)"
    "d' = d\<lparr>ledger := (ledger d)\<lparr>awards := awards (ledger d) @ [manual_row d now user team value cleaned],
      next_award := next_award (ledger d) + 1\<rparr>\<rparr>"
    "account_column (mode_string mode) user team = Some account"
proof -
  obtain cleaned where c: "validate_manual value why = Inr cleaned"
    using assms(1) by (auto simp: grant_award_def split: sum.splits)
  show thesis
  proof (cases "mode = ModeTeams")
    case True
    obtain t cap r where "team_by_id d account = Some t"
      and r: "insert_manual d (manual_row d now cap (Some (tm_id t)) value cleaned) = Inr (r, d')" "w = as_manual r"
      using assms(1) True c
      by (auto simp: grant_award_def grant_team_award_def bind_result_Inr_iff split: sum.splits option.splits)
    then have "tm_id t = account" by (auto simp: team_by_id_def find_Some_iff)
    then show thesis
      using that [of cleaned cap "Some (tm_id t)"] c r(2) insert_manual_Inr [OF r(1)] True
      by (simp add: account_column_def)
  next
    case False
    obtain u r where "user_by_id d account = Some u"
      and r: "insert_manual d (manual_row d now (us_id u) (us_team u) value cleaned) = Inr (r, d')" "w = as_manual r"
      using assms(1) False c
      by (auto simp: grant_award_def grant_user_award_def bind_result_Inr_iff split: sum.splits option.splits)
    then have "us_id u = account" by (auto simp: user_by_id_def find_Some_iff)
    then show thesis
      using that [of cleaned "us_id u" "us_team u"] c r(2) insert_manual_Inr [OF r(1)] False assms(2)
      by (simp add: account_column_def)
  qed
qed

text \<open>The ids the sequence has not reached, and what the foreign keys of unlocks refer to.\<close>

definition award_keys_ok :: "db \<Rightarrow> bool" where
  "award_keys_ok l \<longleftrightarrow> 0 < next_award l \<and> distinct (map aw_id (awards l))
    \<and> list_all (\<lambda>a. 0 < aw_id a \<and> aw_id a < next_award l) (awards l)
    \<and> list_all (\<lambda>u. hu_award u < next_award l) (unlocks l)"

lemma revoke_granted:
  assumes "award_keys_ok (ledger d)" "aw_id r = next_award (ledger d)" "aw_type r = ''standard''"
  shows "revoke_award (d\<lparr>ledger := (ledger d)\<lparr>awards := awards (ledger d) @ [r],
      next_award := next_award (ledger d) + 1\<rparr>\<rparr>) (aw_id r)
    = Inr (d\<lparr>ledger := (ledger d)\<lparr>next_award := next_award (ledger d) + 1\<rparr>\<rparr>)"
proof -
  have old: "\<forall>a\<in>set (awards (ledger d)). aw_id a \<noteq> aw_id r"
    "\<not> list_ex (\<lambda>u. hu_award u = aw_id r) (unlocks (ledger d))" "aw_id r \<noteq> 0"
    using assms(1,2) by (auto simp: award_keys_ok_def list_all_iff list_ex_iff)
  have "find (\<lambda>a. aw_id a = aw_id r) (as @ [r]) = Some r"
    if "\<forall>a\<in>set as. aw_id a \<noteq> aw_id r" for as
    using that by (induction as) auto
  then have "find (\<lambda>a. aw_id a = aw_id r) (awards (ledger d) @ [r]) = Some r"
    "filter (\<lambda>a. aw_id a \<noteq> aw_id r) (awards (ledger d)) = awards (ledger d)"
    using old(1) by (auto intro!: filter_True)
  then show ?thesis
    using old assms(3) by (simp add: revoke_award_def revoke_manual_award_def)
qed

lemma revoke_cases:
  assumes "award_keys_ok (ledger d)"
  shows "case revoke_award d i of
      Inl _ \<Rightarrow> list_all (\<lambda>a. aw_id a \<noteq> i \<or> aw_type a \<noteq> ''standard''
        \<or> list_ex (\<lambda>u. hu_award u = i) (unlocks (ledger d))) (awards (ledger d))
    | Inr d2 \<Rightarrow> d2 = d\<lparr>ledger := (ledger d)\<lparr>awards := filter (\<lambda>a. aw_id a \<noteq> i) (awards (ledger d))\<rparr>\<rparr>
        \<and> list_ex (\<lambda>a. aw_id a = i \<and> aw_type a = ''standard'') (awards (ledger d))"
proof (cases "find (\<lambda>a. aw_id a = i) (awards (ledger d))")
  case None
  then show ?thesis
    by (simp add: revoke_award_def revoke_manual_award_def) (simp add: find_None_iff list_all_iff)
next
  case (Some a)
  then have a: "a \<in> set (awards (ledger d))" "aw_id a = i"
    by (auto simp: find_Some_iff in_set_conv_nth)
  then have only: "b = a" if "b \<in> set (awards (ledger d))" "aw_id b = i" for b
    using that assms distinct_map_eqD [of aw_id "awards (ledger d)" b a] by (simp add: award_keys_ok_def)
  have "i \<noteq> 0" using a assms by (auto simp: award_keys_ok_def list_all_iff)
  show ?thesis
  proof (cases "aw_type a = ''standard'' \<and> \<not> list_ex (\<lambda>u. hu_award u = i) (unlocks (ledger d))")
    case True
    then have "list_ex (\<lambda>a. aw_id a = i \<and> aw_type a = ''standard'') (awards (ledger d))"
      using a by (auto simp: list_ex_iff)
    then show ?thesis
      using Some True \<open>i \<noteq> 0\<close> by (simp add: revoke_award_def revoke_manual_award_def)
  next
    case False
    then have "\<exists>e. revoke_award d i = Inl e"
      using Some by (auto simp: revoke_award_def revoke_manual_award_def)
    moreover have "list_all (\<lambda>a. aw_id a \<noteq> i \<or> aw_type a \<noteq> ''standard''
        \<or> list_ex (\<lambda>u. hu_award u = i) (unlocks (ledger d))) (awards (ledger d))"
      unfolding list_all_iff using False only by blast
    ultimately show ?thesis by auto
  qed
qed

subsection \<open>Properties\<close>

text \<open>
  An adjustment moves one score by its value, and its revocation takes it back. A grant changes
  nothing but the ledger of awards, where it adds one row of the account in force for the mode; the
  balance of that account moves by exactly the value and no other balance moves; the award is in the
  account's list, with the cleaned reason. Revoking it restores every row there was. No revocation,
  of whatever id, removes anything but one manual award: bought hints and first bloods stay.
\<close>
theorem manual_award_exact:
  assumes "grant_award mode now d account value why = Inr (w, d')" "award_keys_ok (ledger d)"
    "mode \<in> {ModeUsers, ModeTeams}" "user_mode (ledger d) = mode_string mode"
  shows "mw_value w = value \<and> value \<noteq> 0 \<and> w \<in> set (list_manual_awards mode d' account)
    \<and> (\<forall>user team. get_account_score (ledger d') team user = get_account_score (ledger d) team user
        + (if account_column (mode_string mode) user team = Some account then value else 0))
    \<and> revoke_award d' (mw_id w) = Inr (d\<lparr>ledger := (ledger d)\<lparr>next_award := next_award (ledger d) + 1\<rparr>\<rparr>)
    \<and> (\<forall>i. case revoke_award d i of
         Inl _ \<Rightarrow> list_all (\<lambda>a. aw_id a \<noteq> i \<or> aw_type a \<noteq> ''standard''
           \<or> list_ex (\<lambda>u. hu_award u = i) (unlocks (ledger d))) (awards (ledger d))
       | Inr d2 \<Rightarrow> d2 = d\<lparr>ledger := (ledger d)\<lparr>awards := filter (\<lambda>a. aw_id a \<noteq> i) (awards (ledger d))\<rparr>\<rparr>
           \<and> list_ex (\<lambda>a. aw_id a = i \<and> aw_type a = ''standard'') (awards (ledger d)))"
proof -
  obtain user team cleaned where r: "validate_manual value why = Inr cleaned"
    "w = as_manual (manual_row d now user team value cleaned)"
    "d' = d\<lparr>ledger := (ledger d)\<lparr>awards := awards (ledger d) @ [manual_row d now user team value cleaned],
      next_award := next_award (ledger d) + 1\<rparr>\<rparr>"
    "account_column (mode_string mode) user team = Some account"
    using grant_Inr [OF assms(1,3)] by blast
  define r where "r = manual_row d now user team value cleaned"
  note r = r [folded r_def]
  have row: "aw_id r = next_award (ledger d)" "aw_type r = ''standard''" "aw_value r = value"
    "aw_user r = user" "aw_team r = team"
    by (simp_all add: r_def manual_row_def)
  have "w \<in> set (list_manual_awards mode d' account)"
    using r(2,3,4) row assms(3)
    by (auto simp: list_manual_awards_def list_team_manual_awards_def list_user_manual_awards_def
        newest_first_def account_column_def eq_id_def)
  moreover have "get_account_score (ledger d') team user = get_account_score (ledger d) team user
      + (if account_column (mode_string mode) user team = Some account then value else 0)" for user team
    using r(3,4) row assms(3,4)
    by (auto simp: get_account_score_def scoped_def account_column_def eq_id_def split: option.splits)
  moreover have "revoke_award d' (mw_id w) = Inr (d\<lparr>ledger := (ledger d)\<lparr>next_award := next_award (ledger d) + 1\<rparr>\<rparr>)"
    using revoke_granted [OF assms(2), of r] r(2,3) row by (simp add: as_manual_def)
  moreover have "value \<noteq> 0" using r(1) by (auto simp: validate_manual_Inr)
  ultimately show ?thesis
    using revoke_cases [OF assms(2)] r(2) row(3) by (simp add: as_manual_def)
qed

text \<open>A penalty of 30 points for 7 on the scored event.\<close>

theorem manual_award_exact_witness:
  "\<exists>w d'. grant_award ModeUsers 300 scored_directory 7 (- 30) ''late'' = Inr (w, d')
    \<and> get_account_score (ledger d') None 7 = 95 \<and> revoke_award d' (mw_id w) \<noteq> Inl AwardNotFound"
proof -
  let ?l = "ledger scored_directory"
  have keys: "award_keys_ok ?l"
    by (simp add: award_keys_ok_def scored_directory_def sample_db_def)
  have mode: "user_mode ?l = mode_string ModeUsers"
    by (simp add: scored_directory_def sample_db_def)
  have "validate_manual (- 30) ''late'' = Inr ''late''" by code_simp
  moreover have "user_by_id scored_directory 7 = Some (sample_user 7 ''ann'' ''user'' None)"
    by (simp add: user_by_id_def scored_defs)
  moreover have "us_id (sample_user 7 ''ann'' ''user'' None) = 7" by (simp add: sample_directory_defs)
  ultimately have "is_ok (grant_award ModeUsers 300 scored_directory 7 (- 30) ''late'')"
    by (simp add: grant_award_def grant_user_award_def insert_manual_def manual_row_def)
  then obtain w d' where g: "grant_award ModeUsers 300 scored_directory 7 (- 30) ''late'' = Inr (w, d')"
    by (auto simp: is_ok_iff)
  have "get_account_score ?l None 7 = 125"
    by (simp add: get_account_score_def scoped_def scored_directory_def sample_db_def)
  then show ?thesis
    using manual_award_exact [OF g keys _ mode] g by (auto simp: account_column_def)
qed

end
