(* ===== verification/Brackets.thy ===== *)
theory Brackets
  imports Moderation Scoreboard_Properties
begin

section \<open>Brackets (internal/adminops/brackets.go)\<close>

text \<open>
  Named divisions of the board: an organizer creates them for one kind of account, assigns accounts
  and dissolves them. A bracket is a row, an account's bracket a nullable key to it.
\<close>

datatype bracket_error =
    BracketBadKind
  | BracketWrongKind id string
  | BracketNotFound id
  | BracketAccountNotFound id
  | BracketDatabase pg_error

record NewBracket =
  nb_name :: string
  nb_description :: "string option"
  nb_applies_to :: string

record BracketPatch =
  bp_name :: "string option"
  bp_description :: "string option"

record BracketAssignment =
  ba_account :: id
  ba_name :: string
  ba_bracket :: "id option"

subsection \<open>brackets.sql\<close>

definition bracket_by_id :: "directory \<Rightarrow> id \<Rightarrow> BracketRow option" where
  "bracket_by_id d i = find (\<lambda>b. bk_id b = i) (divisions d)"

definition admin_create_bracket ::
  "directory \<Rightarrow> NewBracket \<Rightarrow> (pg_error, BracketRow \<times> directory) result" where
  "admin_create_bracket d n =
    (if nb_applies_to n \<noteq> ''users'' \<and> nb_applies_to n \<noteq> ''teams''
     then Inl (PgCheck ''brackets_applies_to_check'')
     else
       let b = \<lparr>bk_id = next_bracket d, bk_name = nb_name n, bk_description = nb_description n,
                bk_applies_to = nb_applies_to n\<rparr>
       in Inr (b, d\<lparr>divisions := divisions d @ [b], next_bracket := next_bracket d + 1\<rparr>))"

definition admin_update_bracket ::
  "directory \<Rightarrow> id \<Rightarrow> BracketPatch \<Rightarrow> (BracketRow \<times> directory) option" where
  "admin_update_bracket d i p =
    (let f = (\<lambda>b. b\<lparr>bk_name := coalesce (bp_name p) (bk_name b),
                   bk_description := patched False (bp_description p) (bk_description b)\<rparr>)
     in map_option
          (\<lambda>b. (f b, d\<lparr>divisions := map (\<lambda>b. if bk_id b = i then f b else b) (divisions d)\<rparr>))
          (bracket_by_id d i))"

text \<open>The rows deleted, and the \<open>ON DELETE SET NULL\<close> of the members' keys.\<close>

definition admin_delete_bracket :: "directory \<Rightarrow> id \<Rightarrow> int \<times> directory" where
  "admin_delete_bracket d i =
    (int (length (filter (\<lambda>b. bk_id b = i) (divisions d))),
     d\<lparr>divisions := filter (\<lambda>b. bk_id b \<noteq> i) (divisions d),
       people := map (\<lambda>u. if us_bracket u = Some i then u\<lparr>us_bracket := None\<rparr> else u) (people d),
       rosters := map (\<lambda>t. if tm_bracket t = Some i then t\<lparr>tm_bracket := None\<rparr> else t) (rosters d)\<rparr>)"

definition bracket_fk :: "directory \<Rightarrow> id option \<Rightarrow> bool" where
  "bracket_fk d b = (case b of None \<Rightarrow> True | Some i \<Rightarrow> bracket_by_id d i \<noteq> None)"

definition admin_assign_user_bracket ::
  "directory \<Rightarrow> id \<Rightarrow> id option \<Rightarrow> (pg_error, (BracketAssignment \<times> directory) option) result" where
  "admin_assign_user_bracket d i b =
    (case user_by_id d i of
       None \<Rightarrow> Inr None
     | Some u \<Rightarrow>
         if \<not> bracket_fk d b then Inl (PgForeign ''users_bracket_id_fkey'')
         else Inr (Some (\<lparr>ba_account = us_id u, ba_name = us_name u, ba_bracket = b\<rparr>,
                update_user i (\<lambda>u. u\<lparr>us_bracket := b\<rparr>) d)))"

definition admin_assign_team_bracket ::
  "directory \<Rightarrow> id \<Rightarrow> id option \<Rightarrow> (pg_error, (BracketAssignment \<times> directory) option) result" where
  "admin_assign_team_bracket d i b =
    (case team_by_id d i of
       None \<Rightarrow> Inr None
     | Some t \<Rightarrow>
         if \<not> bracket_fk d b then Inl (PgForeign ''teams_bracket_id_fkey'')
         else Inr (Some (\<lparr>ba_account = tm_id t, ba_name = tm_name t, ba_bracket = b\<rparr>,
                update_team i (\<lambda>t. t\<lparr>tm_bracket := b\<rparr>) d)))"

subsection \<open>The service\<close>

definition admin_list_brackets :: "directory \<Rightarrow> BracketRow list" where
  "admin_list_brackets d = list_brackets d None"

definition create_bracket ::
  "directory \<Rightarrow> NewBracket \<Rightarrow> (bracket_error, BracketRow \<times> directory) result" where
  "create_bracket d n =
    (if nb_applies_to n \<noteq> ''users'' \<and> nb_applies_to n \<noteq> ''teams'' then Inl BracketBadKind
     else case admin_create_bracket d n of
            Inl e \<Rightarrow> Inl (BracketDatabase e)
          | Inr r \<Rightarrow> Inr r)"

definition update_bracket ::
  "directory \<Rightarrow> id \<Rightarrow> BracketPatch \<Rightarrow> (bracket_error, BracketRow \<times> directory) result" where
  "update_bracket d i p =
    (case admin_update_bracket d i p of
       None \<Rightarrow> Inl (BracketNotFound i)
     | Some r \<Rightarrow> Inr r)"

definition delete_bracket :: "directory \<Rightarrow> id \<Rightarrow> (bracket_error, directory) result" where
  "delete_bracket d i =
    (let (n, d') = admin_delete_bracket d i in if n = 0 then Inl (BracketNotFound i) else Inr d')"

definition assign_bracket ::
  "Mode \<Rightarrow> directory \<Rightarrow> id \<Rightarrow> id option \<Rightarrow> (bracket_error, BracketAssignment \<times> directory) result" where
  "assign_bracket mode d account bracket =
    bind_result
      (case bracket of
         None \<Rightarrow> Inr ()
       | Some b \<Rightarrow>
           (case bracket_by_id d b of
              None \<Rightarrow> Inl (BracketNotFound b)
            | Some row \<Rightarrow>
                if bk_applies_to row \<noteq> mode_string mode then Inl (BracketWrongKind b (bk_applies_to row))
                else Inr ()))
      (\<lambda>_.
        case (if mode = ModeTeams then admin_assign_team_bracket d account bracket
              else admin_assign_user_bracket d account bracket) of
          Inl e \<Rightarrow> Inl (BracketDatabase e)
        | Inr None \<Rightarrow> Inl (BracketAccountNotFound account)
        | Inr (Some r) \<Rightarrow> Inr r)"

text \<open>The requests of an instance, each one transaction.\<close>

datatype bracket_request =
    CreateBracket NewBracket
  | UpdateBracket id BracketPatch
  | DeleteBracket id
  | AssignBracket id "id option"

definition run_bracket :: "Mode \<Rightarrow> bracket_request \<Rightarrow> directory \<Rightarrow> directory" where
  "run_bracket mode req d =
    (case req of
       CreateBracket n \<Rightarrow> (case create_bracket d n of Inl _ \<Rightarrow> d | Inr (_, d') \<Rightarrow> d')
     | UpdateBracket i p \<Rightarrow> (case update_bracket d i p of Inl _ \<Rightarrow> d | Inr (_, d') \<Rightarrow> d')
     | DeleteBracket i \<Rightarrow> (case delete_bracket d i of Inl _ \<Rightarrow> d | Inr d' \<Rightarrow> d')
     | AssignBracket a b \<Rightarrow> (case assign_bracket mode d a b of Inl _ \<Rightarrow> d | Inr (_, d') \<Rightarrow> d'))"

subsection \<open>Members are of their bracket's kind\<close>

definition in_bracket :: "directory \<Rightarrow> string \<Rightarrow> id option \<Rightarrow> bool" where
  "in_bracket d kind b =
    (case b of None \<Rightarrow> True
     | Some i \<Rightarrow> list_ex (\<lambda>r. bk_id r = i \<and> bk_applies_to r = kind) (divisions d))"

definition brackets_ok :: "directory \<Rightarrow> bool" where
  "brackets_ok d \<longleftrightarrow>
    distinct (map bk_id (divisions d))
    \<and> list_all (\<lambda>b. bk_id b < next_bracket d) (divisions d)
    \<and> list_all (\<lambda>b. bk_applies_to b = ''users'' \<or> bk_applies_to b = ''teams'') (divisions d)
    \<and> list_all (\<lambda>u. in_bracket d ''users'' (us_bracket u)) (people d)
    \<and> list_all (\<lambda>t. in_bracket d ''teams'' (tm_bracket t)) (rosters d)"

lemma in_bracket_mono:
  "in_bracket d kind b \<Longrightarrow>
    \<forall>r\<in>set (divisions d). \<exists>r'\<in>set (divisions d'). bk_id r' = bk_id r \<and> bk_applies_to r' = bk_applies_to r
    \<Longrightarrow> in_bracket d' kind b"
  by (fastforce simp: in_bracket_def list_ex_iff split: option.splits)

lemma create_bracket_ok:
  assumes "brackets_ok d" "create_bracket d n = Inr (b, d')"
  shows "brackets_ok d'"
proof -
  have d': "d' = d\<lparr>divisions := divisions d @ [b], next_bracket := next_bracket d + 1\<rparr>"
    "bk_id b = next_bracket d" "bk_applies_to b = ''users'' \<or> bk_applies_to b = ''teams''"
    using assms(2) by (auto simp: create_bracket_def admin_create_bracket_def Let_def split: if_splits)
  have "in_bracket d' kind k" if "in_bracket d kind k" for kind k
    by (rule in_bracket_mono [OF that]) (auto simp: d'(1))
  then show ?thesis
    using assms(1) d'(2,3) by (auto simp: brackets_ok_def d'(1) list_all_iff)
qed

lemma update_bracket_ok:
  assumes "brackets_ok d" "update_bracket d i p = Inr (b, d')"
  shows "brackets_ok d'"
proof -
  obtain f where d': "d' = d\<lparr>divisions := map (\<lambda>b. if bk_id b = i then f b else b) (divisions d)\<rparr>"
    "\<And>b. bk_id (f b) = bk_id b" "\<And>b. bk_applies_to (f b) = bk_applies_to b"
    using assms(2) by (auto simp: update_bracket_def admin_update_bracket_def Let_def split: option.splits)
  have "map bk_id (divisions d') = map bk_id (divisions d)"
    by (simp add: d')
  moreover have "\<exists>r'\<in>set (divisions d'). bk_id r' = bk_id r \<and> bk_applies_to r' = bk_applies_to r"
    if "r \<in> set (divisions d)" for r
    using that by (intro bexI [of _ "if bk_id r = i then f r else r"]) (auto simp: d')
  then have "in_bracket d' kind k" if "in_bracket d kind k" for kind k
    using in_bracket_mono [OF that] by blast
  ultimately have "distinct (map bk_id (divisions d'))"
    "list_all (\<lambda>u. in_bracket d' ''users'' (us_bracket u)) (people d')"
    "list_all (\<lambda>t. in_bracket d' ''teams'' (tm_bracket t)) (rosters d')"
    using assms(1) by (simp_all add: brackets_ok_def list_all_iff) (simp_all add: d'(1))
  moreover have "list_all (\<lambda>b. bk_id b < next_bracket d') (divisions d')"
    "list_all (\<lambda>b. bk_applies_to b = ''users'' \<or> bk_applies_to b = ''teams'') (divisions d')"
    using assms(1) by (auto simp: brackets_ok_def d' list_all_iff)
  ultimately show ?thesis by (simp add: brackets_ok_def)
qed

lemma delete_bracket_ok:
  assumes "brackets_ok d" "delete_bracket d i = Inr d'"
  shows "brackets_ok d'"
proof -
  have d': "d' = snd (admin_delete_bracket d i)"
    using assms(2) by (auto simp: delete_bracket_def split: prod.splits if_splits)
  have "in_bracket d' kind b" if "in_bracket d kind b" "b \<noteq> Some i" for kind b
    using that by (auto simp: in_bracket_def d' admin_delete_bracket_def list_ex_iff split: option.splits)
  moreover have "in_bracket d' kind None" for kind by (simp add: in_bracket_def)
  ultimately show ?thesis
    using assms(1)
    by (auto simp: brackets_ok_def d' admin_delete_bracket_def list_all_iff distinct_map_filter)
qed

lemma assign_bracket_ok:
  assumes "brackets_ok d" "assign_bracket mode d a b = Inr (r, d')" "mode \<in> {ModeUsers, ModeTeams}"
  shows "brackets_ok d'"
proof -
  have kind: "in_bracket d (mode_string mode) b"
    using assms(2)
    by (auto simp: assign_bracket_def bind_result_Inr_iff in_bracket_def bracket_by_id_def list_ex_iff
        split: option.splits if_splits dest!: find_Some_in)
  have "d' = (if mode = ModeTeams then update_team a (\<lambda>t. t\<lparr>tm_bracket := b\<rparr>) d
      else update_user a (\<lambda>u. u\<lparr>us_bracket := b\<rparr>) d)"
    using assms(2)
    by (auto simp: assign_bracket_def bind_result_Inr_iff admin_assign_team_bracket_def
        admin_assign_user_bracket_def split: option.splits if_splits sum.splits)
  then show ?thesis
    using assms(1,3) kind
    by (auto simp: brackets_ok_def update_team_def update_user_def map_users_def map_teams_def
        list_all_iff in_bracket_def cong: option.case_cong)
qed

interpretation brackets: stepwise "run_bracket mode" "\<lambda>d. brackets_ok d \<and> mode \<in> {ModeUsers, ModeTeams}"
  for mode
proof
  fix d req
  assume ok: "brackets_ok d \<and> mode \<in> {ModeUsers, ModeTeams}"
  then show "brackets_ok (run_bracket mode req d) \<and> mode \<in> {ModeUsers, ModeTeams}"
    by (cases req)
      (auto simp: run_bracket_def intro: create_bracket_ok update_bracket_ok delete_bracket_ok
        assign_bracket_ok split: sum.split)
qed

subsection \<open>A bracket is a filter\<close>

text \<open>What no bracket request touches: the ledger, and every account but for its bracket.\<close>

definition same_accounts :: "directory \<Rightarrow> directory \<Rightarrow> bool" where
  "same_accounts d d' \<longleftrightarrow> ledger d' = ledger d
    \<and> map (\<lambda>u. u\<lparr>us_bracket := None\<rparr>) (people d') = map (\<lambda>u. u\<lparr>us_bracket := None\<rparr>) (people d)
    \<and> map (\<lambda>t. t\<lparr>tm_bracket := None\<rparr>) (rosters d') = map (\<lambda>t. t\<lparr>tm_bracket := None\<rparr>) (rosters d)"

lemma run_bracket_same: "same_accounts d (run_bracket mode req d)"
  by (cases req)
    (auto simp: run_bracket_def same_accounts_def create_bracket_def admin_create_bracket_def
      update_bracket_def admin_update_bracket_def delete_bracket_def admin_delete_bracket_def
      assign_bracket_def admin_assign_user_bracket_def admin_assign_team_bracket_def update_user_def
      update_team_def map_users_def map_teams_def Let_def bind_result_def
      split: sum.split option.splits)

lemma run_brackets_same: "same_accounts d (foldl (\<lambda>d req. run_bracket mode req d) d reqs)"
proof (induction reqs arbitrary: d)
  case (Cons req reqs)
  then show ?case using run_bracket_same [of d mode req] by (auto simp: same_accounts_def)
qed (simp add: same_accounts_def)

definition unbracketed :: "BoardEntry \<Rightarrow> BoardEntry" where
  "unbracketed e = e\<lparr>be_bracket := None, be_bracket_name := None\<rparr>"

lemma board_unbracketed:
  "map unbracketed (limited lim (sort_key rank_of (filter (shown admin None) rows)))
    = limited lim (sort_key rank_of (filter (shown admin None) (map unbracketed rows)))"
proof -
  have "rank_of (unbracketed e) = rank_of e" "shown admin None (unbracketed e) = shown admin None e" for e
    by (simp_all add: rank_of_def shown_def unbracketed_def)
  then show ?thesis
    by (simp add: limited_map [symmetric] sort_key_map filter_map o_def)
qed

lemma rows_unbracketed:
  assumes "same_accounts d d'"
  shows "map unbracketed [user_entry d' u e. u \<leftarrow> people d', e \<leftarrow> es, e_account e = us_id u]
      = map unbracketed [user_entry d u e. u \<leftarrow> people d, e \<leftarrow> es, e_account e = us_id u]"
    "map unbracketed [team_entry d' t e. t \<leftarrow> rosters d', e \<leftarrow> es, e_account e = tm_id t]
      = map unbracketed [team_entry d t e. t \<leftarrow> rosters d, e \<leftarrow> es, e_account e = tm_id t]"
proof -
  define ue where "ue u = [user_entry d u e. e \<leftarrow> es, e_account e = us_id u]" for u
  define te where "te t = [team_entry d t e. e \<leftarrow> es, e_account e = tm_id t]" for t
  have u: "map unbracketed (concat (map (\<lambda>u. [user_entry x u e. e \<leftarrow> es, e_account e = us_id u]) us))
      = map unbracketed (concat (map ue (map (\<lambda>u. u\<lparr>us_bracket := None\<rparr>) us)))" for x us
    by (induction us) (simp_all add: ue_def user_entry_def unbracketed_def map_concat o_def if_distrib cong: if_cong)
  have t: "map unbracketed (concat (map (\<lambda>t. [team_entry x t e. e \<leftarrow> es, e_account e = tm_id t]) ts))
      = map unbracketed (concat (map te (map (\<lambda>t. t\<lparr>tm_bracket := None\<rparr>) ts)))" for x ts
    by (induction ts) (simp_all add: te_def team_entry_def unbracketed_def map_concat o_def if_distrib cong: if_cong)
  show "map unbracketed [user_entry d' u e. u \<leftarrow> people d', e \<leftarrow> es, e_account e = us_id u]
      = map unbracketed [user_entry d u e. u \<leftarrow> people d, e \<leftarrow> es, e_account e = us_id u]"
    using assms u [of d' "people d'"] u [of d "people d"] by (simp only: same_accounts_def)
  show "map unbracketed [team_entry d' t e. t \<leftarrow> rosters d', e \<leftarrow> es, e_account e = tm_id t]
      = map unbracketed [team_entry d t e. t \<leftarrow> rosters d, e \<leftarrow> es, e_account e = tm_id t]"
    using assms t [of d' "rosters d'"] t [of d "rosters d"] by (simp only: same_accounts_def)
qed

lemma bracket_filter:
  "limited lim (sort_key rank_of (filter (shown admin (Some b)) rows))
    = limited lim (filter (\<lambda>e. eq_id (be_bracket e) (Some b)) (sort_key rank_of (filter (shown admin None) rows)))"
proof -
  have "filter (shown admin (Some b)) rows
      = filter (\<lambda>e. eq_id (be_bracket e) (Some b)) (filter (shown admin None) rows)"
    by (auto simp: shown_def intro: filter_cong)
  then show ?thesis by (simp only: filter_sort)
qed

subsection \<open>Properties\<close>

text \<open>
  C28: Brackets divide the board and nothing else. Whatever brackets are created, renamed, assigned
  and dissolved, every member's bracket exists and holds accounts of its kind, and the whole board
  shows the same accounts, scores and order as before, but for the bracket it names beside each. The
  board of one bracket is the whole board's rows of its members, in the same order.
\<close>
theorem brackets_only_filter:
  fixes reqs
  assumes "brackets_ok d" "mode \<in> {ModeUsers, ModeTeams}"
  defines "d' \<equiv> foldl (\<lambda>d req. run_bracket mode req d) d reqs"
  shows "brackets_ok d' \<and> ledger d' = ledger d
    \<and> map unbracketed (top mode d' admin None lim) = map unbracketed (top mode d admin None lim)
    \<and> top mode d admin (Some b) lim
        = limited (clamp_limit lim) (filter (\<lambda>e. eq_id (be_bracket e) (Some b)) (top mode d admin None 0))"
proof (intro conjI)
  show "brackets_ok d'"
    unfolding d'_def using brackets.steps_ok [of d mode reqs] assms(1,2) by blast
  have same: "same_accounts d d'" unfolding d'_def by (rule run_brackets_same)
  then show ledger: "ledger d' = ledger d" by (simp add: same_accounts_def)
  show "map unbracketed (top mode d' admin None lim) = map unbracketed (top mode d admin None lim)"
    using assms(2)
    by (auto simp: top_def get_user_standings_def get_team_standings_def board_unbracketed ledger
        rows_unbracketed [OF same])
  show "top mode d admin (Some b) lim
      = limited (clamp_limit lim) (filter (\<lambda>e. eq_id (be_bracket e) (Some b)) (top mode d admin None 0))"
    using assms(2)
    by (auto simp: top_def get_user_standings_def get_team_standings_def bracket_filter
        limited_def [of 0] clamp_limit_def [of 0])
qed

text \<open>Students are split off on the scored event, and the division dissolved again.\<close>

theorem brackets_only_filter_witness:
  "map unbracketed (top ModeUsers (foldl (\<lambda>d req. run_bracket ModeUsers req d) scored_directory
      [CreateBracket \<lparr>nb_name = ''students'', nb_description = None, nb_applies_to = ''users''\<rparr>,
       AssignBracket 7 (Some 1), DeleteBracket 1]) True None 0)
   = map unbracketed (top ModeUsers scored_directory True None 0)"
proof -
  have "brackets_ok scored_directory"
    by (simp add: brackets_ok_def in_bracket_def scored_defs)
  then show ?thesis
    using brackets_only_filter [of scored_directory ModeUsers] by blast
qed

end
