(* ===== verification/Client_Address.thy ===== *)
theory Client_Address
  imports Identity Keyset_Cursor
begin

section \<open>What a request is, and whom it comes from (middleware.go, before authentication)\<close>

text \<open>
  The request with the values the chain hangs on it, the addresses of \<open>net\<close> and \<open>net/netip\<close> as far
  as the chain reads them, and the handlers outside the wall: the request id, the client's address,
  the hardening headers, the bound on the body. A handler maps a request and the state to a reply
  and the state after it; \<open>'s\<close> is whatever the handlers behind the chain keep.
\<close>

subsection \<open>Addresses (net, net/netip)\<close>

text \<open>Addresses are their bytes; an IPv6 address may carry a zone, empty where it has none.\<close>

datatype netip = IPv4 "nat list" | IPv6 "nat list" string

definition octet :: "string \<Rightarrow> nat option" where
  "octet s =
    (if s = [] \<or> \<not> list_all is_digit s \<or> (1 < length s \<and> hd s = CHR ''0'') then None
     else let n = nat_of_digits s in if 255 < n then None else Some n)"

definition parse_ipv4 :: "string \<Rightarrow> nat list option" where
  "parse_ipv4 s =
    (let ps = split_on CHR ''.'' s
     in if length ps \<noteq> 4 then None else those (map octet ps))"

definition hex_value :: "char \<Rightarrow> nat option" where
  "hex_value c =
    (if is_digit c then Some (byte c - 48)
     else if byte_in CHR ''a'' CHR ''f'' c then Some (byte c - 87)
     else if byte_in CHR ''A'' CHR ''F'' c then Some (byte c - 55)
     else None)"

definition is_hex :: "char \<Rightarrow> bool" where
  "is_hex c = (hex_value c \<noteq> None)"

definition group_value :: "string \<Rightarrow> nat" where
  "group_value s = foldl (\<lambda>n c. 16 * n + the (hex_value c)) 0 s"

text \<open>
  The loop of \<open>parseIPv6\<close>: the bytes read so far, where the ellipsis stood, and the rest. It yields
  the bytes, the place of the ellipsis and what was not read; \<open>room\<close> counts the groups that still
  fit.
\<close>

fun ipv6_groups :: "nat \<Rightarrow> nat list \<Rightarrow> nat option \<Rightarrow> string \<Rightarrow> (nat list \<times> nat option \<times> string) option" where
  "ipv6_groups 0 bs dots s = Some (bs, dots, s)"
| "ipv6_groups (Suc room) bs dots s =
    (let g = takeWhile is_hex s; r = dropWhile is_hex s
     in if g = [] \<or> 4 < length g then None
        else case r of
          [] \<Rightarrow> Some (bs @ [group_value g div 256, group_value g mod 256], dots, [])
        | c # r' \<Rightarrow>
            if c = CHR ''.'' then
              if (dots = None \<and> length bs \<noteq> 12) \<or> 16 < length bs + 4 then None
              else map_option (\<lambda>v4. (bs @ v4, dots, [])) (parse_ipv4 s)
            else if c \<noteq> CHR '':'' \<or> r' = [] then None
            else let bs' = bs @ [group_value g div 256, group_value g mod 256]
                 in if hd r' = CHR '':'' then
                      if dots \<noteq> None then None
                      else if tl r' = [] then Some (bs', Some (length bs'), [])
                      else ipv6_groups room bs' (Some (length bs')) (tl r')
                    else ipv6_groups room bs' dots r')"

definition expand_dots :: "nat list \<Rightarrow> nat option \<Rightarrow> nat list option" where
  "expand_dots bs dots =
    (case dots of
       None \<Rightarrow> if length bs < 16 then None else Some bs
     | Some i \<Rightarrow>
         if length bs < 16 then Some (take i bs @ replicate (16 - length bs) 0 @ drop i bs) else None)"

definition parse_ipv6 :: "string \<Rightarrow> netip option" where
  "parse_ipv6 full =
    (let (s, zone) = (case cut CHR ''%'' full of None \<Rightarrow> (full, None) | Some (h, z) \<Rightarrow> (h, Some z));
         lead = take 2 s = ''::''
     in if zone = Some [] then None
        else if lead \<and> drop 2 s = [] then Some (IPv6 (replicate 16 0) (coalesce zone ''''))
        else
          case ipv6_groups 8 [] (if lead then Some 0 else None) (if lead then drop 2 s else s) of
            None \<Rightarrow> None
          | Some (bs, dots, rest) \<Rightarrow>
              if rest \<noteq> [] then None
              else map_option (\<lambda>b. IPv6 b (coalesce zone '''')) (expand_dots bs dots))"

text \<open>\<open>netip.ParseAddr\<close>: the first dot or colon says which of the two it is.\<close>

definition parse_addr :: "string \<Rightarrow> netip option" where
  "parse_addr s =
    (case dropWhile (\<lambda>c. c \<notin> {CHR ''.'', CHR '':'', CHR ''%''}) s of
       [] \<Rightarrow> None
     | c # _ \<Rightarrow>
         if c = CHR ''.'' then map_option IPv4 (parse_ipv4 s)
         else if c = CHR '':'' then parse_ipv6 s
         else None)"

definition v4_mapped :: "nat list \<Rightarrow> bool" where
  "v4_mapped bs = (take 12 bs = replicate 10 0 @ [255, 255])"

text \<open>\<open>net.ParseIP\<close> followed by \<open>To4\<close>: four bytes where it is an IPv4 address, mapped or not.\<close>

definition parse_ip :: "string \<Rightarrow> nat list option" where
  "parse_ip s =
    (case parse_addr s of
       None \<Rightarrow> None
     | Some (IPv4 bs) \<Rightarrow> Some bs
     | Some (IPv6 bs zone) \<Rightarrow>
         if zone \<noteq> '''' then None else Some (if v4_mapped bs then drop 12 bs else bs))"

text \<open>\<open>netip.Addr.String\<close>.\<close>

definition dotted :: "nat list \<Rightarrow> string" where
  "dotted bs = concat (map (\<lambda>(i, b). (if i = 0 then [] else ''.'') @ digits_of b) (enumerate 0 bs))"

fun groups_of :: "nat list \<Rightarrow> nat list" where
  "groups_of (a # b # bs) = (256 * a + b) # groups_of bs"
| "groups_of _ = []"

fun hex_of :: "nat \<Rightarrow> string" where
  "hex_of n = (if n < 16 then [hex_digit n] else hex_of (n div 16) @ [hex_digit (n mod 16)])"

declare hex_of.simps [simp del]

definition colons :: "nat list \<Rightarrow> string" where
  "colons gs = concat (map (\<lambda>(i, g). (if i = 0 then [] else '':'') @ hex_of g) (enumerate 0 gs))"

text \<open>The first longest run of at least two zero groups: its place and its length.\<close>

definition zero_run :: "nat list \<Rightarrow> (nat \<times> nat) option" where
  "zero_run gs =
    fold (\<lambda>i best.
        let n = length (takeWhile (\<lambda>g. g = 0) (drop i gs))
        in if 2 \<le> n \<and> (case best of None \<Rightarrow> True | Some (_, m) \<Rightarrow> m < n) then Some (i, n) else best)
      [0..<length gs] None"

fun addr_string :: "netip \<Rightarrow> string" where
  "addr_string (IPv4 bs) = dotted bs"
| "addr_string (IPv6 bs zone) =
    (if v4_mapped bs then ''::ffff:'' @ dotted (drop 12 bs)
     else let gs = groups_of bs
          in case zero_run gs of
               None \<Rightarrow> colons gs
             | Some (i, n) \<Rightarrow> colons (take i gs) @ ''::'' @ colons (drop (i + n) gs))
    @ (if zone = '''' then '''' else ''%'' @ zone)"

text \<open>\<open>net.SplitHostPort\<close>, of which the chain uses the host.\<close>

definition split_host_port :: "string \<Rightarrow> string option" where
  "split_host_port s =
    (let port = takeWhile (\<lambda>c. c \<noteq> CHR '':'') (rev s)
     in if length port = length s then None
        else if take 1 s = ''['' then
          let host = takeWhile (\<lambda>c. c \<noteq> CHR '']'') (tl s); after = drop (length host + 1) s
          in if after = [] \<or> length after \<noteq> length port + 2 then None
             else if CHR ''['' \<in> set (tl s) \<or> CHR '']'' \<in> set (tl after) then None
             else Some host
        else
          let host = take (length s - length port - 1) s
          in if CHR '':'' \<in> set host \<or> CHR ''['' \<in> set s \<or> CHR '']'' \<in> set s then None
             else Some host)"

record IPNet =
  nw_ip :: "nat list"
  nw_mask :: "nat list"

definition to4 :: "nat list \<Rightarrow> nat list" where
  "to4 bs = (if length bs = 16 \<and> v4_mapped bs then drop 12 bs else bs)"

definition contains :: "IPNet \<Rightarrow> nat list \<Rightarrow> bool" where
  "contains n ip =
    (let num = to4 (nw_ip n);
         mask = (if length (nw_mask n) = 16 \<and> length num = 4 then drop 12 (nw_mask n) else nw_mask n)
     in length num \<in> {4, 16} \<and> length mask = length num \<and> length ip = length num
        \<and> list_all2 (\<lambda>a b. a = b) (map2 (\<lambda>a m. and a m) num mask) (map2 (\<lambda>a m. and a m) ip mask))"

subsection \<open>Requests and replies\<close>

text \<open>
  \<open>rq_headers\<close> gives the lines of a header, in order; \<open>rq_clock\<close> is what the successive readings of
  the clock answer while the request is served. The fields from \<open>rq_id\<close> on are the values the chain
  puts on the context.
\<close>

datatype body = Body string | BrokenBody

record http_request =
  rq_method :: string
  rq_path :: string
  rq_raw_path :: string
  rq_remote :: string
  rq_tls :: bool
  rq_headers :: "string \<Rightarrow> string list"
  rq_session :: "string option"
  rq_multipart :: bool
  rq_content_length :: int
  rq_body :: body
  rq_clock :: "nat \<Rightarrow> time"
  rq_id :: string
  rq_client :: "netip option"
  rq_secure :: bool
  rq_served_tls :: bool
  rq_limit :: int
  rq_auth :: Auth

text \<open>A reply: its status, the problem it names (empty where a handler answers), and its headers.\<close>

datatype cookie = ClearSession bool | OtherCookie string

record reply =
  rp_status :: int
  rp_kind :: string
  rp_detail :: string
  rp_headers :: "string \<Rightarrow> string option"
  rp_cookie :: "cookie option"

type_synonym 's handler = "http_request \<Rightarrow> 's \<Rightarrow> reply \<times> 's"

definition problem :: "int \<Rightarrow> string \<Rightarrow> string \<Rightarrow> reply" where
  "problem st kind detail =
    \<lparr>rp_status = st, rp_kind = ''urn:flagfish:error:'' @ kind, rp_detail = detail,
     rp_headers = [''Content-Type'' \<mapsto> ''application/problem+json''], rp_cookie = None\<rparr>"

text \<open>\<open>http.Header.Get\<close>: the first line of the header, empty where there is none.\<close>

definition header_get :: "http_request \<Rightarrow> string \<Rightarrow> string" where
  "header_get r k = (case rq_headers r k of [] \<Rightarrow> '''' | v # _ \<Rightarrow> v)"

text \<open>Headers set before the handler runs stay unless it sets its own.\<close>

definition with_header :: "string \<Rightarrow> string \<Rightarrow> reply \<times> 's \<Rightarrow> reply \<times> 's" where
  "with_header k v a =
    (case a of (rep, s) \<Rightarrow>
       (rep\<lparr>rp_headers := (rp_headers rep)(k := Some (coalesce (rp_headers rep k) v))\<rparr>, s))"

subsection \<open>Whose request it is\<close>

definition is_trusted :: "nat list \<Rightarrow> IPNet list \<Rightarrow> bool" where
  "is_trusted ip trusted = list_ex (\<lambda>n. contains n ip) trusted"

definition remote_host :: "http_request \<Rightarrow> string" where
  "remote_host r = (case split_host_port (rq_remote r) of None \<Rightarrow> rq_remote r | Some h \<Rightarrow> h)"

definition peer_trusted :: "http_request \<Rightarrow> IPNet list \<Rightarrow> bool" where
  "peer_trusted r trusted =
    (case parse_ip (remote_host r) of None \<Rightarrow> False | Some ip \<Rightarrow> is_trusted ip trusted)"

definition x_forwarded_for :: string where "x_forwarded_for = ''X-Forwarded-For''"

text \<open>
  The walk from the right cuts the line at its commas. Where nothing is left before the first comma
  the code stops one empty entry early, which no address parses from.
\<close>

fun walk_left :: "IPNet list \<Rightarrow> string \<Rightarrow> string list \<Rightarrow> string" where
  "walk_left trusted peer [] = peer"
| "walk_left trusted peer (c # cs) =
    (let candidate = trim_space c in
     case parse_ip candidate of
       None \<Rightarrow> walk_left trusted peer cs
     | Some ip \<Rightarrow> if is_trusted ip trusted then walk_left trusted peer cs else candidate)"

definition client_ip :: "http_request \<Rightarrow> IPNet list \<Rightarrow> string" where
  "client_ip r trusted =
    (let peer = remote_host r in
     if \<not> peer_trusted r trusted then peer
     else walk_left trusted peer (rev (split_on CHR '','' (header_get r x_forwarded_for))))"

text \<open>\<open>strings.EqualFold\<close> with an ASCII word also takes U+017F, the long s, for an s.\<close>

fun fold_ascii :: "string \<Rightarrow> string" where
  "fold_ascii (a # b # cs) =
    (if a = CHR 0xC5 \<and> b = CHR 0xBF then CHR ''s'' # fold_ascii cs
     else fold_byte a # fold_ascii (b # cs))"
| "fold_ascii cs = map fold_byte cs"

definition is_secure :: "http_request \<Rightarrow> bool \<Rightarrow> bool \<Rightarrow> bool" where
  "is_secure r trusted_peer secure_cookies =
    (secure_cookies \<or> rq_tls r
     \<or> (trusted_peer \<and> fold_ascii (header_get r ''X-Forwarded-Proto'') = ''https''))"

definition real_ip :: "IPNet list \<Rightarrow> bool \<Rightarrow> 's handler \<Rightarrow> 's handler" where
  "real_ip trusted secure_cookies next_handler r =
    (let trusted_peer = peer_trusted r trusted;
         r' = r\<lparr>rq_remote := client_ip r trusted\<rparr>
     in next_handler
          (r'\<lparr>rq_client := parse_addr (rq_remote r'),
              rq_secure := is_secure r' trusted_peer secure_cookies,
              rq_served_tls := is_secure r' trusted_peer False\<rparr>))"

definition client_key :: "http_request \<Rightarrow> string" where
  "client_key r = (case rq_client r of Some a \<Rightarrow> addr_string a | None \<Rightarrow> rq_remote r)"

subsection \<open>The request id, the hardening headers, the bound on the body\<close>

definition max_request_id_len :: nat where "max_request_id_len = 128"

definition valid_request_id :: "string \<Rightarrow> bool" where
  "valid_request_id s =
    (s \<noteq> '''' \<and> length s \<le> max_request_id_len
     \<and> list_all (\<lambda>c. is_lower c \<or> is_upper c \<or> is_digit c
                  \<or> c = CHR ''-'' \<or> c = CHR ''_'' \<or> c = CHR ''.'') s)"

text \<open>The fallback writes the nanoseconds of the Unix epoch in base 36.\<close>

definition base36_digit :: "nat \<Rightarrow> char" where
  "base36_digit n = ''0123456789abcdefghijklmnopqrstuvwxyz'' ! n"

fun base36 :: "nat \<Rightarrow> string" where
  "base36 n = (if n < 36 then [base36_digit n] else base36 (n div 36) @ [base36_digit (n mod 36)])"

declare base36.simps [simp del]

definition new_request_id :: "random \<Rightarrow> time \<Rightarrow> string" where
  "new_request_id draw now =
    (case draw of
       Some b \<Rightarrow> hex_encode b
     | None \<Rightarrow> let n = unix_nano now in (if n < 0 then ''-'' else '''') @ base36 (nat \<bar>n\<bar>))"

definition request_id :: "IPNet list \<Rightarrow> random \<Rightarrow> time \<Rightarrow> 's handler \<Rightarrow> 's handler" where
  "request_id trusted draw now next_handler r s =
    (let inbound = header_get r ''X-Request-Id'';
         i = (if inbound = '''' \<or> \<not> peer_trusted r trusted \<or> \<not> valid_request_id inbound
              then new_request_id draw now else inbound)
     in with_header ''X-Request-Id'' i (next_handler (r\<lparr>rq_id := i\<rparr>) s))"

definition quoted :: "string \<Rightarrow> string" where
  "quoted w = CHR 0x27 # w @ [CHR 0x27]"

definition spa_csp :: string where
  "spa_csp =
    ''default-src '' @ quoted ''self'' @ ''; base-uri '' @ quoted ''none'' @ ''; object-src '' @ quoted ''none''
    @ ''; frame-ancestors '' @ quoted ''none'' @ ''; img-src '' @ quoted ''self'' @ '' data:; font-src ''
    @ quoted ''self'' @ '' data:; style-src '' @ quoted ''self'' @ '' '' @ quoted ''unsafe-inline''
    @ ''; script-src '' @ quoted ''self'' @ ''; connect-src '' @ quoted ''self''
    @ ''; form-action '' @ quoted ''self''"

definition security_headers :: "'s handler \<Rightarrow> 's handler" where
  "security_headers next_handler r s =
    with_header ''X-Content-Type-Options'' ''nosniff''
      (with_header ''X-Frame-Options'' ''DENY''
        (with_header ''Referrer-Policy'' ''strict-origin-when-cross-origin''
          (with_header ''Content-Security-Policy'' spa_csp
            (if rq_served_tls r
             then with_header ''Strict-Transport-Security'' ''max-age=63072000; includeSubDomains''
                    (next_handler r s)
             else next_handler r s))))"

definition max_json_body_bytes :: int where "max_json_body_bytes = 2 ^ 20"

definition limit_body :: "int \<Rightarrow> 's handler \<Rightarrow> 's handler" where
  "limit_body upload_max next_handler r s =
    (let bound = (if rq_multipart r then upload_max else max_json_body_bytes) in
     if rq_content_length r > bound
     then (problem 413 ''body-too-large''
             (''request body is too large (limit '' @ decimal bound @ '' bytes)''), s)
     else next_handler (r\<lparr>rq_limit := bound\<rparr>) s)"

text \<open>Outside the wall: a request passes these before anybody knows who sent it.\<close>

definition outside_wall ::
  "IPNet list \<Rightarrow> bool \<Rightarrow> int \<Rightarrow> random \<Rightarrow> 's handler \<Rightarrow> 's handler" where
  "outside_wall trusted insecure_cookies upload_max draw next_handler r =
    request_id trusted draw (rq_clock r 0)
      (real_ip trusted (\<not> insecure_cookies) (security_headers (limit_body upload_max next_handler))) r"

end
