(* ===== verification/Rate_Limits.thy ===== *)
theory Rate_Limits
  imports Client_Address
begin

section \<open>Rate limits (middleware.go, accounts/limiter.go, the rate_limits table)\<close>

text \<open>
  A limiter is a fixed-window counter kept in a row of a table. The general one counts every request
  of a caller to a route; the three credential budgets replace it on the routes that can be guessed
  against, are spent before the handler runs, and two of them are given back when it succeeds.
  Every call of a limiter is one statement, so concurrent requests interleave between them.
\<close>

subsection \<open>The table (queries/auth.sql)\<close>

record RateRow =
  rl_bucket :: string
  rl_start :: time
  rl_n :: int

type_synonym rates = "RateRow list"
type_synonym budget_key = "string \<times> time"

definition row_key :: "RateRow \<Rightarrow> budget_key" where
  "row_key x = (rl_bucket x, rl_start x)"

text \<open>Nothing where the counter is out of the range of the column, which is an error.\<close>

fun bump_rate_limit :: "budget_key \<Rightarrow> rates \<Rightarrow> (int \<times> rates) option" where
  "bump_rate_limit k [] = Some (1, [\<lparr>rl_bucket = fst k, rl_start = snd k, rl_n = 1\<rparr>])"
| "bump_rate_limit k (x # xs) =
    (if row_key x = k then
       (if in_i32 (rl_n x + 1) then Some (rl_n x + 1, x\<lparr>rl_n := rl_n x + 1\<rparr> # xs) else None)
     else map_option (\<lambda>(n, ys). (n, x # ys)) (bump_rate_limit k xs))"

definition refund_rate_limit :: "budget_key \<Rightarrow> rates \<Rightarrow> rates" where
  "refund_rate_limit k = map (\<lambda>x. if row_key x = k then x\<lparr>rl_n := max (rl_n x - 1) 0\<rparr> else x)"

definition spent :: "budget_key \<Rightarrow> rates \<Rightarrow> int" where
  "spent k t = (case find (\<lambda>x. row_key x = k) t of None \<Rightarrow> 0 | Some x \<Rightarrow> rl_n x)"

subsection \<open>The limiter (accounts/limiter.go, auth/auth.go)\<close>

text \<open>\<open>NoLimit\<close> stands in where no limiter is wired. Times are nanoseconds, columns microseconds.\<close>

datatype limiter = NoLimit | FixedWindow int int

definition new_limiter :: "int \<Rightarrow> int \<Rightarrow> limiter" where
  "new_limiter limit window = FixedWindow (i32 limit) window"

definition stored_time :: "time \<Rightarrow> time" where
  "stored_time t = t - t mod 1000"

definition window_start :: "int \<Rightarrow> time \<Rightarrow> time" where
  "window_start window now = stored_time (if window \<le> 0 then now else now - now mod window)"

definition allow_row :: "int \<Rightarrow> budget_key \<Rightarrow> rates \<Rightarrow> bool option \<times> rates" where
  "allow_row limit k t =
    (case bump_rate_limit k t of
       None \<Rightarrow> (None, t)
     | Some (n, t') \<Rightarrow> (Some (n \<le> limit), t'))"

fun allow :: "limiter \<Rightarrow> time \<Rightarrow> string \<Rightarrow> rates \<Rightarrow> bool option \<times> rates" where
  "allow NoLimit now key t = (Some True, t)"
| "allow (FixedWindow limit window) now key t = allow_row limit (key, window_start window now) t"

fun refund :: "limiter \<Rightarrow> time \<Rightarrow> string \<Rightarrow> rates \<Rightarrow> rates" where
  "refund NoLimit now key t = t"
| "refund (FixedWindow limit window) now key t = refund_rate_limit (key, window_start window now) t"

subsection \<open>What a request spends from\<close>

definition limiter_key :: "http_request \<Rightarrow> Principal \<Rightarrow> string" where
  "limiter_key r pr =
    (if authed pr \<and> account_id pr \<noteq> 0 then ''account:'' @ decimal (account_id pr)
     else if authed pr \<and> user_id pr \<noteq> 0 then ''user:'' @ decimal (user_id pr)
     else ''ip:'' @ client_key r)"

definition routed_path :: "http_request \<Rightarrow> string" where
  "routed_path r = (if rq_raw_path r \<noteq> '''' then rq_raw_path r else rq_path r)"

text \<open>
  The router's match of a method and a path is the pattern of the route and its path parameters, an
  argument: a key without a value, which the code skips, is not among them.
\<close>

type_synonym route = "string \<times> (string \<times> string) list"
type_synonym routes = "string \<Rightarrow> string \<Rightarrow> route option"

definition canonical_param :: "string \<Rightarrow> string" where
  "canonical_param v = (case parse_int64 v of Some n \<Rightarrow> decimal n | None \<Rightarrow> ''*'')"

definition bucket_params :: "(string \<times> string) list \<Rightarrow> string" where
  "bucket_params ps =
    concat (map (\<lambda>(k, v). if k = ''*'' then [] else '':'' @ k @ ''='' @ canonical_param v) ps)"

definition bucket_route :: "route option \<Rightarrow> http_request \<Rightarrow> string" where
  "bucket_route matched r =
    (case matched of
       None \<Rightarrow> rq_method r @ '':<unrouted>''
     | Some (pattern, params) \<Rightarrow> rq_method r @ '':'' @ pattern @ bucket_params params)"

definition general_key :: "routes \<Rightarrow> http_request \<Rightarrow> string" where
  "general_key routes r =
    limiter_key r (au_principal (rq_auth r)) @ '':'' @
      bucket_route (routes (rq_method r) (routed_path r)) r"

subsection \<open>The credential routes\<close>

record credentialRoute =
  cr_field :: string
  cr_refundable :: bool

definition credential_routes :: "string \<Rightarrow> credentialRoute option" where
  "credential_routes = map_of
    [(''POST /api/v1/login'', \<lparr>cr_field = ''email'', cr_refundable = True\<rparr>),
     (''POST /api/v1/register'', \<lparr>cr_field = ''email'', cr_refundable = True\<rparr>),
     (''POST /api/v1/reset-password'', \<lparr>cr_field = ''email'', cr_refundable = False\<rparr>),
     (''PATCH /api/v1/reset-password'', \<lparr>cr_field = ''token'', cr_refundable = True\<rparr>),
     (''POST /api/v1/verify/confirm'', \<lparr>cr_field = ''token'', cr_refundable = True\<rparr>)]"

definition max_credential_body_bytes :: nat where "max_credential_body_bytes = 65536"

datatype body_error = BodyTooLarge | BodyUnreadable

text \<open>
  The bound the chain put on the body bites only where it is below what is read here. The handler
  gets what was read.
\<close>

definition read_and_restore_body :: "http_request \<Rightarrow> (body_error, string \<times> http_request) result" where
  "read_and_restore_body r =
    (case rq_body r of
       BrokenBody \<Rightarrow> Inl BodyUnreadable
     | Body s \<Rightarrow>
         if rq_limit r < int (length s) \<and> rq_limit r < int max_credential_body_bytes then Inl BodyTooLarge
         else let b = take max_credential_body_bytes s in Inr (b, r\<lparr>rq_body := Body b\<rparr>))"

text \<open>
  What \<open>encoding/json\<close> reads from a body into the two fields, empty where absent, and
  \<open>strings.ToLower\<close>, are arguments.
\<close>

record decoding =
  dc_probe :: "string \<Rightarrow> (string \<times> string) option"
  dc_lower :: "string \<Rightarrow> string"

definition credential_target :: "decoding \<Rightarrow> string \<Rightarrow> string \<Rightarrow> string option" where
  "credential_target dec b field =
    (case dc_probe dec b of
       None \<Rightarrow> None
     | Some (email, token) \<Rightarrow>
         let v = (if field = ''email'' then dc_lower dec (trim_space email) else token)
         in if v = '''' then None else Some (hex_encode (take 16 (sha256 v))))"

definition target_key :: "decoding \<Rightarrow> http_request \<Rightarrow> credentialRoute \<Rightarrow> string \<Rightarrow> string \<Rightarrow> string" where
  "target_key dec r cred route b =
    (case credential_target dec b (cr_field cred) of
       Some x \<Rightarrow> ''auth:target:'' @ cr_field cred @ '':'' @ x @ '':'' @ route
     | None \<Rightarrow> ''auth:target:ip:'' @ client_key r @ '':'' @ route)"

definition flood_key :: "http_request \<Rightarrow> string" where
  "flood_key r = ''auth:flood:ip:'' @ client_key r"

definition failure_key :: "http_request \<Rightarrow> string" where
  "failure_key r = ''auth:fail:ip:'' @ client_key r"

text \<open>A limiter that cannot answer refuses. Nothing where the request may go on.\<close>

definition spend :: "limiter \<Rightarrow> time \<Rightarrow> string \<Rightarrow> rates \<Rightarrow> reply option \<times> rates" where
  "spend l now key t =
    (case allow l now key t of
       (None, t') \<Rightarrow> (Some (problem 503 ''unavailable'' ''rate limiter unavailable''), t')
     | (Some ok, t') \<Rightarrow>
         (if ok then None else Some (problem 429 ''rate-limited'' ''too many requests''), t'))"

record limiters =
  lm_general :: limiter
  lm_target :: "limiter option"
  lm_failure :: "limiter option"
  lm_flood :: "limiter option"

record credential_budgets =
  cb_target :: limiter
  cb_failure :: limiter
  cb_flood :: limiter

definition wired_budgets :: "limiters \<Rightarrow> credential_budgets option" where
  "wired_budgets ls =
    (case (lm_target ls, lm_failure ls, lm_flood ls) of
       (Some a, Some f, Some g) \<Rightarrow> Some \<lparr>cb_target = a, cb_failure = f, cb_flood = g\<rparr>
     | _ \<Rightarrow> None)"

text \<open>
  The three budgets, in the order they are spent, and the two that are given back. The clock is read
  at every call: once for the id of the request and once for its credential before these.
\<close>

definition credential_admit ::
  "credential_budgets \<Rightarrow> http_request \<Rightarrow> string \<Rightarrow> rates \<Rightarrow> reply option \<times> rates" where
  "credential_admit cb r key t =
    (case spend (cb_flood cb) (rq_clock r 2) (flood_key r) t of
       (Some rep, t1) \<Rightarrow> (Some rep, t1)
     | (None, t1) \<Rightarrow>
         (case spend (cb_failure cb) (rq_clock r 3) (failure_key r) t1 of
            (Some rep, t2) \<Rightarrow> (Some rep, t2)
          | (None, t2) \<Rightarrow> spend (cb_target cb) (rq_clock r 4) key t2))"

definition credential_settle ::
  "credential_budgets \<Rightarrow> credentialRoute \<Rightarrow> http_request \<Rightarrow> string \<Rightarrow> int \<Rightarrow> rates \<Rightarrow> rates" where
  "credential_settle cb cred r key st t =
    (if \<not> cr_refundable cred \<or> 400 \<le> st then t
     else refund (cb_target cb) (rq_clock r 6) key
            (refund (cb_failure cb) (rq_clock r 5) (failure_key r) t))"

definition credential_limit ::
  "credential_budgets \<Rightarrow> decoding \<Rightarrow> credentialRoute \<Rightarrow> string \<Rightarrow> 's handler \<Rightarrow> (rates \<times> 's) handler" where
  "credential_limit cb dec cred route next_handler r ts =
    (case (read_and_restore_body r, ts) of
       (Inl BodyTooLarge, _) \<Rightarrow> (problem 413 ''body-too-large'' ''request body is too large'', ts)
     | (Inl BodyUnreadable, _) \<Rightarrow> (problem 400 ''bad-request'' ''could not read the request body'', ts)
     | (Inr (b, r'), t, s) \<Rightarrow>
         let key = target_key dec r cred route b in
         (case credential_admit cb r key t of
            (Some rep, t') \<Rightarrow> (rep, t', s)
          | (None, t') \<Rightarrow>
              (case next_handler r' s of
                 (rep, s') \<Rightarrow> (rep, credential_settle cb cred r key (rp_status rep) t', s'))))"

subsection \<open>The middleware\<close>

definition credential_of :: "routes \<Rightarrow> http_request \<Rightarrow> (credentialRoute \<times> string) option" where
  "credential_of routes r =
    (case routes (rq_method r) (routed_path r) of
       None \<Rightarrow> None
     | Some (pattern, _) \<Rightarrow>
         let name = rq_method r @ '' '' @ pattern
         in map_option (\<lambda>c. (c, name)) (credential_routes name))"

definition rate_limit ::
  "routes \<Rightarrow> limiters \<Rightarrow> decoding \<Rightarrow> 's handler \<Rightarrow> (rates \<times> 's) handler" where
  "rate_limit routes ls dec next_handler r ts =
    (case (wired_budgets ls, credential_of routes r) of
       (Some cb, Some (cred, name)) \<Rightarrow> credential_limit cb dec cred name next_handler r ts
     | _ \<Rightarrow>
         (case ts of (t, s) \<Rightarrow>
            (case spend (lm_general ls) (rq_clock r 2) (general_key routes r) t of
               (Some rep, t') \<Rightarrow> (rep, t', s)
             | (None, t') \<Rightarrow> (case next_handler r s of (rep, s') \<Rightarrow> (rep, t', s')))))"

subsection \<open>The reaper (jobs/reap.go)\<close>

text \<open>
  A sweep deletes at most a batch of the rows a predicate picks, here the first in the table's order,
  until a batch comes back short or the rounds of the run are used up. It yields how many rows went
  and whether the table is clean of them.
\<close>

fun delete_batch :: "('r \<Rightarrow> bool) \<Rightarrow> nat \<Rightarrow> 'r list \<Rightarrow> nat \<times> 'r list" where
  "delete_batch p 0 xs = (0, xs)"
| "delete_batch p (Suc n) [] = (0, [])"
| "delete_batch p (Suc n) (x # xs) =
    (if p x then (case delete_batch p n xs of (m, ys) \<Rightarrow> (Suc m, ys))
     else (case delete_batch p (Suc n) xs of (m, ys) \<Rightarrow> (m, x # ys)))"

fun sweep :: "('r \<Rightarrow> bool) \<Rightarrow> nat \<Rightarrow> nat \<Rightarrow> 'r list \<Rightarrow> (nat \<times> bool) \<times> 'r list" where
  "sweep p batch 0 xs = ((0, False), xs)"
| "sweep p batch (Suc rounds) xs =
    (case delete_batch p batch xs of
       (n, ys) \<Rightarrow>
         if n < batch then ((n, True), ys)
         else (case sweep p batch rounds ys of ((m, fin), zs) \<Rightarrow> ((n + m, fin), zs)))"

definition rate_limit_floor :: int where "rate_limit_floor = 15 * 60 * 1000000000"

definition rate_limit_retention :: "int \<Rightarrow> int" where
  "rate_limit_retention window = max (i64 (2 * window)) rate_limit_floor"

definition reap_batch :: int where "reap_batch = 5000"
definition reap_max_batches :: int where "reap_max_batches = 20"

definition reap_bounds :: "int \<Rightarrow> int \<Rightarrow> nat \<times> nat" where
  "reap_bounds batch rounds =
    (nat (if batch \<le> 0 then reap_batch else batch), nat (if rounds \<le> 0 then reap_max_batches else rounds))"

record reaped =
  rp_sessions :: nat
  rp_tokens :: nat
  rp_limits :: nat
  rp_complete :: bool

text \<open>\<open>now\<close> gives what the database's clock says at the two sweeps that compare with it.\<close>

definition reap_expired ::
  "int \<Rightarrow> int \<Rightarrow> int \<Rightarrow> (nat \<Rightarrow> time) \<Rightarrow> directory \<times> rates \<Rightarrow> reaped \<times> directory \<times> rates" where
  "reap_expired window batch rounds now dt =
    (let (n, m) = reap_bounds batch rounds;
         (d, t) = dt;
         cutoff = now 0 - rate_limit_retention window;
         ((s, s_done), ss) = sweep (\<lambda>x. se_expires x \<le> now 1) n m (sessions d);
         ((k, k_done), ks) = sweep (\<lambda>x. tk_expires x \<le> now 2) n m (tokens d);
         ((l, l_done), ls) = sweep (\<lambda>x. rl_start x < stored_time cutoff) n m t
     in (\<lparr>rp_sessions = s, rp_tokens = k, rp_limits = l, rp_complete = s_done \<and> k_done \<and> l_done\<rparr>,
         d\<lparr>sessions := ss, tokens := ks\<rparr>, ls))"

end
