(* ===== verification/Middleware.thy ===== *)
theory Middleware
  imports Rate_Limits Decide
begin

section \<open>The chain behind the wall (middleware.go, router.go)\<close>

text \<open>
  Who is calling is resolved once, before the ban wall, the check against forged writes and the rate
  limit; what they let through reaches the handlers. \<open>dir\<close> reads the directory out of the state of
  the handlers.
\<close>

definition authenticate_request ::
  "Mode \<Rightarrow> ('s \<Rightarrow> directory) \<Rightarrow> 's handler \<Rightarrow> 's handler" where
  "authenticate_request mode dir next_handler r s =
    (case authenticate mode (dir s) (rq_clock r 1) (header_get r ''Authorization'') (rq_session r) of
       Inl e \<Rightarrow>
         (if e = ErrUnauthorized
          then problem 401 ''invalid-credentials'' ''invalid or expired credential''
          else problem 503 ''unavailable'' ''could not verify credentials'', s)
     | Inr a \<Rightarrow>
         let stale = au_method a = MethodAnonymous \<and> coalesce (rq_session r) '''' \<noteq> '''';
             (rep, s') = next_handler (r\<lparr>rq_auth := a\<rparr>) s
         in (if stale \<and> rp_cookie rep = None
             then rep\<lparr>rp_cookie := Some (ClearSession (rq_secure r))\<rparr> else rep, s'))"

definition ban_wall :: "'s handler \<Rightarrow> 's handler" where
  "ban_wall next_handler r s =
    (let pr = au_principal (rq_auth r) in
     if authed pr \<and> banned pr
     then (problem 403 ''banned'' ''You have been banned from this CTF'', s)
     else if authed pr \<and> team_banned pr
     then (problem 403 ''team-banned'' ''Your team has been banned from this CTF'', s)
     else next_handler r s)"

definition safe_method :: "string \<Rightarrow> bool" where
  "safe_method m = List.member [''GET'', ''HEAD'', ''OPTIONS'', ''TRACE''] m"

definition csrf :: "'s handler \<Rightarrow> 's handler" where
  "csrf next_handler r s =
    (let a = rq_auth r in
     if au_method a \<noteq> MethodCookie \<or> safe_method (rq_method r) then next_handler r s
     else let sent = header_get r ''CSRF-Token'' in
       if sent = '''' \<or> constant_time_compare sent (au_csrf a) \<noteq> 1
       then (problem 403 ''csrf'' ''missing or invalid CSRF token'', s)
       else next_handler r s)"

definition behind_wall ::
  "Mode \<Rightarrow> ('s \<Rightarrow> directory) \<Rightarrow> routes \<Rightarrow> limiters \<Rightarrow> decoding \<Rightarrow> 's handler \<Rightarrow> (rates \<times> 's) handler" where
  "behind_wall mode dir routes ls dec next_handler =
    authenticate_request mode (\<lambda>(t, s). dir s) (ban_wall (csrf (rate_limit routes ls dec next_handler)))"

definition serve ::
  "IPNet list \<Rightarrow> bool \<Rightarrow> int \<Rightarrow> (http_request \<Rightarrow> random) \<Rightarrow> Mode \<Rightarrow> ('s \<Rightarrow> directory) \<Rightarrow> routes \<Rightarrow> limiters
    \<Rightarrow> decoding \<Rightarrow> 's handler \<Rightarrow> (rates \<times> 's) handler" where
  "serve trusted insecure_cookies upload_max draw mode dir routes ls dec next_handler r =
    outside_wall trusted insecure_cookies upload_max (draw r)
      (behind_wall mode dir routes ls dec next_handler) r"

text \<open>A handler that also notes, in order, the requests that reached it.\<close>

definition with_log :: "'s handler \<Rightarrow> (http_request list \<times> 's) handler" where
  "with_log next_handler r ls =
    (case ls of (log, s) \<Rightarrow> (case next_handler r s of (rep, s') \<Rightarrow> (rep, log @ [r], s')))"

text \<open>Requests served one after the other: the replies and the state.\<close>

fun serve_all :: "'s handler \<Rightarrow> http_request list \<Rightarrow> 's \<Rightarrow> reply list \<times> 's" where
  "serve_all h [] s = ([], s)"
| "serve_all h (r # rs) s =
    (case h r s of (rep, s1) \<Rightarrow> (case serve_all h rs s1 of (reps, s2) \<Rightarrow> (rep # reps, s2)))"

text \<open>
  Concurrent attempts on the credential routes: an attempt is admitted, in the order in which it
  spends, and settled when its handler has answered, with that answer's status. The attempts that
  failed and those whose units were given back are kept apart.
\<close>

record attempt =
  at_request :: http_request
  at_route :: credentialRoute
  at_name :: string
  at_body :: string

definition at_key :: "decoding \<Rightarrow> attempt \<Rightarrow> string" where
  "at_key dec a = target_key dec (at_request a) (at_route a) (at_name a) (at_body a)"

datatype credential_event = Admit attempt | Settle nat int

record attempts =
  as_rates :: rates
  as_open :: "attempt list"
  as_failed :: "attempt list"
  as_refunded :: "attempt list"

text \<open>\<open>Settle i\<close> answers the attempt that is the i-th of those still open.\<close>

definition credential_step ::
  "credential_budgets \<Rightarrow> decoding \<Rightarrow> credential_event \<Rightarrow> attempts \<Rightarrow> attempts" where
  "credential_step cb dec e st =
    (case e of
       Admit a \<Rightarrow>
         (case credential_admit cb (at_request a) (at_key dec a) (as_rates st) of
            (Some _, t) \<Rightarrow> st\<lparr>as_rates := t\<rparr>
          | (None, t) \<Rightarrow> st\<lparr>as_rates := t, as_open := as_open st @ [a]\<rparr>)
     | Settle i code \<Rightarrow>
         if i < length (as_open st) then
           let a = as_open st ! i in
           st\<lparr>as_rates :=
                credential_settle cb (at_route a) (at_request a) (at_key dec a) code (as_rates st),
              as_open := take i (as_open st) @ drop (Suc i) (as_open st),
              as_failed := (if \<not> cr_refundable (at_route a) \<or> 400 \<le> code
                            then a # as_failed st else as_failed st),
              as_refunded := (if \<not> cr_refundable (at_route a) \<or> 400 \<le> code
                              then as_refunded st else a # as_refunded st)\<rparr>
         else st)"

definition credential_run ::
  "credential_budgets \<Rightarrow> decoding \<Rightarrow> credential_event list \<Rightarrow> attempts \<Rightarrow> attempts" where
  "credential_run cb dec es st = fold (credential_step cb dec) es st"

end
