(* ===== verification/Rate_Lemmas.thy ===== *)
theory Rate_Lemmas
  imports Middleware
begin

section \<open>What a limiter promises\<close>

text \<open>
  The interface of a limiter as a contract: a unit is granted only within the cap, counted one by one,
  and given back one by one; nothing a key does shows under another. What the chain relies on is
  proved from the contract, and the rows of the table keep it.
\<close>

text \<open>
  With \<open>c\<close> spent at first, \<open>n\<close> units granted and not given back, and \<open>v\<close> spent now.
\<close>

definition within :: "int \<Rightarrow> int \<Rightarrow> int \<Rightarrow> int \<Rightarrow> bool" where
  "within cap c n v = (n \<le> max 0 (cap - c) \<and> c + n \<le> v)"

lemma within_bound: "within cap c n v \<Longrightarrow> n \<le> max 0 (cap - c)"
  by (simp add: within_def)

lemma within_start [simp]: "within cap c 0 c"
  by (simp add: within_def)

locale budget =
  fixes take_unit :: "'k \<Rightarrow> 't \<Rightarrow> bool option \<times> 't"
    and give_back :: "'k \<Rightarrow> 't \<Rightarrow> 't"
    and used :: "'k \<Rightarrow> 't \<Rightarrow> int"
    and cap :: int
  assumes granted: "take_unit k t = (Some True, t') \<Longrightarrow> used k t' = used k t + 1 \<and> used k t' \<le> cap"
    and refused: "take_unit k t = (g, t') \<Longrightarrow> used k t \<le> used k t'"
    and taken_apart: "take_unit k t = (g, t') \<Longrightarrow> k' \<noteq> k \<Longrightarrow> used k' t' = used k' t"
    and given: "used k t - 1 \<le> used k (give_back k t)"
    and given_apart: "k' \<noteq> k \<Longrightarrow> used k' (give_back k t) = used k' t"
begin

lemma within_take:
  assumes "within cap c n (used k t)" "take_unit k' t = (g, t')"
  shows "within cap c (if g = Some True \<and> k' = k then n + 1 else n) (used k t')"
proof (cases "k' = k")
  case True
  then show ?thesis
    using assms granted [of k t t'] refused [of k t g t'] by (auto simp: within_def)
next
  case False
  then show ?thesis using assms taken_apart [of k' t g t' k] by simp
qed

lemma within_give:
  assumes "within cap c n (used k t)"
  shows "within cap c (if k' = k then n - 1 else n) (used k (give_back k' t))"
proof (cases "k' = k")
  case True
  then show ?thesis using assms given [of k t] by (auto simp: within_def)
next
  case False
  then show ?thesis using assms given_apart [of k k' t] by simp
qed

end

subsection \<open>The rows keep the contract\<close>

lemma spent_simps [simp]:
  "spent k [] = 0"
  "spent k (x # xs) = (if row_key x = k then rl_n x else spent k xs)"
  by (simp_all add: spent_def)

lemma row_key_update [simp]: "row_key (x\<lparr>rl_n := n\<rparr>) = row_key x"
  by (simp add: row_key_def)

lemma row_key_new [simp]: "row_key \<lparr>rl_bucket = fst k, rl_start = snd k, rl_n = n\<rparr> = k"
  by (simp add: row_key_def)

lemma bump_spent:
  "bump_rate_limit k t = Some (n, t') \<Longrightarrow>
     n = spent k t + 1 \<and> spent k' t' = (if k' = k then n else spent k' t)"
  by (induction t arbitrary: n t') (auto split: if_splits)

lemma refund_spent:
  "spent k' (refund_rate_limit k t) = (if k' = k then max (spent k t - 1) 0 else spent k' t)"
  by (induction t) (auto simp: refund_rate_limit_def)

lemma allow_row_spent:
  assumes "allow_row limit k t = (g, t')"
  shows "g = Some True \<Longrightarrow> spent k t' = spent k t + 1 \<and> spent k t' \<le> limit"
    and "spent k t \<le> spent k t'"
    and "k' \<noteq> k \<Longrightarrow> spent k' t' = spent k' t"
  using assms bump_spent [of k t _ t' k] bump_spent [of k t _ t' k']
  by (auto simp: allow_row_def split: option.splits)

interpretation row_budget: budget "allow_row limit" refund_rate_limit spent limit for limit
proof unfold_locales
  fix k t t' assume "allow_row limit k t = (Some True, t')"
  then show "spent k t' = spent k t + 1 \<and> spent k t' \<le> limit" using allow_row_spent(1) by blast
next
  fix k t g t' assume "allow_row limit k t = (g, t')"
  then show "spent k t \<le> spent k t'" by (rule allow_row_spent(2))
next
  fix k t g t' k' assume "allow_row limit k t = (g, t')" "k' \<noteq> k"
  then show "spent k' t' = spent k' t" by (rule allow_row_spent(3))
qed (simp_all add: refund_spent)

subsection \<open>Limiters and keys\<close>

lemma allow_other:
  assumes "allow l now key t = (g, t')" "fst k \<noteq> key"
  shows "spent k t' = spent k t"
proof (cases l)
  case NoLimit
  then show ?thesis using assms by simp
next
  case (FixedWindow limit window)
  with assms have "allow_row limit (key, window_start window now) t = (g, t')" by simp
  then show ?thesis using assms(2) by (auto dest: allow_row_spent(3) [where k' = k])
qed

lemma spend_other:
  "spend l now key t = (g, t') \<Longrightarrow> fst k \<noteq> key \<Longrightarrow> spent k t' = spent k t"
  using allow_other [of l now key t _ t' k]
  by (auto simp: spend_def split: prod.splits option.splits)

lemma refund_other: "fst k \<noteq> key \<Longrightarrow> spent k (refund l now key t) = spent k t"
  by (cases l) (auto simp: refund_spent)

lemma spend_within:
  assumes "spend (FixedWindow cap window) now key t = (g, t')" "within cap c n (spent k t)"
  shows "within cap c (if g = None \<and> (key, window_start window now) = k then n + 1 else n) (spent k t')"
proof -
  obtain ok where ok: "allow_row cap (key, window_start window now) t = (ok, t')"
    and g: "g = None \<longleftrightarrow> ok = Some True"
    using assms(1) by (auto simp: spend_def split: prod.splits option.splits if_splits)
  from row_budget.within_take [OF assms(2) ok] show ?thesis by (simp add: g)
qed

lemma refund_within:
  assumes "within cap c n (spent k t)"
  shows "within cap c (if (key, window_start window now) = k then n - 1 else n)
           (spent k (refund (FixedWindow cap window) now key t))"
  using row_budget.within_give [OF assms, of "(key, window_start window now)"] by simp

lemma keys_apart [simp]:
  "flood_key r \<noteq> failure_key r'"
  "failure_key r' \<noteq> flood_key r"
  "target_key dec r cred name b \<noteq> flood_key r'"
  "target_key dec r cred name b \<noteq> failure_key r'"
  "flood_key r' \<noteq> target_key dec r cred name b"
  "failure_key r' \<noteq> target_key dec r cred name b"
  by (auto simp: flood_key_def failure_key_def target_key_def split: option.splits)

lemma general_key_head: "take 2 (general_key routes r) \<noteq> ''au''"
  by (auto simp: general_key_def limiter_key_def)

lemma auth_keys_head:
  "take 2 (flood_key r) = ''au''" "take 2 (failure_key r) = ''au''"
  "take 2 (target_key dec r cred name b) = ''au''"
  by (auto simp: flood_key_def failure_key_def target_key_def split: option.splits)

lemma general_key_apart [simp]:
  "general_key routes r' \<noteq> flood_key r" "general_key routes r' \<noteq> failure_key r"
  "general_key routes r' \<noteq> target_key dec r cred name b"
  by (metis general_key_head auth_keys_head)+

end
