(* ===== verification/Middleware_Properties.thy ===== *)
theory Middleware_Properties
  imports Rate_Lemmas Sample_Directory
begin

section \<open>Properties of the chain\<close>

subsection \<open>Budgets of routes\<close>

text \<open>The requests the general limiter admitted against a key in a window.\<close>

definition counted :: "routes \<Rightarrow> limiters \<Rightarrow> int \<Rightarrow> budget_key \<Rightarrow> http_request \<Rightarrow> bool" where
  "counted routes ls window k r =
    ((wired_budgets ls = None \<or> credential_of routes r = None)
     \<and> (general_key routes r, window_start window (rq_clock r 2)) = k)"

lemma credential_admit_other:
  assumes "credential_admit cb r key t = (g, t')"
    "fst k \<noteq> flood_key r" "fst k \<noteq> failure_key r" "fst k \<noteq> key"
  shows "spent k t' = spent k t"
  using assms spend_other by (auto simp: credential_admit_def split: prod.splits option.splits)

lemma credential_settle_other:
  "fst k \<noteq> failure_key r \<Longrightarrow> fst k \<noteq> key \<Longrightarrow> spent k (credential_settle cb cred r key st t) = spent k t"
  by (simp add: credential_settle_def refund_other)

lemma credential_limit_other:
  assumes "credential_limit cb dec cred name h r (t, s) = (rep, t', s')" "k = (general_key routes r', w)"
  shows "spent k t' = spent k t"
proof (cases "read_and_restore_body r")
  case (Inl e)
  then show ?thesis using assms by (cases e) (auto simp: credential_limit_def)
next
  case (Inr br)
  then obtain b r1 where br: "read_and_restore_body r = Inr (b, r1)" by (cases br) auto
  obtain g t1 where g: "credential_admit cb r (target_key dec r cred name b) t = (g, t1)" by fastforce
  have "spent k t1 = spent k t" by (rule credential_admit_other [OF g]) (simp_all add: assms(2))
  then show ?thesis using assms(1) br g
    by (auto simp: credential_limit_def Let_def credential_settle_other assms(2) split: option.splits prod.splits)
qed

lemma read_body_same:
  "read_and_restore_body r = Inr (b, r') \<Longrightarrow> \<exists>b'. r' = r\<lparr>rq_body := b'\<rparr>"
  by (auto simp: read_and_restore_body_def Let_def split: body.splits if_splits)

lemma credential_of_body [simp]: "credential_of routes (r\<lparr>rq_body := b\<rparr>) = credential_of routes r"
  by (simp add: credential_of_def routed_path_def split: option.splits)

lemma credential_limit_log:
  assumes "credential_limit cb dec cred name (with_log h) r (t, log, s) = (rep, t', log', s')"
  shows "log' = log \<or> (\<exists>b. log' = log @ [r\<lparr>rq_body := b\<rparr>])"
  using assms
  by (auto simp: credential_limit_def Let_def with_log_def
      split: sum.splits body_error.splits prod.splits option.splits dest!: read_body_same)

lemma rate_limit_within:
  assumes step: "rate_limit routes (ls\<lparr>lm_general := FixedWindow cap window\<rparr>) dec (with_log h) r (t, log, s)
      = (rep, t', log', s')"
    and inv: "within cap c (int (length (filter (counted routes ls window k) log))) (spent k t)"
    and k: "k = (general_key routes r0, w)"
  shows "within cap c (int (length (filter (counted routes ls window k) log'))) (spent k t')"
proof (cases "wired_budgets ls = None \<or> credential_of routes r = None")
  case True
  then have "rate_limit routes (ls\<lparr>lm_general := FixedWindow cap window\<rparr>) dec (with_log h) r (t, log, s) =
      (case spend (FixedWindow cap window) (rq_clock r 2) (general_key routes r) t of
         (Some rep, t') \<Rightarrow> (rep, t', log, s)
       | (None, t') \<Rightarrow> (case with_log h r (log, s) of (rep, s') \<Rightarrow> (rep, t', s')))"
    by (auto simp: rate_limit_def wired_budgets_def split: option.splits)
  moreover obtain g t1
    where g: "spend (FixedWindow cap window) (rq_clock r 2) (general_key routes r) t = (g, t1)" by fastforce
  ultimately show ?thesis
    using step spend_within [OF g inv] True
    by (auto simp: with_log_def counted_def ac_simps split: option.splits prod.splits if_splits)
next
  case False
  then obtain cb cred name where c: "wired_budgets ls = Some cb" "credential_of routes r = Some (cred, name)"
    by auto
  then have lim: "credential_limit cb dec cred name (with_log h) r (t, log, s) = (rep, t', log', s')"
    using step by (simp add: rate_limit_def wired_budgets_def split: option.splits)
  have "filter (counted routes ls window k) log' = filter (counted routes ls window k) log"
    using credential_limit_log [OF lim] c by (auto simp: counted_def)
  with inv credential_limit_other [OF lim k] show ?thesis by simp
qed

lemma serve_all_within:
  assumes "serve_all (rate_limit routes (ls\<lparr>lm_general := FixedWindow cap window\<rparr>) dec (with_log h)) rs (t, log, s)
      = (reps, t', log', s')"
    "within cap c (int (length (filter (counted routes ls window (general_key routes r0, w)) log)))
       (spent (general_key routes r0, w) t)"
  shows "within cap c (int (length (filter (counted routes ls window (general_key routes r0, w)) log')))
       (spent (general_key routes r0, w) t')"
  using assms
proof (induction rs arbitrary: t log s reps)
  case (Cons r rs)
  obtain rep t1 log1 s1 where step:
    "rate_limit routes (ls\<lparr>lm_general := FixedWindow cap window\<rparr>) dec (with_log h) r (t, log, s) = (rep, t1, log1, s1)"
    by (metis prod_cases4)
  then obtain reps' where
    "serve_all (rate_limit routes (ls\<lparr>lm_general := FixedWindow cap window\<rparr>) dec (with_log h)) rs (t1, log1, s1)
      = (reps', t', log', s')"
    using Cons.prems(1) by (auto split: prod.splits)
  then show ?case by (rule Cons.IH) (rule rate_limit_within [OF step Cons.prems(2) refl])
qed simp

subsection \<open>Spellings of a parameter\<close>

lemma canonical_param_no_colon: "CHR '':'' \<notin> set (canonical_param v)"
  by (auto simp: canonical_param_def decimal_no_colon split: option.split)

lemma decimal_not_star: "decimal n \<noteq> ''*''"
proof
  assume "decimal n = ''*''"
  then have "list_all is_digit ''*''"
    using digits_of_facts [of "nat n"] by (auto simp: decimal_def split: if_splits)
  then show False by (simp add: is_digit_def byte_in_def byte_def)
qed

lemma parse_int64_range: "parse_int64 v = Some n \<Longrightarrow> in_i64 n"
  by (auto simp: parse_int64_def Let_def split: prod.splits if_splits)

lemma canonical_param_eq: "canonical_param v = canonical_param v' \<longleftrightarrow> parse_int64 v = parse_int64 v'"
proof (cases "parse_int64 v"; cases "parse_int64 v'")
  fix n n' assume v: "parse_int64 v = Some n" "parse_int64 v' = Some n'"
  then have "decimal n = decimal n' \<Longrightarrow> n = n'"
    by (metis parse_decimal parse_int64_range option.inject)
  with v show ?thesis by (auto simp: canonical_param_def)
qed (auto simp: canonical_param_def decimal_not_star decimal_not_star [symmetric])

lemma bucket_params_Cons:
  "bucket_params ((k, v) # ps) =
    (if k = ''*'' then bucket_params ps else '':'' @ k @ ''='' @ canonical_param v @ bucket_params ps)"
  by (simp add: bucket_params_def)

lemma bucket_params_head: "bucket_params ps = [] \<or> (\<exists>xs. bucket_params ps = CHR '':'' # xs)"
proof (induction ps)
  case (Cons p ps)
  then show ?case by (cases p) (simp add: bucket_params_Cons)
qed (simp add: bucket_params_def)

lemma split_at_colon:
  assumes "CHR '':'' \<notin> set a" "CHR '':'' \<notin> set b"
    "x = [] \<or> (\<exists>x'. x = CHR '':'' # x')" "y = [] \<or> (\<exists>y'. y = CHR '':'' # y')"
  shows "a @ x = b @ y \<longleftrightarrow> a = b \<and> x = y"
proof
  assume eq: "a @ x = b @ y"
  have cut: "takeWhile (\<lambda>c. c \<noteq> CHR '':'') (u @ z) = u"
    if "CHR '':'' \<notin> set u" "z = [] \<or> (\<exists>z'. z = CHR '':'' # z')" for u z
  proof -
    have "takeWhile (\<lambda>c. c \<noteq> CHR '':'') (u @ z) = u @ takeWhile (\<lambda>c. c \<noteq> CHR '':'') z"
      using that(1) by (intro takeWhile_append2) auto
    then show ?thesis using that(2) by auto
  qed
  from cut [OF assms(1,3)] cut [OF assms(2,4)] eq have "a = b" by simp
  with eq show "a = b \<and> x = y" by simp
qed simp

lemma bucket_params_eq:
  "bucket_params (map (\<lambda>(k, v, v'). (k, v)) tr) = bucket_params (map (\<lambda>(k, v, v'). (k, v')) tr)
    \<longleftrightarrow> list_all (\<lambda>(k, v, v'). k = ''*'' \<or> parse_int64 v = parse_int64 v') tr"
proof (induction tr)
  case (Cons x tr)
  obtain k v v' where x: "x = (k, v, v')" by (cases x)
  show ?case
    using Cons split_at_colon [OF canonical_param_no_colon canonical_param_no_colon
        bucket_params_head bucket_params_head, of v _ v']
    by (auto simp: x bucket_params_Cons canonical_param_eq)
qed (simp add: bucket_params_def)

text \<open>
  C22: However many requests arrive and whatever they spell, the general limiter lets no more of them
  through to a handler, in one window and against one key, than its limit leaves; and two spellings
  of a path spend from one budget exactly when every path parameter reads as the same integer, or as
  none. The counters of the credential routes never touch such a key.
\<close>

theorem route_budget_respected:
  "(case serve_all (rate_limit routes (ls\<lparr>lm_general := FixedWindow cap window\<rparr>) dec (with_log h)) rs (t, [], s) of
      (reps, t', log, s') \<Rightarrow>
        int (length (filter (counted routes ls window (general_key routes r, w)) log))
          \<le> max 0 (cap - spent (general_key routes r, w) t))
   \<and> (bucket_route (Some (pat, map (\<lambda>(k, v, v'). (k, v)) tr)) r
        = bucket_route (Some (pat, map (\<lambda>(k, v, v'). (k, v')) tr)) r
      \<longleftrightarrow> list_all (\<lambda>(k, v, v'). k = ''*'' \<or> parse_int64 v = parse_int64 v') tr)"
proof
  obtain reps t' log s' where run:
    "serve_all (rate_limit routes (ls\<lparr>lm_general := FixedWindow cap window\<rparr>) dec (with_log h)) rs (t, [], s)
      = (reps, t', log, s')" by (metis prod_cases4)
  have "within cap (spent (general_key routes r, w) t)
      (int (length (filter (counted routes ls window (general_key routes r, w)) log)))
      (spent (general_key routes r, w) t')"
    by (rule serve_all_within [OF run]) simp
  then show "case serve_all (rate_limit routes (ls\<lparr>lm_general := FixedWindow cap window\<rparr>) dec (with_log h)) rs
        (t, [], s) of (reps, t', log, s') \<Rightarrow>
      int (length (filter (counted routes ls window (general_key routes r, w)) log))
        \<le> max 0 (cap - spent (general_key routes r, w) t)"
    by (simp add: run within_bound)
next
  show "bucket_route (Some (pat, map (\<lambda>(k, v, v'). (k, v)) tr)) r
        = bucket_route (Some (pat, map (\<lambda>(k, v, v'). (k, v')) tr)) r
      \<longleftrightarrow> list_all (\<lambda>(k, v, v'). k = ''*'' \<or> parse_int64 v = parse_int64 v') tr"
    by (simp add: bucket_route_def bucket_params_eq)
qed

subsection \<open>Budgets of the credential routes\<close>

definition guess :: "decoding \<Rightarrow> int \<Rightarrow> budget_key \<Rightarrow> attempt \<Rightarrow> bool" where
  "guess dec window k a = ((at_key dec a, window_start window (rq_clock (at_request a) 4)) = k)"

definition outstanding :: "(attempt \<Rightarrow> bool) \<Rightarrow> attempts \<Rightarrow> int" where
  "outstanding p st = int (length (filter p (as_open st @ as_failed st)))"

text \<open>
  A refund that landed in the window \<open>snd k\<close> though its unit was taken from another: the clock is read
  again at the refund.
\<close>

definition stray :: "decoding \<Rightarrow> int \<Rightarrow> budget_key \<Rightarrow> attempt \<Rightarrow> bool" where
  "stray dec window k a =
    ((at_key dec a, window_start window (rq_clock (at_request a) 6)) = k
     \<and> window_start window (rq_clock (at_request a) 4) \<noteq> snd k)"

definition strays :: "(attempt \<Rightarrow> bool) \<Rightarrow> attempts \<Rightarrow> int" where
  "strays p st = int (length (filter p (as_refunded st)))"

lemma filter_remove_nth:
  "i < length xs \<Longrightarrow>
    int (length (filter p (take i xs @ drop (Suc i) xs))) = int (length (filter p xs)) - (if p (xs ! i) then 1 else 0)"
  using arg_cong [OF id_take_nth_drop [of i xs], of "\<lambda>ys. length (filter p ys)"] by auto

lemma admit_within:
  assumes "credential_admit (cb\<lparr>cb_target := FixedWindow cap window\<rparr>) (at_request a) (at_key dec a) t = (g, t')"
    "within cap c n (spent k t)" "fst k \<noteq> flood_key (at_request a)" "fst k \<noteq> failure_key (at_request a)"
  shows "within cap c (if g = None \<and> guess dec window k a then n + 1 else n) (spent k t')"
proof -
  obtain g1 t1 where 1: "spend (cb_flood cb) (rq_clock (at_request a) 2) (flood_key (at_request a)) t = (g1, t1)"
    by fastforce
  obtain g2 t2 where 2: "spend (cb_failure cb) (rq_clock (at_request a) 3) (failure_key (at_request a)) t1 = (g2, t2)"
    by fastforce
  have eq: "spent k t1 = spent k t" "spent k t2 = spent k t1"
    using spend_other [OF 1] spend_other [OF 2] assms(3,4) by auto
  show ?thesis
  proof (cases "g1 = None \<and> g2 = None")
    case True
    then have "spend (FixedWindow cap window) (rq_clock (at_request a) 4) (at_key dec a) t2 = (g, t')"
      using assms(1) 1 2 by (simp add: credential_admit_def)
    from spend_within [OF this] assms(2) show ?thesis by (simp add: eq guess_def)
  next
    case False
    then have "g \<noteq> None" "t' = t1 \<or> t' = t2"
      using assms(1) 1 2 by (auto simp: credential_admit_def split: option.splits)
    then show ?thesis using assms(2) eq by auto
  qed
qed

lemma settle_within:
  assumes "within cap c n (spent k t)" "fst k \<noteq> failure_key (at_request a)"
  shows "within cap c
      (if cr_refundable (at_route a) \<and> code < 400 \<and> (guess dec window k a \<or> stray dec window k a)
       then n - 1 else n)
      (spent k (credential_settle (cb\<lparr>cb_target := FixedWindow cap window\<rparr>) (at_route a) (at_request a)
         (at_key dec a) code t))"
proof (cases "\<not> cr_refundable (at_route a) \<or> 400 \<le> code")
  case False
  let ?t = "refund (cb_failure cb) (rq_clock (at_request a) 5) (failure_key (at_request a)) t"
  have "within cap c n (spent k ?t)" using assms(1,2) by (simp add: refund_other)
  from refund_within [OF this, of "at_key dec a" window "rq_clock (at_request a) 6"] False
  show ?thesis
    by (cases k) (auto simp: credential_settle_def guess_def stray_def within_def split: if_splits)
qed (use assms(1) in \<open>auto simp: credential_settle_def\<close>)

text \<open>What is under way or failed, less the refunds that strayed in, is what the contract bounds.\<close>

definition charged :: "decoding \<Rightarrow> int \<Rightarrow> budget_key \<Rightarrow> attempts \<Rightarrow> int" where
  "charged dec window k st = outstanding (guess dec window k) st - strays (stray dec window k) st"

lemma credential_step_within:
  assumes inv: "within cap c (charged dec window k st) (spent k (as_rates st))"
    and k: "k = (target_key dec r cred name b, w)"
  shows "within cap c
      (charged dec window k (credential_step (cb\<lparr>cb_target := FixedWindow cap window\<rparr>) dec e st))
      (spent k (as_rates (credential_step (cb\<lparr>cb_target := FixedWindow cap window\<rparr>) dec e st)))"
proof (cases e)
  case (Admit a)
  obtain g t where g: "credential_admit (cb\<lparr>cb_target := FixedWindow cap window\<rparr>) (at_request a) (at_key dec a)
      (as_rates st) = (g, t)" by fastforce
  show ?thesis
    using admit_within [OF g inv] Admit g
    by (auto simp: credential_step_def charged_def outstanding_def strays_def k algebra_simps
        split: option.splits if_splits)
next
  case (Settle i code)
  show ?thesis
  proof (cases "i < length (as_open st)")
    case True
    let ?a = "as_open st ! i"
    let ?st = "credential_step (cb\<lparr>cb_target := FixedWindow cap window\<rparr>) dec e st"
    have apart: "\<not> (guess dec window k ?a \<and> stray dec window k ?a)"
      by (auto simp: guess_def stray_def)
    have "charged dec window k ?st =
        (if cr_refundable (at_route ?a) \<and> code < 400 \<and> (guess dec window k ?a \<or> stray dec window k ?a)
         then charged dec window k st - 1 else charged dec window k st)"
      using filter_remove_nth [OF True, of "guess dec window k"] Settle True apart
      by (auto simp: credential_step_def charged_def outstanding_def strays_def Let_def)
    then show ?thesis
      using settle_within [OF inv, of ?a code dec window cb] Settle True
      by (simp add: credential_step_def Let_def k)
  qed (use inv Settle in \<open>simp add: credential_step_def\<close>)
qed

lemma credential_run_within:
  assumes "within cap c (charged dec window k st) (spent k (as_rates st))"
    "k = (target_key dec r cred name b, w)"
  shows "within cap c
      (charged dec window k (credential_run (cb\<lparr>cb_target := FixedWindow cap window\<rparr>) dec es st))
      (spent k (as_rates (credential_run (cb\<lparr>cb_target := FixedWindow cap window\<rparr>) dec es st)))"
  using assms(1)
proof (induction es arbitrary: st)
  case (Cons e es)
  have "within cap c
      (charged dec window k (credential_step (cb\<lparr>cb_target := FixedWindow cap window\<rparr>) dec e st))
      (spent k (as_rates (credential_step (cb\<lparr>cb_target := FixedWindow cap window\<rparr>) dec e st)))"
    by (rule credential_step_within [OF Cons.prems assms(2)])
  from Cons.IH [OF this] show ?case by (simp add: credential_run_def)
qed (simp add: credential_run_def)

text \<open>Counters with which no attempt has begun yet.\<close>

definition fresh_attempts :: "rates \<Rightarrow> attempts" where
  "fresh_attempts t = \<lparr>as_rates = t, as_open = [], as_failed = [], as_refunded = []\<rparr>"

lemma credential_limit_run:
  assumes "read_and_restore_body r = Inr (b, r')"
  shows "fst (snd (credential_limit cb dec cred name h r (t, s))) =
    as_rates (credential_run cb dec
      [Admit \<lparr>at_request = r, at_route = cred, at_name = name, at_body = b\<rparr>,
       Settle 0 (rp_status (fst (h r' s)))] (fresh_attempts t))"
  using assms
  by (auto simp: credential_limit_def credential_run_def credential_step_def at_key_def Let_def
      fresh_attempts_def
      split: prod.splits option.splits)

text \<open>
  C21: However the attempts on the credential routes overlap, wherever they come from, the attempts
  against one address or token that are under way or have failed in one window are never more than
  the strict budget leaves and one for each refund that strayed into the window, its unit having been
  taken from another one. No other refund, no refusal and no attempt against another target widens
  it. A single request is such a run: what it does to the counters is its admission followed by its
  settlement.
\<close>

theorem guesses_bounded:
  assumes "read_and_restore_body req = Inr (body, req')"
  shows "outstanding (guess dec window (target_key dec r cred name b, w))
      (credential_run (cb\<lparr>cb_target := FixedWindow cap window\<rparr>) dec es (fresh_attempts t))
      \<le> max 0 (cap - spent (target_key dec r cred name b, w) t)
        + strays (stray dec window (target_key dec r cred name b, w))
            (credential_run (cb\<lparr>cb_target := FixedWindow cap window\<rparr>) dec es (fresh_attempts t))
    \<and> fst (snd (credential_limit cb dec cred name h req (t, s))) =
      as_rates (credential_run cb dec
        [Admit \<lparr>at_request = req, at_route = cred, at_name = name, at_body = body\<rparr>,
         Settle 0 (rp_status (fst (h req' s)))] (fresh_attempts t))"
proof
  let ?k = "(target_key dec r cred name b, w)"
  have "within cap (spent ?k t) (charged dec window ?k (fresh_attempts t))
      (spent ?k (as_rates (fresh_attempts t)))"
    by (simp add: charged_def outstanding_def strays_def fresh_attempts_def)
  from within_bound [OF credential_run_within [OF this refl, of cb es]]
  show "outstanding (guess dec window ?k)
      (credential_run (cb\<lparr>cb_target := FixedWindow cap window\<rparr>) dec es (fresh_attempts t))
      \<le> max 0 (cap - spent ?k t)
        + strays (stray dec window ?k)
            (credential_run (cb\<lparr>cb_target := FixedWindow cap window\<rparr>) dec es (fresh_attempts t))"
    by (simp add: charged_def)
qed (rule credential_limit_run [OF assms])

subsection \<open>A sample request\<close>

definition login_request :: http_request where
  "login_request =
    \<lparr>rq_method = ''POST'', rq_path = ''/api/v1/login'', rq_raw_path = '''', rq_remote = ''10.0.0.2:5000'',
     rq_tls = False, rq_headers = (\<lambda>_. []), rq_session = None, rq_multipart = False,
     rq_content_length = 2, rq_body = Body ''{}'', rq_clock = (\<lambda>_. 61000000000), rq_id = '''',
     rq_client = Some (IPv4 [198, 51, 100, 7]), rq_secure = True, rq_served_tls = False,
     rq_limit = 1048576, rq_auth = anonymous_auth\<rparr>"

definition sample_minute :: int where "sample_minute = 60000000000"

definition sample_budgets :: credential_budgets where
  "sample_budgets = \<lparr>cb_target = FixedWindow 1 sample_minute, cb_failure = NoLimit, cb_flood = NoLimit\<rparr>"

definition sample_decoding :: decoding where
  "sample_decoding = \<lparr>dc_probe = (\<lambda>_. None), dc_lower = (\<lambda>s. s)\<rparr>"

definition sample_route :: credentialRoute where
  "sample_route = \<lparr>cr_field = ''email'', cr_refundable = True\<rparr>"

definition sample_attempt :: "(nat \<Rightarrow> time) \<Rightarrow> attempt" where
  "sample_attempt clock =
    \<lparr>at_request = login_request\<lparr>rq_clock := clock\<rparr>, at_route = sample_route,
     at_name = ''POST /api/v1/login'', at_body = ''{}''\<rparr>"

text \<open>Started in the first minute, answered in the second.\<close>

definition straddling :: "nat \<Rightarrow> time" where
  "straddling n = (if n < 5 then 59000000000 else 61000000000)"

definition prompt :: "nat \<Rightarrow> time" where "prompt n = 61500000000"

lemmas sample_defs = login_request_def sample_minute_def sample_budgets_def sample_decoding_def
  sample_route_def sample_attempt_def straddling_def prompt_def fresh_attempts_def

abbreviation sample_key :: budget_key where
  "sample_key \<equiv>
    (target_key sample_decoding login_request sample_route ''POST /api/v1/login'' ''{}'', sample_minute)"

definition straddling_run :: attempts where
  "straddling_run =
    credential_run (sample_budgets\<lparr>cb_target := FixedWindow 1 sample_minute\<rparr>) sample_decoding
      [Admit (sample_attempt straddling), Admit (sample_attempt prompt), Settle 1 401, Settle 0 200,
       Admit (sample_attempt prompt), Settle 0 401] (fresh_attempts [])"

theorem guesses_bounded_witness:
  "outstanding (guess sample_decoding sample_minute sample_key) straddling_run \<le> 1 + 1
   \<and> fst (snd (credential_limit sample_budgets sample_decoding sample_route ''POST /api/v1/login''
        (\<lambda>r s. (problem 401 ''invalid-credentials'' '''', s)) login_request ([], ())))
      = [\<lparr>rl_bucket = ''auth:target:ip:198.51.100.7:POST /api/v1/login'', rl_start = sample_minute, rl_n = 1\<rparr>]"
proof -
  let ?h = "\<lambda>r s :: unit. (problem 401 ''invalid-credentials'' '''', s)"
  have body: "read_and_restore_body login_request = Inr (''{}'', login_request)"
    by (simp add: read_and_restore_body_def login_request_def max_credential_body_bytes_def Let_def)
  note both = guesses_bounded [OF body, where dec = sample_decoding and r = login_request
      and cred = sample_route and name = "''POST /api/v1/login''" and b = "''{}''" and w = sample_minute
      and window = sample_minute and cb = sample_budgets and cap = 1 and t = "[]" and h = ?h and s = "()"
      and es = "[Admit (sample_attempt straddling), Admit (sample_attempt prompt), Settle 1 401, Settle 0 200,
         Admit (sample_attempt prompt), Settle 0 401]", folded straddling_run_def]
  have run: "as_rates (credential_run sample_budgets sample_decoding
        [Admit \<lparr>at_request = login_request, at_route = sample_route, at_name = ''POST /api/v1/login'', at_body = ''{}''\<rparr>,
         Settle 0 (rp_status (fst (?h login_request ())))] (fresh_attempts []))
      = [\<lparr>rl_bucket = ''auth:target:ip:198.51.100.7:POST /api/v1/login'', rl_start = sample_minute, rl_n = 1\<rparr>]"
    by code_simp
  have "strays (stray sample_decoding sample_minute sample_key) straddling_run = 1" by code_simp
  with both show ?thesis unfolding run by simp
qed

text \<open>
  The refunds that stray do widen the budget: here one guess a minute is allowed, and two failed ones
  are let through in the second minute, because a success that began in the first minute gives its
  unit back to the second. The bound above is met.
\<close>

theorem straying_refund_widens:
  "outstanding (guess sample_decoding sample_minute sample_key) straddling_run = 2
   \<and> strays (stray sample_decoding sample_minute sample_key) straddling_run = 1
   \<and> cb_target sample_budgets = FixedWindow 1 sample_minute"
  by code_simp

subsection \<open>What reaches a handler\<close>

text \<open>
  Who gets past the wall once his credential resolved, and what the limiter passes on, said with the
  counters alone: a unit is left while one more stays within the cap and the column.
\<close>

definition past_wall :: "http_request \<Rightarrow> bool" where
  "past_wall r \<longleftrightarrow>
    (let a = rq_auth r; pr = au_principal a; sent = header_get r ''CSRF-Token'' in
      \<not> (authed pr \<and> (banned pr \<or> team_banned pr))
      \<and> (au_method a \<noteq> MethodCookie \<or> safe_method (rq_method r) \<or> (sent \<noteq> '''' \<and> sent = au_csrf a)))"

fun has_unit :: "limiter \<Rightarrow> time \<Rightarrow> string \<Rightarrow> rates \<Rightarrow> bool" where
  "has_unit NoLimit now key t \<longleftrightarrow> True"
| "has_unit (FixedWindow cap window) now key t \<longleftrightarrow>
    spent (key, window_start window now) t + 1 \<le> cap \<and> in_i32 (spent (key, window_start window now) t + 1)"

definition passed_on ::
  "routes \<Rightarrow> limiters \<Rightarrow> decoding \<Rightarrow> http_request \<Rightarrow> rates \<Rightarrow> http_request option" where
  "passed_on routes ls dec r t =
    (case (wired_budgets ls, credential_of routes r) of
       (Some cb, Some (cred, name)) \<Rightarrow>
         (case read_and_restore_body r of
            Inl _ \<Rightarrow> None
          | Inr (b, r') \<Rightarrow>
              if has_unit (cb_flood cb) (rq_clock r 2) (flood_key r) t
                 \<and> has_unit (cb_failure cb) (rq_clock r 3) (failure_key r) t
                 \<and> has_unit (cb_target cb) (rq_clock r 4) (target_key dec r cred name b) t
              then Some r' else None)
     | _ \<Rightarrow> if has_unit (lm_general ls) (rq_clock r 2) (general_key routes r) t then Some r else None)"

text \<open>The counters a request leaves, with the status its handler answered if it got that far.\<close>

definition counters ::
  "routes \<Rightarrow> limiters \<Rightarrow> decoding \<Rightarrow> http_request \<Rightarrow> int option \<Rightarrow> rates \<Rightarrow> rates" where
  "counters routes ls dec r answered t =
    (case (wired_budgets ls, credential_of routes r) of
       (Some cb, Some (cred, name)) \<Rightarrow>
         (case read_and_restore_body r of
            Inl _ \<Rightarrow> t
          | Inr (b, _) \<Rightarrow>
              let key = target_key dec r cred name b; t1 = snd (credential_admit cb r key t)
              in (case answered of None \<Rightarrow> t1 | Some st \<Rightarrow> credential_settle cb cred r key st t1))
     | _ \<Rightarrow> snd (spend (lm_general ls) (rq_clock r 2) (general_key routes r) t))"

text \<open>A caller who came as nobody with a session cookie is told to drop it.\<close>

definition dropping_stale :: "http_request \<Rightarrow> Auth \<Rightarrow> reply \<Rightarrow> reply" where
  "dropping_stale r a rep =
    (if au_method a = MethodAnonymous \<and> coalesce (rq_session r) '''' \<noteq> '''' \<and> rp_cookie rep = None
     then rep\<lparr>rp_cookie := Some (ClearSession (rq_secure r))\<rparr> else rep)"

lemma rp_status_stale [simp]: "rp_status (dropping_stale r a rep) = rp_status rep"
  by (simp add: dropping_stale_def)

lemma bump_none: "bump_rate_limit k t = None \<longleftrightarrow> \<not> in_i32 (spent k t + 1)"
  by (induction t) auto

lemma spend_cases:
  "fst (spend l now key t) = None \<longleftrightarrow> has_unit l now key t"
  "fst (spend l now key t) = Some rep \<Longrightarrow> rp_status rep \<in> {429, 503}"
proof -
  show "fst (spend l now key t) = None \<longleftrightarrow> has_unit l now key t"
  proof (cases l)
    case (FixedWindow cap window)
    let ?k = "(key, window_start window now)"
    show ?thesis
      using bump_none [of ?k t] bump_spent [of ?k t]
      by (cases "bump_rate_limit ?k t") (auto simp: FixedWindow spend_def allow_row_def split: if_splits)
  qed (simp add: spend_def)
next
  show "fst (spend l now key t) = Some rep \<Longrightarrow> rp_status rep \<in> {429, 503}"
    by (auto simp: spend_def problem_def split: prod.splits option.splits if_splits)
qed

lemma has_unit_other:
  "spend l now key t = (g, t') \<Longrightarrow> key' \<noteq> key \<Longrightarrow> has_unit l' now' key' t' \<longleftrightarrow> has_unit l' now' key' t"
  using spend_other [of l now key t g t'] by (cases l') auto

lemma admit_cases:
  assumes "key = target_key dec r cred name b"
  shows "fst (credential_admit cb r key t) = None \<longleftrightarrow>
      has_unit (cb_flood cb) (rq_clock r 2) (flood_key r) t
      \<and> has_unit (cb_failure cb) (rq_clock r 3) (failure_key r) t
      \<and> has_unit (cb_target cb) (rq_clock r 4) key t"
    "fst (credential_admit cb r key t) = Some rep \<Longrightarrow> rp_status rep \<in> {429, 503}"
proof -
  obtain g1 t1 where 1: "spend (cb_flood cb) (rq_clock r 2) (flood_key r) t = (g1, t1)" by fastforce
  obtain g2 t2 where 2: "spend (cb_failure cb) (rq_clock r 3) (failure_key r) t1 = (g2, t2)" by fastforce
  obtain g3 t3 where 3: "spend (cb_target cb) (rq_clock r 4) key t2 = (g3, t3)" by fastforce
  have u: "has_unit l now (failure_key r) t1 \<longleftrightarrow> has_unit l now (failure_key r) t"
    "has_unit l now key t2 \<longleftrightarrow> has_unit l now key t" for l now
    using has_unit_other [OF 1] has_unit_other [OF 2] assms by auto
  note units = spend_cases [of "cb_flood cb" "rq_clock r 2" "flood_key r" t, unfolded 1]
    spend_cases [of "cb_failure cb" "rq_clock r 3" "failure_key r" t1, unfolded 2]
    spend_cases [of "cb_target cb" "rq_clock r 4" key t2, unfolded 3]
  show "fst (credential_admit cb r key t) = None \<longleftrightarrow>
      has_unit (cb_flood cb) (rq_clock r 2) (flood_key r) t
      \<and> has_unit (cb_failure cb) (rq_clock r 3) (failure_key r) t
      \<and> has_unit (cb_target cb) (rq_clock r 4) key t"
    using units(1,3,5) u by (auto simp: credential_admit_def 1 2 3 split: option.split)
  show "fst (credential_admit cb r key t) = Some rep \<Longrightarrow> rp_status rep \<in> {429, 503}"
    using units(2,4,6) by (auto simp: credential_admit_def 1 2 3 split: option.splits)
qed

lemma limiter_exact:
  "case rate_limit routes ls dec (with_log h) r (t, log, s) of (rep, t', log', s') \<Rightarrow>
    (case passed_on routes ls dec r t of
       Some r' \<Rightarrow> rep = fst (h r' s) \<and> log' = log @ [r'] \<and> s' = snd (h r' s)
         \<and> t' = counters routes ls dec r (Some (rp_status (fst (h r' s)))) t
     | None \<Rightarrow> rp_status rep \<in> {400, 413, 429, 503} \<and> log' = log \<and> s' = s
         \<and> t' = counters routes ls dec r None t)"
proof (cases "wired_budgets ls = None \<or> credential_of routes r = None")
  case True
  let ?sp = "spend (lm_general ls) (rq_clock r 2) (general_key routes r) t"
  have "rate_limit routes ls dec (with_log h) r (t, log, s) =
      (case ?sp of (Some rep, t') \<Rightarrow> (rep, t', log, s)
       | (None, t') \<Rightarrow> (case with_log h r (log, s) of (rep, s') \<Rightarrow> (rep, t', s')))"
    using True by (auto simp: rate_limit_def split: option.splits)
  moreover have "passed_on routes ls dec r t =
      (if has_unit (lm_general ls) (rq_clock r 2) (general_key routes r) t then Some r else None)"
    "counters routes ls dec r st t = snd ?sp" for st
    using True by (auto simp: passed_on_def counters_def split: option.splits)
  ultimately show ?thesis
    using spend_cases [of "lm_general ls" "rq_clock r 2" "general_key routes r" t]
    by (cases ?sp; cases "fst ?sp") (auto simp: with_log_def split: prod.split)
next
  case False
  then obtain cb cred name where c: "wired_budgets ls = Some cb" "credential_of routes r = Some (cred, name)"
    by auto
  show ?thesis
  proof (cases "read_and_restore_body r")
    case (Inl e)
    then show ?thesis
      by (cases e) (simp_all add: rate_limit_def c credential_limit_def passed_on_def counters_def problem_def)
  next
    case (Inr br)
    then obtain b r' where br: "read_and_restore_body r = Inr (b, r')" by (cases br) auto
    let ?ad = "credential_admit cb r (target_key dec r cred name b) t"
    show ?thesis
      using admit_cases [OF refl, of cb r dec cred name b t]
      by (cases ?ad; cases "fst ?ad")
        (auto simp: rate_limit_def c credential_limit_def passed_on_def counters_def br Let_def with_log_def
          split: prod.split)
  qed
qed

text \<open>
  C20: Exactly which requests reach a handler, on every route. One whose credential does not resolve is
  refused with 401, or 503 where it could not be looked up, and never served as a stranger's. One
  that resolves is stopped with 403 by a ban of its user or team, or as a forged write of a cookie's
  owner. Past that it reaches the handler exactly when its limiter has a unit left: the one of the
  route, or on the routes that can be guessed against all three of theirs, behind a body that could
  be read. It then arrives as it was resolved, once, and the handler's own answer goes back, plus the
  order to drop a stale cookie. Whatever is refused leaves the state behind the chain alone, and only
  a request that got as far as a limiter moves a counter.
\<close>

theorem chain_exact:
  "case behind_wall mode (dir \<circ> snd) routes ls dec (with_log h) r (t, log, s) of
    (rep, t', log', s') \<Rightarrow>
      (case authenticate mode (dir s) (rq_clock r 1) (header_get r ''Authorization'') (rq_session r) of
         Inl e \<Rightarrow> rp_status rep = (if e = ErrUnauthorized then 401 else 503)
           \<and> t' = t \<and> log' = log \<and> s' = s
       | Inr a \<Rightarrow>
           let r1 = r\<lparr>rq_auth := a\<rparr> in
           if past_wall r1
           then (case passed_on routes ls dec r1 t of
               Some r2 \<Rightarrow> log' = log @ [r2] \<and> s' = snd (h r2 s) \<and> rep = dropping_stale r a (fst (h r2 s))
                 \<and> t' = counters routes ls dec r1 (Some (rp_status (fst (h r2 s)))) t
             | None \<Rightarrow> log' = log \<and> s' = s \<and> rp_status rep \<in> {400, 413, 429, 503}
                 \<and> t' = counters routes ls dec r1 None t)
           else log' = log \<and> s' = s \<and> t' = t \<and> rp_status rep = 403)"
proof (cases "authenticate mode (dir s) (rq_clock r 1) (header_get r ''Authorization'') (rq_session r)")
  case (Inl e)
  then show ?thesis
    by (simp add: behind_wall_def authenticate_request_def problem_def)
next
  case (Inr a)
  let ?r = "r\<lparr>rq_auth := a\<rparr>"
  let ?inner = "ban_wall (csrf (rate_limit routes ls dec (with_log h)))"
  have get [simp]: "header_get ?r k = header_get r k" for k by (simp add: header_get_def)
  have whole: "behind_wall mode (dir \<circ> snd) routes ls dec (with_log h) r (t, log, s) =
      (case ?inner ?r (t, log, s) of (rep, x) \<Rightarrow> (dropping_stale r a rep, x))"
    using Inr by (auto simp: behind_wall_def authenticate_request_def dropping_stale_def Let_def
        split: prod.split)
  show ?thesis
  proof (cases "past_wall ?r")
    case True
    then have "?inner ?r (t, log, s) = rate_limit routes ls dec (with_log h) ?r (t, log, s)"
      by (auto simp: past_wall_def ban_wall_def csrf_def constant_time_compare_eq Let_def)
    then show ?thesis
      using limiter_exact [where routes = routes and ls = ls and dec = dec and h = h and r = ?r
          and t = t and log = log and s = s] True Inr
      by (auto simp: whole split: prod.splits option.splits)
  next
    case False
    then have "\<exists>kind detail. ?inner ?r (t, log, s) = (problem 403 kind detail, t, log, s)"
      by (auto simp: past_wall_def ban_wall_def csrf_def constant_time_compare_eq Let_def)
    then show ?thesis using False Inr by (auto simp: whole problem_def)
  qed
qed

text \<open>A stranger's request under a budget of one.\<close>

theorem chain_exact_witness:
  "case behind_wall ModeUsers ((\<lambda>_. sample_directory) \<circ> snd) (\<lambda>_ _. None)
      \<lparr>lm_general = FixedWindow 1 sample_minute, lm_target = None, lm_failure = None, lm_flood = None\<rparr>
      sample_decoding (with_log (\<lambda>r n. (problem 404 ''not-found'' '''', n + 1))) login_request ([], [], 0 :: int) of
    (rep, t', log', n) \<Rightarrow> length log' = 1 \<and> n = 1"
proof -
  let ?ls = "\<lparr>lm_general = FixedWindow 1 sample_minute, lm_target = None, lm_failure = None, lm_flood = None\<rparr>"
  have resolved: "authenticate ModeUsers sample_directory (rq_clock login_request 1)
      (header_get login_request ''Authorization'') (rq_session login_request) = Inr anonymous_auth"
    by (simp add: authenticate_def login_request_def header_get_def bearer_token_def Let_def trim_space_def)
  have wall: "past_wall (login_request\<lparr>rq_auth := anonymous_auth\<rparr>)"
    by (simp add: past_wall_def anonymous_auth_def anonymous_def)
  have "passed_on (\<lambda>_ _. None) ?ls sample_decoding (login_request\<lparr>rq_auth := anonymous_auth\<rparr>) []
      = Some (login_request\<lparr>rq_auth := anonymous_auth\<rparr>)"
    by (simp add: passed_on_def wired_budgets_def)
  with wall show ?thesis
    using chain_exact [where mode = ModeUsers and dir = "\<lambda>_. sample_directory" and routes = "\<lambda>_ _. None"
        and ls = ?ls and dec = sample_decoding and h = "\<lambda>r n. (problem 404 ''not-found'' '''', n + 1)"
        and r = login_request and t = "[]" and log = "[]" and s = "0 :: int"]
    by (auto simp: resolved [simplified] Let_def split: prod.splits)
qed

subsection \<open>Whose address is recorded\<close>

definition foreign :: "IPNet list \<Rightarrow> string \<Rightarrow> bool" where
  "foreign trusted c =
    (case parse_ip (trim_space c) of None \<Rightarrow> False | Some ip \<Rightarrow> \<not> is_trusted ip trusted)"

lemma walk_left_find:
  "walk_left trusted peer cs = (case find (foreign trusted) cs of None \<Rightarrow> peer | Some c \<Rightarrow> trim_space c)"
  by (induction cs) (auto simp: foreign_def Let_def split: option.splits)

lemma split_on_join:
  "split_on c (xs @ c # ys) = split_on c xs @ split_on c ys"
  by (induction xs) (auto split: list.splits)

lemma find_none_rev: "list_ex p xs \<Longrightarrow> find p (rev xs) \<noteq> None"
  by (auto simp: find_None_iff list_ex_iff)

lemma headers_apart [simp]:
  "remote_host (r\<lparr>rq_headers := hs\<rparr>) = remote_host r"
  "peer_trusted (r\<lparr>rq_headers := hs\<rparr>) trusted = peer_trusted r trusted"
  "header_get (r\<lparr>rq_headers := hs\<rparr>) k = (case hs k of [] \<Rightarrow> '''' | v # _ \<Rightarrow> v)"
  by (simp_all add: remote_host_def peer_trusted_def header_get_def split: option.split)

lemma client_ip_line:
  assumes "peer_trusted r trusted"
  shows "client_ip (r\<lparr>rq_headers := (rq_headers r)(x_forwarded_for := line # below)\<rparr>) trusted =
    (case find (foreign trusted) (rev (split_on CHR '','' line)) of
       None \<Rightarrow> remote_host r | Some c \<Rightarrow> trim_space c)"
  using assms by (simp add: client_ip_def walk_left_find Let_def)

text \<open>
  C23: What a client claims about its address does not move the address that is recorded and limited: from
  a peer that is no trusted proxy no header is believed, and from one that is, what stands left of
  entries of which one names an address outside the trusted networks is not looked at.
\<close>

theorem forged_address_ignored:
  assumes "list_ex (foreign trusted) (split_on CHR '','' own)"
  shows "client_ip (r\<lparr>rq_headers := (rq_headers r)(x_forwarded_for := (sent @ '','' @ own) # below)\<rparr>) trusted =
      client_ip (r\<lparr>rq_headers := (rq_headers r)(x_forwarded_for := [own])\<rparr>) trusted
    \<and> (peer_trusted r trusted \<or> client_ip (r\<lparr>rq_headers := anything\<rparr>) trusted = remote_host r)
    \<and> (peer_trusted r trusted
        \<or> is_secure (r\<lparr>rq_headers := anything\<rparr>) (peer_trusted r trusted) False = rq_tls r)"
proof (cases "peer_trusted r trusted")
  case True
  have "find (foreign trusted) (rev (split_on CHR '','' (sent @ '','' @ own)))
      = find (foreign trusted) (rev (split_on CHR '','' own))"
    using find_none_rev [OF assms] by (auto simp: split_on_join find_append split: option.splits)
  with True show ?thesis by (simp add: client_ip_line)
next
  case False
  then show ?thesis by (simp add: client_ip_def is_secure_def Let_def)
qed

definition proxied_request :: http_request where
  "proxied_request = login_request\<lparr>rq_headers := \<lambda>_. []\<rparr>"

definition sample_trusted :: "IPNet list" where
  "sample_trusted = [\<lparr>nw_ip = [10, 0, 0, 0], nw_mask = [255, 0, 0, 0]\<rparr>]"

theorem forged_address_ignored_witness:
  "client_ip (proxied_request\<lparr>rq_headers :=
      (rq_headers proxied_request)(x_forwarded_for := [''1.2.3.4'' @ '','' @ '' 203.0.113.9, 10.0.0.7''])\<rparr>)
      sample_trusted = ''203.0.113.9''"
proof -
  have own: "list_ex (foreign sample_trusted) (split_on CHR '','' '' 203.0.113.9, 10.0.0.7'')" by code_simp
  have "find (foreign sample_trusted) (rev (split_on CHR '','' '' 203.0.113.9, 10.0.0.7'')) = Some '' 203.0.113.9''"
    by code_simp
  moreover have "trim_space '' 203.0.113.9'' = ''203.0.113.9''" by code_simp
  moreover have "remote_host proxied_request = ''10.0.0.2''"
    unfolding proxied_request_def remote_host_def login_request_def by (simp add: split_host_port_def)
  moreover have "(case parse_ip ''10.0.0.2'' of None \<Rightarrow> False | Some ip \<Rightarrow> is_trusted ip sample_trusted)" by code_simp
  ultimately have "client_ip (proxied_request\<lparr>rq_headers :=
      (rq_headers proxied_request)(x_forwarded_for := ['' 203.0.113.9, 10.0.0.7''])\<rparr>) sample_trusted = ''203.0.113.9''"
    by (subst client_ip_line) (simp_all add: peer_trusted_def)
  with forged_address_ignored [OF own, of proxied_request "''1.2.3.4''" "[]"] show ?thesis by simp
qed

text \<open>
  C24: But an entry of the trusted proxy that does not parse, such as an address with a port, is skipped,
  and a line of its own below the client's is not read: either way the recorded address is the one
  the client chose.
\<close>

theorem skipped_entry_spoofs:
  assumes "peer_trusted r trusted" "foreign trusted sent" "CHR '','' \<notin> set sent"
    and "CHR '','' \<notin> set own" "parse_ip (trim_space own) = None"
  shows "client_ip (r\<lparr>rq_headers := (rq_headers r)(x_forwarded_for := [sent @ '','' @ own])\<rparr>) trusted = trim_space sent
    \<and> client_ip (r\<lparr>rq_headers := (rq_headers r)(x_forwarded_for := [sent, other])\<rparr>) trusted = trim_space sent"
proof -
  have "\<not> foreign trusted own" using assms(5) by (simp add: foreign_def)
  with assms show ?thesis by (simp add: client_ip_line split_on_join [of "CHR '',''" sent own, simplified] split_on_plain)
qed

theorem skipped_entry_spoofs_witness:
  "client_ip (proxied_request\<lparr>rq_headers :=
      (rq_headers proxied_request)(x_forwarded_for := [''1.2.3.4'' @ '','' @ '' 203.0.113.9:4711''])\<rparr>)
      sample_trusted = ''1.2.3.4''"
proof -
  have "remote_host proxied_request = ''10.0.0.2''"
    unfolding proxied_request_def remote_host_def login_request_def by (simp add: split_host_port_def)
  moreover have "(case parse_ip ''10.0.0.2'' of None \<Rightarrow> False | Some ip \<Rightarrow> is_trusted ip sample_trusted)" by code_simp
  ultimately have peer: "peer_trusted proxied_request sample_trusted" by (simp add: peer_trusted_def)
  have sent: "foreign sample_trusted ''1.2.3.4''" by code_simp
  have own: "parse_ip (trim_space '' 203.0.113.9:4711'') = None" by code_simp
  have trim: "trim_space ''1.2.3.4'' = ''1.2.3.4''" by code_simp
  from skipped_entry_spoofs [OF peer sent _ _ own] show ?thesis by (simp add: trim)
qed
end
