(* ===== verification/Reaper.thy ===== *)
theory Reaper
  imports Rate_Lemmas Sample_Directory
begin

section \<open>The reaper deletes nothing anybody reads\<close>

text \<open>
  Batches and sweeps keep every row their predicate does not pick, in order, and a sweep that says
  it is done has left none it picks. From this: a run of the reaper changes no answer of the
  authentication and no counter of a window that is current.
\<close>

lemma delete_batch_find:
  "(\<And>x. q x \<Longrightarrow> \<not> p x) \<Longrightarrow> find q (snd (delete_batch p n xs)) = find q xs"
  by (induction p n xs rule: delete_batch.induct) (auto split: prod.splits)

lemma delete_batch_short: "fst (delete_batch p n xs) < n \<Longrightarrow> filter p (snd (delete_batch p n xs)) = []"
  by (induction p n xs rule: delete_batch.induct) (auto split: prod.splits)

lemma delete_batch_count: "fst (delete_batch p n xs) + length (snd (delete_batch p n xs)) = length xs"
  by (induction p n xs rule: delete_batch.induct) (auto split: prod.splits)

lemma sweep_find:
  assumes "\<And>x. q x \<Longrightarrow> \<not> p x"
  shows "find q (snd (sweep p batch rounds xs)) = find q xs"
proof (induction rounds arbitrary: xs)
  case (Suc rounds)
  obtain n ys where b: "delete_batch p batch xs = (n, ys)" by fastforce
  have "find q ys = find q xs" using delete_batch_find [of q p batch xs] assms b by simp
  with Suc [of ys] b show ?case by (auto split: prod.splits)
qed simp

lemma sweep_done: "snd (fst (sweep p batch rounds xs)) \<Longrightarrow> filter p (snd (sweep p batch rounds xs)) = []"
proof (induction rounds arbitrary: xs)
  case (Suc rounds)
  obtain n ys where b: "delete_batch p batch xs = (n, ys)" by fastforce
  then show ?case
    using Suc.IH [of ys] Suc.prems delete_batch_short [of p batch xs] by (auto split: prod.splits if_splits)
qed simp

lemma sweep_count: "fst (fst (sweep p batch rounds xs)) + length (snd (sweep p batch rounds xs)) = length xs"
proof (induction rounds arbitrary: xs)
  case (Suc rounds)
  obtain n ys where b: "delete_batch p batch xs = (n, ys)" by fastforce
  with Suc [of ys] delete_batch_count [of p batch xs] show ?case by (auto split: prod.splits)
qed simp

lemma reap_expired_simp:
  "reap_expired window batch rounds now (d, t) =
    (let (n, m) = reap_bounds batch rounds;
         ss = sweep (\<lambda>x. se_expires x \<le> now 1) n m (sessions d);
         ks = sweep (\<lambda>x. tk_expires x \<le> now 2) n m (tokens d);
         ls = sweep (\<lambda>x. rl_start x < stored_time (now 0 - rate_limit_retention window)) n m t
     in (\<lparr>rp_sessions = fst (fst ss), rp_tokens = fst (fst ks), rp_limits = fst (fst ls),
          rp_complete = snd (fst ss) \<and> snd (fst ks) \<and> snd (fst ls)\<rparr>,
         d\<lparr>sessions := snd ss, tokens := snd ks\<rparr>, snd ls))"
  by (simp add: reap_expired_def Let_def split: prod.splits)

lemma stored_time_mono: "a \<le> b \<Longrightarrow> stored_time a \<le> stored_time b"
proof -
  assume "a \<le> b"
  then have "a div 1000 * 1000 \<le> b div 1000 * 1000" by (simp add: zdiv_mono1)
  then show ?thesis by (simp add: stored_time_def minus_mod_eq_div_mult)
qed

lemma retention_covers:
  assumes "0 < window" "in_i64 (2 * window)" "now - window \<le> u"
  shows "stored_time (now - rate_limit_retention window) \<le> window_start window u"
proof -
  have "2 * window \<le> rate_limit_retention window"
    using assms(1,2) by (simp add: rate_limit_retention_def i64_id)
  moreover have "u - window \<le> u - u mod window" using assms(1) by (simp add: less_imp_le)
  ultimately have "now - rate_limit_retention window \<le> u - u mod window" using assms(3) by linarith
  then show ?thesis using assms(1) by (simp add: window_start_def stored_time_mono)
qed

text \<open>
  C25: A run of the reaper is invisible: whatever credential is presented later resolves as before, and
  no counter changes of a window that is open, or was when the clock of this process is up to a
  window ahead. A run that reports completion has left nothing it may delete.
\<close>

theorem reaping_is_invisible:
  assumes "reap_expired window batch rounds now (d, t) = (rep, d', t')"
    and "now 1 \<le> later" "now 2 \<le> later" "0 < window" "in_i64 (2 * window)" "now 0 - window \<le> u"
  shows "authenticate mode d' later header cookie = authenticate mode d later header cookie
    \<and> spent (k, window_start window u) t' = spent (k, window_start window u) t
    \<and> (\<not> rp_complete rep
        \<or> filter (\<lambda>x. se_expires x \<le> now 1) (sessions d') = [] \<and> filter (\<lambda>x. tk_expires x \<le> now 2) (tokens d') = []
          \<and> filter (\<lambda>x. rl_start x < stored_time (now 0 - rate_limit_retention window)) t' = [])
    \<and> rp_sessions rep + length (sessions d') = length (sessions d)
    \<and> rp_limits rep + length t' = length t"
proof -
  obtain n m where b: "reap_bounds batch rounds = (n, m)" by fastforce
  define ss where "ss = sweep (\<lambda>x. se_expires x \<le> now 1) n m (sessions d)"
  define ks where "ks = sweep (\<lambda>x. tk_expires x \<le> now 2) n m (tokens d)"
  define ls where "ls = sweep (\<lambda>x. rl_start x < stored_time (now 0 - rate_limit_retention window)) n m t"
  have run: "d' = d\<lparr>sessions := snd ss, tokens := snd ks\<rparr>" "t' = snd ls"
    "rep = \<lparr>rp_sessions = fst (fst ss), rp_tokens = fst (fst ks), rp_limits = fst (fst ls),
       rp_complete = snd (fst ss) \<and> snd (fst ks) \<and> snd (fst ls)\<rparr>"
    using assms(1) by (auto simp: reap_expired_simp b ss_def ks_def ls_def Let_def)
  have person: "user_by_id d' i = user_by_id d i" for i by (simp add: user_by_id_def run(1))
  have "find (\<lambda>s. se_hash s = h \<and> later < se_expires s) (snd ss)
      = find (\<lambda>s. se_hash s = h \<and> later < se_expires s) (sessions d)" for h
    unfolding ss_def by (rule sweep_find) (use assms(2) in linarith)
  then have session: "get_session d' later h = get_session d later h" for h
    by (simp add: get_session_def person run(1) [THEN arg_cong, of sessions] split: option.split)
  have "find (\<lambda>s. tk_hash s = h \<and> later < tk_expires s) (snd ks)
      = find (\<lambda>s. tk_hash s = h \<and> later < tk_expires s) (tokens d)" for h
    unfolding ks_def by (rule sweep_find) (use assms(3) in linarith)
  then have token: "get_api_token d' later h = get_api_token d later h" for h
    by (simp add: get_api_token_def run(1))
  have "team_by_id d' = team_by_id d" "owes_answer d' = owes_answer d"
    by (simp_all add: fun_eq_iff team_by_id_def owes_answer_def run(1))
  then have "load_principal d' i = load_principal d i" for i
    by (simp add: load_principal_def person) (simp add: run(1))
  then have "principal_of mode d' i = principal_of mode d i" for i by (simp add: principal_of_def)
  then have "authenticate_session mode d' later = authenticate_session mode d later"
    "authenticate_token mode d' later = authenticate_token mode d later"
    by (auto simp: fun_eq_iff authenticate_session_def authenticate_token_def session token split: option.split)
  then have "authenticate mode d' later header cookie = authenticate mode d later header cookie"
    by (simp add: authenticate_def split: option.split)
  moreover have "find (\<lambda>x. row_key x = (k, window_start window u)) t' = find (\<lambda>x. row_key x = (k, window_start window u)) t"
    unfolding run(2) ls_def
    by (rule sweep_find) (use retention_covers [OF assms(4,5,6)] in \<open>auto simp: row_key_def\<close>)
  ultimately show ?thesis
    using sweep_done [of "\<lambda>x. se_expires x \<le> now 1" n m "sessions d"]
      sweep_done [of "\<lambda>x. tk_expires x \<le> now 2" n m "tokens d"]
      sweep_done [of "\<lambda>x. rl_start x < stored_time (now 0 - rate_limit_retention window)" n m t]
      sweep_count [of "\<lambda>x. se_expires x \<le> now 1" n m "sessions d"]
      sweep_count [of "\<lambda>x. rl_start x < stored_time (now 0 - rate_limit_retention window)" n m t]
    by (simp add: run(1) run(3) spent_def) (simp add: run(2) ss_def ks_def ls_def)
qed

definition sample_rates :: rates where
  "sample_rates =
    [\<lparr>rl_bucket = ''account:1:GET:/'', rl_start = 0, rl_n = 60\<rparr>,
     \<lparr>rl_bucket = ''account:1:GET:/'', rl_start = 3600000000000, rl_n = 7\<rparr>]"

theorem reaping_is_invisible_witness:
  "case reap_expired 60000000000 0 0 (\<lambda>_. 3610000000000) (sample_directory, sample_rates) of
    (rep, d', t') \<Rightarrow>
      spent (''account:1:GET:/'', window_start 60000000000 3610000000000) t' = 7
      \<and> rp_limits rep + length t' = 2"
proof -
  obtain rep d' t'
    where run: "reap_expired 60000000000 0 0 (\<lambda>_. 3610000000000) (sample_directory, sample_rates) = (rep, d', t')"
    by (metis prod_cases3)
  have "window_start 60000000000 3610000000000 = 3600000000000"
    by (simp add: window_start_def stored_time_def)
  then have "spent (''account:1:GET:/'', window_start 60000000000 3610000000000) sample_rates = 7"
    by (simp add: sample_rates_def row_key_def)
  moreover have "length sample_rates = 2" by (simp add: sample_rates_def)
  ultimately show ?thesis
    using reaping_is_invisible [OF run, where later = 3610000000000 and u = 3610000000000
      and k = "''account:1:GET:/''" and mode = ModeUsers and header = "''''" and cookie = None]
    by (simp add: run)
qed

end
