(* ===== verification/Roster_Rules.thy ===== *)
theory Roster_Rules
  imports Roster_Properties
begin

section \<open>The rules of the roster\<close>

text \<open>
  What a request may do to seats, roles and bans, said without tables: a roster is who is in which
  team with which role, barred or not, and which team has which captain, barred or not. An act is
  what a request asks for; \<open>roster_rule\<close> gives each act the guard under which it happens and what it
  leaves, and no act changes anything else. \<open>abs_roster\<close> reads the roster off the directory, \<open>act_of\<close>
  the act off a request, and every request that is accepted is its act, while one that is refused is
  none. Where \<open>roster_step\<close> of \<open>Roster_Steps\<close> lists the writes to the tables from which the
  invariants follow, this relation is the contract of the operations.
\<close>

subsection \<open>Rosters\<close>

record enrolled =
  en_team :: "id option"
  en_role :: string
  en_barred :: bool

record crew =
  cw_captain :: "id option"
  cw_barred :: bool

record roster =
  folk :: "id \<Rightarrow> enrolled option"
  crews :: "id \<Rightarrow> crew option"

definition enrolled_of :: "UserRow \<Rightarrow> enrolled" where
  "enrolled_of u = \<lparr>en_team = us_team u, en_role = us_role u, en_barred = us_banned u\<rparr>"

definition crew_of :: "TeamRow \<Rightarrow> crew" where
  "crew_of t = \<lparr>cw_captain = tm_captain t, cw_barred = tm_banned t\<rparr>"

definition abs_roster :: "directory \<Rightarrow> roster" where
  "abs_roster d =
    \<lparr>folk = (\<lambda>i. map_option enrolled_of (user_by_id d i)),
     crews = (\<lambda>t. map_option crew_of (team_by_id d t))\<rparr>"

definition crewed :: "roster \<Rightarrow> id \<Rightarrow> id set" where
  "crewed r t = {i. map_option en_team (folk r i) = Some (Some t)}"

definition in_charge :: "roster \<Rightarrow> id \<Rightarrow> bool" where
  "in_charge r i \<longleftrightarrow>
    (\<exists>m. folk r i = Some m \<and> en_role m = ''admin'' \<and> \<not> en_barred m
      \<and> Option.bind (en_team m) (\<lambda>t. map_option cw_barred (crews r t)) \<noteq> Some True)"

definition has_room :: "int option \<Rightarrow> roster \<Rightarrow> id \<Rightarrow> bool" where
  "has_room cap r t \<longleftrightarrow> (case cap of None \<Rightarrow> True | Some c \<Rightarrow> c \<le> 0 \<or> int (card (crewed r t)) < c)"

definition has_scored :: "db \<Rightarrow> id \<Rightarrow> bool" where
  "has_scored l t \<longleftrightarrow> Some t \<in> sv_team ` set (solves l)"

definition has_played :: "db \<Rightarrow> id \<Rightarrow> bool" where
  "has_played l t \<longleftrightarrow>
    Some t \<in> sb_team ` set (submissions l) \<union> sv_team ` set (solves l)
      \<union> aw_team ` set (awards l) \<union> hu_team ` set (unlocks l)"

subsection \<open>What acts leave\<close>

definition with_member :: "id \<Rightarrow> (enrolled \<Rightarrow> enrolled) \<Rightarrow> roster \<Rightarrow> roster" where
  "with_member i f r = r\<lparr>folk := (folk r)(i := map_option f (folk r i))\<rparr>"

definition with_crew :: "id \<Rightarrow> (crew \<Rightarrow> crew) \<Rightarrow> roster \<Rightarrow> roster" where
  "with_crew t f r = r\<lparr>crews := (crews r)(t := map_option f (crews r t))\<rparr>"

text \<open>A member sits down, in the empty seat of the captain where there is one.\<close>

definition sit_down :: "id \<Rightarrow> id \<Rightarrow> roster \<Rightarrow> roster" where
  "sit_down i t r =
    with_crew t (\<lambda>c. c\<lparr>cw_captain := (case cw_captain c of None \<Rightarrow> Some i | Some j \<Rightarrow> Some j)\<rparr>)
      (with_member i (en_team_update (\<lambda>_. Some t)) r)"

text \<open>A member gets up; the captain's seat passes to the one longest registered, if any is left.\<close>

definition heir :: "id set \<Rightarrow> id option" where
  "heir is = (if is = {} then None else Some (Min is))"

definition get_up :: "id \<Rightarrow> id \<Rightarrow> roster \<Rightarrow> roster" where
  "get_up i t r =
    with_crew t (\<lambda>c. if cw_captain c = Some i then c\<lparr>cw_captain := heir (crewed r t - {i})\<rparr> else c)
      (with_member i (en_team_update (\<lambda>_. None)) r)"

definition dissolve :: "id \<Rightarrow> roster \<Rightarrow> roster" where
  "dissolve t r =
    \<lparr>folk = (\<lambda>i. if i \<in> crewed r t then map_option (en_team_update (\<lambda>_. None)) (folk r i) else folk r i),
     crews = (crews r)(t := None)\<rparr>"

subsection \<open>Acts and their rules\<close>

datatype act =
    Nothing
  | Register
  | Create_admin
  | Promote "id set"
  | Found id
  | Join id
  | Leave id
  | Kick id id
  | Hand_over id id
  | Disband id
  | Bar id id bool
  | Give_role id string
  | Bar_team id id bool
  | Open_team
  | Take_off id id
  | Move id id id

text \<open>
  The rules, each under its guard: \<open>mode\<close> is the instance's, \<open>l\<close> the ledger of the game and \<open>cap\<close> the
  size cap in force. The first identity after an act that acts for itself is the one who asked.
\<close>

inductive roster_rule :: "Mode \<Rightarrow> db \<Rightarrow> int option \<Rightarrow> act \<Rightarrow> roster \<Rightarrow> roster \<Rightarrow> bool"
  for mode l cap where
  nothing: "roster_rule mode l cap Nothing r r"
| registered: "folk r i = None
    \<Longrightarrow> roster_rule mode l cap Register r
          (r\<lparr>folk := (folk r)(i \<mapsto> \<lparr>en_team = None, en_role = ''user'', en_barred = False\<rparr>)\<rparr>)"
| admin_created: "folk r i = None
    \<Longrightarrow> roster_rule mode l cap Create_admin r
          (r\<lparr>folk := (folk r)(i \<mapsto> \<lparr>en_team = None, en_role = ''admin'', en_barred = False\<rparr>)\<rparr>)"
| promoted: "\<exists>i\<in>who. folk r i \<noteq> None
    \<Longrightarrow> roster_rule mode l cap (Promote who) r
          (r\<lparr>folk := (\<lambda>i. if i \<in> who then map_option (en_role_update (\<lambda>_. ''admin'')) (folk r i) else folk r i)\<rparr>)"
| was_admin: "i \<in> who \<Longrightarrow> map_option en_role (folk r i) = Some ''admin''
    \<Longrightarrow> roster_rule mode l cap (Promote who) r r"
| founded: "map_option en_team (folk r i) = Some None \<Longrightarrow> crews r t = None \<Longrightarrow> has_room cap r t
    \<Longrightarrow> roster_rule mode l cap (Found i) r
          (with_member i (en_team_update (\<lambda>_. Some t))
            (r\<lparr>crews := (crews r)(t \<mapsto> \<lparr>cw_captain = Some i, cw_barred = False\<rparr>)\<rparr>))"
| joined: "map_option en_team (folk r i) = Some None \<Longrightarrow> map_option cw_barred (crews r t) = Some False
    \<Longrightarrow> has_room cap r t
    \<Longrightarrow> roster_rule mode l cap (Join i) r (sit_down i t r)"
| left: "i \<in> crewed r t \<Longrightarrow> \<not> has_scored l t
    \<Longrightarrow> roster_rule mode l cap (Leave i) r (get_up i t r)"
| kicked: "map_option cw_captain (crews r t) = Some (Some i) \<Longrightarrow> j \<in> crewed r t \<Longrightarrow> j \<noteq> i \<Longrightarrow> \<not> has_scored l t
    \<Longrightarrow> roster_rule mode l cap (Kick i j) r (with_member j (en_team_update (\<lambda>_. None)) r)"
| handed_over: "map_option cw_captain (crews r t) = Some (Some i) \<Longrightarrow> j \<in> crewed r t
    \<Longrightarrow> roster_rule mode l cap (Hand_over i j) r (with_crew t (cw_captain_update (\<lambda>_. Some j)) r)"
| disbanded: "map_option cw_captain (crews r t) = Some (Some i) \<Longrightarrow> i \<in> crewed r t \<Longrightarrow> \<not> has_played l t
    \<Longrightarrow> roster_rule mode l cap (Disband i) r (dissolve t r)"
| barred: "folk r i = Some m \<Longrightarrow> b \<longrightarrow> i \<noteq> a
    \<Longrightarrow> b \<and> en_role m = ''admin'' \<and> \<not> en_barred m \<longrightarrow> (\<exists>j. j \<noteq> i \<and> in_charge r j)
    \<Longrightarrow> roster_rule mode l cap (Bar a i b) r (with_member i (en_barred_update (\<lambda>_. b)) r)"
| role_given: "folk r i \<noteq> None \<Longrightarrow> role \<in> {''user'', ''admin''}
    \<Longrightarrow> role \<noteq> ''admin'' \<longrightarrow> (\<exists>j. j \<noteq> i \<and> in_charge r j)
    \<Longrightarrow> roster_rule mode l cap (Give_role i role) r (with_member i (en_role_update (\<lambda>_. role)) r)"
| team_barred: "crews r t \<noteq> None \<Longrightarrow> b \<longrightarrow> folk r a \<noteq> None \<and> a \<notin> crewed r t
    \<Longrightarrow> b \<longrightarrow> (\<exists>j. j \<notin> crewed r t \<and> in_charge r j)
    \<Longrightarrow> roster_rule mode l cap (Bar_team a t b) r (with_crew t (cw_barred_update (\<lambda>_. b)) r)"
| team_opened: "crews r t = None
    \<Longrightarrow> roster_rule mode l cap Open_team r
          (r\<lparr>crews := (crews r)(t \<mapsto> \<lparr>cw_captain = None, cw_barred = False\<rparr>)\<rparr>)"
| taken_off: "mode = ModeTeams \<Longrightarrow> i \<in> crewed r t
    \<Longrightarrow> roster_rule mode l cap (Take_off t i) r (get_up i t r)"
| moved: "mode = ModeTeams \<Longrightarrow> i \<in> crewed r s \<Longrightarrow> s \<noteq> t \<Longrightarrow> crews r t \<noteq> None \<Longrightarrow> has_room cap r t
    \<Longrightarrow> map_option cw_barred (crews r t) = Some True
        \<and> map_option (\<lambda>m. en_role m = ''admin'' \<and> \<not> en_barred m) (folk r i) = Some True
        \<longrightarrow> (\<exists>j. j \<noteq> i \<and> in_charge r j)
    \<Longrightarrow> roster_rule mode l cap (Move s i t) r (sit_down i t (get_up i s r))"

subsection \<open>Requests as acts\<close>

fun account_act :: "env \<Rightarrow> directory \<Rightarrow> account_request \<Rightarrow> act" where
  "account_act env d (ReqRegister _ _ _ _ _ _ _ _) = Register"
| "account_act env d (ReqCreateAdmin _ _ _ _ _) = Create_admin"
| "account_act env d (ReqPromote e _) =
    Promote (us_id ` {u \<in> set (people d). lower_text env (us_email u) = lower_text env e})"
| "account_act env d _ = Nothing"

fun team_act :: "team_request \<Rightarrow> act" where
  "team_act (ReqCreateTeam _ i _ _) = Found i"
| "team_act (ReqJoinTeam _ i _ _) = Join i"
| "team_act (ReqLeaveTeam i) = Leave i"
| "team_act (ReqKick i j) = Kick i j"
| "team_act (ReqTransfer i j) = Hand_over i j"
| "team_act (ReqDisband i) = Disband i"
| "team_act _ = Nothing"

fun organizer_act :: "organizer_request \<Rightarrow> act" where
  "organizer_act (ReqSetBanned a i b) = Bar a i b"
| "organizer_act (ReqSetRole i role) = Give_role i role"
| "organizer_act (ReqAdminCreateTeam _) = Open_team"
| "organizer_act (ReqSetTeamBanned a t b) = Bar_team a t b"
| "organizer_act (ReqRemoveMember t i) = Take_off t i"
| "organizer_act (ReqMoveMember s i t) = Move s i t"
| "organizer_act _ = Nothing"

definition act_of :: "env \<Rightarrow> directory \<Rightarrow> request \<Rightarrow> act" where
  "act_of env d req =
    (case req of
       AccountRequest r \<Rightarrow> account_act env d r | TeamRequest r \<Rightarrow> team_act r
     | OrganizerRequest r \<Rightarrow> organizer_act r)"

text \<open>
  Whether the operation of a request succeeds. A registration counts once its account is committed,
  whatever becomes of its first session; requests with nothing to do with rosters always count.
\<close>

fun account_accepted :: "env \<Rightarrow> directory \<Rightarrow> account_request \<Rightarrow> bool" where
  "account_accepted env d (ReqRegister now r n e p v c as) = is_ok (register_user env d now r n e p v c as)"
| "account_accepted env d (ReqCreateAdmin r n e p s) = is_ok (fst (create_admin env d r n e p s))"
| "account_accepted env d (ReqPromote e s) = is_ok (fst (promote_to_admin env d e s))"
| "account_accepted env d _ = True"

fun team_accepted :: "env \<Rightarrow> directory \<Rightarrow> team_request \<Rightarrow> bool" where
  "team_accepted env d (ReqCreateTeam r i n p) = is_ok (create_team env d r i n p)"
| "team_accepted env d (ReqJoinTeam r i n p) = is_ok (fst (join_team env d r i n p))"
| "team_accepted env d (ReqLeaveTeam i) = is_ok (leave_team d i)"
| "team_accepted env d (ReqKick i j) = is_ok (kick_member d i j)"
| "team_accepted env d (ReqTransfer i j) = is_ok (transfer_captaincy d i j)"
| "team_accepted env d (ReqDisband i) = is_ok (disband_team d i)"
| "team_accepted env d _ = True"

fun organizer_accepted :: "env \<Rightarrow> Mode \<Rightarrow> directory \<Rightarrow> organizer_request \<Rightarrow> bool" where
  "organizer_accepted env mode d (ReqSetBanned a i b) = is_ok (set_banned d a i b)"
| "organizer_accepted env mode d (ReqSetRole i role) = is_ok (set_role d i role)"
| "organizer_accepted env mode d (ReqAdminCreateTeam n) = is_ok (admin_create_team env d n)"
| "organizer_accepted env mode d (ReqSetTeamBanned a t b) = is_ok (set_team_banned d a t b)"
| "organizer_accepted env mode d (ReqRemoveMember t i) = is_ok (remove_team_member mode d t i)"
| "organizer_accepted env mode d (ReqMoveMember s i t) = is_ok (move_team_member mode d s i t)"
| "organizer_accepted env mode d _ = True"

definition accepted :: "env \<Rightarrow> Mode \<Rightarrow> directory \<Rightarrow> request \<Rightarrow> bool" where
  "accepted env mode d req =
    (case req of
       AccountRequest r \<Rightarrow> account_accepted env d r | TeamRequest r \<Rightarrow> team_accepted env d r
     | OrganizerRequest r \<Rightarrow> organizer_accepted env mode d r)"

subsection \<open>The roster after a write to the tables\<close>

lemma roster_eqI: "folk r = folk r' \<Longrightarrow> crews r = crews r' \<Longrightarrow> r = (r' :: roster)"
  by simp

lemma abs_sel [simp]:
  "folk (abs_roster d) i = map_option enrolled_of (user_by_id d i)"
  "crews (abs_roster d) t = map_option crew_of (team_by_id d t)"
  by (simp_all add: abs_roster_def)

lemma row_sel [simp]:
  "en_team (enrolled_of u) = us_team u" "en_role (enrolled_of u) = us_role u"
  "en_barred (enrolled_of u) = us_banned u" "cw_captain (crew_of t) = tm_captain t"
  "cw_barred (crew_of t) = tm_banned t"
  by (simp_all add: enrolled_of_def crew_of_def)

lemma row_upd [simp]:
  "enrolled_of (u\<lparr>us_team := x\<rparr>) = (enrolled_of u)\<lparr>en_team := x\<rparr>"
  "enrolled_of (u\<lparr>us_role := y\<rparr>) = (enrolled_of u)\<lparr>en_role := y\<rparr>"
  "enrolled_of (u\<lparr>us_role := y, us_verified := v\<rparr>) = (enrolled_of u)\<lparr>en_role := y\<rparr>"
  "enrolled_of (u\<lparr>us_banned := b\<rparr>) = (enrolled_of u)\<lparr>en_barred := b\<rparr>"
  "crew_of (t\<lparr>tm_captain := c\<rparr>) = (crew_of t)\<lparr>cw_captain := c\<rparr>"
  "crew_of (t\<lparr>tm_banned := b\<rparr>) = (crew_of t)\<lparr>cw_barred := b\<rparr>"
  by (simp_all add: enrolled_of_def crew_of_def)

lemma abs_same:
  assumes "same_rosters d d'"
  shows "abs_roster d' = abs_roster d"
proof -
  have people: "map_option enrolled_of (user_by_id d i) =
      map_option (\<lambda>(_, t, r, b). \<lparr>en_team = t, en_role = r, en_barred = b\<rparr>)
        (find (\<lambda>x. fst x = i) (people_view d))" for d i
    by (simp add: people_view_def find_map_view user_by_id_def o_def option.map_comp enrolled_of_def [abs_def])
  have teams: "map_option crew_of (team_by_id d t) =
      map_option (\<lambda>(_, c, b). \<lparr>cw_captain = c, cw_barred = b\<rparr>) (find (\<lambda>x. fst x = t) (rosters_view d))"
    for d t
    by (simp add: rosters_view_def find_map_view team_by_id_def o_def option.map_comp crew_of_def [abs_def])
  show ?thesis
    using assms unfolding abs_roster_def people teams same_rosters_def by (elim conjE) (simp only:)
qed

text \<open>Lookups after the writes; all of them keep the keys.\<close>

lemma by_id_map_users:
  assumes "\<And>u. us_id (f u) = us_id u"
  shows "user_by_id (map_users q f d) i = map_option (\<lambda>u. if q u then f u else u) (user_by_id d i)"
proof -
  have "(\<lambda>u. us_id u = i) \<circ> (\<lambda>u. if q u then f u else u) = (\<lambda>u. us_id u = i)"
    by (auto simp: fun_eq_iff assms)
  then show ?thesis by (simp add: user_by_id_def find_map_view)
qed

lemma by_id_map_teams:
  assumes "\<And>t. tm_id (g t) = tm_id t"
  shows "team_by_id (map_teams q g d) i = map_option (\<lambda>t. if q t then g t else t) (team_by_id d i)"
proof -
  have "(\<lambda>t. tm_id t = i) \<circ> (\<lambda>t. if q t then g t else t) = (\<lambda>t. tm_id t = i)"
    by (auto simp: fun_eq_iff assms)
  then show ?thesis by (simp add: team_by_id_def find_map_view)
qed

lemma by_id_other [simp]:
  "team_by_id (map_users q f d) i = team_by_id d i" "user_by_id (map_teams p g d) i = user_by_id d i"
  by (simp_all add: team_by_id_def user_by_id_def)

lemma by_id_key: "user_by_id d i = Some u \<Longrightarrow> us_id u = i" "team_by_id d t = Some r \<Longrightarrow> tm_id r = t"
  by (auto simp: user_by_id_def team_by_id_def dest: find_Some_in)

lemma by_id_in: "user_by_id d i = Some u \<Longrightarrow> u \<in> set (people d)" "team_by_id d t = Some r \<Longrightarrow> r \<in> set (rosters d)"
  by (auto simp: user_by_id_def team_by_id_def dest: find_Some_in)

lemma user_in: "keys_ok d \<Longrightarrow> u \<in> set (people d) \<Longrightarrow> us_id u = i \<Longrightarrow> user_by_id d i = Some u"
  by (rule find_user) (simp_all add: keys_ok_def)

lemma abs_update_user:
  assumes "\<And>u. us_id (f u) = us_id u" "\<And>u. enrolled_of (f u) = g (enrolled_of u)"
  shows "abs_roster (update_user i f d) = with_member i g (abs_roster d)"
  by (rule roster_eqI)
    (auto simp: fun_eq_iff update_user_def by_id_map_users assms with_member_def option.map_comp o_def
      dest: by_id_key intro!: option.map_cong0 split: option.split)

lemma abs_map_team:
  assumes "\<And>t. tm_id (f t) = tm_id t" "\<And>r. r \<in> set (rosters d) \<Longrightarrow> q r \<Longrightarrow> tm_id r = i"
    "\<And>r. team_by_id d i = Some r \<Longrightarrow> crew_of (if q r then f r else r) = g (crew_of r)"
  shows "abs_roster (map_teams q f d) = with_crew i g (abs_roster d)"
proof (rule roster_eqI)
  have "map_option crew_of (team_by_id (map_teams q f d) t)
      = (if t = i then map_option (g \<circ> crew_of) (team_by_id d t) else map_option crew_of (team_by_id d t))" for t
    using assms(2,3) by_id_key(2) by_id_in(2)
    by (cases "team_by_id d t") (fastforce simp: by_id_map_teams assms(1))+
  then show "crews (abs_roster (map_teams q f d)) = crews (with_crew i g (abs_roster d))"
    by (auto simp: fun_eq_iff with_crew_def option.map_comp)
qed (simp add: fun_eq_iff with_crew_def)

lemma abs_update_team:
  assumes "\<And>t. tm_id (f t) = tm_id t" "\<And>t. crew_of (f t) = g (crew_of t)"
  shows "abs_roster (update_team i f d) = with_crew i g (abs_roster d)"
  unfolding update_team_def by (rule abs_map_team) (auto simp: assms dest: by_id_key)

lemma abs_unseat:
  assumes "\<And>u. u \<in> set (people d) \<Longrightarrow> q u \<Longrightarrow> us_id u = i" "map_option q (user_by_id d i) = Some True"
  shows "abs_roster (map_users q unseat d) = with_member i (en_team_update (\<lambda>_. None)) (abs_roster d)"
proof (rule roster_eqI)
  have "map_option enrolled_of (user_by_id (map_users q unseat d) j)
      = (if j = i then map_option (en_team_update (\<lambda>_. None) \<circ> enrolled_of) (user_by_id d j)
         else map_option enrolled_of (user_by_id d j))" for j
    using assms by_id_key(1) by_id_in(1)
    by (cases "user_by_id d j") (fastforce simp: by_id_map_users)+
  then show "folk (abs_roster (map_users q unseat d))
      = folk (with_member i (en_team_update (\<lambda>_. None)) (abs_roster d))"
    by (auto simp: fun_eq_iff with_member_def option.map_comp)
qed (simp add: fun_eq_iff with_member_def)

text \<open>New rows.\<close>

lemma fresh_user: "keys_ok d \<Longrightarrow> user_by_id d (next_user d) = None"
  by (force simp: keys_ok_def user_by_id_def find_None_iff list_all_iff)

lemma fresh_team: "keys_ok d \<Longrightarrow> team_by_id d (next_team d) = None"
  by (force simp: keys_ok_def team_by_id_def find_None_iff list_all_iff)

lemma abs_with_user:
  assumes "keys_ok d" "us_id u = next_user d"
  shows "abs_roster (with_user d u) = (abs_roster d)\<lparr>folk := (folk (abs_roster d))(next_user d \<mapsto> enrolled_of u)\<rparr>"
  using fresh_user [OF assms(1)] assms(2)
  by (intro roster_eqI)
    (auto simp: fun_eq_iff with_user_def user_by_id_def team_by_id_def find_append split: option.split)

lemma abs_with_team:
  assumes "keys_ok d" "tm_id r = next_team d"
  shows "abs_roster (with_team d r) = (abs_roster d)\<lparr>crews := (crews (abs_roster d))(next_team d \<mapsto> crew_of r)\<rparr>"
  using fresh_team [OF assms(1)] assms(2)
  by (intro roster_eqI)
    (auto simp: fun_eq_iff with_team_def user_by_id_def team_by_id_def find_append split: option.split)

subsection \<open>The guards, read off the tables\<close>

lemma crewed_iff:
  "i \<in> crewed (abs_roster d) t \<longleftrightarrow> (\<exists>u. user_by_id d i = Some u \<and> us_team u = Some t)"
  by (auto simp: crewed_def)

lemma crewed_abs:
  assumes "keys_ok d"
  shows "crewed (abs_roster d) t = us_id ` set (members_of d t)"
proof (intro set_eqI iffI)
  fix i assume "i \<in> crewed (abs_roster d) t"
  then obtain u where "user_by_id d i = Some u" "us_team u = Some t" by (auto simp: crewed_iff)
  then show "i \<in> us_id ` set (members_of d t)"
    using by_id_key(1) by_id_in(1) by (intro image_eqI [of _ _ u]) (auto simp: members_of_def)
next
  fix i assume "i \<in> us_id ` set (members_of d t)"
  then show "i \<in> crewed (abs_roster d) t"
    using user_in [OF assms] by (auto simp: members_of_def crewed_iff)
qed

lemma card_crewed: "keys_ok d \<Longrightarrow> card (crewed (abs_roster d) t) = length (members_of d t)"
proof -
  assume k: "keys_ok d"
  then have "distinct (map us_id (members_of d t))"
    by (simp add: keys_ok_def members_of_def distinct_map_filter)
  then show ?thesis unfolding crewed_abs [OF k] by (metis distinct_card length_map set_map)
qed

lemma has_room_abs: "keys_ok d \<Longrightarrow> has_room (team_size_cap d) (abs_roster d) t \<longleftrightarrow> \<not> team_full d t"
  by (auto simp: has_room_def team_full_def cap_reached_def card_crewed split: option.split)

lemma some_image: "Some t \<in> f ` S \<longleftrightarrow> (\<exists>x\<in>S. f x = Some t)"
  by force

lemma has_scored_ledger: "has_scored (ledger d) t \<longleftrightarrow> has_solves d t"
  by (simp add: has_scored_def has_solves_def list_ex_iff some_image)

lemma has_played_ledger: "has_played (ledger d) t \<longleftrightarrow> has_history d t"
  by (simp add: has_played_def has_history_def has_solves_def list_ex_iff some_image disj_ac)

lemma in_charge_abs:
  assumes "keys_ok d"
  shows "in_charge (abs_roster d) i \<longleftrightarrow> (\<exists>u\<in>set (people d). us_id u = i \<and> usable_admin d u)"
proof -
  have "in_charge (abs_roster d) i \<longleftrightarrow> (\<exists>u. user_by_id d i = Some u \<and> usable_admin d u)"
    by (auto simp: in_charge_def usable_admin_iff option.map_comp o_def cong: option.case_cong)
  then show ?thesis using user_in [OF assms] by_id_key(1) by_id_in(1) by metis
qed

lemma other_in_charge:
  assumes "keys_ok d"
  shows "admin_count_other_admins d i \<noteq> 0 \<longleftrightarrow> (\<exists>j. j \<noteq> i \<and> in_charge (abs_roster d) j)"
  by (auto simp: admin_count_other_admins_def rows_where_0 in_charge_abs [OF assms])

lemma outside_in_charge:
  assumes "keys_ok d"
  shows "admin_count_admins_outside_team d t \<noteq> 0
    \<longleftrightarrow> (\<exists>j. j \<notin> crewed (abs_roster d) t \<and> in_charge (abs_roster d) j)"
proof -
  have "us_id u \<in> crewed (abs_roster d) t \<longleftrightarrow> us_team u = Some t" if "u \<in> set (people d)" for u
    using user_in [OF assms that refl] by (simp add: crewed_iff)
  then show ?thesis
    by (auto simp: admin_count_admins_outside_team_def rows_where_0 in_charge_abs [OF assms])
qed

text \<open>Two faces of \<open>get_up\<close> and \<open>sit_down\<close>.\<close>

lemma with_member_sel [simp]:
  "folk (with_member i f r) j = (if j = i then map_option f (folk r i) else folk r j)"
  "crews (with_member i f r) = crews r"
  "folk (with_crew t g r) = folk r"
  "crews (with_crew t g r) s = (if s = t then map_option g (crews r t) else crews r s)"
  by (simp_all add: with_member_def with_crew_def)

lemma crewed_upd [simp]:
  "crewed (r\<lparr>crews := cs\<rparr>) = crewed r" "crewed (with_crew s g r) = crewed r"
  "crewed (with_member i (en_team_update (\<lambda>_. None)) r) t = crewed r t - {i}"
  by (auto simp: crewed_def fun_eq_iff option.map_comp o_def split: if_splits)

lemma has_room_upd [simp]:
  "has_room cap (r\<lparr>crews := cs\<rparr>) t = has_room cap r t"
  "has_room cap (with_crew s g r) t = has_room cap r t"
  unfolding has_room_def crewed_upd by (rule refl)+

lemma foldl_min: "foldl min (i :: id) is = Min (set (i # is))"
  unfolding Min.set_eq_fold foldl_conv_fold by (simp add: min.commute)

lemma least_member_heir: "keys_ok d \<Longrightarrow> least_member d t = heir (crewed (abs_roster d) t)"
proof -
  assume "keys_ok d"
  then have "crewed (abs_roster d) t = set (map us_id (members_of d t))" by (simp add: crewed_abs)
  then show ?thesis
    unfolding least_member_def heir_def
    by (cases "map us_id (members_of d t)") (simp_all only: foldl_min list.case set_empty2 set_empty
      list.distinct if_True if_False simp_thms)
qed

lemma abs_detach:
  assumes "keys_ok d" "\<And>u. u \<in> set (people d) \<Longrightarrow> q u \<Longrightarrow> us_id u = i"
    "map_option q (user_by_id d i) = Some True"
  shows "abs_roster (reassign_captain_after_leave t i (map_users q unseat d)) = get_up i t (abs_roster d)"
proof -
  let ?d = "map_users q unseat d"
  have abs: "abs_roster ?d = with_member i (en_team_update (\<lambda>_. None)) (abs_roster d)"
    by (rule abs_unseat [OF assms(2,3)])
  have "least_member ?d t = heir (crewed (abs_roster d) t - {i})"
    using least_member_heir [OF keys_unseat [OF assms(1)], of q t] by (simp add: abs)
  then have "abs_roster (reassign_captain_after_leave t i ?d) = with_crew t
      (\<lambda>c. if cw_captain c = Some i then c\<lparr>cw_captain := heir (crewed (abs_roster d) t - {i})\<rparr> else c)
      (abs_roster ?d)"
    unfolding reassign_captain_after_leave_def
    by (intro abs_map_team) (auto dest: by_id_key)
  then show ?thesis by (simp add: abs get_up_def)
qed

lemma abs_enroll:
  assumes ok: "roster_ok d" and e: "enroll_user d t i = Inr (n, d1)" "n \<noteq> 0"
  shows "abs_roster (adopt_captainless_team i t d1) = sit_down i t (abs_roster d)"
    "map_option en_team (folk (abs_roster d) i) = Some None" "crews (abs_roster d) t \<noteq> None"
    "has_room (team_size_cap d) (abs_roster d) t"
proof -
  have keys: "keys_ok d" using ok by (simp add: roster_ok_def)
  obtain u where u: "u \<in> set (people d)" "us_id u = i" "us_team u = None"
    and d1: "d1 = update_user i (\<lambda>u. u\<lparr>us_team := Some t\<rparr>) d"
    and room: "\<not> team_full d t" and t: "team_by_id d t \<noteq> None"
    using enroll_userD [OF e] by metis
  show "map_option en_team (folk (abs_roster d) i) = Some None"
    using user_in [OF keys u(1,2)] u(3) by simp
  show "crews (abs_roster d) t \<noteq> None" using t by simp
  show "has_room (team_size_cap d) (abs_roster d) t" using has_room_abs [OF keys] room by simp
  have abs1: "abs_roster d1 = with_member i (en_team_update (\<lambda>_. Some t)) (abs_roster d)"
    unfolding d1 by (rule abs_update_user) simp_all
  have "length (members_of d1 t) = 1" if "r \<in> set (rosters d)" "tm_id r = t" "tm_captain r = None" for r
  proof -
    have "seat_ok d r" using ok that(1) by (simp add: roster_ok_def list_all_iff)
    from enroll_seats(3,4) [OF keys e that(1)] this that(2,3) show ?thesis
      by (auto simp: seat_ok_def members_of_def on_team_def list_ex_iff filter_empty_conv)
  qed
  moreover have "rosters d1 = rosters d" by (simp add: d1 update_user_def)
  ultimately have "abs_roster (adopt_captainless_team i t d1) = with_crew t
      (\<lambda>c. c\<lparr>cw_captain := (case cw_captain c of None \<Rightarrow> Some i | Some j \<Rightarrow> Some j)\<rparr>) (abs_roster d1)"
    unfolding adopt_captainless_team_def
    using by_id_key(2) [of d1 t] by_id_in(2) [of d1 t]
    by (intro abs_map_team) (auto split: option.split)
  then show "abs_roster (adopt_captainless_team i t d1) = sit_down i t (abs_roster d)"
    by (simp add: abs1 sit_down_def)
qed

subsection \<open>Every accepted request is its act\<close>

text \<open>The shape of each lemma: what an accepted request leaves, and that a refused one leaves nothing.\<close>

definition obeys :: "Mode \<Rightarrow> bool \<Rightarrow> act \<Rightarrow> directory \<Rightarrow> directory \<Rightarrow> bool" where
  "obeys mode ok a d d' \<longleftrightarrow>
    (if ok then roster_rule mode (ledger d) (team_size_cap d) a (abs_roster d) (abs_roster d')
     else abs_roster d' = abs_roster d)"

lemma obeys_simps [simp]:
  "obeys mode True a d d' \<longleftrightarrow> roster_rule mode (ledger d) (team_size_cap d) a (abs_roster d) (abs_roster d')"
  "obeys mode False a d d' \<longleftrightarrow> abs_roster d' = abs_roster d"
  by (simp_all add: obeys_def)

lemma obeys_nothing: "same_rosters d d' \<Longrightarrow> obeys mode True Nothing d d'"
  by (simp add: obeys_def abs_same roster_rule.nothing)

lemma register_obeys:
  assumes "keys_ok d"
  shows "obeys mode (is_ok (register_user env d now r n e p v c as)) Register d
    (snd (register env d now r n e p v c as))"
proof (cases "register_user env d now r n e p v c as")
  case (Inr x)
  obtain i h d1 where x: "x = ((i, h), d1)" by (metis prod.exhaust)
  obtain u where u: "us_id u = next_user d" "us_team u = None" "us_role u = ''user''" "\<not> us_banned u"
    "same_rosters (with_user d u) d1"
    using register_user_shape Inr x by blast
  have "same_rosters (with_user d u) (snd (register env d now r n e p v c as))"
    using u(5) Inr x by (auto simp: register_def frame mint_session_same split: sum.splits)
  note abs = abs_same [OF this] abs_with_user [OF assms u(1)]
  have "roster_rule mode (ledger d) (team_size_cap d) Register (abs_roster d)
      ((abs_roster d)\<lparr>folk := (folk (abs_roster d))(next_user d \<mapsto> enrolled_of u)\<rparr>)"
    using registered [of "abs_roster d" "next_user d"] fresh_user [OF assms] u(2-4)
    by (simp add: enrolled_of_def)
  then show ?thesis using Inr by (simp add: abs)
qed (simp add: register_def)

lemma create_admin_obeys:
  assumes "keys_ok d"
  shows "obeys mode (is_ok (fst (create_admin env d r n e p s))) Create_admin d
    (snd (create_admin env d r n e p s))"
proof (cases "fst (create_admin env d r n e p s)")
  case (Inl x)
  then show ?thesis by (auto simp: create_admin_def atomically_def split: sum.splits)
next
  case (Inr b)
  then obtain h i d1 m where ins: "create_admin_row env d n e (Some h) = Inr (i, d1)"
    and live: "go_live s d1 = Inr (m, snd (create_admin env d r n e p s))"
    by (auto simp: create_admin_def atomically_def bind_result_Inr_iff renamed_error
        split: sum.splits prod.splits)
  obtain u where u: "us_id u = next_user d" "us_team u = None" "us_role u = ''admin''" "\<not> us_banned u"
    "d1 = with_user d u"
    using ins insert_userD by (fastforce simp: create_admin_row_def)
  have "same_rosters (with_user d u) (snd (create_admin env d r n e p s))"
    using go_live_same [OF live, of d1] u(5) by simp
  note abs = abs_same [OF this] abs_with_user [OF assms u(1)]
  have "roster_rule mode (ledger d) (team_size_cap d) Create_admin (abs_roster d)
      ((abs_roster d)\<lparr>folk := (folk (abs_roster d))(next_user d \<mapsto> enrolled_of u)\<rparr>)"
    using admin_created [of "abs_roster d" "next_user d"] fresh_user [OF assms] u(2-4)
    by (simp add: enrolled_of_def)
  then show ?thesis using Inr by (simp add: abs)
qed

lemma promote_obeys:
  assumes "keys_ok d"
  shows "obeys mode (is_ok (fst (promote_to_admin env d e s))) (account_act env d (ReqPromote e s)) d
    (snd (promote_to_admin env d e s))"
proof (cases "fst (promote_to_admin env d e s)")
  case (Inl x)
  then show ?thesis
    by (auto simp: promote_to_admin_def atomically_def Let_def split: option.splits sum.splits prod.splits if_splits)
next
  case (Inr b)
  let ?mine = "\<lambda>u. lower_text env (us_email u) = lower_text env e"
  let ?who = "us_id ` {u \<in> set (people d). ?mine u}"
  let ?f = "\<lambda>u. u\<lparr>us_role := ''admin'', us_verified := True\<rparr>"
  obtain u where u: "get_user_by_email env d e = Some u"
    using Inr by (auto simp: promote_to_admin_def split: option.splits)
  obtain d1 m where d1: "us_role u = ''admin'' \<and> d1 = d \<or> d1 = map_users ?mine ?f d"
    and live: "go_live s d1 = Inr (m, snd (promote_to_admin env d e s))"
  proof (cases "us_role u = ''admin'' \<and> us_verified u")
    case True
    then show ?thesis using Inr u that [of d]
      by (auto simp: promote_to_admin_def atomically_def bind_result_Inr_iff split: sum.splits prod.splits)
  next
    case False
    then show ?thesis using Inr u that [of "map_users ?mine ?f d"]
      by (auto simp: promote_to_admin_def promote_to_admin_row_def atomically_def bind_result_Inr_iff Let_def
          split: sum.splits prod.splits if_splits)
  qed
  have in_d: "u \<in> set (people d)" "?mine u" using u by (auto simp: get_user_by_email_def dest: find_Some_in)
  then have who: "us_id u \<in> ?who" "user_by_id d (us_id u) = Some u"
    using user_in [OF assms] by auto
  have abs: "abs_roster (snd (promote_to_admin env d e s)) = abs_roster d1"
    by (rule abs_same) (use go_live_same [OF live, of d1] in simp)
  from d1 show ?thesis
  proof
    assume "us_role u = ''admin'' \<and> d1 = d"
    then show ?thesis using Inr who was_admin [of "us_id u" ?who "abs_roster d"] by (simp add: abs)
  next
    assume d1: "d1 = map_users ?mine ?f d"
    have mine: "i \<in> ?who \<longleftrightarrow> ?mine v" if "user_by_id d i = Some v" for i v
      using that user_in [OF assms] by_id_key(1) [OF that] by_id_in(1) [OF that]
      by auto (metis option.inject)
    have "folk (abs_roster d1) i = (if i \<in> ?who
        then map_option (en_role_update (\<lambda>_. ''admin'')) (folk (abs_roster d) i) else folk (abs_roster d) i)" for i
      unfolding d1 by (cases "user_by_id d i") (simp_all add: mine by_id_map_users)
    then have "abs_roster d1 = (abs_roster d)\<lparr>folk := (\<lambda>i. if i \<in> ?who
        then map_option (en_role_update (\<lambda>_. ''admin'')) (folk (abs_roster d) i) else folk (abs_roster d) i)\<rparr>"
      by (intro roster_eqI ext) (simp_all add: d1 del: abs_sel(1))
    moreover have "\<exists>i\<in>?who. folk (abs_roster d) i \<noteq> None" using who by (intro bexI [OF _ who(1)]) simp
    ultimately show ?thesis using Inr promoted [of ?who "abs_roster d"] by (simp add: abs)
  qed
qed

lemma account_obeys: "keys_ok d \<Longrightarrow>
  obeys mode (account_accepted env d req) (account_act env d req) d (run_account env req d)"
proof (cases "quiet req")
  case True
  then show ?thesis
    using obeys_nothing [OF quiet_same [OF True]] by (cases req) (simp_all del: obeys_simps)
next
  case False
  assume "keys_ok d"
  then show ?thesis using False promote_obeys
    by (cases req) (simp_all add: register_obeys create_admin_obeys)
qed

lemma create_team_obeys:
  assumes ok: "roster_ok d"
  shows "obeys mode (is_ok (create_team env d r i n p)) (Found i) d (after d (create_team env d r i n p))"
proof (cases "create_team env d r i n p")
  case (Inr d')
  have keys: "keys_ok d" using ok by (simp add: roster_ok_def)
  have "\<exists>h t d1. create_team_row d n h (Some i) = Inr (t, d1) \<and> enroll d1 t i = Inr d'"
    using Inr unfolding create_team_def bind_result_def
    by (auto split: sum.splits pg_error.splits prod.splits)
  then obtain h t d1 where row: "create_team_row d n h (Some i) = Inr (t, d1)"
    and e: "enroll d1 t i = Inr d'" by blast
  obtain x where x: "tm_id x = next_team d" "tm_captain x = Some i" "\<not> tm_banned x" "t = next_team d"
    "d1 = with_team d x"
    using create_team_rowD [OF row] by blast
  have keys1: "keys_ok d1" using new_team_keys [OF keys x(1)] by (simp add: x(5) with_team_def)
  obtain k where "enroll_user d1 t i = Inr (k, d')" "k \<noteq> 0" using enrollD [OF e] .
  then obtain u where u: "u \<in> set (people d1)" "us_id u = i" "us_team u = None"
    and d': "d' = update_user i (\<lambda>u. u\<lparr>us_team := Some t\<rparr>) d1" and room: "\<not> team_full d1 t"
    by (metis enroll_userD)
  note abs1 = abs_with_team [OF keys x(1), folded x(5)]
  have "map_option en_team (folk (abs_roster d1) i) = Some None"
    using user_in [OF keys1 u(1,2)] u(3) by simp
  then have "map_option en_team (folk (abs_roster d) i) = Some None"
    by (simp add: abs1 del: abs_sel)
  moreover have "has_room (team_size_cap d) (abs_roster d) t"
    using has_room_abs [OF keys1] room by (simp add: abs1) (simp add: x(5))
  moreover have "crews (abs_roster d) t = None" using fresh_team [OF keys] x(4) by simp
  moreover have "abs_roster d' = with_member i (en_team_update (\<lambda>_. Some t))
      ((abs_roster d)\<lparr>crews := (crews (abs_roster d))(t \<mapsto> \<lparr>cw_captain = Some i, cw_barred = False\<rparr>)\<rparr>)"
    unfolding d' abs1 [symmetric]
    using abs_update_user [of "\<lambda>u. u\<lparr>us_team := Some t\<rparr>" "en_team_update (\<lambda>_. Some t)" i d1] x(2-4)
    by (simp add: abs1 crew_of_def)
  ultimately show ?thesis using founded [of "abs_roster d" i t] Inr by (simp add: after_def del: abs_sel)
qed (simp add: after_def)

lemma join_team_obeys:
  assumes ok: "roster_ok d"
  shows "obeys mode (is_ok (fst (join_team env d r i n p))) (Join i) d (snd (join_team env d r i n p))"
proof (cases "join_open env d n p")
  case (Inr x)
  have keys: "keys_ok d" using ok by (simp add: roster_ok_def)
  obtain t rehash where x: "x = (t, rehash)" by (cases x)
  define d0 where "d0 = (if rehash then rehash_team_password env (dr_salt r) (tm_id t) p d else d)"
  have t: "t \<in> set (rosters d)" "\<not> tm_banned t"
    using Inr x by (auto simp: join_open_def get_team_for_join_def dest: find_Some_in
        split: option.splits if_splits prod.splits)
  have same: "same_rosters d d0" by (simp add: d0_def frame)
  show ?thesis
  proof (cases "join_enroll d0 (tm_id t) i")
    case (Inl e)
    then show ?thesis using Inr x abs_same [OF same] by (simp add: join_team_def d0_def [symmetric])
  next
    case (Inr d2)
    then obtain d1 where e: "enroll d0 (tm_id t) i = Inr d1" "d2 = adopt_captainless_team i (tm_id t) d1"
      by (auto simp: join_enroll_def bind_result_Inr_iff)
    obtain k where k: "enroll_user d0 (tm_id t) i = Inr (k, d1)" "k \<noteq> 0" using enrollD [OF e(1)] .
    have "roster_ok d0" using ok same_rosters_inv(1) [OF same] by simp
    note facts = abs_enroll [OF this k, unfolded abs_same [OF same]]
    have "map_option cw_barred (crews (abs_roster d) (tm_id t)) = Some False"
      using team_by_id_in [OF keys t(1)] t(2) by simp
    moreover have "has_room (team_size_cap d) (abs_roster d) (tm_id t)"
      using facts(4) same by (simp add: same_rosters_def)
    ultimately have "roster_rule mode (ledger d) (team_size_cap d) (Join i) (abs_roster d) (abs_roster d2)"
      using joined [OF facts(2)] facts(1) e(2) by metis
    then show ?thesis
      using Inr \<open>join_open env d n p = Inr x\<close> x by (simp add: join_team_def d0_def [symmetric] Let_def)
  qed
qed (simp add: join_team_def)

lemma leave_obeys:
  assumes "keys_ok d"
  shows "obeys mode (is_ok (leave_team d i)) (Leave i) d (after d (leave_team d i))"
proof (cases "leave_team d i")
  case (Inr d')
  then obtain u t where u: "user_by_id d i = Some u" "us_team u = Some t"
    by (auto simp: leave_team_def split: option.splits)
  let ?q = "\<lambda>u. us_id u = i \<and> eq_id (us_team u) (Some t)
      \<and> (case us_team u of None \<Rightarrow> True | Some t \<Rightarrow> \<not> has_solves d t)"
  have d': "d' = reassign_captain_after_leave t i (map_users ?q unseat d)" and some: "rows_where d ?q \<noteq> 0"
    using Inr u by (simp_all add: leave_team_def leave_team_row_def Let_def split: if_splits)
  obtain v where v: "v \<in> set (people d)" "?q v" using some by (auto simp: rows_where_0)
  have "v = u" using user_in [OF assms v(1)] v(2) u(1) by simp
  then have "\<not> has_solves d t" "?q u" using v(2) u(2) by auto
  then have "abs_roster d' = get_up i t (abs_roster d)" unfolding d'
    by (intro abs_detach [OF assms]) (simp_all add: u(1))
  then show ?thesis
    using left [of i "abs_roster d" t] \<open>\<not> has_solves d t\<close> u Inr
    by (simp add: after_def crewed_iff has_scored_ledger)
qed (simp add: after_def)

lemma kick_obeys:
  assumes "keys_ok d"
  shows "obeys mode (is_ok (kick_member d i j)) (Kick i j) d (after d (kick_member d i j))"
proof (cases "kick_member d i j")
  case (Inr d')
  let ?q = "\<lambda>m. us_id m = j \<and> us_id m \<noteq> i \<and> (case us_team m of None \<Rightarrow> False
      | Some t \<Rightarrow> list_ex (\<lambda>r. tm_id r = t \<and> tm_captain r = Some i) (rosters d) \<and> \<not> has_solves d t)"
  have d': "d' = map_users ?q unseat d" and some: "rows_where d ?q \<noteq> 0"
    using Inr by (simp_all add: kick_member_def kick_member_row_def Let_def split: if_splits)
  obtain v where v: "v \<in> set (people d)" "?q v" using some by (auto simp: rows_where_0)
  obtain t r where t: "us_team v = Some t" "r \<in> set (rosters d)" "tm_id r = t" "tm_captain r = Some i"
    "\<not> has_solves d t"
    using v(2) by (auto simp: list_ex_iff split: option.splits)
  have found: "user_by_id d j = Some v" "team_by_id d t = Some r"
    using user_in [OF assms v(1)] v(2) team_by_id_in [OF assms t(2)] t(3) by auto
  have "abs_roster d' = with_member j (en_team_update (\<lambda>_. None)) (abs_roster d)" unfolding d'
    by (rule abs_unseat) (use v(2) found(1) in auto)
  then show ?thesis
    using kicked [of "abs_roster d" t i j] t found v(2) Inr
    by (auto simp: after_def crewed_iff has_scored_ledger)
qed (simp add: after_def)

lemma transfer_obeys:
  assumes "keys_ok d"
  shows "obeys mode (is_ok (transfer_captaincy d i j)) (Hand_over i j) d (after d (transfer_captaincy d i j))"
proof (cases "transfer_captaincy d i j")
  case (Inr d')
  let ?q = "\<lambda>t. tm_captain t = Some i \<and> list_ex (\<lambda>m. us_id m = j \<and> us_team m = Some (tm_id t)) (people d)"
  have d': "d' = map_teams ?q (\<lambda>t. t\<lparr>tm_captain := Some j\<rparr>) d" and "filter ?q (rosters d) \<noteq> []"
    using Inr by (auto simp: transfer_captaincy_def transfer_captaincy_row_def Let_def split: if_splits)
  then obtain r v where r: "r \<in> set (rosters d)" "tm_captain r = Some i"
    and v: "v \<in> set (people d)" "us_id v = j" "us_team v = Some (tm_id r)"
    by (auto simp: filter_empty_conv list_ex_iff)
  have found: "user_by_id d j = Some v" "team_by_id d (tm_id r) = Some r"
    using user_in [OF assms v(1,2)] team_by_id_in [OF assms r(1)] by simp_all
  have "abs_roster d' = with_crew (tm_id r) (cw_captain_update (\<lambda>_. Some j)) (abs_roster d)" unfolding d'
  proof (rule abs_map_team)
    fix s assume "s \<in> set (rosters d)" "?q s"
    then obtain w where "w \<in> set (people d)" "us_id w = j" "us_team w = Some (tm_id s)"
      by (auto simp: list_ex_iff)
    then show "tm_id s = tm_id r" using user_in [OF assms, of w j] found(1) v(3) by simp
  qed (use found r v in \<open>auto simp: list_ex_iff\<close>)
  then show ?thesis
    using handed_over [of "abs_roster d" "tm_id r" i j] r found v(3) Inr
    by (simp add: after_def crewed_iff)
qed (simp add: after_def)

lemma abs_without_team:
  assumes "keys_ok d"
  shows "abs_roster (without_team d t) = dissolve t (abs_roster d)"
proof (rule roster_eqI)
  have rows: "user_by_id (without_team d t) i = user_by_id (map_users (\<lambda>u. us_team u = Some t) unseat d) i" for i
    by (simp add: without_team_def user_by_id_def)
  show "folk (abs_roster (without_team d t)) = folk (dissolve t (abs_roster d))"
    unfolding fun_eq_iff
  proof
    fix i show "folk (abs_roster (without_team d t)) i = folk (dissolve t (abs_roster d)) i"
      by (cases "user_by_id d i") (auto simp: dissolve_def rows by_id_map_users crewed_iff)
  qed
  have find: "find (\<lambda>r. tm_id r = s) (filter (\<lambda>r. tm_id r \<noteq> t) rs)
      = (if s = t then None else find (\<lambda>r. tm_id r = s) rs)" for s rs
    by (induction rs) auto
  show "crews (abs_roster (without_team d t)) = crews (dissolve t (abs_roster d))"
    by (auto simp: fun_eq_iff dissolve_def without_team_def team_by_id_def find)
qed

lemma disband_obeys:
  assumes "keys_ok d"
  shows "obeys mode (is_ok (disband_team d i)) (Disband i) d (after d (disband_team d i))"
proof (cases "disband_team d i")
  case (Inr d')
  then obtain u t r where u: "user_by_id d i = Some u" "us_team u = Some t"
    and r: "r \<in> set (rosters d)" "tm_id r = t" "tm_captain r = Some i"
    and h: "\<not> has_history d t" and d': "d' = without_team d t"
    by (auto simp: disband_team_def disband_team_row_def without_team_def list_ex_iff bind_eq_Some_conv
        split: sum.splits pg_error.splits prod.splits if_splits option.splits)
  then show ?thesis
    using disbanded [of "abs_roster d" t i] abs_without_team [OF assms] team_by_id_in [OF assms r(1)] Inr
    by (simp add: after_def crewed_iff has_played_ledger)
qed (simp add: after_def)

lemma team_obeys:
  "roster_ok d \<Longrightarrow> obeys mode (team_accepted env d req) (team_act req) d (run_team env req d)"
  by (cases req)
    (simp_all add: create_team_obeys join_team_obeys leave_obeys kick_obeys transfer_obeys disband_obeys
      roster_ok_def obeys_nothing set_join_secret_same update_own_team_same
      del: obeys_simps)

text \<open>The organizers.\<close>

lemma set_banned_obeys:
  assumes "keys_ok d"
  shows "obeys mode (is_ok (set_banned d a i b)) (Bar a i b) d (after d (set_banned d a i b))"
proof (cases "set_banned d a i b")
  case (Inr d')
  then obtain u where u: "user_by_id d i = Some u"
    by (auto simp: set_banned_def bind_result_Inr_iff admin_set_user_banned_def returning_user_def
        split: if_splits)
  have guard: "b \<longrightarrow> i \<noteq> a"
    "b \<and> us_role u = ''admin'' \<and> \<not> us_banned u \<longrightarrow> admin_count_other_admins d i \<noteq> 0"
    using Inr u by (auto simp: set_banned_def bind_result_Inr_iff split: if_splits)
  have "same_rosters (update_user i (\<lambda>u. u\<lparr>us_banned := b\<rparr>) d) d'"
    using Inr by (auto simp: set_banned_def bind_result_Inr_iff admin_set_user_banned_def
        returning_user_def delete_user_sessions_def delete_sessions_def frame split: if_splits)
  from abs_same [OF this] have "abs_roster d' = with_member i (en_barred_update (\<lambda>_. b)) (abs_roster d)"
    by (simp add: abs_update_user [where g = "en_barred_update (\<lambda>_. b)"])
  then show ?thesis
    using barred [of "abs_roster d" i "enrolled_of u" b a] u guard other_in_charge [OF assms, of i] Inr
    by (simp add: after_def)
qed (simp add: after_def)

lemma set_role_obeys:
  assumes "keys_ok d"
  shows "obeys mode (is_ok (set_role d i role)) (Give_role i role) d (after d (set_role d i role))"
proof (cases "set_role d i role")
  case (Inr d')
  then have "user_by_id d i \<noteq> None" "role \<in> {''user'', ''admin''}"
    "role \<noteq> ''admin'' \<longrightarrow> admin_count_other_admins d i \<noteq> 0"
    and d': "d' = update_user i (\<lambda>u. u\<lparr>us_role := role\<rparr>) d"
    by (auto simp: set_role_def admin_set_user_role_def returning_user_def found_def
        split: sum.splits if_splits option.splits)
  moreover have "abs_roster d' = with_member i (en_role_update (\<lambda>_. role)) (abs_roster d)"
    unfolding d' by (rule abs_update_user) simp_all
  ultimately show ?thesis
    using role_given [of "abs_roster d" i role] other_in_charge [OF assms, of i] Inr
    by (simp add: after_def)
qed (simp add: after_def)

lemma set_team_banned_obeys:
  assumes "keys_ok d"
  shows "obeys mode (is_ok (set_team_banned d a t b)) (Bar_team a t b) d (after d (set_team_banned d a t b))"
proof (cases "set_team_banned d a t b")
  case (Inr d')
  have same: "same_rosters (update_team t (\<lambda>r. r\<lparr>tm_banned := b\<rparr>) d) d'"
    using Inr by (auto simp: set_team_banned_def bind_result_Inr_iff admin_set_team_banned_def
        returning_team_def delete_team_sessions_def delete_sessions_def frame split: if_splits)
  have team: "team_by_id d t \<noteq> None"
    using Inr by (auto simp: set_team_banned_def bind_result_Inr_iff admin_set_team_banned_def
        returning_team_def split: if_splits)
  have guard: "b \<longrightarrow> (\<exists>u. user_by_id d a = Some u \<and> us_team u \<noteq> Some t)
      \<and> admin_count_admins_outside_team d t \<noteq> 0"
    using Inr by (auto simp: set_team_banned_def bind_result_Inr_iff split: option.splits if_splits)
  from abs_same [OF same] have "abs_roster d' = with_crew t (cw_barred_update (\<lambda>_. b)) (abs_roster d)"
    by (simp add: abs_update_team [where g = "cw_barred_update (\<lambda>_. b)"])
  then show ?thesis
    using team_barred [of "abs_roster d" t b a] team guard outside_in_charge [OF assms, of t] Inr
    by (auto simp: after_def crewed_iff)
qed (simp add: after_def)

lemma admin_create_team_obeys:
  assumes "keys_ok d"
  shows "obeys mode (is_ok (admin_create_team env d n)) Open_team d (after2 d (admin_create_team env d n))"
proof (cases "admin_create_team env d n")
  case (Inr x)
  have "\<exists>r. tm_id r = next_team d \<and> tm_captain r = None \<and> \<not> tm_banned r \<and> snd x = with_team d r"
    using Inr
    by (force simp: admin_create_team_def admin_create_team_row_def with_team_def split: if_splits)
  then obtain r where r: "tm_id r = next_team d" "tm_captain r = None" "\<not> tm_banned r" "snd x = with_team d r"
    by blast
  then show ?thesis
    using team_opened [of "abs_roster d" "next_team d"] fresh_team [OF assms] abs_with_team [OF assms r(1)] Inr
    by (cases x) (simp add: after2_def crew_of_def)
qed (simp add: after2_def)

lemma detach_obeys:
  assumes "keys_ok d" "detach_member d t i = Inr d'"
  shows "i \<in> crewed (abs_roster d) t" "abs_roster d' = get_up i t (abs_roster d)"
proof -
  let ?q = "\<lambda>u. us_id u = i \<and> us_team u = Some t"
  have "rows_where d ?q \<noteq> 0"
    using assms(2) by (auto simp: detach_member_def admin_detach_member_def Let_def split: if_splits)
  then obtain u where "u \<in> set (people d)" "?q u" by (auto simp: rows_where_0)
  then have u: "user_by_id d i = Some u" "us_team u = Some t" using user_in [OF assms(1)] by auto
  then show "i \<in> crewed (abs_roster d) t" by (simp add: crewed_iff)
  show "abs_roster d' = get_up i t (abs_roster d)"
    unfolding detach_memberD [OF assms(2)]
    by (rule abs_detach [OF assms(1)]) (use u by_id_key(1) [OF u(1)] in simp_all)
qed

lemma remove_member_obeys:
  assumes "keys_ok d"
  shows "obeys mode (is_ok (remove_team_member mode d t i)) (Take_off t i) d
    (after d (remove_team_member mode d t i))"
proof (cases "remove_team_member mode d t i")
  case (Inr d')
  then have "mode = ModeTeams" "detach_member d t i = Inr d'"
    by (auto simp: remove_team_member_def split: if_splits)
  then show ?thesis using detach_obeys [OF assms] taken_off Inr by (simp add: after_def)
qed (simp add: after_def)

lemma get_up_elsewhere:
  assumes "i \<in> crewed r s" "s \<noteq> t"
  shows "crewed (get_up i s r) t = crewed r t" "has_room cap (get_up i s r) t = has_room cap r t"
    "crews (get_up i s r) t = crews r t"
proof -
  have "i \<notin> crewed r t" using assms by (auto simp: crewed_def)
  then show "crewed (get_up i s r) t = crewed r t" by (simp add: get_up_def)
  then show "has_room cap (get_up i s r) t = has_room cap r t" unfolding has_room_def by (rule ssubst) (rule refl)
  show "crews (get_up i s r) t = crews r t" using assms(2) by (simp add: get_up_def)
qed

lemma move_member_obeys:
  assumes ok: "roster_ok d"
  shows "obeys mode (is_ok (move_team_member mode d s i t)) (Move s i t) d
    (after d (move_team_member mode d s i t))"
proof (cases "move_team_member mode d s i t")
  case (Inr d')
  have keys: "keys_ok d" using ok by (simp add: roster_ok_def)
  obtain d0 n d1 where g: "guard_admin_onto_banned_team d i t = Inr ()"
    and d0: "detach_member d s i = Inr d0" and e: "enroll_user d0 t i = Inr (n, d1)" "n \<noteq> 0"
    and d': "d' = adopt_captainless_team i t d1"
    by (rule move_memberD [OF Inr])
  have mode: "mode = ModeTeams" "s \<noteq> t" using Inr by (auto simp: move_team_member_def split: if_splits)
  note up = detach_obeys [OF keys d0]
  have "roster_ok d0" unfolding detach_memberD [OF d0] by (rule detach_ok [OF ok]) simp
  note down = abs_enroll [OF this e, unfolded up(2) get_up_elsewhere [OF up(1) mode(2)]]
  have "team_size_cap d0 = team_size_cap d" by (simp add: detach_memberD [OF d0])
  moreover have "map_option cw_barred (crews (abs_roster d) t) = Some True
      \<and> map_option (\<lambda>m. en_role m = ''admin'' \<and> \<not> en_barred m) (folk (abs_roster d) i) = Some True
      \<longrightarrow> (\<exists>j. j \<noteq> i \<and> in_charge (abs_roster d) j)"
    using move_guard [OF keys g] other_in_charge [OF keys, of i]
    by (auto simp: option.map_comp o_def dest: by_id_key by_id_in)
  ultimately show ?thesis
    using moved [OF mode(1) up(1) mode(2) down(3)] down(1,4) d' Inr by (simp add: after_def)
qed (simp add: after_def)

lemma organizer_obeys:
  "roster_ok d \<Longrightarrow> obeys mode (organizer_accepted env mode d req) (organizer_act req) d
    (run_organizer env mode req d)"
  by (cases req)
    (simp_all add: set_banned_obeys set_role_obeys set_team_banned_obeys admin_create_team_obeys
      remove_member_obeys move_member_obeys roster_ok_def obeys_nothing user_columns_same
      force_password_change_same team_columns_same del: obeys_simps)

lemma request_obeys:
  "roster_ok d \<Longrightarrow> obeys mode (accepted env mode d req) (act_of env d req) d (run_request env mode req d)"
  by (cases req)
    (simp_all add: accepted_def act_of_def run_request_def roster_ok_def account_obeys team_obeys organizer_obeys)

text \<open>
  C29: The requests refine the rules of the roster. After any history of requests the next one, if its
  operation succeeds, is exactly its act: the player who asked joins, leaves, kicks, hands over or
  disbands, the organizer bars, unbars, promotes, demotes or moves, under the guard the rule states
  (an unscored team, the captain's seat, room, another administrator left), and nobody else's seat,
  role or ban changes. If it is refused, or has nothing to do with rosters, the roster is as it was.
  No request touches the ledger of the game.
\<close>
theorem history_refines_roster:
  assumes "roster_ok d0" "d = foldl (\<lambda>d req. run_request env mode req d) d0 reqs"
  shows "(if accepted env mode d req
      then roster_rule mode (ledger d0) (team_size_cap d) (act_of env d req)
        (abs_roster d) (abs_roster (run_request env mode req d))
      else abs_roster (run_request env mode req d) = abs_roster d)
    \<and> ledger (run_request env mode req d) = ledger d0"
proof -
  have ledger: "roster_ok d \<Longrightarrow> ledger (foldl (\<lambda>d req. run_request env mode req d) d rs) = ledger d" for d rs
  proof (induction rs arbitrary: d)
    case (Cons r rs)
    have step: "roster_step d (run_request env mode r d)"
      using Cons.prems by (intro request_refines) (simp add: roster_ok_def)
    then show ?case using Cons.IH [OF step_roster_ok [OF step Cons.prems]] step_ledger [OF step] by simp
  qed simp
  have ok: "roster_ok d" using rosters.steps_ok [OF assms(1)] assms(2) by simp
  have "ledger d = ledger d0" using ledger [OF assms(1), of reqs] assms(2) by simp
  then show ?thesis
    using request_obeys [OF ok, of mode env req, unfolded obeys_def] ledger [OF ok, of "[req]"]
    by (auto split: if_splits)
qed

lemma history_refines_roster_witness:
  "\<exists>d. d = foldl (\<lambda>d req. run_request sample_env ModeTeams req d) sample_directory
      [OrganizerRequest (ReqSetRole 4 ''admin'')]
    \<and> roster_rule ModeTeams (ledger sample_directory) (team_size_cap d) (Take_off 1 2) (abs_roster d)
        (abs_roster (run_request sample_env ModeTeams (OrganizerRequest (ReqRemoveMember 1 2)) d))
    \<and> abs_roster (run_request sample_env ModeTeams (TeamRequest (ReqLeaveTeam 3)) d) = abs_roster d"
proof -
  let ?d = "foldl (\<lambda>d req. run_request sample_env ModeTeams req d) sample_directory
      [OrganizerRequest (ReqSetRole 4 ''admin'')]"
  note rule = history_refines_roster [OF sample_roster_ok refl, where env = sample_env and mode = ModeTeams
      and reqs = "[OrganizerRequest (ReqSetRole 4 ''admin'')]"]
  have d: "people ?d = map (\<lambda>u. if us_id u = 4 then u\<lparr>us_role := ''admin''\<rparr> else u) (people sample_directory)"
    "ledger ?d = ledger sample_directory"
    by (simp_all add: run_request_def after_def set_role_def admin_count_other_admins_def rows_where_def
        admin_set_user_role_def returning_user_def user_by_id_def found_def update_user_def map_users_def
        usable_admin_def sample_directory_defs)
  have accepts: "accepted sample_env ModeTeams d (OrganizerRequest (ReqRemoveMember 1 2))"
      "\<not> accepted sample_env ModeTeams d (TeamRequest (ReqLeaveTeam 3))"
    if "people d = people ?d" "ledger d = ledger ?d" for d
    using that unfolding d
    by (simp_all add: accepted_def remove_team_member_def detach_member_def admin_detach_member_def Let_def
        leave_team_def leave_team_row_def user_by_id_def rows_where_def has_solves_def split_def
        sample_directory_defs sample_solve_def)
  show ?thesis
    using accepts [OF refl refl] rule [of "OrganizerRequest (ReqRemoveMember 1 2)"] rule [of "TeamRequest (ReqLeaveTeam 3)"]
    by (intro exI [of _ ?d]) (simp add: act_of_def del: foldl_Cons abs_sel)
qed

end
