(* ===== verification/Spec2Isabelle.thy ===== *)
theory Spec2Isabelle
  imports Language_Tag Standings Freeze_Redact Input_Rules Game_Properties Pool_Properties
    Unlock_Properties Interleaving Identity_Properties Pool_Uploads Scoreboard_Properties
    Player_Http_Properties Manual_Awards Brackets Middleware_Properties Reaper
    Roster_Rules
begin

text \<open>
  Verification development of flagfish, a platform for capture-the-flag events written in Go over
  PostgreSQL. A request comes in over HTTP, is resolved to a principal (\<open>internal/accounts\<close>), passed
  or refused by one gate (\<open>internal/domain/policy\<close>), and served by a service whose state is the
  database: game play (\<open>internal/gameplay\<close>), accounts and teams (\<open>internal/accounts\<close>), and what
  organizers do (\<open>internal/adminops\<close>). Each service opens a transaction, runs the queries sqlc
  generated in \<open>internal/db\<close>, and commits or rolls back. The rules that need no database are packages
  of pure functions under \<open>internal/domain\<close>.

  How the code is modelled. A pure function is a HOL function of the same name in snake case. A table
  is a list of records, one per row, in insertion order; a query is a function on the record of tables
  it reads, and a violated constraint is the error that names it. A service operation returns a sum,
  \<open>Inl\<close> the error, \<open>Inr\<close> the result, with the tables after it; what runs in one transaction leaves them
  alone where it fails. \<open>int64\<close> arithmetic is on \<open>int\<close> with the wrap-around written out (\<open>i64\<close>, \<open>go_div\<close>)
  where it can overflow; strings are lists of bytes. The clock and the bytes drawn from
  \<open>crypto/rand\<close> are arguments of the operation that uses them, as are the regular expression engine
  of the standard library and Go's map iteration order; the key derivation functions of
  \<open>golang.org/x/crypto\<close> and the database's \<open>lower\<close> are fields of the record \<open>env\<close>.

  Shared vocabulary: \<open>Prelude\<close> (integers, results, lists), \<open>Go_Strings\<close> (the functions of \<open>strings\<close> and
  \<open>strconv\<close> the code calls), \<open>Json\<close> (parsed JSON documents), \<open>Sha256\<close> (\<open>crypto/sha256\<close>).

  The domain rules (\<open>src/internal/domain\<close>):
  \<open>Account\<close> is \<open>account/account.go\<close>: modes and the resolution of a membership to an account, which is
  complete (every case is an account or a named refusal).
  \<open>Language_Tag\<close> is \<open>account/language.go\<close>; the matcher decides the grammar of RFC 5646.
  \<open>Decay\<close> is \<open>scoring/decay.go\<close> with its twin in SQL (\<open>RecalcChallengeValue\<close>): both compute one curve,
  between floor and initial value, and the product it is made of can leave 64 bits.
  \<open>Standings\<close> is \<open>scoring/standings.go\<close>: the board is characterised and depends on no order of events
  or of map iteration.
  \<open>Flags\<close> is \<open>flags/flags.go\<close>, \<open>Prereq\<close> is \<open>prereq\<close> (the cycle search ends, by the number of unvisited
  nodes, and finds a cycle exactly when there is one; requirements survive encoding).
  \<open>Policy\<close>, \<open>Route_Class\<close> and \<open>Decide\<close> are \<open>policy/policy.go\<close>, \<open>routeclass.go\<close>, \<open>page.go\<close> and \<open>decide.go\<close>:
  the chain of gates equals an order-free specification of who may do what, and what it guarantees
  to score mutations and denies to banned callers is stated over it.
  \<open>Freeze_Redact\<close> is \<open>policy/freeze.go\<close> and \<open>redact.go\<close>; \<open>Input_Rules\<close> is \<open>geo\<close>, \<open>annotation\<close>, \<open>award\<close>,
  \<open>page\<close> and \<open>field\<close>.

  Game play (\<open>src/internal/gameplay\<close>): \<open>Store\<close> holds the tables of the game and the queries on them;
  \<open>Submit\<close>, \<open>Unlock\<close> and \<open>Issue\<close> are \<open>submit.go\<close>, \<open>unlock.go\<close> and \<open>issuer.go\<close>. \<open>Ledger\<close> defines a well-formed
  store and shows every operation keeps it; \<open>Game_Properties\<close>, \<open>Pool_Properties\<close> and
  \<open>Unlock_Properties\<close> state what submissions, the instance pool and unlocks guarantee, and
  \<open>Interleaving\<close> splits a submission at its transactions, runs any number of them concurrently and
  bounds the attempts that get through. \<open>Sample_Event\<close> is the event the witnesses run on.

  Accounts, teams and organizers: \<open>Credentials\<close> is \<open>accounts/password.go\<close> and \<open>credentials.go\<close>, down to
  the encoding of a stored hash and its scanning with \<open>fmt.Sscanf\<close>. \<open>Directory\<close> holds the tables of
  accounts, teams, sessions, tokens and codes with the queries of \<open>auth.sql\<close>, \<open>email_tokens.sql\<close>,
  \<open>fields.sql\<close> and \<open>teams.sql\<close>. \<open>Identity\<close> is the accounts service (\<open>login.go\<close>, \<open>register.go\<close>, \<open>tokens.go\<close>,
  \<open>emailflows.go\<close>, \<open>profile.go\<close>, \<open>profile_fields.go\<close>, \<open>admin.go\<close>) and the resolution of a request
  (\<open>authenticator.go\<close>); \<open>Teams\<close> is \<open>teams.go\<close>; \<open>Moderation\<close> is \<open>adminops/users.go\<close>, \<open>teams.go\<close> and
  \<open>team_roster.go\<close>. \<open>Rosters\<close> gathers their operations as one datatype of requests and shows which
  leave rosters and roles alone; \<open>Roster_Invariants\<close> follows the writes that do not; \<open>Roster_Steps\<close>
  lists the kinds of write that do, and every request is one; \<open>Roster_Properties\<close> draws
  the invariants over any history of requests from it, through the locale \<open>stepwise\<close>, and shows the
  one interleaving that breaks the last of them. \<open>Roster_Rules\<close> is the contract of the operations: an
  abstract roster of seats, roles and bans, a rule with its guard for each act, and the refinement of
  every request, accepted or refused, to its act. \<open>Mail_Codes\<close> shows a code is spent once, and
  \<open>Identity_Properties\<close> what login, registration and password changes guarantee together with the
  resolution of the next request and the gate. \<open>Sample_Directory\<close> is the directory of the witnesses.

  Challenge administration (\<open>src/internal/adminops\<close>): \<open>Authoring_Store\<close> holds the tables as their authors
  write them, every column and CHECK, with the queries of \<open>admin.sql\<close>; \<open>Authoring\<close> is \<open>challenges.go\<close>,
  \<open>requirements.go\<close>, \<open>instances.go\<close>, \<open>tags.go\<close> and \<open>annotations.go\<close>. \<open>game\<close> reads a store of game play off
  those tables and \<open>resume\<close> writes one back, so \<open>Authoring_Steps\<close> can run authors' operations and
  players' transactions in one history; \<open>Authoring_Invariants\<close> is what each keeps. From it
  \<open>Authoring_Properties\<close> shows that what authors publish can be played and the ledger never loses what
  it is about, with two ways an author can still break a challenge, and \<open>Pool_Uploads\<close> what uploads,
  prerequisites and tags do exactly, with the interleaving in which two uploads share a generation.

  The scoreboard: \<open>Scoreboard\<close> is \<open>internal/board\<close> with \<open>scoreboard.sql\<close>, \<open>score_history.sql\<close> and the
  handlers that clamp a request's \<open>as_of\<close> to the freeze. \<open>Scoreboard_Lemmas\<close> brings the three SQL
  boards to one shape, the domain's board of \<open>Standings\<close> joined to the accounts;
  \<open>Scoreboard_Properties\<close> shows that they are it, that the score is the balance game play spends, that
  no parameter lets a frozen viewer see later play, and what a score curve's points add up to.

  The challenge board: \<open>Catalog\<close> is \<open>internal/catalog\<close> with the queries of \<open>catalog.sql\<close>, on the
  tables of the authors and the ledger; \<open>Solve_List\<close> is its paged list of a challenge's solves, with
  the proof that following the cursor ends and covers the list. \<open>Catalog_Properties\<close> shows that the
  board locks and hides what the gate of game play locks and hides (two readings of one document, in
  SQL and in Go), \<open>Catalog_Freeze\<close> that a frozen viewer's board does not move with others' play.

  The players' requests: \<open>Player_Http\<close> is the gate of \<open>httpapi/router.go\<close> and the handlers of
  \<open>handlers_challenges.go\<close> and \<open>handlers_submit.go\<close> on a decoded request, \<open>Keyset_Cursor\<close> the token
  of a paged list (\<open>cursor.go\<close>). \<open>Player_Http_Properties\<close> composes gate, handler and service: what
  changed the tables passed the gate and is the caller's own, a page draws one instance, and the
  solve list can be read to its end through the tokens.

  Further organizers' operations: \<open>Manual_Awards\<close> (\<open>adminops/awards.go\<close>) and \<open>Brackets\<close>
  (\<open>adminops/brackets.go\<close>), with their queries and what they leave of the board.

  The chain in front of the handlers (\<open>httpapi/middleware.go\<close>): \<open>Client_Address\<close> is what runs before
  anybody knows who calls (request id, client address, hardening headers, bound on the body) with the
  address syntax of \<open>net\<close> and \<open>netip\<close>; \<open>Rate_Limits\<close> the limiter of \<open>accounts/limiter.go\<close> over its
  table, the keys, the credential budgets and the reaper (\<open>jobs/reap.go\<close>); \<open>Middleware\<close> composes
  authentication, ban wall, check of forged writes and rate limit. \<open>Rate_Lemmas\<close> states what a limiter
  promises, \<open>Middleware_Properties\<close> what reaches a handler, that budgets hold for overlapping attempts
  too (up to a refund that strays into another window, which is counted), and when a client can choose its recorded address; \<open>Reaper\<close> that a sweep is invisible.

  Interfaces are locales: \<open>budget\<close> (a limiter, interpreted on the rows of its table in
  \<open>Rate_Lemmas\<close>), \<open>stepwise\<close> (a state, requests on it, an invariant a request keeps), the
  transactions of game play (\<open>Ledger\<close>), the issuer of instances (\<open>Pool_Properties\<close>), the chain of gates
  (\<open>Decide\<close>), the cleaning of inputs (\<open>Input_Rules\<close>); each is interpreted on the model of the code that
  provides it.

  Not modelled, and why: the rest of \<open>internal/httpapi\<close> (decoding and rendering around the
  gate and the services, over a third-party router; logging, deadlines and recovery from panics); the queries that only read for a page
  (\<open>stats\<close>, \<open>anticheat\<close>, the paged lists of \<open>adminops\<close>); archives
  (\<open>internal/platform\<close>), files, mail, storage, web assets and migrations, which are input and output;
  the other background jobs, whose scheduler is third-party; creation times and the audit log in
  the tables that are modelled.
\<close>

end
